(* ===== verification/Prelude.thy ===== *)
theory Prelude
  imports Main "HOL-Library.Sublist" "HOL-Library.List_Lexorder" "HOL-Library.Char_ord"
begin

text \<open>
  What every component shares: the Go standard-library operations on strings the source
  uses (\<open>strings.TrimSpace\<close>, \<open>Fields\<close>, \<open>Split\<close>, \<open>Cut\<close>, \<open>strconv.Itoa\<close>, \<open>sort.Strings\<close>),
  with the facts the components need about them. A Go string is a byte string: an element
  of \<open>char list\<close>, whose \<open>char\<close>s are the 256 bytes. White space and case folding are the
  ASCII ones: the Unicode white space and letters above 0x7f, which the configuration
  files and kernel files read here do not hold, are outside the model.
  The \<open>go_simps\<close> collection holds the rewriting facts about these operations.
\<close>

named_theorems go_simps

type_synonym bytes = string

section \<open>Characters\<close>

definition is_digit :: "char \<Rightarrow> bool" where
  "is_digit c \<longleftrightarrow> CHR ''0'' \<le> c \<and> c \<le> CHR ''9''"

definition is_lower :: "char \<Rightarrow> bool" where
  "is_lower c \<longleftrightarrow> CHR ''a'' \<le> c \<and> c \<le> CHR ''z''"

definition is_upper :: "char \<Rightarrow> bool" where
  "is_upper c \<longleftrightarrow> CHR ''A'' \<le> c \<and> c \<le> CHR ''Z''"

definition is_word_char :: "char \<Rightarrow> bool" where
  "is_word_char c \<longleftrightarrow> is_lower c \<or> is_upper c \<or> is_digit c \<or> c = CHR ''_''"

definition is_space :: "char \<Rightarrow> bool" where
  "is_space c \<longleftrightarrow> c \<in> {CHR '' '', CHR 0x09, CHR 0x0A, CHR 0x0B, CHR 0x0C, CHR 0x0D}"

definition lower_char :: "char \<Rightarrow> char" where
  "lower_char c = (if is_upper c then char_of (of_char c + 32 :: nat) else c)"

definition to_lower :: "string \<Rightarrow> string" where
  "to_lower s = map lower_char s"

section \<open>Trimming\<close>

definition trim_left :: "(char \<Rightarrow> bool) \<Rightarrow> string \<Rightarrow> string" where
  "trim_left p s = dropWhile p s"

definition trim_right :: "(char \<Rightarrow> bool) \<Rightarrow> string \<Rightarrow> string" where
  "trim_right p s = rev (dropWhile p (rev s))"

definition trim :: "(char \<Rightarrow> bool) \<Rightarrow> string \<Rightarrow> string" where
  "trim p s = trim_right p (trim_left p s)"

definition trim_space :: "string \<Rightarrow> string" where
  "trim_space s = trim is_space s"

lemma set_trim_right: "set (trim_right p s) \<subseteq> set s"
  by (auto simp: trim_right_def dest: set_dropWhileD)

lemma set_trim: "set (trim p s) \<subseteq> set s"
  using set_trim_right[of p "trim_left p s"]
  by (auto simp: trim_def trim_left_def dest: set_dropWhileD)

lemma trim_right_id [go_simps]: "s = [] \<or> \<not> p (last s) \<Longrightarrow> trim_right p s = s"
  by (cases s rule: rev_cases) (auto simp: trim_right_def)

lemma trim_id: "s = [] \<or> \<not> p (hd s) \<and> \<not> p (last s) \<Longrightarrow> trim p s = s"
  by (cases s) (auto simp: trim_def trim_left_def intro!: trim_right_id)

lemma trim_Nil [simp]: "trim p [] = []"
  by (simp add: trim_def trim_left_def trim_right_def)

lemma trim_eq_Nil: "trim p s = [] \<longleftrightarrow> (\<forall>c \<in> set s. p c)"
proof -
  have "trim p s = [] \<longleftrightarrow> (\<forall>c \<in> set (dropWhile p s). p c)"
    by (simp add: trim_def trim_left_def trim_right_def dropWhile_eq_Nil_conv)
  also have "\<dots> \<longleftrightarrow> dropWhile p s = []"
  proof
    assume all: "\<forall>c \<in> set (dropWhile p s). p c"
    then show "dropWhile p s = []"
      using hd_dropWhile[of p s] hd_in_set[of "dropWhile p s"] by blast
  next
    assume "dropWhile p s = []"
    then show "\<forall>c \<in> set (dropWhile p s). p c" by (simp only:) simp
  qed
  also have "\<dots> \<longleftrightarrow> (\<forall>c \<in> set s. p c)"
    by (simp add: dropWhile_eq_Nil_conv)
  finally show ?thesis .
qed

section \<open>Prefixes, cutting and splitting\<close>

definition cut_prefix :: "string \<Rightarrow> string \<Rightarrow> string option" where
  "cut_prefix p s = (if prefix p s then Some (drop (length p) s) else None)"

lemma cut_prefix_Some [go_simps]: "cut_prefix p s = Some r \<longleftrightarrow> s = p @ r"
  by (auto simp: cut_prefix_def prefix_def)

lemma cut_prefix_append [simp]: "cut_prefix p (p @ r) = Some r"
  by (simp add: cut_prefix_Some)

text \<open>\<open>strings.Cut\<close> at a one-byte separator: before, after, found.\<close>

definition cut_at :: "char \<Rightarrow> string \<Rightarrow> string \<times> string \<times> bool" where
  "cut_at c s = (takeWhile (\<lambda>x. x \<noteq> c) s, tl (dropWhile (\<lambda>x. x \<noteq> c) s), c \<in> set s)"

lemma cut_at_found: "c \<notin> set a \<Longrightarrow> cut_at c (a @ c # b) = (a, b, True)"
  by (induction a) (auto simp: cut_at_def)

lemma cut_at_absent: "c \<notin> set s \<Longrightarrow> cut_at c s = (s, [], False)"
  by (induction s) (auto simp: cut_at_def)

text \<open>\<open>strings.Split\<close> at a one-byte separator.\<close>

fun split_at :: "char \<Rightarrow> string \<Rightarrow> string list" where
  "split_at c [] = [[]]"
| "split_at c (x # xs) =
     (if x = c then [] # split_at c xs
      else (case split_at c xs of [] \<Rightarrow> [[x]] | p # ps \<Rightarrow> (x # p) # ps))"

fun join :: "string \<Rightarrow> string list \<Rightarrow> string" where
  "join sep [] = []"
| "join sep [x] = x"
| "join sep (x # y # ys) = x @ sep @ join sep (y # ys)"

lemma split_at_nonempty [simp]: "split_at c s \<noteq> []"
  by (induction s) (auto split: list.splits)

lemma split_at_pieces: "p \<in> set (split_at c s) \<Longrightarrow> c \<notin> set p"
  by (induction s arbitrary: p) (auto split: if_splits list.splits)

lemma split_at_subset: "p \<in> set (split_at c s) \<Longrightarrow> set p \<subseteq> set s"
proof (induction s arbitrary: p)
  case (Cons x xs)
  then show ?case by (fastforce split: if_splits list.splits)
qed simp

lemma join_split_at: "join [c] (split_at c s) = s"
proof (induction s)
  case Nil
  then show ?case by simp
next
  case (Cons x xs)
  obtain p ps where s: "split_at c xs = p # ps"
    by (cases "split_at c xs") auto
  with Cons show ?case by (cases ps) auto
qed

lemma split_at_no_sep: "c \<notin> set p \<Longrightarrow> split_at c p = [p]"
  by (induction p) auto

lemma split_at_append_sep:
  "c \<notin> set p \<Longrightarrow> split_at c (p @ c # rest) = p # split_at c rest"
  by (induction p) auto

lemma split_at_join:
  "ls \<noteq> [] \<Longrightarrow> \<forall>l \<in> set ls. c \<notin> set l \<Longrightarrow> split_at c (join [c] ls) = ls"
  by (induction "[c]" ls rule: join.induct) (auto simp: split_at_no_sep split_at_append_sep)

text \<open>\<open>strings.Fields\<close>: the maximal runs of non-space bytes.\<close>

function go_fields :: "string \<Rightarrow> string list" where
  "go_fields s =
     (case dropWhile is_space s of
        [] \<Rightarrow> []
      | c # cs \<Rightarrow> (c # takeWhile (\<lambda>x. \<not> is_space x) cs)
                  # go_fields (dropWhile (\<lambda>x. \<not> is_space x) cs))"
  by pat_completeness auto
termination
proof (relation "measure length", simp)
  fix s c cs
  assume "dropWhile is_space s = c # cs"
  then have "length (c # cs) \<le> length s"
    by (metis length_dropWhile_le)
  moreover have "length (dropWhile (\<lambda>x. \<not> is_space x) cs) \<le> length cs"
    by (rule length_dropWhile_le)
  ultimately show "(dropWhile (\<lambda>x. \<not> is_space x) cs, s) \<in> measure length"
    by simp
qed

declare go_fields.simps [simp del]

section \<open>Decimal numbers\<close>

definition digit_char :: "nat \<Rightarrow> char" where
  "digit_char d = char_of (48 + d)"

definition digit_val :: "char \<Rightarrow> nat" where
  "digit_val c = of_char c - 48"

fun itoa :: "nat \<Rightarrow> string" where
  "itoa n = (if n < 10 then [digit_char n] else itoa (n div 10) @ [digit_char (n mod 10)])"

declare itoa.simps [simp del]

definition itoa_int :: "int \<Rightarrow> string" where
  "itoa_int i = (if i < 0 then CHR ''-'' # itoa (nat (- i)) else itoa (nat i))"

definition decimal_value :: "string \<Rightarrow> nat" where
  "decimal_value s = foldl (\<lambda>a c. 10 * a + digit_val c) 0 s"

lemma of_char_digit_char: "d < 10 \<Longrightarrow> (of_char (digit_char d) :: nat) = 48 + d"
  by (simp add: digit_char_def)

lemma is_digit_iff: "is_digit c \<longleftrightarrow> 48 \<le> (of_char c :: nat) \<and> (of_char c :: nat) \<le> 57"
  by (simp add: is_digit_def less_eq_char_def)

lemma digit_char_props [simp]:
  assumes "d < 10"
  shows "is_digit (digit_char d)" "digit_val (digit_char d) = d"
  using assms by (simp_all add: is_digit_iff digit_val_def of_char_digit_char)

lemma itoa_digits: "c \<in> set (itoa n) \<Longrightarrow> is_digit c"
proof (induction n rule: itoa.induct)
  case (1 n)
  then show ?case
    by (subst (asm) itoa.simps) (auto split: if_splits)
qed

lemma itoa_nonempty [simp]: "itoa n \<noteq> []"
  by (subst itoa.simps) simp

lemma decimal_value_itoa: "decimal_value (itoa n) = n"
proof (induction n rule: itoa.induct)
  case (1 n)
  show ?case
  proof (cases "n < 10")
    case True
    then show ?thesis by (subst itoa.simps) (simp add: decimal_value_def)
  next
    case False
    with 1 have "decimal_value (itoa (n div 10)) = n div 10" by simp
    with False show ?thesis by (subst itoa.simps) (simp add: decimal_value_def)
  qed
qed

lemma itoa_inject [simp]: "itoa m = itoa n \<longleftrightarrow> m = n"
  by (metis decimal_value_itoa)

lemma itoa_int_inject [simp]: "0 \<le> i \<Longrightarrow> 0 \<le> j \<Longrightarrow> itoa_int i = itoa_int j \<longleftrightarrow> i = j"
  by (simp add: itoa_int_def eq_nat_nat_iff)

lemma itoa_int_digits: "0 \<le> i \<Longrightarrow> c \<in> set (itoa_int i) \<Longrightarrow> is_digit c"
  by (auto simp: itoa_int_def intro: itoa_digits)

lemma itoa_int_nonempty [simp]: "itoa_int i \<noteq> []"
  by (simp add: itoa_int_def)

definition all_digits :: "string \<Rightarrow> bool" where
  "all_digits s \<longleftrightarrow> s \<noteq> [] \<and> trim is_digit s = []"

lemma all_digits_iff: "all_digits s \<longleftrightarrow> s \<noteq> [] \<and> list_all is_digit s"
  by (simp add: all_digits_def trim_eq_Nil list_all_iff)

lemma all_digits_itoa_int [simp]: "0 \<le> i \<Longrightarrow> all_digits (itoa_int i)"
  by (auto simp: all_digits_iff list_all_iff intro: itoa_int_digits)

text \<open>
  \<open>strconv.Atoi\<close>: an optional sign and decimal digits, within the range of the platform's
  \<open>int\<close> (\<open>w\<close> bits: 32 or 64).
\<close>

definition atoi :: "nat \<Rightarrow> string \<Rightarrow> int option" where
  "atoi w s =
     (let (neg, ds) = (case s of [] \<Rightarrow> (False, [])
                       | c # cs \<Rightarrow> if c = CHR ''-'' then (True, cs)
                                   else if c = CHR ''+'' then (False, cs) else (False, s));
          n = int (decimal_value ds);
          v = (if neg then - n else n)
      in if ds \<noteq> [] \<and> list_all is_digit ds \<and> - (2 ^ (w - 1)) \<le> v \<and> v < 2 ^ (w - 1)
         then Some v else None)"

lemma itoa_head_digit: "itoa n = c # cs \<Longrightarrow> is_digit c"
  using itoa_digits[of c n] by simp

lemma atoi_itoa: "n < 2 ^ (w - 1) \<Longrightarrow> atoi w (itoa n) = Some (int n)"
proof -
  assume n: "n < 2 ^ (w - 1)"
  obtain c cs where i: "itoa n = c # cs"
    by (cases "itoa n") auto
  then have "is_digit c" by (rule itoa_head_digit)
  then have "c \<noteq> CHR ''-''" "c \<noteq> CHR ''+''" by (auto simp: is_digit_def less_eq_char_def)
  moreover have "list_all is_digit (itoa n)"
    by (auto simp: list_all_iff intro: itoa_digits)
  moreover have "int n < 2 ^ (w - 1)" using n by (metis of_nat_less_iff of_nat_numeral of_nat_power)
  moreover have "- (2 ^ (w - 1)) \<le> int n"
    by (smt (verit) of_nat_0_le_iff zero_le_power)
  ultimately show ?thesis
    using i by (simp add: atoi_def Let_def decimal_value_itoa[of n, unfolded i])
qed

section \<open>Lists and association lists\<close>

text \<open>A loop over a list keeps what each round keeps.\<close>

lemma fold_keeps:
  "I s \<Longrightarrow> (\<And>x s. x \<in> set xs \<Longrightarrow> I s \<Longrightarrow> I (f x s)) \<Longrightarrow> I (fold f xs s)"
  by (induction xs arbitrary: s) auto

text \<open>What a round establishes for its element, and no round undoes, holds for all at the end.\<close>

lemma fold_establishes:
  assumes "x \<in> set xs" and "\<And>s. Q (f x s)" and "\<And>y s. y \<in> set xs \<Longrightarrow> Q s \<Longrightarrow> Q (f y s)"
  shows "Q (fold f xs s)"
proof -
  obtain ys zs where xs: "xs = ys @ x # zs" using assms(1) by (meson split_list)
  have "Q (fold f zs (f x (fold f ys s)))"
    by (rule fold_keeps[where I = Q, OF assms(2)]) (use assms(3) xs in auto)
  then show ?thesis by (simp add: xs)
qed

definition sort_strings :: "string list \<Rightarrow> string list" where
  "sort_strings xs = sort xs"

lemma set_sort_strings [simp]: "set (sort_strings xs) = set xs"
  by (simp add: sort_strings_def)

lemma sort_strings_empty [simp]: "sort_strings xs = [] \<longleftrightarrow> xs = []" "sort_strings [] = []"
  by (metis set_empty set_sort_strings) (simp add: sort_strings_def)

text \<open>A Go map read with the zero value for a missing key.\<close>

definition lookup_default :: "'v \<Rightarrow> ('k \<times> 'v) list \<Rightarrow> 'k \<Rightarrow> 'v" where
  "lookup_default d m k = (case map_of m k of Some v \<Rightarrow> v | None \<Rightarrow> d)"

text \<open>Assignment to a Go map, kept as an association list with one entry per key.\<close>

definition put :: "'k \<Rightarrow> 'v \<Rightarrow> ('k \<times> 'v) list \<Rightarrow> ('k \<times> 'v) list" where
  "put k v m = (k, v) # filter (\<lambda>p. fst p \<noteq> k) m"

lemma map_of_filter_other:
  "k \<noteq> a \<Longrightarrow> map_of (filter (\<lambda>p. fst p \<noteq> a) ps) k = map_of ps k"
  by (induction ps) auto

lemma map_of_put [simp]: "map_of (put a v m) k = (if k = a then Some v else map_of m k)"
  by (simp add: put_def map_of_filter_other)

lemma keys_put [simp]: "fst ` set (put a v m) = insert a (fst ` set m)"
  by (auto simp: put_def)

lemma distinct_put: "distinct (map fst m) \<Longrightarrow> distinct (map fst (put a v m))"
  by (auto simp: put_def distinct_map_filter)

text \<open>The position of the first element that satisfies a test.\<close>

fun find_index :: "('a \<Rightarrow> bool) \<Rightarrow> 'a list \<Rightarrow> nat option" where
  "find_index p [] = None"
| "find_index p (x # xs) = (if p x then Some 0 else map_option Suc (find_index p xs))"

lemma find_index_Some:
  "find_index p xs = Some i \<Longrightarrow> i < length xs \<and> p (xs ! i) \<and> (\<forall>j < i. \<not> p (xs ! j))"
proof (induction xs arbitrary: i)
  case (Cons x xs)
  then show ?case
    by (auto split: if_splits simp: less_Suc_eq_0_disj nth_Cons')
qed simp

lemma find_index_None: "find_index p xs = None \<longleftrightarrow> (\<forall>x \<in> set xs. \<not> p x)"
  by (induction xs) auto

lemma find_index_append:
  "find_index p (xs @ ys) =
     (case find_index p xs of Some i \<Rightarrow> Some i
      | None \<Rightarrow> map_option (\<lambda>i. length xs + i) (find_index p ys))"
proof (induction xs)
  case Nil
  then show ?case by (cases "find_index p ys") auto
next
  case (Cons x xs)
  then show ?case by (cases "find_index p xs"; cases "find_index p ys") auto
qed

end
