(* ===== verification/Uci.thy ===== *)
theory Uci
  imports Prelude
begin

text \<open>
  The daemon's own UCI reader and editor, \<open>internal/uci/uci.go\<close>: the tokenizer, \<open>Parse\<close>,
  the lookups, \<open>EnsureSection\<close>, \<open>Set\<close>, \<open>Delete\<close>, \<open>Bytes\<close> and \<open>Quote\<close>. A file is its list
  of lines, each with the raw text and what the parser made of it, and its list of
  sections, as in the code. The file-system part (\<open>Load\<close>, \<open>WriteFile\<close>) is in \<open>Config\<close>.

  The lemmas show the quoting round trip, that \<open>Parse\<close> and \<open>Bytes\<close> keep every line, that
  \<open>Set\<close> changes one line, that a value that was set is read back, also after the file
  was rendered and parsed again, and when it is not: a value that holds a line feed.
  \<open>option_store\<close> is the interface \<open>Config\<close> uses, interpreted here on the operations.
\<close>

section \<open>Data\<close>

datatype line_kind = KOther | KSection | KOption | KList

record line =
  raw :: string
  kind :: line_kind
  lsection :: int  \<comment> \<open>index into the sections, -1 before the first one\<close>
  key :: string
  lvalue :: string

record section_hdr =
  sec_typ :: string
  sec_name :: string

record uci_file =
  lines :: "line list"
  sections :: "section_hdr list"

definition empty_file :: uci_file where
  "empty_file = \<lparr>lines = [], sections = []\<rparr>"

datatype uci_error =
    InvalidOptionName string
  | NoSection string
  | SlicePanic  \<comment> \<open>\<open>f.lines[:insertAt]\<close> with \<open>insertAt = -1\<close>\<close>

section \<open>The tokenizer\<close>

text \<open>The inside of a double-quoted piece: its text and what follows, \<open>None\<close> when it
  does not end.\<close>

fun scan_double :: "string \<Rightarrow> (string \<times> string) option" where
  "scan_double [] = None"
| "scan_double (c # cs) =
     (if c = CHR 0x5C \<and> cs \<noteq> []
      then map_option (\<lambda>(q, r). (hd cs # q, r)) (scan_double (tl cs))
      else if c = CHR 0x22 then Some ([], cs)
      else map_option (\<lambda>(q, r). (c # q, r)) (scan_double cs))"

lemma scan_double_shorter: "scan_double s = Some (q, r) \<Longrightarrow> length r < length s"
proof (induction s arbitrary: q rule: scan_double.induct)
  case (2 c cs)
  show ?case
  proof (cases "c = CHR 0x5C \<and> cs \<noteq> []")
    case True
    with 2 show ?thesis by (cases cs) fastforce+
  next
    case False
    with 2 show ?thesis by (fastforce split: if_splits)
  qed
qed simp

function tokens :: "string \<Rightarrow> string \<Rightarrow> bool \<Rightarrow> string list \<Rightarrow> string list option" where
  "tokens [] cur in_word words = Some (if in_word then words @ [cur] else words)"
| "tokens (c # cs) cur in_word words =
     (if c = CHR ''#'' \<and> \<not> in_word then Some words
      else if c = CHR '' '' \<or> c = CHR 0x09 then
        (if in_word then tokens cs [] False (words @ [cur]) else tokens cs cur in_word words)
      else if c = CHR 0x27 then
        (if CHR 0x27 \<in> set cs
         then tokens (tl (dropWhile (\<lambda>x. x \<noteq> CHR 0x27) cs))
                (cur @ takeWhile (\<lambda>x. x \<noteq> CHR 0x27) cs) True words
         else None)
      else if c = CHR 0x22 then
        (case scan_double cs of None \<Rightarrow> None
         | Some (q, rest) \<Rightarrow> tokens rest (cur @ q) True words)
      else if c = CHR 0x5C \<and> cs \<noteq> [] then tokens (tl cs) (cur @ [hd cs]) True words
      else tokens cs (cur @ [c]) True words)"
  by pat_completeness auto
termination
proof (relation "measure (\<lambda>(s, _). length s)", simp_all)
  fix cs :: string
  show "length (dropWhile (\<lambda>x. x \<noteq> CHR 0x27) cs) - Suc 0 < Suc (length cs)"
    using length_dropWhile_le[of "\<lambda>x. x \<noteq> CHR 0x27" cs] by linarith
next
  fix c cs x and q rest :: string
  assume "scan_double cs = Some x" "(q, rest) = x"
  then show "length rest < Suc (length cs)"
    using scan_double_shorter[of cs q rest] by simp
qed

definition tokenize :: "string \<Rightarrow> string list option" where
  "tokenize s = tokens s [] False []"

section \<open>Quoting\<close>

definition quote_char :: "char \<Rightarrow> string" where
  "quote_char c = (if c = CHR 0x27 then [CHR 0x27, CHR 0x5C, CHR 0x27, CHR 0x27] else [c])"

lemma quote_char_simps [go_simps]:
  "c \<noteq> CHR 0x27 \<Longrightarrow> quote_char c = [c]"
  "quote_char (CHR 0x27) = [CHR 0x27, CHR 0x5C, CHR 0x27, CHR 0x27]"
  by (simp_all add: quote_char_def)

definition quote :: "string \<Rightarrow> string" where
  "quote v = CHR 0x27 # concat (map quote_char v) @ [CHR 0x27]"

definition valid_name :: "string \<Rightarrow> bool" where
  "valid_name s \<longleftrightarrow> s \<noteq> [] \<and> list_all is_word_char s"

text \<open>Inside a word, a quoted value and what follows: the value joins the word.\<close>

lemma tokens_single_quoted:
  "CHR 0x27 \<notin> set p \<Longrightarrow>
   tokens (CHR 0x27 # p @ CHR 0x27 # rest) cur w ws = tokens rest (cur @ p) True ws"
proof -
  assume p: "CHR 0x27 \<notin> set p"
  then have "takeWhile (\<lambda>x. x \<noteq> CHR 0x27) (p @ CHR 0x27 # rest) = p"
    and "dropWhile (\<lambda>x. x \<noteq> CHR 0x27) (p @ CHR 0x27 # rest) = CHR 0x27 # rest"
    by (induction p) auto
  then show ?thesis by simp
qed

lemma tokens_quote_body:
  "tokens (CHR 0x27 # p @ concat (map quote_char v) @ CHR 0x27 # rest) cur w ws
     = tokens rest (cur @ p @ v) True ws"
  if "CHR 0x27 \<notin> set p"
  using that
proof (induction v arbitrary: p cur w)
  case Nil
  then show ?case using tokens_single_quoted[of p rest cur w ws] by simp
next
  case (Cons c v)
  show ?case
  proof (cases "c = CHR 0x27")
    case False
    then have "tokens (CHR 0x27 # (p @ [c]) @ concat (map quote_char v) @ CHR 0x27 # rest) cur w ws
        = tokens rest (cur @ (p @ [c]) @ v) True ws"
      using Cons.prems by (intro Cons.IH) auto
    with False show ?thesis by (simp del: tokens.simps add: go_simps)
  next
    case True
    have "tokens (CHR 0x27 # p @ CHR 0x27 # CHR 0x5C # CHR 0x27 # CHR 0x27
             # concat (map quote_char v) @ CHR 0x27 # rest) cur w ws
        = tokens (CHR 0x5C # CHR 0x27 # CHR 0x27
             # concat (map quote_char v) @ CHR 0x27 # rest) (cur @ p) True ws"
      using Cons.prems by (rule tokens_single_quoted)
    also have "\<dots> = tokens (CHR 0x27 # concat (map quote_char v) @ CHR 0x27 # rest)
          (cur @ p @ [CHR 0x27]) True ws"
      by (subst tokens.simps(2)) simp
    also have "\<dots> = tokens rest (cur @ p @ [CHR 0x27] @ v) True ws"
      using Cons.IH[of "[]" "cur @ p @ [CHR 0x27]" True] by simp
    finally show ?thesis using True by (simp del: tokens.simps add: go_simps)
  qed
qed

lemma tokens_quote: "tokens (quote v @ rest) cur w ws = tokens rest (cur @ v) True ws"
  using tokens_quote_body[of "[]" v rest cur w ws] by (simp add: quote_def)

text \<open>A bare word of name characters.\<close>

lemma word_char_plain:
  "is_word_char c \<Longrightarrow> c \<noteq> CHR ''#'' \<and> c \<noteq> CHR '' '' \<and> c \<noteq> CHR 0x09 \<and> c \<noteq> CHR 0x27
     \<and> c \<noteq> CHR 0x22 \<and> c \<noteq> CHR 0x5C \<and> c \<noteq> CHR 0x0A \<and> c \<noteq> CHR 0x0D"
  by (auto simp: is_word_char_def is_lower_def is_upper_def is_digit_def less_eq_char_def)

lemma tokens_word:
  "list_all is_word_char w \<Longrightarrow>
   tokens (w @ rest) cur inw ws = tokens rest (cur @ w) (inw \<or> w \<noteq> []) ws"
proof (induction w arbitrary: cur inw)
  case Nil
  then show ?case by simp
next
  case (Cons c w)
  then have "tokens ((c # w) @ rest) cur inw ws = tokens (w @ rest) (cur @ [c]) True ws"
    using word_char_plain[of c] by simp
  also have "\<dots> = tokens rest (cur @ (c # w)) True ws"
    using Cons by simp
  finally show ?case by simp
qed

section \<open>Parsing\<close>

fun replace_crlf :: "string \<Rightarrow> string" where
  "replace_crlf (a # b # s) =
     (if a = CHR 0x0D \<and> b = CHR 0x0A then CHR 0x0A # replace_crlf s
      else a # replace_crlf (b # s))"
| "replace_crlf s = s"

definition trim_newline :: "string \<Rightarrow> string" where
  "trim_newline s = (if s \<noteq> [] \<and> last s = CHR 0x0A then butlast s else s)"

text \<open>One line, with the sections seen so far (the current one is the last).\<close>

definition parse_line :: "section_hdr list \<Rightarrow> string \<Rightarrow> line \<times> section_hdr list" where
  "parse_line secs r =
     (let current = int (length secs) - 1;
          l = \<lparr>raw = r, kind = KOther, lsection = current, key = [], lvalue = []\<rparr>
      in case tokenize r of
           None \<Rightarrow> (l, secs)
         | Some [] \<Rightarrow> (l, secs)
         | Some (w # ws) \<Rightarrow>
             if w = ''config'' then
               (case ws of [] \<Rightarrow> (l, secs)
                | t # ns \<Rightarrow>
                    (l\<lparr>kind := KSection, lsection := int (length secs)\<rparr>,
                     secs @ [\<lparr>sec_typ = t, sec_name = (case ns of [] \<Rightarrow> [] | n # _ \<Rightarrow> n)\<rparr>]))
             else if w = ''option'' \<or> w = ''list'' then
               (if current < 0 then (l, secs)
                else (case ws of [] \<Rightarrow> (l, secs)
                      | k # vs \<Rightarrow>
                          (l\<lparr>key := k, lvalue := (case vs of [] \<Rightarrow> [] | v # _ \<Rightarrow> v),
                             kind := (if w = ''option'' then KOption else KList)\<rparr>, secs)))
             else (l, secs))"

fun parse_lines :: "section_hdr list \<Rightarrow> string list \<Rightarrow> line list \<times> section_hdr list" where
  "parse_lines secs [] = ([], secs)"
| "parse_lines secs (r # rs) =
     (let (l, secs') = parse_line secs r; (ls, secs'') = parse_lines secs' rs
      in (l # ls, secs''))"

definition file_of_raws :: "string list \<Rightarrow> uci_file" where
  "file_of_raws rs = (let (ls, secs) = parse_lines [] rs in \<lparr>lines = ls, sections = secs\<rparr>)"

definition parse :: "string \<Rightarrow> uci_file" where
  "parse data =
     (let text = trim_newline (replace_crlf data)
      in if text = [] then empty_file else file_of_raws (split_at (CHR 0x0A) text))"

section \<open>Lookups\<close>

definition section_index :: "uci_file \<Rightarrow> string \<Rightarrow> nat option" where
  "section_index f name = find_index (\<lambda>s. sec_name s = name) (sections f)"

definition has_section :: "uci_file \<Rightarrow> string \<Rightarrow> bool" where
  "has_section f name \<longleftrightarrow> section_index f name \<noteq> None"

definition is_option :: "nat \<Rightarrow> string \<Rightarrow> line \<Rightarrow> bool" where
  "is_option idx opt l \<longleftrightarrow> kind l = KOption \<and> lsection l = int idx \<and> key l = opt"

definition get :: "uci_file \<Rightarrow> string \<Rightarrow> string \<Rightarrow> string option" where
  "get f sname opt =
     (case section_index f sname of None \<Rightarrow> None
      | Some idx \<Rightarrow> map_option lvalue (List.find (is_option idx opt) (lines f)))"

text \<open>\<open>GetList\<close> does not stop at a missing section: it then looks for lines of the
  section -1, and no list line has that.\<close>

definition get_list :: "uci_file \<Rightarrow> string \<Rightarrow> string \<Rightarrow> string list" where
  "get_list f sname opt =
     (let idx = (case section_index f sname of None \<Rightarrow> -1 | Some i \<Rightarrow> int i)
      in map lvalue (filter (\<lambda>l. kind l = KList \<and> lsection l = idx \<and> key l = opt) (lines f)))"

section \<open>Edits\<close>

definition ensure_section :: "uci_file \<Rightarrow> string \<Rightarrow> string \<Rightarrow> uci_file" where
  "ensure_section f t name =
     (if has_section f name then f
      else
        (let blank = (if lines f \<noteq> [] \<and> trim_space (raw (last (lines f))) \<noteq> []
                      then [\<lparr>raw = [], kind = KOther, lsection = int (length (sections f)) - 1,
                             key = [], lvalue = []\<rparr>] else []);
             header = \<lparr>raw = ''config '' @ t @ '' '' @ quote name, kind = KSection,
                       lsection = int (length (sections f)), key = [], lvalue = []\<rparr>
         in \<lparr>lines = lines f @ blank @ [header],
             sections = sections f @ [\<lparr>sec_typ = t, sec_name = name\<rparr>]\<rparr>))"

definition option_line :: "nat \<Rightarrow> string \<Rightarrow> string \<Rightarrow> line" where
  "option_line idx opt v =
     \<lparr>raw = CHR 0x09 # ''option '' @ opt @ '' '' @ quote v,
      kind = KOption, lsection = int idx, key = opt, lvalue = v\<rparr>"

text \<open>The loop of \<open>Set\<close> over the lines from position \<open>i\<close>: \<open>Inl j\<close> is the line to replace,
  \<open>Inr\<close> the position to insert at (\<open>None\<close> for -1).\<close>

fun set_scan :: "nat \<Rightarrow> string \<Rightarrow> nat \<Rightarrow> nat option \<Rightarrow> line list \<Rightarrow> nat + nat option" where
  "set_scan idx opt i ins [] = Inr ins"
| "set_scan idx opt i ins (l # ls) =
     (if lsection l \<noteq> int idx then set_scan idx opt (Suc i) ins ls
      else (case kind l of
              KOption \<Rightarrow> if key l = opt then Inl i else set_scan idx opt (Suc i) (Some (Suc i)) ls
            | KList \<Rightarrow> set_scan idx opt (Suc i) (Some (Suc i)) ls
            | KSection \<Rightarrow> set_scan idx opt (Suc i) (if ins = None then Some (Suc i) else ins) ls
            | KOther \<Rightarrow> set_scan idx opt (Suc i) ins ls))"

definition set_option :: "uci_file \<Rightarrow> string \<Rightarrow> string \<Rightarrow> string \<Rightarrow> uci_error + uci_file" where
  "set_option f sname opt v =
     (if \<not> valid_name opt then Inl (InvalidOptionName opt)
      else case section_index f sname of
        None \<Rightarrow> Inl (NoSection sname)
      | Some idx \<Rightarrow>
          (let nl = option_line idx opt v
           in case set_scan idx opt 0 None (lines f) of
                Inl i \<Rightarrow> Inr (f\<lparr>lines := (lines f)[i := nl]\<rparr>)
              | Inr None \<Rightarrow> Inl SlicePanic
              | Inr (Some at) \<Rightarrow>
                  Inr (f\<lparr>lines := take at (lines f) @ nl # drop at (lines f)\<rparr>)))"

definition delete_option :: "uci_file \<Rightarrow> string \<Rightarrow> string \<Rightarrow> uci_file" where
  "delete_option f sname opt =
     (case section_index f sname of None \<Rightarrow> f
      | Some idx \<Rightarrow> f\<lparr>lines := filter (\<lambda>l. \<not> is_option idx opt l) (lines f)\<rparr>)"

definition bytes_of :: "uci_file \<Rightarrow> string" where
  "bytes_of f = concat (map (\<lambda>l. raw l @ [CHR 0x0A]) (lines f))"

section \<open>Facts about the parser\<close>

lemma parse_line_raw [simp]: "raw (fst (parse_line secs r)) = r"
  by (auto simp: parse_line_def Let_def split: option.splits list.splits if_splits)

lemma parse_lines_raws: "map raw (fst (parse_lines secs rs)) = rs"
  by (induction rs arbitrary: secs) (auto simp: case_prod_beta)

lemma parse_lines_length: "length (fst (parse_lines secs rs)) = length rs"
  using arg_cong[OF parse_lines_raws, of length] by simp

lemma parse_line_section:
  "lsection (fst (parse_line secs r)) = int (length (snd (parse_line secs r))) - 1"
  by (auto simp: parse_line_def Let_def split: option.splits list.splits)

lemma parse_line_keeps_sections:
  "kind (fst (parse_line secs r)) \<noteq> KSection \<Longrightarrow> snd (parse_line secs r) = secs"
  by (auto simp: parse_line_def Let_def split: option.splits list.splits if_splits)

lemma parse_lines_append:
  "parse_lines secs (xs @ ys) =
     (fst (parse_lines secs xs) @ fst (parse_lines (snd (parse_lines secs xs)) ys),
      snd (parse_lines (snd (parse_lines secs xs)) ys))"
  by (induction xs arbitrary: secs) (auto simp: case_prod_beta)

lemma parse_lines_Cons:
  "parse_lines secs (r # rs) =
     (fst (parse_line secs r) # fst (parse_lines (snd (parse_line secs r)) rs),
      snd (parse_lines (snd (parse_line secs r)) rs))"
  by (simp add: case_prod_beta)

lemmas parse_lines_simps = parse_lines.simps(1) parse_lines_Cons parse_lines_append

text \<open>An option line of the editor is parsed back as the line it is.\<close>

lemma valid_name_word: "valid_name s \<Longrightarrow> list_all is_word_char s \<and> s \<noteq> []"
  by (simp add: valid_name_def)

lemma tokenize_option_line:
  assumes "valid_name opt"
  shows "tokenize (CHR 0x09 # ''option '' @ opt @ '' '' @ quote v) = Some [''option'', opt, v]"
proof -
  have opt: "list_all is_word_char opt" "opt \<noteq> []"
    using assms by (simp_all add: valid_name_def)
  have o: "list_all is_word_char ''option''" by code_simp
  have "tokenize (CHR 0x09 # ''option '' @ opt @ '' '' @ quote v)
      = tokens (''option'' @ CHR '' '' # opt @ CHR '' '' # quote v @ []) [] False []"
    by (simp add: tokenize_def)
  also have "\<dots> = tokens (CHR '' '' # opt @ CHR '' '' # quote v @ []) ''option'' True []"
    by (subst tokens_word[OF o]) simp
  also have "\<dots> = tokens (opt @ CHR '' '' # quote v @ []) [] False [''option'']"
    by simp
  also have "\<dots> = tokens (CHR '' '' # quote v @ []) opt True [''option'']"
    using opt by (subst tokens_word[OF opt(1)]) simp
  also have "\<dots> = tokens (quote v @ []) [] False [''option'', opt]"
    by simp
  also have "\<dots> = tokens [] v True [''option'', opt]"
    by (subst tokens_quote) simp
  finally show ?thesis by simp
qed

lemma parse_option_line:
  assumes "valid_name opt" and "length secs = Suc idx"
  shows "parse_line secs (raw (option_line idx opt v)) = (option_line idx opt v, secs)"
  using assms
  by (simp add: parse_line_def option_line_def tokenize_option_line[simplified] Let_def)


section \<open>The parsed form and what keeps it\<close>

text \<open>\<open>parsed f\<close>: what the lines record is what the parser makes of their text.
  \<open>clean f\<close>: no line holds a line feed or a carriage return, and the file is not one empty
  line (which \<open>Parse\<close> reads as no line).\<close>

definition parsed :: "uci_file \<Rightarrow> bool" where
  "parsed f \<longleftrightarrow> file_of_raws (map raw (lines f)) = f"

definition one_line :: "string \<Rightarrow> bool" where
  "one_line s \<longleftrightarrow> CHR 0x0A \<notin> set s \<and> CHR 0x0D \<notin> set s"

definition clean :: "uci_file \<Rightarrow> bool" where
  "clean f \<longleftrightarrow> (\<forall>l \<in> set (lines f). one_line (raw l)) \<and> map raw (lines f) \<noteq> [[]]"

lemma file_of_raws_parts [simp]:
  "lines (file_of_raws rs) = fst (parse_lines [] rs)"
  "sections (file_of_raws rs) = snd (parse_lines [] rs)"
  by (simp_all add: file_of_raws_def case_prod_beta)

lemma parsed_iff:
  "parsed f \<longleftrightarrow> parse_lines [] (map raw (lines f)) = (lines f, sections f)"
  by (cases f) (auto simp: parsed_def file_of_raws_def case_prod_beta prod_eq_iff)

lemma parsed_file_of_raws: "parsed (file_of_raws rs)"
  by (simp add: parsed_def parse_lines_raws)

lemma parsed_parse: "parsed (parse d)"
  by (simp add: parse_def Let_def parsed_file_of_raws)
    (simp add: parsed_def empty_file_def file_of_raws_def)

lemma parse_lines_last:
  "rs \<noteq> [] \<Longrightarrow>
   lsection (last (fst (parse_lines secs rs))) = int (length (snd (parse_lines secs rs))) - 1"
proof (induction rs arbitrary: secs)
  case (Cons r rs)
  show ?case
  proof (cases "rs = []")
    case True
    then show ?thesis by (simp add: parse_line_section case_prod_beta)
  next
    case False
    then have "fst (parse_lines (snd (parse_line secs r)) rs) \<noteq> []"
      by (metis length_0_conv parse_lines_length)
    with False Cons.IH[of "snd (parse_line secs r)"] show ?thesis
      by (simp add: case_prod_beta)
  qed
qed simp

text \<open>Putting an editor's option line behind a prefix whose last section is \<open>idx\<close>.\<close>

lemma parsed_splice:
  assumes "parse_lines [] (map raw A) = (A, secs)" and "length secs = Suc idx"
    and "parse_lines secs (map raw B) = (B, secs')" and "valid_name opt"
  shows "parse_lines [] (map raw (A @ option_line idx opt v # B))
           = (A @ option_line idx opt v # B, secs')"
  using assms parse_option_line[of opt secs idx v]
  by (simp add: parse_lines_append case_prod_beta)

lemma parse_lines_split:
  assumes "parse_lines secs (map raw (A @ B)) = (A @ B, secs'')"
  obtains secs' where "parse_lines secs (map raw A) = (A, secs')"
    "parse_lines secs' (map raw B) = (B, secs'')"
proof -
  let ?s = "snd (parse_lines secs (map raw A))"
  have "fst (parse_lines secs (map raw A)) @ fst (parse_lines ?s (map raw B)) = A @ B"
    and "snd (parse_lines ?s (map raw B)) = secs''"
    using assms by (simp_all add: parse_lines_append)
  moreover have "length (fst (parse_lines secs (map raw A))) = length A"
    by (simp add: parse_lines_length)
  ultimately show ?thesis
    by (intro that[of ?s]) (auto simp: prod_eq_iff)
qed

lemma set_scan_Inl:
  "set_scan idx opt i ins ls = Inl j \<Longrightarrow>
   \<exists>A l B. ls = A @ l # B \<and> j = i + length A \<and> is_option idx opt l
     \<and> (\<forall>a \<in> set A. \<not> is_option idx opt a)"
proof (induction idx opt i ins ls rule: set_scan.induct)
  case (2 idx opt i ins l ls)
  show ?case
  proof (cases "is_option idx opt l")
    case True
    with "2.prems" show ?thesis by (intro exI[of _ "[]"]) (auto simp: is_option_def)
  next
    case False
    with 2 have "\<exists>A l' B. ls = A @ l' # B \<and> j = Suc i + length A \<and> is_option idx opt l'
        \<and> (\<forall>a \<in> set A. \<not> is_option idx opt a)"
      by (auto simp: is_option_def split: if_splits line_kind.splits)
    with False show ?thesis
      by (metis append_Cons add_Suc_shift length_Cons set_ConsD)
  qed
qed simp

lemma set_scan_Inr:
  "set_scan idx opt i ins ls = Inr (Some at) \<Longrightarrow>
   (\<forall>l \<in> set ls. \<not> is_option idx opt l) \<and>
   (ins = Some at \<or> (\<exists>A l B. ls = A @ l # B \<and> at = i + Suc (length A) \<and> lsection l = int idx))"
proof (induction ls arbitrary: i ins)
  case (Cons l ls)
  have no: "\<not> is_option idx opt l"
    using Cons.prems by (auto simp: is_option_def split: if_splits)
  obtain ins' where step: "set_scan idx opt (Suc i) ins' ls = Inr (Some at)"
    and ins': "ins' = ins \<or> ins' = Some (Suc i) \<and> lsection l = int idx"
    using Cons.prems by (auto split: if_splits line_kind.splits)
  from Cons.IH[OF step] show ?case
  proof (elim conjE disjE exE)
    assume all: "\<forall>l \<in> set ls. \<not> is_option idx opt l" and "ins' = Some at"
    with ins' no show ?thesis
      by (auto intro!: exI[of _ "[]"])
  next
    fix A l' B
    assume all: "\<forall>l \<in> set ls. \<not> is_option idx opt l"
      and "ls = A @ l' # B" "at = Suc i + Suc (length A)" "lsection l' = int idx"
    with no have "l # ls = (l # A) @ l' # B \<and> at = i + Suc (length (l # A)) \<and> lsection l' = int idx"
      by simp
    with all no show ?thesis by (metis set_ConsD)
  qed
qed simp

text \<open>What \<open>Set\<close> does to the lines: it replaces the first line of the option, or inserts one
  behind a line of the section.\<close>

lemma set_option_cases:
  assumes "set_option f sname opt v = Inr f'"
  obtains (replace) idx A l B where "section_index f sname = Some idx" "valid_name opt"
      "lines f = A @ l # B" "is_option idx opt l" "\<forall>a \<in> set A. \<not> is_option idx opt a"
      "f' = f\<lparr>lines := A @ option_line idx opt v # B\<rparr>"
  | (insert) idx A l B where "section_index f sname = Some idx" "valid_name opt"
      "lines f = (A @ [l]) @ B" "lsection l = int idx" "\<forall>a \<in> set (lines f). \<not> is_option idx opt a"
      "f' = f\<lparr>lines := (A @ [l]) @ option_line idx opt v # B\<rparr>"
proof -
  from assms obtain idx where idx: "section_index f sname = Some idx" and v: "valid_name opt"
    by (auto simp: set_option_def split: if_splits option.splits)
  show thesis
  proof (cases "set_scan idx opt 0 None (lines f)")
    case (Inl j)
    from set_scan_Inl[OF Inl] obtain A l B where "lines f = A @ l # B" "j = length A"
      "is_option idx opt l" "\<forall>a \<in> set A. \<not> is_option idx opt a" by auto
    with assms idx v Inl show thesis
      by (intro replace[of idx A l B]) (auto simp: set_option_def list_update_append)
  next
    case (Inr r)
    with assms idx v obtain at where r: "r = Some at" by (cases r) (auto simp: set_option_def)
    from set_scan_Inr[OF Inr[unfolded r]] obtain A l B where "lines f = A @ l # B"
      "at = Suc (length A)" "lsection l = int idx" "\<forall>a \<in> set (lines f). \<not> is_option idx opt a"
      by auto
    with assms idx v Inr r show thesis
      by (intro insert[of idx A l B]) (auto simp: set_option_def)
  qed
qed


lemma parsed_set_option:
  assumes "parsed f" and "set_option f sname opt v = Inr f'"
  shows "parsed f'"
  using assms(2)
proof (cases rule: set_option_cases)
  case (replace idx A l B)
  from assms(1) replace(3) have "parse_lines [] (map raw (A @ (l # B))) = (A @ (l # B), sections f)"
    by (simp add: parsed_iff)
  then obtain secs where A: "parse_lines [] (map raw A) = (A, secs)"
    and lB: "parse_lines secs (map raw (l # B)) = (l # B, sections f)"
    by (rule parse_lines_split)
  from lB have l: "fst (parse_line secs (raw l)) = l"
    by (simp add: case_prod_beta)
  with replace(4) have keep: "snd (parse_line secs (raw l)) = secs"
    using parse_line_keeps_sections[of secs "raw l"] by (simp add: is_option_def)
  with lB have B: "parse_lines secs (map raw B) = (B, sections f)"
    by (auto simp: case_prod_beta prod_eq_iff)
  from parse_line_section[of secs "raw l"] keep l replace(4) have "length secs = Suc idx"
    by (simp add: is_option_def)
  from parsed_splice[OF A this B replace(2)] replace(6) show ?thesis
    by (simp add: parsed_iff)
next
  case (insert idx A l B)
  from assms(1) insert(3) have "parse_lines [] (map raw ((A @ [l]) @ B)) = ((A @ [l]) @ B, sections f)"
    by (simp add: parsed_iff)
  then obtain secs where A: "parse_lines [] (map raw (A @ [l])) = (A @ [l], secs)"
    and B: "parse_lines secs (map raw B) = (B, sections f)"
    by (rule parse_lines_split)
  from parse_lines_last[of "map raw (A @ [l])" "[]"] A insert(4) have "length secs = Suc idx"
    by simp
  from parsed_splice[OF A this B insert(2)] insert(6) show ?thesis
    by (simp add: parsed_iff)
qed

lemma sections_set_option:
  "set_option f sname opt v = Inr f' \<Longrightarrow> sections f' = sections f"
  by (auto simp: set_option_def Let_def split: if_splits option.splits sum.splits)

lemma section_index_set_option:
  "set_option f sname opt v = Inr f' \<Longrightarrow> section_index f' s = section_index f s"
  by (simp add: section_index_def sections_set_option)

lemma find_splice:
  "\<forall>a \<in> set A. \<not> p a \<Longrightarrow> p x \<Longrightarrow> List.find p (A @ x # B) = Some x"
  by (induction A) auto

lemma find_skip: "\<not> p x \<Longrightarrow> List.find p (A @ x # B) = List.find p (A @ B)"
  by (induction A) auto

lemma is_option_line [simp]:
  "is_option idx' opt' (option_line idx opt v) \<longleftrightarrow> idx' = idx \<and> opt' = opt"
  by (auto simp: is_option_def option_line_def)

lemma lvalue_option_line [simp]: "lvalue (option_line idx opt v) = v"
  by (simp add: option_line_def)

lemma get_set_same: "set_option f sname opt v = Inr f' \<Longrightarrow> get f' sname opt = Some v"
proof (erule set_option_cases)
  fix idx A l B
  assume "section_index f sname = Some idx" "\<forall>a \<in> set A. \<not> is_option idx opt a"
    "f' = f\<lparr>lines := A @ option_line idx opt v # B\<rparr>"
  then show ?thesis by (simp add: get_def section_index_def find_splice)
next
  fix idx A l B
  assume idx: "section_index f sname = Some idx" and ls: "lines f = (A @ [l]) @ B"
    and no: "\<forall>a \<in> set (lines f). \<not> is_option idx opt a"
    and f': "f' = f\<lparr>lines := (A @ [l]) @ option_line idx opt v # B\<rparr>"
  from no have "\<forall>a \<in> set (A @ [l]). \<not> is_option idx opt a"
    unfolding ls by auto
  then have "List.find (is_option idx opt) ((A @ [l]) @ option_line idx opt v # B)
      = Some (option_line idx opt v)"
    by (rule find_splice) simp
  with idx show ?thesis
    unfolding f' get_def section_index_def by simp
qed

lemma section_index_inj:
  "section_index f s = Some i \<Longrightarrow> section_index f s' = Some i \<Longrightarrow> s = s'"
  by (auto simp: section_index_def dest!: find_index_Some)

lemma get_set_other:
  assumes "set_option f sname opt v = Inr f'" and "(s', o') \<noteq> (sname, opt)"
  shows "get f' s' o' = get f s' o'"
proof (cases "section_index f s'")
  case None
  then show ?thesis
    using section_index_set_option[OF assms(1), of s'] by (simp add: get_def)
next
  case (Some i)
  have "List.find (is_option i o') (lines f') = List.find (is_option i o') (lines f)"
    using assms(1)
  proof (cases rule: set_option_cases)
    case (replace idx A l B)
    then have "\<not> (i = idx \<and> o' = opt)"
      using assms(2) Some section_index_inj by blast
    with replace show ?thesis
      by (auto simp: find_skip is_option_def option_line_def)
  next
    case (insert idx A l B)
    then have "\<not> (i = idx \<and> o' = opt)"
      using assms(2) Some section_index_inj by blast
    with insert show ?thesis
      by (simp add: find_skip[of _ _ "A @ [l]", simplified])
  qed
  then show ?thesis
    using section_index_set_option[OF assms(1), of s'] Some by (simp add: get_def)
qed

text \<open>Every other line stays as it was: the new text differs by the option's line only.\<close>

lemma set_option_lines:
  assumes "set_option f sname opt v = Inr f'"
  shows "\<exists>A B old idx. map raw (lines f) = A @ old @ B \<and> length old \<le> 1
    \<and> map raw (lines f') = A @ raw (option_line idx opt v) # B"
  using assms
proof (cases rule: set_option_cases)
  case (replace idx A l B)
  then show ?thesis
    by (intro exI[of _ "map raw A"] exI[of _ "map raw B"] exI[of _ "[raw l]"] exI[of _ idx]) simp
next
  case (insert idx A l B)
  then show ?thesis
    by (intro exI[of _ "map raw (A @ [l])"] exI[of _ "map raw B"] exI[of _ "[]"] exI[of _ idx]) simp
qed

section \<open>Rendering and parsing back\<close>

lemma replace_crlf_id: "CHR 0x0D \<notin> set s \<Longrightarrow> replace_crlf s = s"
  by (induction s rule: replace_crlf.induct) auto

lemma concat_lines:
  "rs \<noteq> [] \<Longrightarrow> concat (map (\<lambda>r. r @ [CHR 0x0A]) rs) = join [CHR 0x0A] rs @ [CHR 0x0A]"
  by (induction "[CHR 0x0A]" rs rule: join.induct) auto

lemma bytes_of_raws: "bytes_of f = concat (map (\<lambda>r. r @ [CHR 0x0A]) (map raw (lines f)))"
  by (simp add: bytes_of_def comp_def)

lemma set_join: "set (join sep rs) \<subseteq> set sep \<union> \<Union> (set ` set rs)"
  by (induction sep rs rule: join.induct) auto

lemma join_eq_Nil: "join [c] rs = [] \<longleftrightarrow> rs = [] \<or> rs = [[]]"
  by (induction "[c]" rs rule: join.induct) auto

lemma parse_bytes_of:
  assumes "parsed f" and "clean f"
  shows "parse (bytes_of f) = f"
proof (cases "lines f = []")
  case True
  with assms(1) have "f = empty_file"
    by (simp add: parsed_def empty_file_def file_of_raws_def)
  then show ?thesis by (simp add: parse_def bytes_of_def empty_file_def trim_newline_def)
next
  case False
  let ?rs = "map raw (lines f)"
  let ?t = "join [CHR 0x0A] ?rs"
  have rs: "\<forall>r \<in> set ?rs. one_line r" "?rs \<noteq> [[]]" "?rs \<noteq> []"
    using assms(2) False by (auto simp: clean_def)
  then have "CHR 0x0D \<notin> set ?t"
    using set_join[of "[CHR 0x0A]" ?rs] by (auto simp: one_line_def)
  moreover have b: "bytes_of f = ?t @ [CHR 0x0A]"
    using concat_lines[OF rs(3)] by (simp only: bytes_of_raws)
  ultimately have "trim_newline (replace_crlf (bytes_of f)) = ?t"
    by (simp add: replace_crlf_id trim_newline_def)
  moreover have "?t \<noteq> []"
    using rs(2,3) join_eq_Nil[of "CHR 0x0A" ?rs] by blast
  moreover have "split_at (CHR 0x0A) ?t = ?rs"
    using rs(1) by (intro split_at_join[OF rs(3)]) (auto simp: one_line_def)
  ultimately have "parse (bytes_of f) = file_of_raws ?rs"
    by (simp add: parse_def)
  with assms(1) show ?thesis by (simp add: parsed_def)
qed

lemma bytes_of_file_of_raws:
  "bytes_of (file_of_raws rs) = concat (map (\<lambda>r. r @ [CHR 0x0A]) rs)"
  by (simp only: bytes_of_raws file_of_raws_parts parse_lines_raws)

lemma bytes_of_parse:
  "bytes_of (parse d) =
     (let t = trim_newline (replace_crlf d) in if t = [] then [] else t @ [CHR 0x0A])"
proof (cases "trim_newline (replace_crlf d) = []")
  case True
  then show ?thesis by (simp add: parse_def bytes_of_def empty_file_def)
next
  case False
  then have "bytes_of (parse d)
      = concat (map (\<lambda>r. r @ [CHR 0x0A]) (split_at (CHR 0x0A) (trim_newline (replace_crlf d))))"
    by (simp add: parse_def Let_def bytes_of_file_of_raws)
  with False show ?thesis by (simp only: concat_lines[OF split_at_nonempty] join_split_at Let_def if_False)
qed

lemma one_line_option_line:
  assumes "valid_name opt" and "one_line v"
  shows "one_line (raw (option_line idx opt v))"
proof -
  have "CHR 0x0A \<notin> set (quote v) \<and> CHR 0x0D \<notin> set (quote v)"
    using assms(2) by (auto simp: one_line_def quote_def quote_char_def split: if_splits)
  moreover have "CHR 0x0A \<notin> set opt \<and> CHR 0x0D \<notin> set opt"
    using assms(1) word_char_plain by (fastforce simp: valid_name_def list_all_iff)
  ultimately show ?thesis by (simp add: one_line_def option_line_def)
qed

lemma clean_set_option:
  assumes "clean f" and "set_option f sname opt v = Inr f'" and "one_line v"
  shows "clean f'"
  using assms(2)
proof (cases rule: set_option_cases)
  case (replace idx A l B)
  then show ?thesis
    using assms(1) one_line_option_line[OF replace(2) assms(3)]
    by (auto simp: clean_def Cons_eq_append_conv append_eq_Cons_conv option_line_def)
next
  case (insert idx A l B)
  then show ?thesis
    using assms(1) one_line_option_line[OF insert(2) assms(3)]
    by (auto simp: clean_def append_eq_Cons_conv)
qed


section \<open>Appending a section\<close>

lemma tokenize_section_line:
  assumes "valid_name t"
  shows "tokenize (''config '' @ t @ '' '' @ quote name) = Some [''config'', t, name]"
proof -
  have t: "list_all is_word_char t" "t \<noteq> []"
    using assms by (simp_all add: valid_name_def)
  have c: "list_all is_word_char ''config''" by code_simp
  have "tokenize (''config '' @ t @ '' '' @ quote name)
      = tokens (''config'' @ CHR '' '' # t @ CHR '' '' # quote name @ []) [] False []"
    by (simp add: tokenize_def)
  also have "\<dots> = tokens (CHR '' '' # t @ CHR '' '' # quote name @ []) ''config'' True []"
    by (subst tokens_word[OF c]) simp
  also have "\<dots> = tokens (t @ CHR '' '' # quote name @ []) [] False [''config'']"
    by simp
  also have "\<dots> = tokens (CHR '' '' # quote name @ []) t True [''config'']"
    using t by (subst tokens_word[OF t(1)]) simp
  also have "\<dots> = tokens (quote name @ []) [] False [''config'', t]"
    by simp
  also have "\<dots> = tokens [] name True [''config'', t]"
    by (subst tokens_quote) simp
  finally show ?thesis by simp
qed

lemma parse_blank_line:
  "parse_line secs [] =
     (\<lparr>raw = [], kind = KOther, lsection = int (length secs) - 1, key = [], lvalue = []\<rparr>, secs)"
  by (simp add: parse_line_def tokenize_def Let_def)

lemma parsed_ensure_section:
  assumes "parsed f" and "valid_name t"
  shows "parsed (ensure_section f t name)"
proof (cases "has_section f name")
  case True
  with assms show ?thesis by (simp add: ensure_section_def)
next
  case False
  let ?h = "''config '' @ t @ '' '' @ quote name"
  have h: "parse_line (sections f) ?h =
      (\<lparr>raw = ?h, kind = KSection, lsection = int (length (sections f)), key = [], lvalue = []\<rparr>,
       sections f @ [\<lparr>sec_typ = t, sec_name = name\<rparr>])"
    using tokenize_section_line[OF assms(2), of name] by (simp add: parse_line_def Let_def)
  show ?thesis
    using False assms(1) h
    by (simp add: ensure_section_def parsed_iff parse_lines_append parse_blank_line Let_def)
qed

lemma has_section_ensure [simp]: "has_section (ensure_section f t name) name"
  by (auto simp: ensure_section_def has_section_def section_index_def find_index_append Let_def
      split: option.splits)

lemma clean_ensure_section:
  assumes "clean f" and "valid_name t" and "one_line name"
  shows "clean (ensure_section f t name)"
proof -
  have "one_line (''config '' @ t @ '' '' @ quote name)"
    using assms(2,3) word_char_plain
    by (fastforce simp: one_line_def valid_name_def list_all_iff quote_def quote_char_def
        split: if_splits)
  then show ?thesis
    using assms(1) by (auto simp: ensure_section_def clean_def Let_def one_line_def append_eq_Cons_conv)
qed

lemma find_append_none: "\<forall>x \<in> set B. \<not> p x \<Longrightarrow> List.find p (A @ B) = List.find p A"
  by (induction A) (auto simp: find_None_iff)

lemma get_ensure_section:
  assumes "section_index f s = Some i"
  shows "get (ensure_section f t name) s opt = get f s opt"
proof -
  have "section_index (ensure_section f t name) s = Some i"
    using assms by (simp add: ensure_section_def section_index_def find_index_append Let_def)
  moreover have "List.find (is_option i opt) (lines (ensure_section f t name))
      = List.find (is_option i opt) (lines f)"
    by (auto simp: ensure_section_def Let_def is_option_def find_append_none)
  ultimately show ?thesis
    using assms by (simp add: get_def)
qed

section \<open>\<open>Set\<close> finds a place in every section the parser made\<close>

lemma parse_lines_headers:
  "length secs \<le> i \<Longrightarrow> i < length (snd (parse_lines secs rs)) \<Longrightarrow>
   \<exists>l \<in> set (fst (parse_lines secs rs)). kind l = KSection \<and> lsection l = int i"
proof (induction rs arbitrary: secs)
  case (Cons r rs)
  show ?case
  proof (cases "length (snd (parse_line secs r)) \<le> i")
    case True
    with Cons show ?thesis by (auto simp: case_prod_beta)
  next
    case False
    with Cons.prems have "snd (parse_line secs r) \<noteq> secs" by auto
    then have k: "kind (fst (parse_line secs r)) = KSection"
      using parse_line_keeps_sections by blast
    have "length (snd (parse_line secs r)) \<le> Suc (length secs)"
      by (auto simp: parse_line_def Let_def split: option.splits list.splits)
    with False Cons.prems have "lsection (fst (parse_line secs r)) = int i"
      by (simp add: parse_line_section)
    with k show ?thesis by (simp add: case_prod_beta)
  qed
qed simp

lemma set_scan_placed:
  "set_scan idx opt i ins ls = Inr None \<Longrightarrow>
   \<forall>l \<in> set ls. \<not> (kind l = KSection \<and> lsection l = int idx)"
proof -
  have some: "set_scan idx opt i (Some x) ls \<noteq> Inr None" for i x ls
    by (induction ls arbitrary: i x) (auto split: line_kind.splits)
  show "set_scan idx opt i ins ls = Inr None \<Longrightarrow>
      \<forall>l \<in> set ls. \<not> (kind l = KSection \<and> lsection l = int idx)"
    by (induction ls arbitrary: i ins) (auto simp: some split: if_splits line_kind.splits)
qed

lemma set_option_total:
  assumes "parsed f" and "has_section f s" and "valid_name opt"
  shows "\<exists>f'. set_option f s opt v = Inr f'"
proof -
  from assms(2) obtain idx where idx: "section_index f s = Some idx"
    by (auto simp: has_section_def)
  then have "idx < length (sections f)"
    by (auto simp: section_index_def dest: find_index_Some)
  then have "\<exists>l \<in> set (lines f). kind l = KSection \<and> lsection l = int idx"
    using parse_lines_headers[of "[]" idx "map raw (lines f)"] assms(1) by (simp add: parsed_iff)
  then have "set_scan idx opt 0 None (lines f) \<noteq> Inr None"
    using set_scan_placed by blast
  then show ?thesis
    using idx assms(3) by (auto simp: set_option_def Let_def split: sum.splits option.splits)
qed

section \<open>The interface the configuration uses\<close>

text \<open>\<open>apply_values\<close> is the loop of \<open>config.Update\<close> over the operations of a store: a value is
  set, a deletion empties an option that is there.\<close>

fun apply_values ::
  "('f \<Rightarrow> string \<Rightarrow> string \<Rightarrow> string option) \<Rightarrow> ('f \<Rightarrow> string \<Rightarrow> string \<Rightarrow> string \<Rightarrow> 'e + 'f) \<Rightarrow>
   string \<Rightarrow> (string \<times> string option) list \<Rightarrow> 'f \<Rightarrow> 'e + 'f" where
  "apply_values gt st s [] f = Inr f"
| "apply_values gt st s ((k, Some v) # kvs) f =
     (case st f s k v of Inl e \<Rightarrow> Inl e | Inr f' \<Rightarrow> apply_values gt st s kvs f')"
| "apply_values gt st s ((k, None) # kvs) f =
     (if gt f s k = None then apply_values gt st s kvs f
      else (case st f s k [] of Inl e \<Rightarrow> Inl e | Inr f' \<Rightarrow> apply_values gt st s kvs f'))"

text \<open>What reading key \<open>k\<close> gives after the loop.\<close>

definition value_after :: "(string \<times> string option) list \<Rightarrow> string \<Rightarrow> string option \<Rightarrow> string option" where
  "value_after kvs k old =
     (case map_of kvs k of None \<Rightarrow> old
      | Some (Some v) \<Rightarrow> Some v
      | Some None \<Rightarrow> (case old of None \<Rightarrow> None | Some _ \<Rightarrow> Some []))"

locale option_store =
  fixes gt :: "'f \<Rightarrow> string \<Rightarrow> string \<Rightarrow> string option"
    and st :: "'f \<Rightarrow> string \<Rightarrow> string \<Rightarrow> string \<Rightarrow> 'e + 'f"
    and has :: "'f \<Rightarrow> string \<Rightarrow> bool"
    and okname :: "string \<Rightarrow> bool"
    and invar :: "'f \<Rightarrow> bool"
  assumes get_same: "st f s k v = Inr f' \<Longrightarrow> gt f' s k = Some v"
    and get_other: "st f s k v = Inr f' \<Longrightarrow> (s', k') \<noteq> (s, k) \<Longrightarrow> gt f' s' k' = gt f s' k'"
    and has_kept: "st f s k v = Inr f' \<Longrightarrow> has f' s' = has f s'"
    and invar_kept: "st f s k v = Inr f' \<Longrightarrow> invar f \<Longrightarrow> invar f'"
    and set_total: "invar f \<Longrightarrow> has f s \<Longrightarrow> okname k \<Longrightarrow> \<exists>f'. st f s k v = Inr f'"
begin

lemma apply_values_total:
  "invar f \<Longrightarrow> has f s \<Longrightarrow> \<forall>kv \<in> set kvs. okname (fst kv) \<Longrightarrow>
   \<exists>f'. apply_values gt st s kvs f = Inr f'"
proof (induction kvs arbitrary: f)
  case (Cons kv kvs)
  obtain k ov where kv: "kv = (k, ov)" by (cases kv)
  from Cons.prems kv have "okname k" by simp
  then have tot: "\<exists>f'. st f s k v = Inr f'" for v
    using Cons.prems(1,2) set_total by blast
  have next_ok: "\<exists>f''. apply_values gt st s kvs f' = Inr f''" if "st f s k v = Inr f'" for v f'
    using Cons.IH[of f'] Cons.prems has_kept[OF that] invar_kept[OF that] by auto
  show ?case
  proof (cases ov)
    case None
    then show ?thesis
      using kv tot[of "[]"] next_ok Cons.IH[of f] Cons.prems by auto
  next
    case (Some v)
    then show ?thesis
      using kv tot[of v] next_ok by auto
  qed
qed simp

lemma apply_values_keeps:
  "apply_values gt st s kvs f = Inr f' \<Longrightarrow> invar f \<Longrightarrow> invar f' \<and> has f' s' = has f s'"
proof (induction kvs arbitrary: f)
  case (Cons kv kvs)
  then show ?case
    by (cases kv; cases "snd kv")
      (auto split: if_splits sum.splits dest: invar_kept has_kept)
qed simp

lemma apply_values_get:
  assumes "apply_values gt st s kvs f = Inr f'" and "distinct (map fst kvs)"
  shows "gt f' s k = value_after kvs k (gt f s k)"
  using assms
proof (induction kvs arbitrary: f)
  case Nil
  then show ?case by (simp add: value_after_def)
next
  case (Cons kv kvs)
  obtain k1 ov where kv: "kv = (k1, ov)" by (cases kv)
  have "map_of kvs k1 = None"
    using Cons.prems(2) kv by (simp add: map_of_eq_None_iff)
  then have out: "value_after kvs k1 old = old" for old
    by (simp add: value_after_def)
  have step: "gt f' s k = value_after ((k1, Some v) # kvs) k (gt f s k)"
    if "st f s k1 v = Inr f1" "apply_values gt st s kvs f1 = Inr f'" for v f1
  proof -
    have "gt f' s k = value_after kvs k (gt f1 s k)"
      using Cons.IH[OF that(2)] Cons.prems(2) by simp
    then show ?thesis
      using get_same[OF that(1)] get_other[OF that(1), of s k] out
      by (cases "k = k1") (auto simp: value_after_def)
  qed
  show ?case
  proof (cases ov)
    case (Some v)
    with Cons.prems(1) kv step show ?thesis by (auto split: sum.splits)
  next
    case None
    show ?thesis
    proof (cases "gt f s k1")
      case None
      with \<open>ov = None\<close> Cons.prems(1) kv have f: "apply_values gt st s kvs f = Inr f'"
        by simp
      with Cons.IH[OF f] Cons.prems(2) have "gt f' s k = value_after kvs k (gt f s k)"
        by simp
      with None \<open>ov = None\<close> kv out show ?thesis
        by (cases "k = k1") (simp_all add: value_after_def)
    next
      case (Some old)
      with \<open>ov = None\<close> Cons.prems(1) kv obtain f1 where
        "st f s k1 [] = Inr f1" "apply_values gt st s kvs f1 = Inr f'"
        by (auto split: sum.splits)
      from step[OF this] Some \<open>ov = None\<close> kv show ?thesis
        by (auto simp: value_after_def)
    qed
  qed
qed

lemma apply_values_other_section:
  "apply_values gt st s kvs f = Inr f' \<Longrightarrow> s' \<noteq> s \<Longrightarrow> gt f' s' k = gt f s' k"
proof (induction kvs arbitrary: f)
  case (Cons kv kvs)
  have "gt f1 s' k = gt f s' k" if "st f s k1 v = Inr f1" for k1 v f1
    using get_other[OF that] Cons.prems(2) by simp
  with Cons show ?case
    by (cases kv; cases "snd kv") (auto split: if_splits sum.splits)
qed simp

end

text \<open>A store with list options too: setting an option leaves every list as it is.\<close>

locale option_list_store = option_store gt st has okname invar
  for gt :: "'f \<Rightarrow> string \<Rightarrow> string \<Rightarrow> string option"
    and st :: "'f \<Rightarrow> string \<Rightarrow> string \<Rightarrow> string \<Rightarrow> 'e + 'f"
    and has :: "'f \<Rightarrow> string \<Rightarrow> bool"
    and okname :: "string \<Rightarrow> bool"
    and invar :: "'f \<Rightarrow> bool" +
  fixes gl :: "'f \<Rightarrow> string \<Rightarrow> string \<Rightarrow> string list"
  assumes list_kept: "st f s k v = Inr f' \<Longrightarrow> gl f' s' k' = gl f s' k'"
begin

lemma apply_values_lists:
  "apply_values gt st s kvs f = Inr f' \<Longrightarrow> gl f' s' k' = gl f s' k'"
proof (induction kvs arbitrary: f)
  case (Cons kv kvs)
  then show ?case
    by (cases kv; cases "snd kv") (auto split: if_splits sum.splits dest: list_kept)
qed simp

end

lemma get_list_set_option:
  assumes "set_option f s k v = Inr f'"
  shows "get_list f' s' k' = get_list f s' k'"
proof -
  have "filter (\<lambda>l. kind l = KList \<and> lsection l = i \<and> key l = k') (lines f')
      = filter (\<lambda>l. kind l = KList \<and> lsection l = i \<and> key l = k') (lines f)" for i
    using assms
    by (cases rule: set_option_cases) (simp_all add: option_line_def is_option_def)
  then show ?thesis
    by (simp add: get_list_def section_index_set_option[OF assms] Let_def)
qed

interpretation uci: option_list_store get set_option has_section valid_name parsed get_list
proof unfold_locales
  fix f f' :: uci_file and s k v s' k'
  show "set_option f s k v = Inr f' \<Longrightarrow> get f' s k = Some v"
    by (rule get_set_same)
  show "set_option f s k v = Inr f' \<Longrightarrow> (s', k') \<noteq> (s, k) \<Longrightarrow> get f' s' k' = get f s' k'"
    by (rule get_set_other)
  show "set_option f s k v = Inr f' \<Longrightarrow> has_section f' s' = has_section f s'"
    by (simp add: has_section_def section_index_set_option)
  show "set_option f s k v = Inr f' \<Longrightarrow> parsed f \<Longrightarrow> parsed f'"
    by (rule parsed_set_option)
  show "parsed f \<Longrightarrow> has_section f s \<Longrightarrow> valid_name k \<Longrightarrow> \<exists>f'. set_option f s k v = Inr f'"
    by (rule set_option_total)
  show "set_option f s k v = Inr f' \<Longrightarrow> get_list f' s' k' = get_list f s' k'"
    by (rule get_list_set_option)
qed

lemma clean_apply_values:
  "apply_values get set_option s kvs f = Inr f' \<Longrightarrow> clean f \<Longrightarrow>
   \<forall>kv \<in> set kvs. (case snd kv of None \<Rightarrow> True | Some v \<Rightarrow> one_line v) \<Longrightarrow> clean f'"
proof (induction kvs arbitrary: f)
  case (Cons kv kvs)
  have "one_line []" by (simp add: one_line_def)
  with Cons show ?case
    by (cases kv; cases "snd kv")
      (auto split: if_splits sum.splits dest: clean_set_option)
qed simp


section \<open>Editing a file and reading it back\<close>

lemma clean_parse:
  assumes "CHR 0x0D \<notin> set (replace_crlf d)"
  shows "clean (parse d)"
proof -
  let ?t = "trim_newline (replace_crlf d)"
  have sub: "set ?t \<subseteq> set (replace_crlf d)"
    by (auto simp: trim_newline_def dest: in_set_butlastD)
  have "\<forall>p \<in> set (split_at (CHR 0x0A) ?t). one_line p"
  proof
    fix p assume p: "p \<in> set (split_at (CHR 0x0A) ?t)"
    then have "set p \<subseteq> set ?t" by (rule split_at_subset)
    with p sub assms show "one_line p"
      by (auto simp: one_line_def dest: split_at_pieces)
  qed
  moreover have "split_at (CHR 0x0A) ?t \<noteq> [[]]" if "?t \<noteq> []"
    using join_split_at[of "CHR 0x0A" ?t] that by auto
  moreover have "clean f \<longleftrightarrow> (\<forall>r \<in> set (map raw (lines f)). one_line r) \<and> map raw (lines f) \<noteq> [[]]"
    for f
    by (simp add: clean_def)
  ultimately show ?thesis
    by (simp add: parse_def Let_def empty_file_def parse_lines_raws del: set_map)
qed

text \<open>C15: a configuration file that is edited, written and read again holds what was set.
  For every file without a bare carriage return, setting an option to
  any value of one line changes that option of that section only, keeps every list, and the
  bytes written parse back as exactly the edited file, comments and unknown lines included.\<close>

theorem edit_roundtrip:
  assumes "set_option (parse d) sname opt v = Inr f"
    and "one_line v" and "CHR 0x0D \<notin> set (replace_crlf d)"
  shows "parse (bytes_of f) = f \<and> get f sname opt = Some v
    \<and> (\<forall>s k. (s, k) \<noteq> (sname, opt) \<longrightarrow> get f s k = get (parse d) s k)
    \<and> (\<forall>s k. get_list f s k = get_list (parse d) s k)"
proof (intro conjI allI impI)
  have "parsed f" by (rule parsed_set_option[OF parsed_parse assms(1)])
  moreover have "clean f" by (rule clean_set_option[OF clean_parse[OF assms(3)] assms(1,2)])
  ultimately show "parse (bytes_of f) = f" by (rule parse_bytes_of)
qed (use get_set_same[OF assms(1)] get_set_other[OF assms(1)] get_list_set_option[OF assms(1)]
     in auto)

theorem edit_roundtrip_witness:
  "\<exists>f. set_option (parse ''config agent 'main' # x'') ''main'' ''key'' (''it'' @ [CHR 0x27, CHR ''s'']) = Inr f
     \<and> parse (bytes_of f) = f \<and> get f ''main'' ''key'' = Some (''it'' @ [CHR 0x27, CHR ''s''])"
proof -
  let ?d = "''config agent 'main' # x''" and ?v = "''it'' @ [CHR 0x27, CHR ''s'']"
  have "parsed (parse ?d) \<and> has_section (parse ?d) ''main'' \<and> valid_name ''key''"
    using parsed_parse by (intro conjI) (blast, code_simp, code_simp)
  then obtain f where f: "set_option (parse ?d) ''main'' ''key'' ?v = Inr f"
    using set_option_total by blast
  moreover have "one_line ?v" by code_simp
  moreover have "CHR 0x0D \<notin> set (replace_crlf ?d)" by code_simp
  ultimately show ?thesis using edit_roundtrip[of ?d "''main''" "''key''" ?v f] by blast
qed

end
