(* ===== verification/Config.thy ===== *)
theory Config
  imports Uci
begin

text \<open>
  The daemon's configuration, \<open>internal/config/config.go\<close>: reading \<open>/etc/config/perch-apd\<close>
  into the settings (\<open>Load\<close>), changing options of its section (\<open>Update\<close>), and keeping the
  credentials of a join (\<open>SaveCredentials\<close>, \<open>ClearCredentials\<close>). The file is a value of
  \<open>disk\<close>; \<open>Update\<close> either replaces its whole content (temporary file and rename) or leaves
  it. \<open>url.Parse\<close> and \<open>URL.String\<close> of Go's \<open>net/url\<close> are parameters of
  \<open>normalize_controller_url\<close>, and the daemon's normalisation a parameter of \<open>load\<close>; \<open>w\<close> is
  the width of the platform's \<open>int\<close> (32 or 64), which \<open>strconv.Atoi\<close> depends on.

  The lemmas show the bounds every loaded configuration keeps, that the configuration in
  memory after a join is the one a restart loads, and the value for which it is not.
\<close>

section \<open>Settings\<close>

record config =
  c_path :: string
  c_enabled :: bool
  c_controller :: string
  c_join_token :: string
  c_agent_id :: string
  c_agent_secret :: string
  c_tls_insecure :: bool
  c_ca_file :: string
  c_log_level :: string
  c_ports :: bool
  c_wifi_groups :: bool
  c_wifi_groups_insecure :: bool
  c_wifi_config :: string
  c_wifi_config_allow :: "string list"
  c_wifi_config_ignored :: "string list"
  c_wifi_config_insecure :: bool
  c_wifi_config_confirm_max :: int
  c_self_update :: bool
  c_update_keys :: "string list"

datatype config_error =
    ReadFailed
  | WriteFailed
  | EditFailed uci_error
  | BadController string

definition section_name :: string where "section_name = ''main''"
definition section_type :: string where "section_type = ''agent''"

definition wifi_configurable :: "string list" where
  "wifi_configurable = [''wireless'', ''network'']"

definition default_confirm_max :: int where "default_confirm_max = 900"
definition min_confirm_max :: int where "min_confirm_max = 30"
definition max_confirm_max :: int where "max_confirm_max = 1800"

definition parse_bool :: "string \<Rightarrow> bool \<Rightarrow> bool" where
  "parse_bool v def =
     (let s = to_lower (trim_space v)
      in if s \<in> set [''1'', ''yes'', ''on'', ''true'', ''enabled''] then True
         else if s \<in> set [''0'', ''no'', ''off'', ''false'', ''disabled''] then False
         else def)"

definition parse_access :: "string \<Rightarrow> string" where
  "parse_access v =
     (let s = to_lower (trim_space v)
      in if s = ''read'' \<or> s = ''write'' then s else ''none'')"

definition parse_seconds :: "nat \<Rightarrow> string \<Rightarrow> int \<Rightarrow> int \<Rightarrow> int \<Rightarrow> int" where
  "parse_seconds w v def lo hi =
     (case atoi w (trim_space v) of
        None \<Rightarrow> def
      | Some n \<Rightarrow> if n < lo then lo else if n > hi then hi else n)"

section \<open>The controller's address\<close>

record url =
  u_scheme :: string
  u_host :: string
  u_hostname :: string
  u_userinfo :: bool
  u_path :: string
  u_query :: string
  u_fragment :: string
  u_rawpath :: string

datatype url_error =
    EmptyURL | URLSyntax | UnsupportedScheme string | MissingHost | CredentialsInURL

definition normalize_controller_url ::
  "(string \<Rightarrow> url option) \<Rightarrow> (url \<Rightarrow> string) \<Rightarrow> string \<Rightarrow> url_error + string" where
  "normalize_controller_url url_parse url_string rw =
     (let s = trim_space rw
      in if s = [] then Inl EmptyURL
         else
           (let s' = (if sublist ''://'' s then s else ''https://'' @ s)
            in case url_parse s' of
                 None \<Rightarrow> Inl URLSyntax
               | Some u \<Rightarrow>
                   if u_scheme u \<noteq> ''http'' \<and> u_scheme u \<noteq> ''https''
                   then Inl (UnsupportedScheme (u_scheme u))
                   else if u_host u = [] \<or> u_hostname u = [] then Inl MissingHost
                   else if u_userinfo u then Inl CredentialsInURL
                   else Inr (url_string (u\<lparr>u_query := [], u_fragment := [],
                               u_path := trim_right (\<lambda>c. c = CHR ''/'') (u_path u),
                               u_rawpath := []\<rparr>))))"

section \<open>Loading\<close>

definition opt_value :: "uci_file \<Rightarrow> string \<Rightarrow> string \<Rightarrow> string" where
  "opt_value f opt def =
     (case get f section_name opt of Some v \<Rightarrow> trim_space v | None \<Rightarrow> def)"

fun sort_allowed :: "string list \<Rightarrow> string list \<Rightarrow> string list \<Rightarrow> string list \<times> string list" where
  "sort_allowed [] allow ignored = (allow, ignored)"
| "sort_allowed (n # ns) allow ignored =
     (let name = trim_space n
      in if name = [] then sort_allowed ns allow ignored
         else if name \<in> set wifi_configurable then
           sort_allowed ns (if name \<in> set allow then allow else allow @ [name]) ignored
         else sort_allowed ns allow (ignored @ [name]))"

definition wifi_allow_list :: "uci_file \<Rightarrow> string list" where
  "wifi_allow_list f =
     (let l = get_list f section_name ''wifi_config_allow'';
          l' = (if l = [] then go_fields (opt_value f ''wifi_config_allow'' []) else l)
      in if l' = [] then wifi_configurable else l')"

definition load ::
  "nat \<Rightarrow> (string \<Rightarrow> url_error + string) \<Rightarrow> string \<Rightarrow> uci_file \<Rightarrow> config_error + config" where
  "load w norm path f =
     (let (allow, ignored) = sort_allowed (wifi_allow_list f) [] [];
          c = \<lparr>c_path = path,
               c_enabled = parse_bool (opt_value f ''enabled'' ''1'') True,
               c_controller = [],
               c_join_token = opt_value f ''join_token'' [],
               c_agent_id = opt_value f ''agent_id'' [],
               c_agent_secret = opt_value f ''agent_secret'' [],
               c_tls_insecure = parse_bool (opt_value f ''tls_insecure'' ''0'') False,
               c_ca_file = opt_value f ''ca_file'' [],
               c_log_level = opt_value f ''log_level'' ''info'',
               c_ports = parse_bool (opt_value f ''ports'' ''1'') True,
               c_wifi_groups = parse_bool (opt_value f ''wifi_groups'' ''0'') False,
               c_wifi_groups_insecure = parse_bool (opt_value f ''wifi_groups_insecure'' ''0'') False,
               c_wifi_config = parse_access (opt_value f ''wifi_config'' ''none''),
               c_wifi_config_allow = allow,
               c_wifi_config_ignored = ignored,
               c_wifi_config_insecure = parse_bool (opt_value f ''wifi_config_insecure'' ''0'') False,
               c_wifi_config_confirm_max =
                 parse_seconds w (opt_value f ''wifi_config_confirm_max'' [])
                   default_confirm_max min_confirm_max max_confirm_max,
               c_self_update = parse_bool (opt_value f ''self_update'' ''1'') True,
               c_update_keys =
                 filter (\<lambda>k. k \<noteq> []) (map trim_space (get_list f section_name ''update_key''))\<rparr>;
          ctl = opt_value f ''controller'' []
      in if ctl = [] then Inr c
         else (case norm ctl of
                 Inl _ \<Rightarrow> Inl (BadController ctl)
               | Inr u \<Rightarrow> Inr (c\<lparr>c_controller := u\<rparr>)))"

definition transport_verified :: "config \<Rightarrow> bool" where
  "transport_verified c \<longleftrightarrow> prefix ''https://'' (c_controller c) \<and> \<not> c_tls_insecure c"

definition has_credentials :: "config \<Rightarrow> bool" where
  "has_credentials c \<longleftrightarrow> c_agent_id c \<noteq> [] \<and> c_agent_secret c \<noteq> []"

section \<open>The file on disk, and changing it\<close>

datatype disk = Missing | Unreadable | Content string

fun uci_load :: "disk \<Rightarrow> config_error + uci_file" where
  "uci_load Missing = Inr empty_file"
| "uci_load Unreadable = Inl ReadFailed"
| "uci_load (Content d) = Inr (parse d)"

definition load_disk ::
  "nat \<Rightarrow> (string \<Rightarrow> url_error + string) \<Rightarrow> string \<Rightarrow> disk \<Rightarrow> config_error + config" where
  "load_disk w norm path d =
     (case uci_load d of Inl e \<Rightarrow> Inl e | Inr f \<Rightarrow> load w norm path f)"

text \<open>\<open>dflt\<close> is the embedded default file, \<open>wr\<close> whether \<open>WriteFile\<close> succeeds.\<close>

definition update ::
  "string \<Rightarrow> bool \<Rightarrow> disk \<Rightarrow> (string \<times> string option) list \<Rightarrow> config_error option \<times> disk" where
  "update dflt wr d values =
     (case uci_load d of
        Inl e \<Rightarrow> (Some e, d)
      | Inr f \<Rightarrow>
          (let f1 = (if has_section f section_name then f
                     else ensure_section (if d = Missing then parse dflt else f)
                            section_type section_name)
           in case apply_values get set_option section_name (sort_key fst values) f1 of
                Inl e \<Rightarrow> (Some (EditFailed e), d)
              | Inr f2 \<Rightarrow> if wr then (None, Content (bytes_of f2)) else (Some WriteFailed, d)))"

definition save_credentials ::
  "string \<Rightarrow> bool \<Rightarrow> disk \<Rightarrow> config \<Rightarrow> string \<Rightarrow> string \<Rightarrow> config_error option \<times> disk \<times> config" where
  "save_credentials dflt wr d c aid secret =
     (case update dflt wr d [(''agent_id'', Some aid), (''agent_secret'', Some secret),
                             (''join_token'', None)] of
        (Some e, d') \<Rightarrow> (Some e, d', c)
      | (None, d') \<Rightarrow>
          (None, d', c\<lparr>c_agent_id := aid, c_agent_secret := secret, c_join_token := []\<rparr>))"

definition clear_credentials ::
  "string \<Rightarrow> bool \<Rightarrow> disk \<Rightarrow> config \<Rightarrow> config_error option \<times> disk \<times> config" where
  "clear_credentials dflt wr d c =
     (case update dflt wr d [(''agent_id'', None), (''agent_secret'', None)] of
        (Some e, d') \<Rightarrow> (Some e, d', c)
      | (None, d') \<Rightarrow> (None, d', c\<lparr>c_agent_id := [], c_agent_secret := []\<rparr>))"


section \<open>Bounds of a loaded configuration\<close>

lemma parse_access_range: "parse_access v \<in> {''none'', ''read'', ''write''}"
  by (simp add: parse_access_def Let_def)

lemma parse_seconds_range:
  "lo \<le> def \<Longrightarrow> def \<le> hi \<Longrightarrow> lo \<le> parse_seconds w v def lo hi \<and> parse_seconds w v def lo hi \<le> hi"
  by (auto simp: parse_seconds_def split: option.splits)

lemma sort_allowed_inv:
  "sort_allowed ns allow ignored = (a, i) \<Longrightarrow> distinct allow \<Longrightarrow> set allow \<subseteq> set wifi_configurable \<Longrightarrow>
   set ignored \<inter> set wifi_configurable = {} \<Longrightarrow>
   distinct a \<and> set a \<subseteq> set wifi_configurable \<and> set i \<inter> set wifi_configurable = {}"
  by (induction ns allow ignored rule: sort_allowed.induct) (auto simp: Let_def split: if_splits)

text \<open>whatever the file holds, a configuration that loads allows the controller only
  none, read or write, lists each of wireless and network at most once and nothing else,
  reports the other names as ignored, and keeps the confirm window within 30 to 1800
  seconds.\<close>

theorem load_bounds:
  assumes "load w norm path f = Inr c"
  shows "c_wifi_config c \<in> {''none'', ''read'', ''write''}
    \<and> set (c_wifi_config_allow c) \<subseteq> {''wireless'', ''network''} \<and> distinct (c_wifi_config_allow c)
    \<and> set (c_wifi_config_ignored c) \<inter> {''wireless'', ''network''} = {}
    \<and> 30 \<le> c_wifi_config_confirm_max c \<and> c_wifi_config_confirm_max c \<le> 1800"
proof -
  obtain a i where ai: "sort_allowed (wifi_allow_list f) [] [] = (a, i)"
    by (cases "sort_allowed (wifi_allow_list f) [] []")
  have inv: "distinct a \<and> set a \<subseteq> set wifi_configurable \<and> set i \<inter> set wifi_configurable = {}"
    using sort_allowed_inv[OF ai] by simp
  have c: "c_wifi_config c = parse_access (opt_value f ''wifi_config'' ''none'')"
    "c_wifi_config_allow c = a" "c_wifi_config_ignored c = i"
    "c_wifi_config_confirm_max c = parse_seconds w (opt_value f ''wifi_config_confirm_max'' [])
       default_confirm_max min_confirm_max max_confirm_max"
    using assms ai by (auto simp: load_def Let_def split: if_splits sum.splits)
  have "c_wifi_config c \<in> {''none'', ''read'', ''write''}"
    using parse_access_range c(1) by metis
  moreover have "30 \<le> c_wifi_config_confirm_max c \<and> c_wifi_config_confirm_max c \<le> 1800"
    unfolding c(4) min_confirm_max_def default_confirm_max_def max_confirm_max_def
    by (rule parse_seconds_range) simp_all
  ultimately show ?thesis
    using inv c by (auto simp: wifi_configurable_def)
qed

definition sample_config_file :: string where
  "sample_config_file =
     ''config agent '' @ quote ''main'' @ [CHR 0x0A]
     @ CHR 0x09 # ''option agent_id '' @ quote [] @ [CHR 0x0A]
     @ CHR 0x09 # ''option agent_secret '' @ quote [] @ [CHR 0x0A]
     @ CHR 0x09 # ''option join_token '' @ quote ''mlap_1'' @ [CHR 0x0A]
     @ CHR 0x09 # ''option wifi_config '' @ quote ''read'' @ [CHR 0x0A]"

section \<open>Credentials\<close>

definition credential_values :: "string \<Rightarrow> string \<Rightarrow> (string \<times> string option) list" where
  "credential_values aid secret =
     [(''agent_id'', Some aid), (''agent_secret'', Some secret), (''join_token'', None)]"

lemma sort_credential_values:
  "sort_key fst (credential_values aid secret) = credential_values aid secret"
  by (simp add: credential_values_def less_list_code less_char_def)

lemma valid_credential_keys:
  "\<forall>kv \<in> set (credential_values aid secret). valid_name (fst kv)"
  by (simp add: credential_values_def) code_simp


lemma opt_value_after_credentials:
  assumes "apply_values get set_option section_name (credential_values aid secret) f = Inr f'"
  shows "opt_value f' opt dflt =
     (if opt = ''agent_id'' then trim_space aid
      else if opt = ''agent_secret'' then trim_space secret
      else if opt = ''join_token'' then (if get f section_name opt = None then dflt else [])
      else opt_value f opt dflt)"
proof -
  have "distinct (map fst (credential_values aid secret))"
    by (simp add: credential_values_def)
  from uci.apply_values_get[OF assms this] show ?thesis
    by (auto simp: opt_value_def value_after_def credential_values_def trim_space_def
        split: option.splits)
qed

lemma load_after_credentials:
  assumes "apply_values get set_option section_name (credential_values aid secret) f = Inr f'"
    and "load w norm path f = Inr c" and "trim_space aid = aid" and "trim_space secret = secret"
  shows "load w norm path f'
    = Inr (c\<lparr>c_agent_id := aid, c_agent_secret := secret, c_join_token := []\<rparr>)"
proof -
  note ov = opt_value_after_credentials[OF assms(1)]
  have allow: "wifi_allow_list f' = wifi_allow_list f"
    by (simp add: wifi_allow_list_def uci.apply_values_lists[OF assms(1)] ov cong: if_cong)
  show ?thesis
    using assms(2-4)
    by (auto simp: load_def Let_def ov allow uci.apply_values_lists[OF assms(1)]
        split: if_splits sum.splits prod.splits)
qed

lemma update_credentials:
  assumes "clean (parse d)" and "has_section (parse d) section_name"
    and "one_line aid" and "one_line secret"
  obtains f' where
    "apply_values get set_option section_name (credential_values aid secret) (parse d) = Inr f'"
    "update dflt True (Content d) (credential_values aid secret) = (None, Content (bytes_of f'))"
    "parse (bytes_of f') = f'"
proof -
  obtain f' where f': "apply_values get set_option section_name (credential_values aid secret)
      (parse d) = Inr f'"
    using uci.apply_values_total[OF parsed_parse assms(2) valid_credential_keys] by blast
  have "parsed f'"
    using uci.apply_values_keeps[OF f' parsed_parse] by blast
  moreover have "clean f'"
    using clean_apply_values[OF f' assms(1)] assms(3,4) by (simp add: credential_values_def)
  ultimately have "parse (bytes_of f') = f'"
    by (rule parse_bytes_of)
  with f' assms(2) show thesis
    by (intro that) (simp_all add: update_def sort_credential_values)
qed

text \<open>C39: after a join, the configuration the daemon goes on with (the new credentials, no
  join token, everything else unchanged) is the one it reads back from the file at its next
  start, for credentials that are one line without surrounding white space.\<close>

theorem save_credentials_reload:
  assumes "clean (parse d)" and "has_section (parse d) ''main''"
    and "one_line aid" and "one_line secret"
    and "trim_space aid = aid" and "trim_space secret = secret"
    and "load w norm path (parse d) = Inr c"
  shows "\<exists>d' c'. save_credentials dflt True (Content d) c aid secret = (None, Content d', c')
    \<and> c' = c\<lparr>c_agent_id := aid, c_agent_secret := secret, c_join_token := []\<rparr>
    \<and> load_disk w norm path (Content d') = Inr c'"
proof -
  from assms(2) have sec: "has_section (parse d) section_name"
    by (simp add: section_name_def)
  obtain f' where f': "apply_values get set_option section_name (credential_values aid secret)
        (parse d) = Inr f'"
    and u: "update dflt True (Content d) (credential_values aid secret)
        = (None, Content (bytes_of f'))"
    and p: "parse (bytes_of f') = f'"
    using update_credentials[OF assms(1) sec assms(3,4)] .
  from load_after_credentials[OF f' assms(7,5,6)] u p show ?thesis
    by (simp add: save_credentials_def load_disk_def credential_values_def)
qed

text \<open>A value with a line feed is not kept as a value. The agent secret of a join
  response is written verbatim between the quotes, so a secret of two lines ends up as a
  file whose second line is an option of its own: here the file that allowed the controller
  only to read the Wi-Fi configuration comes back allowing it to write.\<close>

theorem join_secret_injects_option:
  "(case load 32 Inr ''p'' (parse sample_config_file) of Inl _ \<Rightarrow> False
    | Inr c \<Rightarrow> c_wifi_config c = ''read'' \<and>
        (case save_credentials [] True (Content sample_config_file) c ''a1''
                (''s'' @ [CHR 0x0A] @ ''option wifi_config write #'') of
           (None, d', c') \<Rightarrow>
             (case load_disk 32 Inr ''p'' d' of Inl _ \<Rightarrow> False
              | Inr c'' \<Rightarrow> c_wifi_config c' = ''read'' \<and> c_wifi_config c'' = ''write'')
         | _ \<Rightarrow> False))"
  by code_simp


lemma sample_config_loads: "\<exists>c. load 32 Inr ''p'' (parse sample_config_file) = Inr c"
proof -
  have "\<not> isl (load 32 Inr ''p'' (parse sample_config_file))" by code_simp
  then show ?thesis by (cases "load 32 Inr ''p'' (parse sample_config_file)") auto
qed

theorem load_bounds_witness:
  "\<exists>c. load 32 Inr ''p'' (parse sample_config_file) = Inr c
     \<and> c_wifi_config c \<in> {''none'', ''read'', ''write''} \<and> 30 \<le> c_wifi_config_confirm_max c"
  using sample_config_loads load_bounds by blast

theorem save_credentials_reload_witness:
  "\<exists>c d' c'. load 32 Inr ''p'' (parse sample_config_file) = Inr c
     \<and> save_credentials [] True (Content sample_config_file) c ''a1'' ''s e''
         = (None, Content d', c')
     \<and> c_agent_secret c' = ''s e'' \<and> load_disk 32 Inr ''p'' (Content d') = Inr c'"
proof -
  obtain c where c: "load 32 Inr ''p'' (parse sample_config_file) = Inr c"
    using sample_config_loads by blast
  have "clean (parse sample_config_file)" "has_section (parse sample_config_file) ''main''"
    "one_line ''a1''" "one_line ''s e''" "trim_space ''a1'' = ''a1''" "trim_space ''s e'' = ''s e''"
    by code_simp+
  from save_credentials_reload[OF this c, of "[]"] c show ?thesis
    by (auto intro!: exI[of _ c])
qed

end
