(* ===== verification/UciKit.thy ===== *)
theory UciKit
  imports Prelude
begin

text \<open>
  The configuration model of perch-agentkit (\<open>openwrt/uci\<close>), a third-party package whose
  code is not part of the repository. Its data has the fields the daemon reads and writes
  (\<open>Value.IsList\<close>, \<open>Value.Items\<close>, \<open>Section.Name\<close>, \<open>Type\<close>, \<open>Anonymous\<close>, \<open>Options\<close>,
  \<open>Config.Name\<close>, \<open>Config.Sections\<close>); its functions are the fields of a record \<open>kit\<close>, an
  argument of every definition that uses them. A \<open>*Section\<close> is its position in the
  configuration's sections.

  \<open>kit_ok\<close> states the documented behaviour the daemon relies on; \<open>plain_kit\<close> is a concrete
  instance, which the witnesses use.
\<close>

section \<open>Data and operations\<close>

record uvalue =
  is_list :: bool
  items :: "string list"

record uoption =
  o_name :: string
  o_value :: uvalue

record usection =
  s_name :: string
  s_type :: string
  s_anonymous :: bool
  s_options :: "uoption list"

record uconfig =
  cfg_name :: string
  cfg_sections :: "usection list"

record kit =
  k_string :: "string \<Rightarrow> uvalue"
  k_list :: "string list \<Rightarrow> uvalue"
  k_str :: "uvalue \<Rightarrow> string"
  k_get :: "usection \<Rightarrow> string \<Rightarrow> uvalue option"
  k_set :: "usection \<Rightarrow> string \<Rightarrow> uvalue \<Rightarrow> usection"
  k_delete :: "usection \<Rightarrow> string \<Rightarrow> usection"
  k_section :: "uconfig \<Rightarrow> string \<Rightarrow> nat option"
  k_of_type :: "uconfig \<Rightarrow> string \<Rightarrow> nat list"
  k_clone :: "uconfig \<Rightarrow> uconfig"
  k_reindex :: "uconfig \<Rightarrow> uconfig"

definition option_pairs :: "usection \<Rightarrow> (string \<times> uvalue) list" where
  "option_pairs s = map (\<lambda>p. (o_name p, o_value p)) (s_options s)"

definition same_header :: "usection \<Rightarrow> usection \<Rightarrow> bool" where
  "same_header s t \<longleftrightarrow> s_type s = s_type t \<and> s_anonymous s = s_anonymous t
     \<and> (\<not> s_anonymous s \<longrightarrow> s_name s = s_name t)"

definition kit_values_ok :: "kit \<Rightarrow> bool" where
  "kit_values_ok K \<longleftrightarrow> (\<forall>s. k_str K (k_string K s) = s \<and> \<not> is_list (k_string K s))
     \<and> (\<forall>xs. is_list (k_list K xs) \<and> items (k_list K xs) = xs)"

definition kit_sections_ok :: "kit \<Rightarrow> bool" where
  "kit_sections_ok K \<longleftrightarrow>
     (\<forall>s n v. k_get K (k_set K s n v) n = Some v)
   \<and> (\<forall>s n v m. m \<noteq> n \<longrightarrow> k_get K (k_set K s n v) m = k_get K s m)
   \<and> (\<forall>s n. k_get K (k_delete K s n) n = None)
   \<and> (\<forall>s n m. m \<noteq> n \<longrightarrow> k_get K (k_delete K s n) m = k_get K s m)
   \<and> (\<forall>s n v. s_name (k_set K s n v) = s_name s \<and> same_header (k_set K s n v) s)
   \<and> (\<forall>s n. s_name (k_delete K s n) = s_name s \<and> same_header (k_delete K s n) s)
   \<and> (\<forall>s n. distinct (map o_name (s_options s)) \<longrightarrow> k_get K s n = map_of (option_pairs s) n)"

definition kit_configs_ok :: "kit \<Rightarrow> bool" where
  "kit_configs_ok K \<longleftrightarrow>
     (\<forall>c n. k_section K c n = None \<longrightarrow> n \<notin> s_name ` set (cfg_sections c))
   \<and> (\<forall>c n i. k_section K c n = Some i \<longrightarrow>
        i < length (cfg_sections c) \<and> s_name (cfg_sections c ! i) = n)
   \<and> (\<forall>c t. k_of_type K c t =
        filter (\<lambda>i. s_type (cfg_sections c ! i) = t) [0..<length (cfg_sections c)])
   \<and> (\<forall>c. k_clone K c = c)
   \<and> (\<forall>c. cfg_name (k_reindex K c) = cfg_name c \<and>
        list_all2 (\<lambda>s t. same_header s t \<and> s_options s = s_options t
                    \<and> (\<forall>n. k_get K s n = k_get K t n))
          (cfg_sections c) (cfg_sections (k_reindex K c)))"

definition kit_ok :: "kit \<Rightarrow> bool" where
  "kit_ok K \<longleftrightarrow> kit_values_ok K \<and> kit_sections_ok K \<and> kit_configs_ok K"

text \<open>\<open>str\<close> and \<open>listOf\<close> of the source: an option's text, and its words.\<close>

definition opt_str :: "kit \<Rightarrow> usection \<Rightarrow> string \<Rightarrow> string" where
  "opt_str K s name = (case k_get K s name of Some v \<Rightarrow> k_str K v | None \<Rightarrow> [])"

definition opt_list :: "kit \<Rightarrow> usection \<Rightarrow> string \<Rightarrow> string list" where
  "opt_list K s name =
     (case k_get K s name of
        Some v \<Rightarrow> if is_list v then items v else go_fields (k_str K v)
      | None \<Rightarrow> [])"

text \<open>A change of the section a pointer points to.\<close>

definition update_at :: "nat \<Rightarrow> (usection \<Rightarrow> usection) \<Rightarrow> uconfig \<Rightarrow> uconfig" where
  "update_at i g c = c\<lparr>cfg_sections := (cfg_sections c)[i := g (cfg_sections c ! i)]\<rparr>"

lemma update_at_simps [simp]:
  "cfg_name (update_at i g c) = cfg_name c"
  "length (cfg_sections (update_at i g c)) = length (cfg_sections c)"
  by (simp_all add: update_at_def)

section \<open>A plain instance\<close>

definition plain_get :: "usection \<Rightarrow> string \<Rightarrow> uvalue option" where
  "plain_get s n = map_of (option_pairs s) n"

definition plain_set :: "usection \<Rightarrow> string \<Rightarrow> uvalue \<Rightarrow> usection" where
  "plain_set s n v =
     s\<lparr>s_options := filter (\<lambda>p. o_name p \<noteq> n) (s_options s) @ [\<lparr>o_name = n, o_value = v\<rparr>]\<rparr>"

definition plain_delete :: "usection \<Rightarrow> string \<Rightarrow> usection" where
  "plain_delete s n = s\<lparr>s_options := filter (\<lambda>p. o_name p \<noteq> n) (s_options s)\<rparr>"

definition plain_kit :: kit where
  "plain_kit = \<lparr>k_string = (\<lambda>s. \<lparr>is_list = False, items = [s]\<rparr>),
     k_list = (\<lambda>xs. \<lparr>is_list = True, items = xs\<rparr>),
     k_str = (\<lambda>v. join '' '' (items v)),
     k_get = plain_get, k_set = plain_set, k_delete = plain_delete,
     k_section = (\<lambda>c n. find_index (\<lambda>s. s_name s = n) (cfg_sections c)),
     k_of_type = (\<lambda>c t. filter (\<lambda>i. s_type (cfg_sections c ! i) = t) [0..<length (cfg_sections c)]),
     k_clone = (\<lambda>c. c), k_reindex = (\<lambda>c. c)\<rparr>"

lemma map_of_option_filter:
  "map_of (map (\<lambda>p. (o_name p, o_value p)) (filter (\<lambda>p. o_name p \<noteq> n) ps)) m =
     (if m = n then None else map_of (map (\<lambda>p. (o_name p, o_value p)) ps) m)"
  by (induction ps) auto

lemma kit_ok_plain: "kit_ok plain_kit"
proof -
  have "kit_values_ok plain_kit"
    by (simp add: kit_values_ok_def plain_kit_def)
  moreover have "kit_sections_ok plain_kit"
    by (simp add: kit_sections_ok_def plain_kit_def plain_get_def plain_set_def plain_delete_def
        option_pairs_def map_of_option_filter same_header_def map_add_def split: option.split)
  moreover have "kit_configs_ok plain_kit"
    by (auto simp: kit_configs_ok_def plain_kit_def find_index_None same_header_def
        dest: find_index_Some intro: list_all2_refl)
  ultimately show ?thesis by (simp add: kit_ok_def)
qed

section \<open>The laws as rules\<close>

lemma kit_str_string: "kit_ok K \<Longrightarrow> k_str K (k_string K s) = s"
  unfolding kit_ok_def kit_values_ok_def by blast

lemma kit_list_items: "kit_ok K \<Longrightarrow> is_list (k_list K xs) \<and> items (k_list K xs) = xs"
  unfolding kit_ok_def kit_values_ok_def by blast

lemma kit_get_set:
  assumes "kit_ok K"
  shows "k_get K (k_set K s n v) m = (if m = n then Some v else k_get K s m)"
proof -
  have "kit_sections_ok K" using assms by (rule kit_ok_def[THEN iffD1, THEN conjunct2, THEN conjunct1])
  note laws = this[unfolded kit_sections_ok_def]
  show ?thesis
    using laws[THEN conjunct1, rule_format, of s n v]
      laws[THEN conjunct2, THEN conjunct1, rule_format, of m n s v]
    by (cases "m = n") simp_all
qed

lemma kit_get_delete:
  assumes "kit_ok K"
  shows "k_get K (k_delete K s n) m = (if m = n then None else k_get K s m)"
proof -
  have "kit_sections_ok K" using assms by (rule kit_ok_def[THEN iffD1, THEN conjunct2, THEN conjunct1])
  note laws = this[unfolded kit_sections_ok_def, THEN conjunct2, THEN conjunct2]
  show ?thesis
    using laws[THEN conjunct1, rule_format, of s n]
      laws[THEN conjunct2, THEN conjunct1, rule_format, of m n s]
    by (cases "m = n") simp_all
qed

lemma kit_set_name [simp]:
  "kit_ok K \<Longrightarrow> s_name (k_set K s n v) = s_name s"
  "kit_ok K \<Longrightarrow> s_name (k_delete K s n) = s_name s"
  unfolding kit_ok_def kit_sections_ok_def by blast+

lemma kit_set_header:
  "kit_ok K \<Longrightarrow> same_header (k_set K s n v) s"
  "kit_ok K \<Longrightarrow> same_header (k_delete K s n) s"
  unfolding kit_ok_def kit_sections_ok_def by blast+

lemma kit_get_literal:
  "kit_ok K \<Longrightarrow> distinct (map o_name (s_options s)) \<Longrightarrow> k_get K s n = map_of (option_pairs s) n"
  unfolding kit_ok_def kit_sections_ok_def by blast

lemma kit_section_Some:
  "kit_ok K \<Longrightarrow> k_section K c n = Some i \<Longrightarrow>
   i < length (cfg_sections c) \<and> s_name (cfg_sections c ! i) = n"
  unfolding kit_ok_def kit_configs_ok_def by blast

lemma kit_section_None:
  "kit_ok K \<Longrightarrow> k_section K c n = None \<longleftrightarrow> n \<notin> s_name ` set (cfg_sections c)"
proof (cases "k_section K c n")
  case None
  assume "kit_ok K"
  then have "\<forall>c n. k_section K c n = None \<longrightarrow> n \<notin> s_name ` set (cfg_sections c)"
    unfolding kit_ok_def kit_configs_ok_def by blast
  with None show ?thesis by blast
next
  case (Some i)
  assume "kit_ok K"
  from kit_section_Some[OF this Some] have "n \<in> s_name ` set (cfg_sections c)"
    by (auto intro!: rev_image_eqI[of "cfg_sections c ! i"])
  with Some show ?thesis by simp
qed

lemma kit_of_type:
  "kit_ok K \<Longrightarrow> k_of_type K c t =
     filter (\<lambda>i. s_type (cfg_sections c ! i) = t) [0..<length (cfg_sections c)]"
  unfolding kit_ok_def kit_configs_ok_def by blast

lemma kit_of_type_iff:
  "kit_ok K \<Longrightarrow> i \<in> set (k_of_type K c t) \<longleftrightarrow>
     i < length (cfg_sections c) \<and> s_type (cfg_sections c ! i) = t"
  by (auto simp: kit_of_type)

lemma kit_clone [simp]: "kit_ok K \<Longrightarrow> k_clone K c = c"
  unfolding kit_ok_def kit_configs_ok_def by blast

lemma kit_reindex:
  "kit_ok K \<Longrightarrow> list_all2 (\<lambda>s t. same_header s t \<and> s_options s = s_options t
       \<and> (\<forall>n. k_get K s n = k_get K t n)) (cfg_sections c) (cfg_sections (k_reindex K c))"
  unfolding kit_ok_def kit_configs_ok_def by blast

lemma kit_reindex_name [simp]: "kit_ok K \<Longrightarrow> cfg_name (k_reindex K c) = cfg_name c"
  unfolding kit_ok_def kit_configs_ok_def by blast

section \<open>Sections that agree but for some options\<close>

text \<open>\<open>same_but K opts s t\<close>: the two sections have the same header and the same value of
  every option outside \<open>opts\<close>. \<open>sections_but\<close> lifts it to configurations.\<close>

definition same_but :: "kit \<Rightarrow> string set \<Rightarrow> usection \<Rightarrow> usection \<Rightarrow> bool" where
  "same_but K opts s t \<longleftrightarrow> same_header s t \<and> (\<forall>n. n \<notin> opts \<longrightarrow> k_get K s n = k_get K t n)"

lemma same_header_refl [simp]: "same_header s s"
  by (simp add: same_header_def)

lemma same_but_refl [simp]: "same_but K opts s s"
  by (simp add: same_but_def)

lemma same_but_trans: "same_but K opts s t \<Longrightarrow> same_but K opts t u \<Longrightarrow> same_but K opts s u"
  by (auto simp: same_but_def same_header_def)

lemma same_but_set:
  "kit_ok K \<Longrightarrow> n \<in> opts \<Longrightarrow> same_but K opts s (k_set K s n v)"
  "kit_ok K \<Longrightarrow> n \<in> opts \<Longrightarrow> same_but K opts s (k_delete K s n)"
  using kit_set_header[of K s n]
  by (auto simp: same_but_def kit_get_set kit_get_delete same_header_def)

lemma same_but_all_refl [simp]: "list_all2 (same_but K opts) xs xs"
  by (rule list_all2_refl) simp

lemma same_but_all_trans:
  "list_all2 (same_but K opts) xs ys \<Longrightarrow> list_all2 (same_but K opts) ys zs \<Longrightarrow>
   list_all2 (same_but K opts) xs zs"
  by (rule list_all2_trans[OF same_but_trans])

lemma same_but_reindex:
  "kit_ok K \<Longrightarrow> list_all2 (same_but K opts) (cfg_sections c) (cfg_sections (k_reindex K c))"
  using kit_reindex[of K c] by (rule list_all2_mono) (simp_all add: same_but_def)

lemma same_but_update:
  assumes "list_all2 (same_but K opts) xs ys" and "i < length ys" and "same_but K opts (ys ! i) z"
  shows "list_all2 (same_but K opts) xs (ys[i := z])"
  using assms
  by (auto simp: list_all2_conv_all_nth nth_list_update intro: same_but_trans)

end
