(* ===== verification/GroupsPlan.thy ===== *)
theory GroupsPlan
  imports UciKit
begin

text \<open>
  The device-groups planner, \<open>internal/groups/plan.go\<close>: the desired state and its
  validation, the names the engine owns, \<open>undo\<close> of the previous plan, and \<open>Plan\<close>, which
  turns the wireless and network configurations into new ones. The steps of \<open>Plan\<close> are
  functions on a planner state (\<open>pstate\<close>), in the order of the code. Refusals carry the
  machine code, not the message; issues are values with what their message names. Go maps
  of the ledger (\<open>DynamicVLAN\<close>, \<open>Moved\<close>) are association lists, in the order an iteration
  visits them. \<open>digest\<close> is the SHA-256 digest in hex. A nil pointer that is dereferenced is
  the outcome \<open>NilDereference\<close>.

  What the lemmas show is in \<open>GroupsPlanProps\<close>.
\<close>

section \<open>Data\<close>

record station =
  st_key :: string
  st_vid :: int
  st_macs :: "string list"

record desired =
  d_revision :: int
  d_confirm_seconds :: int
  d_trunk :: string
  d_ssids :: "string list"
  d_vlans :: "int list"
  d_stations :: "station list"

record conversion =
  cv_bridge :: string
  cv_untagged :: int
  cv_moved :: "(string \<times> string) list"

record ledger =
  l_owned :: "string list option"  \<comment> \<open>\<open>None\<close>: a ledger without the list\<close>
  l_dynamic :: "(string \<times> string) list"
  l_converted :: "conversion option"

record refusal =
  r_code :: string
  r_reason :: string

definition refuse :: "string \<Rightarrow> refusal" where
  "refuse code = \<lparr>r_code = code, r_reason = []\<rparr>"

datatype plan_error = Refused refusal | NilDereference

datatype issue =
    NoPassphrase string string
  | AnonymousSection string string
  | AlreadyOnBridge int string
  | NotTagged int string string
  | OwnPassphraseKey string
  | NoUsablePassphrase string

record plan_result =
  res_wireless :: uconfig
  res_network :: uconfig
  res_ledger :: ledger
  res_trunk_port :: string
  res_bridge :: string
  res_converted :: bool
  res_managed :: "string list"
  res_issues :: "issue list"
  res_binding_keys :: "string list"

section \<open>Names\<close>

definition perch_prefix :: string where "perch_prefix = ''perch_''"

definition vlan_name :: "string \<Rightarrow> int \<Rightarrow> string" where
  "vlan_name kindtag v = perch_prefix @ kindtag @ itoa_int v"

definition bvu_name :: string where "bvu_name = perch_prefix @ ''bvu''"

fun owned_numbered :: "string list \<Rightarrow> string \<Rightarrow> bool" where
  "owned_numbered [] rest = False"
| "owned_numbered (p # ps) rest =
     (case cut_prefix p rest of
        Some n \<Rightarrow> all_digits n \<or> owned_numbered ps rest
      | None \<Rightarrow> owned_numbered ps rest)"

definition owned_name :: "string \<Rightarrow> bool" where
  "owned_name name =
     (case cut_prefix perch_prefix name of
        None \<Rightarrow> False
      | Some rest \<Rightarrow>
          if rest = ''bvu'' then True
          else if owned_numbered [''ws'', ''bv'', ''dv'', ''bd'', ''v''] rest then True
          else (case cut_prefix ''wv'' rest of
                  None \<Rightarrow> False
                | Some n \<Rightarrow>
                    (let (vid, iface, found) = cut_at (CHR ''_'') n
                     in found \<and> all_digits vid \<and> iface \<noteq> [] \<and> trim is_word_char iface = [])))"

fun short_name_from :: "nat \<Rightarrow> string \<Rightarrow> string" where
  "short_name_from n [] = []"
| "short_name_from n (c # cs) =
     (if n \<ge> 24 then []
      else if is_word_char c then c # short_name_from (Suc n) cs else short_name_from n cs)"

definition short_name :: "string \<Rightarrow> string" where
  "short_name s = short_name_from 0 s"

section \<open>Validation\<close>

definition max_vlans :: nat where "max_vlans = 256"
definition max_stations :: nat where "max_stations = 4096"

definition valid_mac :: "string \<Rightarrow> bool" where
  "valid_mac s \<longleftrightarrow> length s = 17 \<and>
     (\<forall>i \<in> set [0..<17].
        if i mod 3 = 2 then s ! i = CHR '':''
        else is_digit (s ! i) \<or> CHR ''a'' \<le> s ! i \<and> s ! i \<le> CHR ''f'')"

definition valid_key :: "string \<Rightarrow> bool" where
  "valid_key k \<longleftrightarrow> \<not> (length k < 8 \<or> length k > 63)
     \<and> list_all (\<lambda>c. \<not> (c < CHR '' '' \<or> c > CHR ''~'')) k"

definition psk_encryption :: "string \<Rightarrow> bool" where
  "psk_encryption enc \<longleftrightarrow> prefix ''psk'' enc \<or> prefix ''sae'' enc"

definition valid_ifname :: "string \<Rightarrow> bool" where
  "valid_ifname s \<longleftrightarrow> \<not> (length s < 1 \<or> length s > 15)
     \<and> list_all (\<lambda>c. is_lower c \<or> is_upper c \<or> is_digit c \<or> c \<in> set ''.-_@'') s"

text \<open>The loop over the VLANs: the ids seen, or the refusal.\<close>

fun validate_vlans :: "int list \<Rightarrow> int list \<Rightarrow> refusal + int list" where
  "validate_vlans seen [] = Inr seen"
| "validate_vlans seen (v # vs) =
     (if v < 1 \<or> v > 4094 then Inl (refuse ''bad_params'')
      else if v \<in> set seen then Inl (refuse ''bad_params'')
      else validate_vlans (seen @ [v]) vs)"

definition validate_station :: "int list \<Rightarrow> station \<Rightarrow> bool" where
  "validate_station seen st \<longleftrightarrow>
     st_vid st \<in> set seen
     \<and> \<not> (st_key st \<noteq> [] \<and> \<not> valid_key (st_key st))
     \<and> \<not> (st_key st = [] \<and> st_macs st = [])
     \<and> list_all valid_mac (st_macs st)"

definition validate :: "desired \<Rightarrow> refusal option" where
  "validate d =
     (if d_revision d < 1 then Some (refuse ''bad_params'')
      else if length (d_vlans d) > max_vlans \<or> length (d_stations d) > max_stations
              \<or> sum_list (map (\<lambda>st. length (st_macs st)) (d_stations d)) > max_stations
      then Some (refuse ''bad_params'')
      else case validate_vlans [] (d_vlans d) of
        Inl r \<Rightarrow> Some r
      | Inr seen \<Rightarrow>
          if \<not> list_all (validate_station seen) (d_stations d) then Some (refuse ''bad_params'')
          else if \<not> list_all (\<lambda>s. 1 \<le> length s \<and> length s \<le> 32) (d_ssids d)
          then Some (refuse ''bad_params'')
          else if d_trunk d \<noteq> [] \<and> d_trunk d \<noteq> ''auto'' \<and> \<not> valid_ifname (d_trunk d)
          then Some (refuse ''bad_params'')
          else None)"

section \<open>Undoing the previous plan\<close>

definition owned_set :: "ledger \<Rightarrow> uconfig \<Rightarrow> uconfig \<Rightarrow> string list" where
  "owned_set prev w n =
     (case l_owned prev of
        Some names \<Rightarrow> names
      | None \<Rightarrow> map s_name (filter (\<lambda>s. \<not> s_anonymous s \<and> owned_name (s_name s))
                  (cfg_sections w @ cfg_sections n)))"

definition sections_at :: "uconfig \<Rightarrow> nat list \<Rightarrow> usection list" where
  "sections_at c is = map ((!) (cfg_sections c)) is"

definition bridge_vlans :: "kit \<Rightarrow> uconfig \<Rightarrow> string \<Rightarrow> usection list" where
  "bridge_vlans K n bridge =
     filter (\<lambda>s. opt_str K s ''device'' = bridge) (sections_at n (k_of_type K n ''bridge-vlan''))"

definition drop_owned :: "string list \<Rightarrow> uconfig \<Rightarrow> uconfig" where
  "drop_owned owned c =
     c\<lparr>cfg_sections := filter (\<lambda>s. s_anonymous s \<or> s_name s \<notin> set owned) (cfg_sections c)\<rparr>"

fun restore_dynamic :: "kit \<Rightarrow> (string \<times> string) list \<Rightarrow> uconfig \<Rightarrow> uconfig" where
  "restore_dynamic K [] w = w"
| "restore_dynamic K ((name, was) # rest) w =
     restore_dynamic K rest
       (case k_section K w name of
          None \<Rightarrow> w
        | Some i \<Rightarrow>
            if was = [] then update_at i (\<lambda>s. k_delete K s ''dynamic_vlan'') w
            else update_at i (\<lambda>s. k_set K s ''dynamic_vlan'' (k_string K was)) w)"

definition vlan_device :: "string \<Rightarrow> int \<Rightarrow> string" where
  "vlan_device dev v = dev @ ''.'' @ itoa_int v"

fun restore_moved :: "kit \<Rightarrow> conversion \<Rightarrow> (string \<times> string) list \<Rightarrow> uconfig \<Rightarrow> uconfig" where
  "restore_moved K c [] n = n"
| "restore_moved K c ((name, dev) # rest) n =
     restore_moved K c rest
       (case k_section K n name of
          None \<Rightarrow> n
        | Some i \<Rightarrow>
            if opt_str K (cfg_sections n ! i) ''device'' = vlan_device (cv_bridge c) (cv_untagged c)
            then update_at i (\<lambda>s. k_set K s ''device'' (k_string K dev)) n
            else n)"

text \<open>Whether the conversion stays: the bridge carries a VLAN the engine does not own.\<close>

definition kept_conversion :: "kit \<Rightarrow> uconfig \<Rightarrow> uconfig \<Rightarrow> ledger \<Rightarrow> conversion option" where
  "kept_conversion K w n prev =
     (case l_converted prev of
        None \<Rightarrow> None
      | Some c \<Rightarrow>
          if list_ex (\<lambda>s. s_name s \<notin> set (owned_set prev w n)) (bridge_vlans K n (cv_bridge c))
          then Some c else None)"

definition owned_dropped :: "kit \<Rightarrow> uconfig \<Rightarrow> uconfig \<Rightarrow> ledger \<Rightarrow> string list" where
  "owned_dropped K w n prev =
     (if kept_conversion K w n prev = None then owned_set prev w n
      else removeAll bvu_name (owned_set prev w n))"

definition undo ::
  "kit \<Rightarrow> uconfig \<Rightarrow> uconfig \<Rightarrow> ledger \<Rightarrow> uconfig \<times> uconfig \<times> conversion option" where
  "undo K w n prev =
     (let kept = kept_conversion K w n prev;
          owned = owned_dropped K w n prev;
          w1 = drop_owned owned w;
          n1 = drop_owned owned n;
          w2 = restore_dynamic K (l_dynamic prev) w1;
          n2 = (case l_converted prev of
                  None \<Rightarrow> n1
                | Some c \<Rightarrow> if kept = None then restore_moved K c (cv_moved c) n1 else n1)
      in (k_reindex K w2, k_reindex K n2, kept))"

section \<open>The planner\<close>

record pstate =
  ps_w :: uconfig
  ps_n :: uconfig
  ps_created :: "string list"
  ps_taken :: string
  ps_issues :: "issue list"
  ps_dynamic :: "(string \<times> string) list"
  ps_managed :: "string list"
  ps_binding_keys :: "string list"
  ps_idx :: nat

definition new_section :: "string \<Rightarrow> string \<Rightarrow> (string \<times> uvalue) list \<Rightarrow> usection" where
  "new_section typ name opts =
     \<lparr>s_name = name, s_type = typ, s_anonymous = False,
      s_options = map (\<lambda>(n, v). \<lparr>o_name = n, o_value = v\<rparr>) opts\<rparr>"

definition append_section :: "usection \<Rightarrow> uconfig \<Rightarrow> uconfig" where
  "append_section s c = c\<lparr>cfg_sections := cfg_sections c @ [s]\<rparr>"

definition note_taken :: "uconfig \<Rightarrow> string \<Rightarrow> pstate \<Rightarrow> pstate" where
  "note_taken c name ps =
     (if ps_taken ps = [] then ps\<lparr>ps_taken := cfg_name c @ ''.'' @ name\<rparr> else ps)"

text \<open>\<open>planner.add\<close> on the wireless and on the network configuration.\<close>

definition add_w :: "kit \<Rightarrow> string \<Rightarrow> string \<Rightarrow> (string \<times> uvalue) list \<Rightarrow> pstate \<Rightarrow> pstate" where
  "add_w K typ name opts ps =
     (if k_section K (ps_w ps) name \<noteq> None then note_taken (ps_w ps) name ps
      else ps\<lparr>ps_w := append_section (new_section typ name opts) (ps_w ps),
              ps_created := ps_created ps @ [name]\<rparr>)"

definition add_n :: "kit \<Rightarrow> string \<Rightarrow> string \<Rightarrow> (string \<times> uvalue) list \<Rightarrow> pstate \<Rightarrow> pstate" where
  "add_n K typ name opts ps =
     (if k_section K (ps_n ps) name \<noteq> None then note_taken (ps_n ps) name ps
      else ps\<lparr>ps_n := append_section (new_section typ name opts) (ps_n ps),
              ps_created := ps_created ps @ [name]\<rparr>)"

definition add_issue :: "issue \<Rightarrow> pstate \<Rightarrow> pstate" where
  "add_issue i ps = ps\<lparr>ps_issues := ps_issues ps @ [i]\<rparr>"

text \<open>The managed interfaces: the loop over the wifi-iface sections.\<close>

fun find_managed ::
  "kit \<Rightarrow> string list \<Rightarrow> usection list \<Rightarrow> (string \<times> string) list \<times> issue list" where
  "find_managed K ssids [] = ([], [])"
| "find_managed K ssids (s # ss) =
     (let (ms, is) = find_managed K ssids ss
      in if opt_str K s ''mode'' \<noteq> ''ap'' \<or> opt_str K s ''ssid'' \<notin> set ssids
            \<or> opt_str K s ''disabled'' = ''1''
         then (ms, is)
         else if \<not> psk_encryption (opt_str K s ''encryption'')
         then (ms, NoPassphrase (s_name s) (opt_str K s ''ssid'') # is)
         else ((s_name s, opt_str K s ''key'') # ms,
               (if s_anonymous s then [AnonymousSection (s_name s) (opt_str K s ''ssid'')] else []) @ is))"

definition bridge_of :: "kit \<Rightarrow> uconfig \<Rightarrow> string \<Rightarrow> nat option" where
  "bridge_of K n port =
     List.find (\<lambda>i. opt_str K (cfg_sections n ! i) ''type'' = ''bridge''
                  \<and> port \<in> set (opt_list K (cfg_sections n ! i) ''ports''))
       (k_of_type K n ''device'')"

definition router_vlan :: "kit \<Rightarrow> uconfig \<Rightarrow> string \<Rightarrow> int \<Rightarrow> string list \<Rightarrow> usection option" where
  "router_vlan K n bridge vid created =
     List.find (\<lambda>s. opt_str K s ''vlan'' = itoa_int vid \<and> s_name s \<notin> set created)
       (bridge_vlans K n bridge)"

definition tagged_member :: "kit \<Rightarrow> usection \<Rightarrow> string \<Rightarrow> bool" where
  "tagged_member K s port =
     list_ex (\<lambda>p. let (name, flags, _) = cut_at (CHR '':'') p
                  in name = port \<and> CHR ''u'' \<notin> set flags)
       (opt_list K s ''ports'')"

text \<open>\<open>for used[untagged] { untagged++ }\<close>.\<close>

function next_free :: "int list \<Rightarrow> int \<Rightarrow> int" where
  "next_free used u = (if u \<in> set used then next_free used (u + 1) else u)"
  by pat_completeness auto
termination
proof (relation "measure (\<lambda>(used, u). card {v \<in> set used. u \<le> v})", simp)
  fix used :: "int list" and u
  assume u: "u \<in> set used"
  have "{v \<in> set used. u + 1 \<le> v} \<subset> {v \<in> set used. u \<le> v}"
    using u by force
  then show "((used, u + 1), (used, u)) \<in> measure (\<lambda>(used, u). card {v \<in> set used. u \<le> v})"
    by (simp add: psubset_card_mono)
qed

declare next_free.simps [simp del]

text \<open>The loop of \<open>convert\<close> over the interface sections (positions \<open>is\<close>).\<close>

fun move_interfaces ::
  "kit \<Rightarrow> string \<Rightarrow> int \<Rightarrow> string list \<Rightarrow> nat list \<Rightarrow> uconfig \<Rightarrow> uconfig \<times> (string \<times> string) list" where
  "move_interfaces K name untagged created [] n = (n, [])"
| "move_interfaces K name untagged created (i # is) n =
     (let s = cfg_sections n ! i
      in if s_name s \<notin> set created \<and> opt_str K s ''device'' = name
         then (let (n', moved) = move_interfaces K name untagged created is
                     (update_at i (\<lambda>s. k_set K s ''device'' (k_string K (vlan_device name untagged))) n)
               in (n', (s_name s, name) # moved))
         else move_interfaces K name untagged created is n)"

definition untagged_start :: "string \<Rightarrow> int list \<Rightarrow> conversion option \<Rightarrow> int" where
  "untagged_start name vids prev =
     (case prev of
        Some c \<Rightarrow> if cv_bridge c = name \<and> cv_untagged c \<notin> set vids then cv_untagged c else 1
      | None \<Rightarrow> 1)"

definition convert ::
  "kit \<Rightarrow> usection \<Rightarrow> int list \<Rightarrow> conversion option \<Rightarrow> pstate \<Rightarrow> plan_error + conversion \<times> pstate" where
  "convert K bridge vids prev ps =
     (let name = opt_str K bridge ''name'';
          untagged = next_free vids (untagged_start name vids prev)
      in if untagged > 4094 then Inl (Refused (refuse ''no_untagged_vlan''))
         else
           (let ports = map (\<lambda>port. port @ '':u*'') (opt_list K bridge ''ports'')
            in if ports = [] then Inl (Refused (refuse ''bridge_empty''))
               else
                 (let ps1 = add_n K ''bridge-vlan'' bvu_name
                              [(''device'', k_string K name),
                               (''vlan'', k_string K (itoa_int untagged)),
                               (''ports'', k_list K ports)] ps;
                      (n', moved) = move_interfaces K name untagged (ps_created ps1)
                                      (k_of_type K (ps_n ps1) ''interface'') (ps_n ps1)
                  in Inr (\<lparr>cv_bridge = name, cv_untagged = untagged, cv_moved = moved\<rparr>,
                          ps1\<lparr>ps_n := n'\<rparr>))))"

definition carry_vlan :: "kit \<Rightarrow> string \<Rightarrow> string \<Rightarrow> int \<Rightarrow> pstate \<Rightarrow> pstate" where
  "carry_vlan K name port v ps =
     (case router_vlan K (ps_n ps) name v (ps_created ps) of
        Some s \<Rightarrow>
          (let ps1 = add_issue (AlreadyOnBridge v name) ps
           in if tagged_member K s port then ps1 else add_issue (NotTagged v name port) ps1)
      | None \<Rightarrow>
          add_n K ''bridge-vlan'' (vlan_name ''bv'' v)
            [(''device'', k_string K name), (''vlan'', k_string K (itoa_int v)),
             (''ports'', k_list K [port @ '':t''])] ps)"

definition vlan_interface :: "kit \<Rightarrow> string \<Rightarrow> int \<Rightarrow> pstate \<Rightarrow> pstate" where
  "vlan_interface K dev v ps =
     add_n K ''interface'' (vlan_name ''v'' v)
       [(''proto'', k_string K ''none''), (''device'', k_string K dev)] ps"

definition vlan_bridge_name :: "int \<Rightarrow> string" where
  "vlan_bridge_name v = ''br-pv'' @ itoa_int v"

definition own_port_vlan :: "kit \<Rightarrow> string \<Rightarrow> int \<Rightarrow> pstate \<Rightarrow> pstate" where
  "own_port_vlan K port v ps =
     (let vdev = vlan_device port v; br = vlan_bridge_name v;
          ps1 = add_n K ''device'' (vlan_name ''dv'' v)
                  [(''type'', k_string K ''8021q''), (''ifname'', k_string K port),
                   (''vid'', k_string K (itoa_int v)), (''name'', k_string K vdev)] ps;
          ps2 = add_n K ''device'' (vlan_name ''bd'' v)
                  [(''type'', k_string K ''bridge''), (''name'', k_string K br),
                   (''ports'', k_list K [vdev])] ps1
      in vlan_interface K br v ps2)"

text \<open>dynamic_vlan on the managed interfaces; \<open>None\<close>: the section is not there.\<close>

fun set_dynamic :: "kit \<Rightarrow> (string \<times> string) list \<Rightarrow> pstate \<Rightarrow> pstate option" where
  "set_dynamic K [] ps = Some ps"
| "set_dynamic K ((name, _) # ms) ps =
     (case k_section K (ps_w ps) name of
        None \<Rightarrow> None
      | Some i \<Rightarrow>
          (let was = opt_str K (cfg_sections (ps_w ps) ! i) ''dynamic_vlan'';
               ps1 = (if was \<noteq> ''1''
                      then ps\<lparr>ps_dynamic := (name, was) # filter (\<lambda>p. fst p \<noteq> name) (ps_dynamic ps),
                              ps_w := update_at i
                                (\<lambda>s. k_set K s ''dynamic_vlan'' (k_string K ''1'')) (ps_w ps)\<rparr>
                      else ps)
           in set_dynamic K ms (ps1\<lparr>ps_managed := ps_managed ps1 @ [name]\<rparr>)))"

definition wifi_vlan :: "kit \<Rightarrow> string \<Rightarrow> int \<Rightarrow> pstate \<Rightarrow> pstate" where
  "wifi_vlan K mname v ps =
     add_w K ''wifi-vlan'' (vlan_name ''wv'' v @ ''_'' @ short_name mname)
       [(''iface'', k_string K mname), (''name'', k_string K (CHR ''g'' # itoa_int v)),
        (''vid'', k_string K (itoa_int v)), (''network'', k_string K (vlan_name ''v'' v))] ps"

definition append_unique :: "string list \<Rightarrow> string \<Rightarrow> string list" where
  "append_unique xs s = (if s \<in> set xs then xs else xs @ [s])"

definition station_options :: "kit \<Rightarrow> string \<Rightarrow> string \<Rightarrow> int \<Rightarrow> (string \<times> uvalue) list" where
  "station_options K mname key vid =
     [(''iface'', k_string K mname), (''key'', k_string K key), (''vid'', k_string K (itoa_int vid))]"

definition next_station :: "kit \<Rightarrow> (string \<times> uvalue) list \<Rightarrow> pstate \<Rightarrow> pstate" where
  "next_station K opts ps =
     (add_w K ''wifi-station'' (perch_prefix @ ''ws'' @ itoa (ps_idx ps)) opts ps)
       \<lparr>ps_idx := Suc (ps_idx ps)\<rparr>"

definition wifi_station :: "kit \<Rightarrow> (string \<Rightarrow> string) \<Rightarrow> station \<Rightarrow> string \<times> string \<Rightarrow> pstate \<Rightarrow> pstate" where
  "wifi_station K digest st m ps =
     (let macs = sort_strings (st_macs st)
      in if st_key st \<noteq> [] \<and> st_key st = snd m
         then add_issue (OwnPassphraseKey (fst m)) ps
         else if st_key st = [] \<and> \<not> valid_key (snd m)
         then add_issue (NoUsablePassphrase (fst m)) ps
         else
           (let key = (if st_key st = [] then snd m else st_key st);
                ps1 = (if st_key st = []
                       then ps\<lparr>ps_binding_keys := append_unique (ps_binding_keys ps) (digest key)\<rparr>
                       else ps);
                opts = station_options K (fst m) key (st_vid st)
            in if macs = [] then next_station K opts ps1
               else fold (\<lambda>mac. next_station K (opts @ [(''mac'', k_string K mac)])) macs ps1))"

definition wifi_stations ::
  "kit \<Rightarrow> (string \<Rightarrow> string) \<Rightarrow> station list \<Rightarrow> (string \<times> string) list \<Rightarrow> pstate \<Rightarrow> pstate" where
  "wifi_stations K digest sts ms ps =
     fold (\<lambda>st. fold (wifi_station K digest st) ms) sts ps"

definition wifi_vlans :: "kit \<Rightarrow> int list \<Rightarrow> (string \<times> string) list \<Rightarrow> pstate \<Rightarrow> pstate" where
  "wifi_vlans K vids ms ps = fold (\<lambda>m. fold (wifi_vlan K (fst m)) vids) ms ps"

text \<open>The trunk: the part of \<open>Plan\<close> from the bridge to the VLANs' interfaces. It returns the
  new conversion (if any), the bridge's name and the state.\<close>

definition plan_trunk ::
  "kit \<Rightarrow> string \<Rightarrow> int list \<Rightarrow> conversion option \<Rightarrow> ledger \<Rightarrow> pstate \<Rightarrow>
   plan_error + (conversion option \<times> string option \<times> pstate)" where
  "plan_trunk K port vids kept prev ps =
     (case bridge_of K (ps_n ps) port of
        None \<Rightarrow> Inr (None, None, fold (own_port_vlan K port) vids ps)
      | Some bi \<Rightarrow>
          (let bridge = cfg_sections (ps_n ps) ! bi;
               name = opt_str K bridge ''name'';
               finish = (\<lambda>conv ps1.
                 Inr (conv, Some name,
                      fold (\<lambda>v. vlan_interface K (vlan_device name v) v) vids
                        (fold (carry_vlan K name port) vids ps1)))
           in if kept \<noteq> None \<and> cv_bridge (the kept) = name
              then (if cv_untagged (the kept) \<in> set vids
                    then Inl (Refused (refuse ''untagged_vlan_conflict''))
                    else finish None ps)
              else if bridge_vlans K (ps_n ps) name = [] then
                (if kept \<noteq> None then Inl (Refused (refuse ''conversion_conflict''))
                 else (case convert K bridge vids (l_converted prev) ps of
                         Inl e \<Rightarrow> Inl e
                       | Inr (conv, ps1) \<Rightarrow> finish (Some conv) ps1))
              else finish None ps))"

definition owned_after :: "string list \<Rightarrow> conversion option \<Rightarrow> string list" where
  "owned_after created kept = created @ (if kept = None then [] else [bvu_name])"

definition plan ::
  "kit \<Rightarrow> (string \<Rightarrow> string) \<Rightarrow> uconfig \<Rightarrow> uconfig \<Rightarrow> desired \<Rightarrow> string \<Rightarrow> ledger \<Rightarrow>
   plan_error + plan_result" where
  "plan K digest wireless network d trunk_fact prev =
     (case validate d of Some r \<Rightarrow> Inl (Refused r)
      | None \<Rightarrow>
        (let (w, n, kept) = undo K (k_clone K wireless) (k_clone K network) prev;
             bridge0 = (case kept of None \<Rightarrow> [] | Some c \<Rightarrow> cv_bridge c)
         in if d_vlans d = [] then
              Inr \<lparr>res_wireless = k_reindex K w, res_network = k_reindex K n,
                   res_ledger = \<lparr>l_owned = Some (owned_after [] kept), l_dynamic = [], l_converted = kept\<rparr>,
                   res_trunk_port = [], res_bridge = bridge0, res_converted = (kept \<noteq> None),
                   res_managed = [], res_issues = [], res_binding_keys = []\<rparr>
            else
              (let (managed, issues) =
                     find_managed K (d_ssids d) (sections_at w (k_of_type K w ''wifi-iface''));
                   port = (if d_trunk d \<noteq> [] \<and> d_trunk d \<noteq> ''auto'' then d_trunk d else trunk_fact);
                   vids = sort (d_vlans d);
                   ps0 = \<lparr>ps_w = w, ps_n = n, ps_created = [], ps_taken = [], ps_issues = issues,
                          ps_dynamic = [], ps_managed = [], ps_binding_keys = [], ps_idx = 0\<rparr>
               in if managed = [] then Inl (Refused (refuse ''no_managed_iface''))
                  else if port = [] then Inl (Refused (refuse ''trunk_unknown''))
                  else
                    (case plan_trunk K port vids kept prev ps0 of
                       Inl e \<Rightarrow> Inl e
                     | Inr (conv, bname, ps1) \<Rightarrow>
                        (case set_dynamic K managed ps1 of
                           None \<Rightarrow> Inl NilDereference
                         | Some ps2 \<Rightarrow>
                            (let ps4 = wifi_stations K digest (d_stations d) managed
                                         (wifi_vlans K vids managed ps2)
                             in if ps_taken ps4 \<noteq> [] then Inl (Refused (refuse ''name_taken''))
                                else
                                  Inr \<lparr>res_wireless = k_reindex K (ps_w ps4),
                                       res_network = k_reindex K (ps_n ps4),
                                       res_ledger = \<lparr>l_owned = Some (owned_after (ps_created ps4) kept),
                                         l_dynamic = ps_dynamic ps4,
                                         l_converted = (case conv of None \<Rightarrow> kept | Some c \<Rightarrow> Some c)\<rparr>,
                                       res_trunk_port = port,
                                       res_bridge = (case bname of None \<Rightarrow> bridge0 | Some b \<Rightarrow> b),
                                       res_converted = (kept \<noteq> None \<or> conv \<noteq> None),
                                       res_managed = ps_managed ps4, res_issues = ps_issues ps4,
                                       res_binding_keys = ps_binding_keys ps4\<rparr>))))))"

end
