(* ===== verification/GroupsPlanProps.thy ===== *)
theory GroupsPlanProps
  imports GroupsPlan
begin

text \<open>
  What the device-groups planner guarantees. The central notion is \<open>grown\<close>: a configuration
  grown from a base is the base's sections, in order and changed at most in the given options,
  followed by new sections. Each step of \<open>plan\<close> grows the configurations; the theorems read
  the frame, the ownership record and the safety of the written stations off that.
\<close>

section \<open>Growing a configuration\<close>

definition grown :: "kit \<Rightarrow> string set \<Rightarrow> usection list \<Rightarrow> usection list \<Rightarrow> usection list \<Rightarrow> bool" where
  "grown K opts base news cur \<longleftrightarrow> (\<exists>old. cur = old @ news \<and> list_all2 (same_but K opts) base old)"

lemma grown_refl [simp]: "grown K opts base [] base"
  by (simp add: grown_def)

lemma grown_append: "grown K opts base news cur \<Longrightarrow> grown K opts base (news @ [s]) (cur @ [s])"
  by (auto simp: grown_def)

lemma grown_all2: "grown K opts base [] cur \<longleftrightarrow> list_all2 (same_but K opts) base cur"
  by (auto simp: grown_def)

lemma grown_update:
  assumes "grown K opts base news cur" and "i < length cur" and "cur ! i \<notin> set news"
    and "\<And>s. same_but K opts s (g s)"
  shows "grown K opts base news (cur[i := g (cur ! i)])"
proof -
  obtain old where old: "cur = old @ news" "list_all2 (same_but K opts) base old"
    using assms(1) by (auto simp: grown_def)
  have "i < length old"
  proof (rule ccontr)
    assume "\<not> i < length old"
    with assms(2) old(1) have "cur ! i = news ! (i - length old)" "i - length old < length news"
      by (auto simp: nth_append)
    with assms(3) show False by (metis nth_mem)
  qed
  with old assms(4) show ?thesis
    unfolding grown_def
    by (intro exI[of _ "old[i := g (cur ! i)]"])
      (simp add: list_update_append nth_append same_but_update)
qed

lemma length_grown: "grown K opts base news cur \<Longrightarrow> length cur = length base + length news"
  by (auto simp: grown_def dest: list_all2_lengthD)

section \<open>Adding sections\<close>

text \<open>What \<open>planner.add\<close> does, on either configuration: the name is taken, or the section is
  appended and recorded. A state whose \<open>ps_taken\<close> is empty has never met a taken name.\<close>

lemma note_taken_set: "ps_taken (note_taken c name ps) \<noteq> []"
  by (simp add: note_taken_def)

lemma note_taken_keeps [simp]:
  "ps_w (note_taken c name ps) = ps_w ps" "ps_n (note_taken c name ps) = ps_n ps"
  "ps_created (note_taken c name ps) = ps_created ps" "ps_dynamic (note_taken c name ps) = ps_dynamic ps"
  "ps_managed (note_taken c name ps) = ps_managed ps"
  by (simp_all add: note_taken_def)

lemma note_taken_stays: "ps_taken ps \<noteq> [] \<Longrightarrow> ps_taken (note_taken c name ps) \<noteq> []"
  by (simp add: note_taken_def)

lemma append_section_simps [simp]:
  "cfg_sections (append_section s c) = cfg_sections c @ [s]"
  "cfg_name (append_section s c) = cfg_name c"
  by (simp_all add: append_section_def)

lemma new_section_simps [simp]:
  "s_name (new_section t n opts) = n" "s_type (new_section t n opts) = t"
  "\<not> s_anonymous (new_section t n opts)"
  by (simp_all add: new_section_def)

lemma option_pairs_new [simp]: "option_pairs (new_section t n opts) = opts"
  by (induction opts) (auto simp: option_pairs_def new_section_def)

lemma opt_names_new [simp]: "map o_name (s_options (new_section t n opts)) = map fst opts"
  by (induction opts) (auto simp: new_section_def)

text \<open>The options of a new section, read back.\<close>

lemma get_new_section:
  "kit_ok K \<Longrightarrow> distinct (map fst opts) \<Longrightarrow> k_get K (new_section t n opts) o' = map_of opts o'"
  by (simp add: kit_get_literal)

lemma add_w_cases:
  obtains (taken) "add_w K t n opts ps = note_taken (ps_w ps) n ps" "k_section K (ps_w ps) n \<noteq> None"
  | (added) "k_section K (ps_w ps) n = None"
      "add_w K t n opts ps = ps\<lparr>ps_w := append_section (new_section t n opts) (ps_w ps),
         ps_created := ps_created ps @ [n]\<rparr>"
  by (cases "k_section K (ps_w ps) n = None") (auto simp: add_w_def)

lemma add_n_cases:
  obtains (taken) "add_n K t n opts ps = note_taken (ps_n ps) n ps" "k_section K (ps_n ps) n \<noteq> None"
  | (added) "k_section K (ps_n ps) n = None"
      "add_n K t n opts ps = ps\<lparr>ps_n := append_section (new_section t n opts) (ps_n ps),
         ps_created := ps_created ps @ [n]\<rparr>"
  by (cases "k_section K (ps_n ps) n = None") (auto simp: add_n_def)

text \<open>The state of a planner over its bases: both configurations grown from them, and the
  names created are the names of the new sections, which are all named and all as \<open>W\<close>
  (wireless) and \<open>N\<close> (network) say. \<open>W\<close> and \<open>N\<close> are the sections each stage may add.\<close>

definition planned ::
  "kit \<Rightarrow> (usection \<Rightarrow> bool) \<Rightarrow> (usection \<Rightarrow> bool) \<Rightarrow> uconfig \<Rightarrow> uconfig \<Rightarrow>
   usection list \<Rightarrow> usection list \<Rightarrow> pstate \<Rightarrow> bool" where
  "planned K W N w n nw nn ps \<longleftrightarrow>
     grown K {''dynamic_vlan''} (cfg_sections w) nw (cfg_sections (ps_w ps))
   \<and> grown K {''device''} (cfg_sections n) nn (cfg_sections (ps_n ps))
   \<and> set (ps_created ps) = s_name ` (set nw \<union> set nn)
   \<and> (\<forall>s \<in> set nw. \<not> s_anonymous s \<and> W s) \<and> (\<forall>s \<in> set nn. \<not> s_anonymous s \<and> N s)"

lemma planned_add_w:
  assumes "planned K W N w n nw nn ps" and "W (new_section t name opts)"
  shows "\<exists>nw'. planned K W N w n nw' nn (add_w K t name opts ps)"
proof (cases rule: add_w_cases[of K t name opts ps])
  case taken
  with assms(1) have "planned K W N w n nw nn (add_w K t name opts ps)"
    by (simp add: planned_def)
  then show ?thesis ..
next
  case added
  with assms have "planned K W N w n (nw @ [new_section t name opts]) nn (add_w K t name opts ps)"
    by (auto simp: planned_def intro: grown_append)
  then show ?thesis ..
qed

lemma planned_add_n:
  assumes "planned K W N w n nw nn ps" and "N (new_section t name opts)"
  shows "\<exists>nn'. planned K W N w n nw nn' (add_n K t name opts ps)"
proof (cases rule: add_n_cases[of K t name opts ps])
  case taken
  with assms(1) have "planned K W N w n nw nn (add_n K t name opts ps)"
    by (simp add: planned_def)
  then show ?thesis ..
next
  case added
  with assms have "planned K W N w n nw (nn @ [new_section t name opts]) (add_n K t name opts ps)"
    by (auto simp: planned_def intro: grown_append)
  then show ?thesis ..
qed


definition plan_inv ::
  "kit \<Rightarrow> (usection \<Rightarrow> bool) \<Rightarrow> (usection \<Rightarrow> bool) \<Rightarrow> uconfig \<Rightarrow> uconfig \<Rightarrow> pstate \<Rightarrow> bool" where
  "plan_inv K W N w n ps \<longleftrightarrow> (\<exists>nw nn. planned K W N w n nw nn ps)"

lemma plan_inv_add_w: "plan_inv K W N w n ps \<Longrightarrow> W (new_section t name opts) \<Longrightarrow>
  plan_inv K W N w n (add_w K t name opts ps)"
  using planned_add_w unfolding plan_inv_def by blast

lemma plan_inv_add_n: "plan_inv K W N w n ps \<Longrightarrow> N (new_section t name opts) \<Longrightarrow>
  plan_inv K W N w n (add_n K t name opts ps)"
  using planned_add_n unfolding plan_inv_def by blast

lemma plan_inv_issue [simp]: "plan_inv K W N w n (add_issue i ps) = plan_inv K W N w n ps"
  by (simp add: plan_inv_def planned_def add_issue_def)

lemma plan_inv_fields [simp]:
  "plan_inv K W N w n (ps\<lparr>ps_idx := i\<rparr>) = plan_inv K W N w n ps"
  "plan_inv K W N w n (ps\<lparr>ps_binding_keys := bs\<rparr>) = plan_inv K W N w n ps"
  by (simp_all add: plan_inv_def planned_def)

section \<open>The sections a plan may write\<close>

text \<open>In the network configuration: a bridge's untagged VLAN, a group VLAN tagged on the trunk
  port, the 802.1Q device and bridge of a port of its own, and the VLAN's interface.\<close>

definition trunk_section :: "kit \<Rightarrow> string \<Rightarrow> int list \<Rightarrow> usection \<Rightarrow> bool" where
  "trunk_section K port vids s \<longleftrightarrow>
     s_type s = ''bridge-vlan'' \<and> s_name s = bvu_name
   \<or> (\<exists>v \<in> set vids.
        s_type s = ''bridge-vlan'' \<and> s_name s = vlan_name ''bv'' v
          \<and> opt_str K s ''vlan'' = itoa_int v \<and> opt_list K s ''ports'' = [port @ '':t'']
      \<or> s_type s = ''device'' \<and> s_name s = vlan_name ''dv'' v \<and> opt_str K s ''vid'' = itoa_int v
          \<and> opt_str K s ''ifname'' = port
      \<or> s_type s = ''device'' \<and> s_name s = vlan_name ''bd'' v
          \<and> opt_list K s ''ports'' = [vlan_device port v]
      \<or> s_type s = ''interface'' \<and> s_name s = vlan_name ''v'' v \<and> opt_str K s ''proto'' = ''none'')"

text \<open>In the wireless configuration, for the managed interfaces \<open>ms\<close> (name, passphrase): a VLAN of
  an interface, and a station of it. A station whose passphrase is the interface's own is bound
  to a MAC.\<close>

definition vlan_section :: "kit \<Rightarrow> (string \<times> string) list \<Rightarrow> int list \<Rightarrow> usection \<Rightarrow> bool" where
  "vlan_section K ms vids s \<longleftrightarrow> s_type s = ''wifi-vlan''
   \<and> (\<exists>m \<in> set ms. \<exists>v \<in> set vids. opt_str K s ''iface'' = fst m
        \<and> s_name s = vlan_name ''wv'' v @ ''_'' @ short_name (fst m)
        \<and> opt_str K s ''vid'' = itoa_int v \<and> opt_str K s ''network'' = vlan_name ''v'' v)"

definition station_section ::
  "kit \<Rightarrow> (string \<times> string) list \<Rightarrow> int list \<Rightarrow> usection \<Rightarrow> bool" where
  "station_section K ms vids s \<longleftrightarrow> s_type s = ''wifi-station''
   \<and> (\<exists>k. s_name s = perch_prefix @ ''ws'' @ itoa k)
   \<and> (\<exists>m \<in> set ms. \<exists>v \<in> set vids. opt_str K s ''iface'' = fst m \<and> opt_str K s ''vid'' = itoa_int v
        \<and> valid_key (opt_str K s ''key'')
        \<and> (opt_str K s ''key'' = snd m \<longrightarrow> valid_mac (opt_str K s ''mac'')))"

definition wifi_section :: "kit \<Rightarrow> (string \<times> string) list \<Rightarrow> int list \<Rightarrow> usection \<Rightarrow> bool" where
  "wifi_section K ms vids s \<longleftrightarrow> vlan_section K ms vids s \<or> station_section K ms vids s"

lemma opt_str_new:
  "kit_ok K \<Longrightarrow> distinct (map fst opts) \<Longrightarrow> map_of opts o' = Some (k_string K x) \<Longrightarrow>
   opt_str K (new_section t n opts) o' = x"
  by (simp add: opt_str_def get_new_section kit_str_string)

lemma opt_list_new:
  "kit_ok K \<Longrightarrow> distinct (map fst opts) \<Longrightarrow> map_of opts o' = Some (k_list K xs) \<Longrightarrow>
   opt_list K (new_section t n opts) o' = xs"
  by (simp add: opt_list_def get_new_section kit_list_items)

lemmas new_options = opt_str_new opt_list_new

section \<open>The steps keep the invariant\<close>

lemma plan_inv_vlan_interface:
  assumes "kit_ok K" and "plan_inv K W (trunk_section K port vids) w n ps" and "v \<in> set vids"
  shows "plan_inv K W (trunk_section K port vids) w n (vlan_interface K dev v ps)"
  unfolding vlan_interface_def
  by (rule plan_inv_add_n[OF assms(2)])
    (use assms(1,3) in \<open>auto simp: trunk_section_def new_options\<close>)

lemma plan_inv_carry_vlan:
  assumes "kit_ok K" and "plan_inv K W (trunk_section K port vids) w n ps" and "v \<in> set vids"
  shows "plan_inv K W (trunk_section K port vids) w n (carry_vlan K name port v ps)"
proof (cases "router_vlan K (ps_n ps) name v (ps_created ps)")
  case None
  have "trunk_section K port vids (new_section ''bridge-vlan'' (vlan_name ''bv'' v)
      [(''device'', k_string K name), (''vlan'', k_string K (itoa_int v)),
       (''ports'', k_list K [port @ '':t''])])"
    using assms(1,3) by (auto simp: trunk_section_def new_options)
  with None assms(2) show ?thesis
    by (simp add: carry_vlan_def plan_inv_add_n)
qed (use assms(2) in \<open>simp add: carry_vlan_def Let_def\<close>)

lemma plan_inv_own_port_vlan:
  assumes "kit_ok K" and "plan_inv K W (trunk_section K port vids) w n ps" and "v \<in> set vids"
  shows "plan_inv K W (trunk_section K port vids) w n (own_port_vlan K port v ps)"
proof -
  have "trunk_section K port vids (new_section ''device'' (vlan_name ''dv'' v)
      [(''type'', k_string K ''8021q''), (''ifname'', k_string K port),
       (''vid'', k_string K (itoa_int v)), (''name'', k_string K (vlan_device port v))])"
    using assms(1,3) by (auto simp: trunk_section_def new_options)
  moreover have "trunk_section K port vids (new_section ''device'' (vlan_name ''bd'' v)
      [(''type'', k_string K ''bridge''), (''name'', k_string K (vlan_bridge_name v)),
       (''ports'', k_list K [vlan_device port v])])"
    using assms(1,3) by (auto simp: trunk_section_def new_options)
  ultimately show ?thesis
    using assms by (simp add: own_port_vlan_def Let_def plan_inv_vlan_interface plan_inv_add_n)
qed


lemma move_interfaces_grown:
  assumes "kit_ok K" and "grown K {''device''} base news (cfg_sections n)"
    and "\<forall>i \<in> set is. i < length (cfg_sections n)" and "s_name ` set news \<subseteq> set created"
  shows "grown K {''device''} base news (cfg_sections (fst (move_interfaces K name u created is n)))"
  using assms(2,3)
proof (induction "is" arbitrary: n)
  case (Cons i "is")
  let ?s = "cfg_sections n ! i"
  let ?g = "\<lambda>s. k_set K s ''device'' (k_string K (vlan_device name u))"
  show ?case
  proof (cases "s_name ?s \<notin> set created \<and> opt_str K ?s ''device'' = name")
    case True
    with assms(4) have "?s \<notin> set news" by auto
    then have "grown K {''device''} base news (cfg_sections (update_at i ?g n))"
      using Cons.prems assms(1)
      by (auto simp: update_at_def intro: grown_update same_but_set)
    with Cons True show ?thesis by (simp add: Let_def case_prod_beta)
  next
    case False
    with Cons show ?thesis by (auto simp: Let_def)
  qed
qed simp

lemma convert_Inr:
  assumes "convert K bridge vids prev ps = Inr (conv, ps')"
  obtains name u ports ps1 n' moved where
    "name = opt_str K bridge ''name''" "u = next_free vids (untagged_start name vids prev)" "u \<le> 4094"
    "ports = map (\<lambda>port. port @ '':u*'') (opt_list K bridge ''ports'')" "ports \<noteq> []"
    "ps1 = add_n K ''bridge-vlan'' bvu_name
       [(''device'', k_string K name), (''vlan'', k_string K (itoa_int u)),
        (''ports'', k_list K ports)] ps"
    "move_interfaces K name u (ps_created ps1) (k_of_type K (ps_n ps1) ''interface'') (ps_n ps1)
       = (n', moved)"
    "ps' = ps1\<lparr>ps_n := n'\<rparr>" "conv = \<lparr>cv_bridge = name, cv_untagged = u, cv_moved = moved\<rparr>"
proof -
  define name where "name = opt_str K bridge ''name''"
  define u where "u = next_free vids (untagged_start name vids prev)"
  define ports where "ports = map (\<lambda>port. port @ '':u*'') (opt_list K bridge ''ports'')"
  define ps1 where "ps1 = add_n K ''bridge-vlan'' bvu_name
       [(''device'', k_string K name), (''vlan'', k_string K (itoa_int u)),
        (''ports'', k_list K ports)] ps"
  obtain n' moved where mv: "move_interfaces K name u (ps_created ps1)
      (k_of_type K (ps_n ps1) ''interface'') (ps_n ps1) = (n', moved)"
    by fastforce
  have "u \<le> 4094 \<and> ports \<noteq> [] \<and> ps' = ps1\<lparr>ps_n := n'\<rparr>
      \<and> conv = \<lparr>cv_bridge = name, cv_untagged = u, cv_moved = moved\<rparr>"
    using assms mv
    unfolding convert_def Let_def name_def[symmetric] u_def[symmetric] ports_def[symmetric]
      ps1_def[symmetric]
    by (auto split: if_splits)
  with that name_def u_def ports_def ps1_def mv show thesis by blast
qed

lemma convert_inv:
  assumes "kit_ok K" and "plan_inv K W (trunk_section K port vids) w n ps"
    and "convert K bridge vids' prev ps = Inr (conv, ps')"
  shows "plan_inv K W (trunk_section K port vids) w n ps'"
proof -
  obtain name u ports ps1 n' moved where
    ps1: "ps1 = add_n K ''bridge-vlan'' bvu_name
            [(''device'', k_string K name), (''vlan'', k_string K (itoa_int u)),
             (''ports'', k_list K ports)] ps"
    and mv: "move_interfaces K name u (ps_created ps1) (k_of_type K (ps_n ps1) ''interface'')
               (ps_n ps1) = (n', moved)"
    and ps': "ps' = ps1\<lparr>ps_n := n'\<rparr>"
    by (rule convert_Inr[OF assms(3)])
  have "plan_inv K W (trunk_section K port vids) w n ps1"
    unfolding ps1 by (rule plan_inv_add_n[OF assms(2)]) (simp add: trunk_section_def)
  then obtain nw nn where inv: "planned K W (trunk_section K port vids) w n nw nn ps1"
    by (auto simp: plan_inv_def)
  then have "s_name ` set nn \<subseteq> set (ps_created ps1)"
    by (auto simp: planned_def)
  with inv mv have "grown K {''device''} (cfg_sections n) nn (cfg_sections n')"
    using move_interfaces_grown[OF assms(1), of "cfg_sections n" nn "ps_n ps1"
        "k_of_type K (ps_n ps1) ''interface''" "ps_created ps1" name u]
    by (simp add: planned_def kit_of_type_iff[OF assms(1)])
  with inv ps' have "planned K W (trunk_section K port vids) w n nw nn ps'"
    by (simp add: planned_def)
  then show ?thesis by (auto simp: plan_inv_def)
qed

lemma add_n_other [simp]:
  "ps_w (add_n K t name opts ps) = ps_w ps" "ps_dynamic (add_n K t name opts ps) = ps_dynamic ps"
  "ps_managed (add_n K t name opts ps) = ps_managed ps"
  by (simp_all add: add_n_def)

text \<open>The trunk stage leaves the wireless configuration alone and keeps the invariant.\<close>

definition trunk_inv ::
  "kit \<Rightarrow> string \<Rightarrow> int list \<Rightarrow> uconfig \<Rightarrow> uconfig \<Rightarrow> pstate \<Rightarrow> bool" where
  "trunk_inv K port vids w n ps \<longleftrightarrow>
     plan_inv K (\<lambda>_. False) (trunk_section K port vids) w n ps \<and> ps_w ps = w
     \<and> ps_dynamic ps = [] \<and> ps_managed ps = []"

lemma trunk_finish:
  assumes "kit_ok K" and "trunk_inv K port vids w n ps"
  shows "trunk_inv K port vids w n
           (fold (\<lambda>v. vlan_interface K (vlan_device name v) v) vids
             (fold (carry_vlan K name port) vids ps))"
proof -
  have "trunk_inv K port vids w n (fold (carry_vlan K name port) vids ps)"
    by (rule fold_keeps[where I = "trunk_inv K port vids w n", OF assms(2)])
      (simp add: trunk_inv_def plan_inv_carry_vlan[OF assms(1)],
       simp add: carry_vlan_def Let_def add_issue_def split: option.split)
  then show ?thesis
    by (rule fold_keeps[where I = "trunk_inv K port vids w n"])
      (simp add: trunk_inv_def plan_inv_vlan_interface[OF assms(1)], simp add: vlan_interface_def)
qed

lemma plan_trunk_inv:
  assumes "kit_ok K" and "trunk_inv K port vids w n ps"
    and "plan_trunk K port vids kept prev ps = Inr (conv, bname, ps')"
  shows "trunk_inv K port vids w n ps'"
proof (cases "bridge_of K (ps_n ps) port")
  case None
  have "trunk_inv K port vids w n (fold (own_port_vlan K port) vids ps)"
    by (rule fold_keeps[where I = "trunk_inv K port vids w n", OF assms(2)])
      (simp add: trunk_inv_def plan_inv_own_port_vlan[OF assms(1)],
       simp add: own_port_vlan_def vlan_interface_def Let_def)
  with None assms(3) show ?thesis by (simp add: plan_trunk_def)
next
  case (Some bi)
  have conv: "trunk_inv K port vids w n ps1"
    if "convert K b vids p ps = Inr (c, ps1)" for b p c ps1
    using assms(2) convert_inv[OF assms(1) _ that] that
    by (auto simp: trunk_inv_def convert_def Let_def case_prod_beta split: if_splits)
  from Some assms(3) show ?thesis
    by (auto simp: plan_trunk_def Let_def split: if_splits sum.splits
        intro: trunk_finish[OF assms(1)] assms(2) conv)
qed


section \<open>The wireless steps\<close>

lemma update_name:
  "kit_ok K \<Longrightarrow> s_name ` set (cfg_sections (update_at i (\<lambda>s. k_set K s o' v) c)) =
     s_name ` set (cfg_sections c)"
proof -
  assume K: "kit_ok K"
  have "map s_name (cfg_sections (update_at i (\<lambda>s. k_set K s o' v) c)) = map s_name (cfg_sections c)"
    using K by (cases "i < length (cfg_sections c)")
      (simp_all add: update_at_def map_update list_update_same_conv list_update_beyond)
  then show ?thesis by (metis set_map)
qed

text \<open>Setting \<open>dynamic_vlan\<close> finds every managed section: no nil pointer is dereferenced.\<close>

lemma set_dynamic_total:
  assumes "kit_ok K" and "fst ` set ms \<subseteq> s_name ` set (cfg_sections (ps_w ps))"
  shows "\<exists>ps'. set_dynamic K ms ps = Some ps'"
  using assms(2)
proof (induction ms arbitrary: ps)
  case (Cons m ms)
  obtain name k where m: "m = (name, k)" by (cases m)
  with Cons.prems obtain i where "k_section K (ps_w ps) name = Some i"
    using kit_section_None[OF assms(1), of "ps_w ps" name] by auto
  with Cons m show ?case
    by (simp add: Let_def update_name[OF assms(1)])
qed simp

lemma set_dynamic_planned:
  assumes "kit_ok K" and "planned K W N w n [] nn ps" and "set_dynamic K ms ps = Some ps'"
  shows "planned K W N w n [] nn ps' \<and> ps_n ps' = ps_n ps \<and> ps_taken ps' = ps_taken ps
    \<and> ps_created ps' = ps_created ps"
  using assms(2,3)
proof (induction ms arbitrary: ps)
  case (Cons m ms)
  obtain name k where m: "m = (name, k)" by (cases m)
  with Cons.prems obtain i where i: "k_section K (ps_w ps) name = Some i"
    by (auto split: option.splits)
  then have "i < length (cfg_sections (ps_w ps))"
    using kit_section_Some[OF assms(1)] by blast
  then have "grown K {''dynamic_vlan''} (cfg_sections w) []
      (cfg_sections (update_at i (\<lambda>s. k_set K s ''dynamic_vlan'' v) (ps_w ps)))" for v
    using Cons.prems(1) assms(1)
    by (auto simp: update_at_def planned_def intro: grown_update same_but_set)
  with Cons.prems(1) have *:
    "planned K W N w n [] nn (ps\<lparr>ps_dynamic := d,
       ps_w := update_at i (\<lambda>s. k_set K s ''dynamic_vlan'' v) (ps_w ps), ps_managed := ms'\<rparr>)"
    "planned K W N w n [] nn (ps\<lparr>ps_managed := ms'\<rparr>)" for d ms' v
    by (simp_all add: planned_def)
  define ps1 where "ps1 =
    (let was = opt_str K (cfg_sections (ps_w ps) ! i) ''dynamic_vlan''
     in (if was \<noteq> ''1''
         then ps\<lparr>ps_dynamic := (name, was) # filter (\<lambda>p. fst p \<noteq> name) (ps_dynamic ps),
                 ps_w := update_at i (\<lambda>s. k_set K s ''dynamic_vlan'' (k_string K ''1'')) (ps_w ps)\<rparr>
         else ps)\<lparr>ps_managed := ps_managed ps @ [name]\<rparr>)"
  have "planned K W N w n [] nn ps1" "ps_n ps1 = ps_n ps" "ps_taken ps1 = ps_taken ps"
      "ps_created ps1 = ps_created ps"
    using * by (simp_all add: ps1_def Let_def)
  moreover have "set_dynamic K ms ps1 = Some ps'"
    using Cons.prems(2) m i by (simp add: ps1_def Let_def split: if_splits)
  ultimately show ?case using Cons.IH by simp
qed simp

lemma plan_inv_wifi_vlan:
  assumes "kit_ok K" and "plan_inv K (wifi_section K ms vids) N w n ps" and "m \<in> set ms" "v \<in> set vids"
  shows "plan_inv K (wifi_section K ms vids) N w n (wifi_vlan K (fst m) v ps)"
  unfolding wifi_vlan_def
  by (rule plan_inv_add_w[OF assms(2)])
    (use assms(1,3,4) in \<open>auto simp: wifi_section_def vlan_section_def new_options
       intro!: bexI[of _ m] bexI[of _ v]\<close>)

text \<open>What \<open>Validate\<close> checks of a station.\<close>

definition station_ok :: "int list \<Rightarrow> station \<Rightarrow> bool" where
  "station_ok vids st \<longleftrightarrow> st_vid st \<in> set vids \<and> (st_key st \<noteq> [] \<longrightarrow> valid_key (st_key st))
     \<and> (st_key st = [] \<longrightarrow> st_macs st \<noteq> []) \<and> list_all valid_mac (st_macs st)"

lemma next_station_inv:
  assumes "plan_inv K W N w n ps" and "\<And>k. W (new_section ''wifi-station'' (perch_prefix @ ''ws'' @ itoa k) opts)"
  shows "plan_inv K W N w n (next_station K opts ps)"
  using plan_inv_add_w[OF assms(1) assms(2)] by (simp add: next_station_def)

lemma station_section_plain:
  assumes "kit_ok K" and "m \<in> set ms" "v \<in> set vids" and "valid_key key" and "key \<noteq> snd m"
  shows "wifi_section K ms vids
    (new_section ''wifi-station'' (perch_prefix @ ''ws'' @ itoa k) (station_options K (fst m) key v))"
  using assms unfolding wifi_section_def station_section_def station_options_def
  by (intro disjI2 conjI bexI[of _ m] bexI[of _ v]) (auto simp: new_options)

lemma station_section_mac:
  assumes "kit_ok K" and "m \<in> set ms" "v \<in> set vids" and "valid_key key" and "valid_mac mac"
  shows "wifi_section K ms vids (new_section ''wifi-station'' (perch_prefix @ ''ws'' @ itoa k)
    (station_options K (fst m) key v @ [(''mac'', k_string K mac)]))"
  using assms unfolding wifi_section_def station_section_def station_options_def
  by (intro disjI2 conjI bexI[of _ m] bexI[of _ v]) (auto simp: new_options)

lemma plan_inv_wifi_station:
  assumes K: "kit_ok K" and inv: "plan_inv K (wifi_section K ms vids) N w n ps"
    and m: "m \<in> set ms" and st: "station_ok vids st"
  shows "plan_inv K (wifi_section K ms vids) N w n (wifi_station K digest st m ps)"
proof -
  let ?key = "if st_key st = [] then snd m else st_key st"
  let ?ps = "if st_key st = []
     then ps\<lparr>ps_binding_keys := append_unique (ps_binding_keys ps) (digest ?key)\<rparr> else ps"
  let ?opts = "station_options K (fst m) ?key (st_vid st)"
  have vid: "st_vid st \<in> set vids" using st by (simp add: station_ok_def)
  have inv': "plan_inv K (wifi_section K ms vids) N w n ?ps" using inv by simp
  have skip: ?thesis if "st_key st \<noteq> [] \<and> st_key st = snd m \<or> st_key st = [] \<and> \<not> valid_key (snd m)"
    using that inv by (auto simp: wifi_station_def Let_def)
  show ?thesis
  proof (cases "st_key st \<noteq> [] \<and> st_key st = snd m \<or> st_key st = [] \<and> \<not> valid_key (snd m)")
    case False
    then have key: "valid_key ?key" and own: "?key = snd m \<longrightarrow> st_macs st \<noteq> []"
      using st by (auto simp: station_ok_def)
    have one: "plan_inv K (wifi_section K ms vids) N w n (next_station K ?opts ?ps)" if "st_macs st = []"
      using own that
      by (intro next_station_inv[OF inv'] station_section_plain[OF K m vid key]) blast
    have all: "plan_inv K (wifi_section K ms vids) N w n
        (fold (\<lambda>mac. next_station K (?opts @ [(''mac'', k_string K mac)])) (sort_strings (st_macs st)) ?ps)"
    proof (rule fold_keeps[where I = "plan_inv K (wifi_section K ms vids) N w n", OF inv'])
      fix mac ps'
      assume "mac \<in> set (sort_strings (st_macs st))" and ps': "plan_inv K (wifi_section K ms vids) N w n ps'"
      with st have "valid_mac mac" by (simp add: station_ok_def list_all_iff)
      then show "plan_inv K (wifi_section K ms vids) N w n
          (next_station K (?opts @ [(''mac'', k_string K mac)]) ps')"
        by (intro next_station_inv[OF ps'] station_section_mac[OF K m vid key])
    qed
    with False one all show ?thesis by (simp add: wifi_station_def Let_def) blast
  qed (rule skip)
qed


section \<open>Validation\<close>

lemma validate_vlans_Inr:
  "validate_vlans seen vs = Inr seen' \<Longrightarrow> distinct seen \<Longrightarrow>
   seen' = seen @ vs \<and> distinct seen' \<and> (\<forall>v \<in> set vs. 1 \<le> v \<and> v \<le> 4094)"
  by (induction vs arbitrary: seen) (fastforce split: if_splits)+

lemma validate_vlans_total:
  "distinct (seen @ vs) \<Longrightarrow> \<forall>v \<in> set vs. 1 \<le> v \<and> v \<le> 4094 \<Longrightarrow> validate_vlans seen vs = Inr (seen @ vs)"
  by (induction vs arbitrary: seen) auto

lemma validate_station_iff: "set seen = set vids \<Longrightarrow> validate_station seen st = station_ok vids st"
  by (auto simp: validate_station_def station_ok_def)

definition valid_desired :: "desired \<Rightarrow> bool" where
  "valid_desired d \<longleftrightarrow> 1 \<le> d_revision d
   \<and> distinct (d_vlans d) \<and> (\<forall>v \<in> set (d_vlans d). 1 \<le> v \<and> v \<le> 4094)
   \<and> length (d_vlans d) \<le> 256 \<and> length (d_stations d) \<le> 4096
   \<and> sum_list (map (\<lambda>st. length (st_macs st)) (d_stations d)) \<le> 4096
   \<and> (\<forall>st \<in> set (d_stations d). station_ok (d_vlans d) st)
   \<and> (\<forall>s \<in> set (d_ssids d). 1 \<le> length s \<and> length s \<le> 32)
   \<and> (d_trunk d \<in> {[], ''auto''} \<or> valid_ifname (d_trunk d))"

lemma validate_iff: "validate d = None \<longleftrightarrow> valid_desired d"
proof (cases "validate_vlans [] (d_vlans d)")
  case (Inl r)
  then have "\<not> (distinct (d_vlans d) \<and> (\<forall>v \<in> set (d_vlans d). 1 \<le> v \<and> v \<le> 4094))"
    using validate_vlans_total[of "[]" "d_vlans d"] by auto
  with Inl show ?thesis by (auto simp: validate_def valid_desired_def)
next
  case (Inr seen)
  from validate_vlans_Inr[OF this] have seen: "seen = d_vlans d" "distinct (d_vlans d)"
      "\<forall>v \<in> set (d_vlans d). 1 \<le> v \<and> v \<le> 4094"
    by auto
  with Inr show ?thesis
    by (auto simp: validate_def valid_desired_def max_vlans_def max_stations_def list_all_iff
        validate_station_iff[of "d_vlans d"] not_less)
qed

section \<open>The managed interfaces\<close>

lemma find_managed_iff:
  "m \<in> set (fst (find_managed K ssids ss)) \<longleftrightarrow>
   (\<exists>s \<in> set ss. m = (s_name s, opt_str K s ''key'') \<and> opt_str K s ''mode'' = ''ap''
      \<and> opt_str K s ''ssid'' \<in> set ssids \<and> opt_str K s ''disabled'' \<noteq> ''1''
      \<and> psk_encryption (opt_str K s ''encryption''))"
  by (induction ss) (auto simp: Let_def case_prod_beta)

lemma find_managed_names:
  "fst ` set (fst (find_managed K ssids ss)) \<subseteq> s_name ` set ss"
  by (auto simp: find_managed_iff)

lemma sections_at_of_type:
  "kit_ok K \<Longrightarrow> set (sections_at c (k_of_type K c t)) = {s \<in> set (cfg_sections c). s_type s = t}"
  by (auto simp: sections_at_def kit_of_type image_iff set_conv_nth[of "cfg_sections c"])

section \<open>The outcome of a plan\<close>

definition plan_start :: "uconfig \<Rightarrow> uconfig \<Rightarrow> issue list \<Rightarrow> pstate" where
  "plan_start w n issues =
     \<lparr>ps_w = w, ps_n = n, ps_created = [], ps_taken = [], ps_issues = issues,
      ps_dynamic = [], ps_managed = [], ps_binding_keys = [], ps_idx = 0\<rparr>"

definition managed_of :: "kit \<Rightarrow> desired \<Rightarrow> uconfig \<Rightarrow> (string \<times> string) list" where
  "managed_of K d w =
     fst (find_managed K (d_ssids d) (sections_at w (k_of_type K w ''wifi-iface'')))"

definition trunk_port :: "desired \<Rightarrow> string \<Rightarrow> string" where
  "trunk_port d tf = (if d_trunk d \<noteq> [] \<and> d_trunk d \<noteq> ''auto'' then d_trunk d else tf)"

lemma managed_names:
  "kit_ok K \<Longrightarrow> fst ` set (managed_of K d w) \<subseteq> s_name ` set (cfg_sections w)"
proof -
  assume "kit_ok K"
  then have "set (sections_at w (k_of_type K w ''wifi-iface'')) \<subseteq> set (cfg_sections w)"
    by (auto simp: sections_at_of_type)
  then show ?thesis
    unfolding managed_of_def by (rule order_trans[OF find_managed_names image_mono])
qed

lemma plan_Inr:
  assumes "plan K digest wireless network d tf prev = Inr res" and "kit_ok K"
    and "undo K wireless network prev = (w, n, kept)"
  obtains (empty) "d_vlans d = []" "res_wireless res = k_reindex K w" "res_network res = k_reindex K n"
      "l_owned (res_ledger res) = Some (owned_after [] kept)" "l_dynamic (res_ledger res) = []"
      "l_converted (res_ledger res) = kept"
  | (full) issues conv bname ps1 ps2 ps4 where "valid_desired d" "d_vlans d \<noteq> []"
      "plan_trunk K (trunk_port d tf) (sort (d_vlans d)) kept prev (plan_start w n issues)
         = Inr (conv, bname, ps1)"
      "set_dynamic K (managed_of K d w) ps1 = Some ps2"
      "ps4 = wifi_stations K digest (d_stations d) (managed_of K d w)
               (wifi_vlans K (sort (d_vlans d)) (managed_of K d w) ps2)"
      "ps_taken ps4 = []"
      "res_wireless res = k_reindex K (ps_w ps4)" "res_network res = k_reindex K (ps_n ps4)"
      "l_owned (res_ledger res) = Some (owned_after (ps_created ps4) kept)"
      "l_dynamic (res_ledger res) = ps_dynamic ps4"
      "l_converted (res_ledger res) = (case conv of None \<Rightarrow> kept | Some c \<Rightarrow> Some c)"
      "res_managed res = ps_managed ps4"
proof (cases "d_vlans d = []")
  case True
  with assms show thesis
    by (intro empty) (auto simp: plan_def Let_def split: option.splits)
next
  case False
  have v: "validate d = None" using assms(1) by (auto simp: plan_def split: option.splits)
  obtain issues where fm: "find_managed K (d_ssids d) (sections_at w (k_of_type K w ''wifi-iface''))
      = (managed_of K d w, issues)"
    by (metis managed_of_def prod.collapse)
  let ?ps0 = "plan_start w n issues" and ?vids = "sort (d_vlans d)"
  note unfolded = assms(1)[unfolded plan_def v option.case kit_clone[OF assms(2)] assms(3) Let_def
      prod.case fm plan_start_def[symmetric] trunk_port_def[symmetric]]
  obtain conv bname ps1 where trunk: "plan_trunk K (trunk_port d tf) ?vids kept prev ?ps0
      = Inr (conv, bname, ps1)"
    using unfolded False by (auto split: if_splits sum.splits)
  obtain ps2 where dyn: "set_dynamic K (managed_of K d w) ps1 = Some ps2"
    using unfolded False trunk by (auto split: if_splits option.splits)
  show thesis
    by (rule full[of issues conv bname ps1 ps2, OF _ False trunk dyn refl])
      (use unfolded False trunk dyn v in \<open>auto simp: validate_iff split: if_splits\<close>)
qed


section \<open>Undo keeps every section the ledger does not own\<close>

lemma restore_dynamic_but:
  "kit_ok K \<Longrightarrow>
   list_all2 (same_but K {''dynamic_vlan''}) (cfg_sections w) (cfg_sections (restore_dynamic K dyn w))"
proof (induction K dyn w rule: restore_dynamic.induct)
  case (2 K name was rest w)
  let ?w = "case k_section K w name of None \<Rightarrow> w
    | Some i \<Rightarrow> if was = [] then update_at i (\<lambda>s. k_delete K s ''dynamic_vlan'') w
               else update_at i (\<lambda>s. k_set K s ''dynamic_vlan'' (k_string K was)) w"
  have "list_all2 (same_but K {''dynamic_vlan''}) (cfg_sections w) (cfg_sections ?w)"
    using kit_section_Some[OF 2(2)] 2(2)
    by (auto simp: update_at_def split: option.split intro!: same_but_update same_but_set)
  with 2 show ?case by (auto intro: same_but_all_trans)
qed simp

lemma restore_moved_but:
  "kit_ok K \<Longrightarrow>
   list_all2 (same_but K {''device''}) (cfg_sections n) (cfg_sections (restore_moved K c mv n))"
proof (induction K c mv n rule: restore_moved.induct)
  case (2 K c name dev rest n)
  let ?n = "case k_section K n name of None \<Rightarrow> n
    | Some i \<Rightarrow>
        if opt_str K (cfg_sections n ! i) ''device'' = vlan_device (cv_bridge c) (cv_untagged c)
        then update_at i (\<lambda>s. k_set K s ''device'' (k_string K dev)) n else n"
  have "list_all2 (same_but K {''device''}) (cfg_sections n) (cfg_sections ?n)"
    using kit_section_Some[OF 2(2)] 2(2)
    by (auto simp: update_at_def split: option.split intro!: same_but_update same_but_set)
  with 2 show ?case by (auto intro: same_but_all_trans)
qed simp

text \<open>The sections of a configuration that \<open>owned\<close> does not name.\<close>

definition foreign :: "string list \<Rightarrow> uconfig \<Rightarrow> usection list" where
  "foreign owned c = filter (\<lambda>s. s_anonymous s \<or> s_name s \<notin> set owned) (cfg_sections c)"

lemma drop_owned_sections [simp]: "cfg_sections (drop_owned owned c) = foreign owned c"
  by (simp add: drop_owned_def foreign_def)

lemma undo_frame:
  assumes K: "kit_ok K" and u: "undo K w n prev = (w', n', kept)"
  shows "list_all2 (same_but K {''dynamic_vlan''}) (foreign (owned_dropped K w n prev) w) (cfg_sections w')
    \<and> list_all2 (same_but K {''device''}) (foreign (owned_dropped K w n prev) n) (cfg_sections n')
    \<and> kept = kept_conversion K w n prev"
proof -
  let ?o = "owned_dropped K w n prev"
  define n2 where "n2 = (case l_converted prev of
      None \<Rightarrow> drop_owned ?o n
    | Some c \<Rightarrow> if kept_conversion K w n prev = None
        then restore_moved K c (cv_moved c) (drop_owned ?o n) else drop_owned ?o n)"
  have w': "w' = k_reindex K (restore_dynamic K (l_dynamic prev) (drop_owned ?o w))"
    and n': "n' = k_reindex K n2" and kept: "kept = kept_conversion K w n prev"
    using u by (auto simp: undo_def Let_def n2_def)
  have "list_all2 (same_but K {''device''}) (foreign ?o n) (cfg_sections n2)"
    using restore_moved_but[OF K, of "drop_owned ?o n"] by (auto simp: n2_def split: option.split)
  then have "list_all2 (same_but K {''device''}) (foreign ?o n) (cfg_sections n')"
    unfolding n' by (rule same_but_all_trans[OF _ same_but_reindex[OF K]])
  moreover have "list_all2 (same_but K {''dynamic_vlan''}) (foreign ?o w) (cfg_sections w')"
    unfolding w' using restore_dynamic_but[OF K, of "drop_owned ?o w" "l_dynamic prev"]
    by (auto intro: same_but_all_trans same_but_reindex[OF K])
  ultimately show ?thesis using kept by simp
qed

section \<open>Reindexing\<close>

text \<open>\<open>Reindex\<close> renames anonymous sections only; what a section says stays.\<close>

lemma same_all_sections:
  assumes "same_but K {} s t" and "\<not> s_anonymous s"
  shows "s_name t = s_name s \<and> \<not> s_anonymous t
    \<and> wifi_section K ms vids t = wifi_section K ms vids s
    \<and> trunk_section K port vids t = trunk_section K port vids s"
proof -
  have "s_name t = s_name s" "s_type t = s_type s" "\<not> s_anonymous t"
      and get: "\<And>o'. k_get K t o' = k_get K s o'"
    using assms by (auto simp: same_but_def same_header_def)
  moreover have "opt_str K t = opt_str K s" "opt_list K t = opt_list K s"
    by (auto simp: opt_str_def opt_list_def get)
  ultimately show ?thesis
    by (simp add: wifi_section_def vlan_section_def station_section_def trunk_section_def)
qed

lemma grown_reindex:
  assumes "kit_ok K" and "grown K opts base news (cfg_sections c)"
  obtains news' where "grown K opts base news' (cfg_sections (k_reindex K c))"
    "list_all2 (same_but K {}) news news'"
proof -
  obtain old where old: "cfg_sections c = old @ news" "list_all2 (same_but K opts) base old"
    using assms(2) by (auto simp: grown_def)
  have "list_all2 (same_but K {}) (old @ news) (cfg_sections (k_reindex K c))"
    using same_but_reindex[OF assms(1), of "{}" c] old(1) by simp
  then obtain old' news' where r: "cfg_sections (k_reindex K c) = old' @ news'"
      "list_all2 (same_but K {}) old old'" "list_all2 (same_but K {}) news news'"
    by (auto simp: list_all2_append1)
  have "list_all2 (same_but K opts) old old'"
    using r(2) by (rule list_all2_mono) (simp add: same_but_def)
  with old(2) have "list_all2 (same_but K opts) base old'" by (rule same_but_all_trans)
  with r show thesis by (intro that[of news']) (auto simp: grown_def)
qed


section \<open>The frame of a plan\<close>

lemma grown_base_trans:
  "list_all2 (same_but K opts) base0 base \<Longrightarrow> grown K opts base news cur \<Longrightarrow> grown K opts base0 news cur"
  by (auto simp: grown_def intro: same_but_all_trans)

lemma trunk_inv_start: "trunk_inv K port vids w n (plan_start w n issues)"
  unfolding trunk_inv_def plan_inv_def
  by (auto simp: plan_start_def planned_def intro!: exI[of _ "[]"])

text \<open>The planner's state at the end of a full plan.\<close>

lemma plan_full_inv:
  assumes K: "kit_ok K" and d: "valid_desired d"
    and trunk: "plan_trunk K port (sort (d_vlans d)) kept prev (plan_start w n issues)
      = Inr (conv, bname, ps1)"
    and dyn: "set_dynamic K (managed_of K d w) ps1 = Some ps2"
  shows "plan_inv K (wifi_section K (managed_of K d w) (d_vlans d))
      (trunk_section K port (d_vlans d)) w n
      (wifi_stations K digest (d_stations d) (managed_of K d w)
        (wifi_vlans K (sort (d_vlans d)) (managed_of K d w) ps2))"
proof -
  let ?ms = "managed_of K d w" and ?vids = "sort (d_vlans d)"
  let ?I = "plan_inv K (wifi_section K ?ms ?vids) (trunk_section K port ?vids) w n"
  have "trunk_inv K port ?vids w n ps1"
    by (rule plan_trunk_inv[OF K trunk_inv_start trunk])
  then obtain nw nn where "planned K (\<lambda>_. False) (trunk_section K port ?vids) w n nw nn ps1"
    by (auto simp: trunk_inv_def plan_inv_def)
  then have "planned K (wifi_section K ?ms ?vids) (trunk_section K port ?vids) w n [] nn ps1"
    by (cases nw) (auto simp: planned_def)
  from set_dynamic_planned[OF K this dyn] have "?I ps2"
    by (auto simp: plan_inv_def)
  then have "?I (wifi_vlans K ?vids ?ms ps2)"
    unfolding wifi_vlans_def
    by (rule fold_keeps[where I = ?I]) (rule fold_keeps[where I = ?I], auto intro: plan_inv_wifi_vlan[OF K])
  moreover have "station_ok ?vids st" if "st \<in> set (d_stations d)" for st
    using d that by (auto simp: valid_desired_def station_ok_def)
  ultimately have "?I (wifi_stations K digest (d_stations d) ?ms (wifi_vlans K ?vids ?ms ps2))"
    unfolding wifi_stations_def
    by (intro fold_keeps[where I = ?I] plan_inv_wifi_station[OF K]) auto
  then show ?thesis
    by (simp add: wifi_section_def[abs_def] vlan_section_def station_section_def trunk_section_def[abs_def])
qed

lemma reindexed_news:
  assumes "list_all2 (same_but K {}) news news'" and "\<forall>s \<in> set news. \<not> s_anonymous s"
  shows "s_name ` set news' = s_name ` set news \<and> (\<forall>s \<in> set news'. \<not> s_anonymous s)
    \<and> ((\<forall>s \<in> set news'. wifi_section K ms vids s) \<longleftrightarrow> (\<forall>s \<in> set news. wifi_section K ms vids s))
    \<and> ((\<forall>s \<in> set news'. trunk_section K port vids s) \<longleftrightarrow> (\<forall>s \<in> set news. trunk_section K port vids s))"
  using assms
proof (induction rule: list_all2_induct)
  case (Cons x xs y ys)
  then show ?case
    using same_all_sections[OF Cons(1), of ms vids port] by auto
qed simp

lemma plan_grown:
  assumes K: "kit_ok K" and p: "plan K digest w n d tf prev = Inr res"
    and u: "undo K w n prev = (w', n', kept)"
  obtains nw nn where
    "grown K {''dynamic_vlan''} (foreign (owned_dropped K w n prev) w) nw (cfg_sections (res_wireless res))"
    "grown K {''device''} (foreign (owned_dropped K w n prev) n) nn (cfg_sections (res_network res))"
    "\<forall>s \<in> set nw. \<not> s_anonymous s \<and> wifi_section K (managed_of K d w') (d_vlans d) s"
    "\<forall>s \<in> set nn. \<not> s_anonymous s \<and> trunk_section K (trunk_port d tf) (d_vlans d) s"
    "set (the (l_owned (res_ledger res))) =
       s_name ` (set nw \<union> set nn) \<union> (if kept = None then {} else {bvu_name})"
    "l_owned (res_ledger res) \<noteq> None"
proof -
  note frame = undo_frame[OF K u]
  from p K u show thesis
  proof (cases rule: plan_Inr)
    case empty
    have "grown K {''dynamic_vlan''} (foreign (owned_dropped K w n prev) w) [] (cfg_sections (res_wireless res))"
      "grown K {''device''} (foreign (owned_dropped K w n prev) n) [] (cfg_sections (res_network res))"
      using frame empty(2,3) by (auto simp: grown_all2 intro: same_but_all_trans same_but_reindex[OF K])
    with empty show thesis by (intro that[of "[]" "[]"]) (auto simp: owned_after_def)
  next
    case (full issues conv bname ps1 ps2 ps4)
    let ?W = "wifi_section K (managed_of K d w') (d_vlans d)"
    let ?N = "trunk_section K (trunk_port d tf) (d_vlans d)"
    have "plan_inv K ?W ?N w' n' ps4"
      unfolding full(5) by (rule plan_full_inv[OF K full(1,3,4)])
    then obtain nw nn where inv: "planned K ?W ?N w' n' nw nn ps4" by (auto simp: plan_inv_def)
    obtain nw' where nw': "grown K {''dynamic_vlan''} (cfg_sections w') nw' (cfg_sections (res_wireless res))"
        "list_all2 (same_but K {}) nw nw'"
      using inv by (auto simp: planned_def full(7) intro: grown_reindex[OF K])
    obtain nn' where nn': "grown K {''device''} (cfg_sections n') nn' (cfg_sections (res_network res))"
        "list_all2 (same_but K {}) nn nn'"
      using inv by (auto simp: planned_def full(8) intro: grown_reindex[OF K])
    have news: "\<forall>s \<in> set nw. \<not> s_anonymous s" "\<forall>s \<in> set nn. \<not> s_anonymous s"
        "\<forall>s \<in> set nw. ?W s" "\<forall>s \<in> set nn. ?N s"
        "set (ps_created ps4) = s_name ` set nw \<union> s_name ` set nn"
      using inv by (auto simp: planned_def)
    note rw = reindexed_news[OF nw'(2) news(1), of "managed_of K d w'" "d_vlans d"]
    note rn = reindexed_news[OF nn'(2) news(2), of "managed_of K d w'" "d_vlans d" "trunk_port d tf"]
    show thesis
    proof (rule that[OF grown_base_trans[OF _ nw'(1)] grown_base_trans[OF _ nn'(1)]])
      show "\<forall>s \<in> set nw'. \<not> s_anonymous s \<and> ?W s" "\<forall>s \<in> set nn'. \<not> s_anonymous s \<and> ?N s"
        using rw rn news(3,4) by (simp_all add: ball_conj_distrib)
      show "set (the (l_owned (res_ledger res))) =
          s_name ` (set nw' \<union> set nn') \<union> (if kept = None then {} else {bvu_name})"
        using rw rn news(5) full(9) by (simp add: owned_after_def image_Un)
    qed (use frame full(9) in simp_all)
  qed
qed


section \<open>What a plan that is not refused contains\<close>

text \<open>\<open>has_n P\<close> and \<open>has_w P\<close>: unless a name was taken, a section with \<open>P\<close> is there. Adding
  such a section establishes it and no step undoes it.\<close>

definition has_n :: "(usection \<Rightarrow> bool) \<Rightarrow> pstate \<Rightarrow> bool" where
  "has_n P ps \<longleftrightarrow> (ps_taken ps = [] \<longrightarrow> (\<exists>s \<in> set (cfg_sections (ps_n ps)). P s))"

definition has_w :: "(usection \<Rightarrow> bool) \<Rightarrow> pstate \<Rightarrow> bool" where
  "has_w P ps \<longleftrightarrow> (ps_taken ps = [] \<longrightarrow> (\<exists>s \<in> set (cfg_sections (ps_w ps)). P s))"

lemma has_n_add: "P (new_section t name opts) \<Longrightarrow> has_n P (add_n K t name opts ps)"
  by (simp add: has_n_def add_n_def note_taken_set)

lemma has_w_add: "P (new_section t name opts) \<Longrightarrow> has_w P (add_w K t name opts ps)"
  by (simp add: has_w_def add_w_def note_taken_set)

lemma note_taken_empty [simp]: "ps_taken (note_taken c name ps) = [] \<longleftrightarrow> False"
  by (simp add: note_taken_def)

lemma has_keeps [simp]:
  "has_n P ps \<Longrightarrow> has_n P (add_n K t name opts ps)"
  "has_n P ps \<Longrightarrow> has_n P (add_w K t name opts ps)"
  "has_w P ps \<Longrightarrow> has_w P (add_w K t name opts ps)"
  by (auto simp: has_n_def has_w_def add_n_def add_w_def)

lemma has_fields [simp]:
  "has_n P (ps\<lparr>ps_idx := i\<rparr>) = has_n P ps" "has_w P (ps\<lparr>ps_idx := i\<rparr>) = has_w P ps"
  "has_n P (ps\<lparr>ps_binding_keys := bs\<rparr>) = has_n P ps"
  "has_w P (ps\<lparr>ps_binding_keys := bs\<rparr>) = has_w P ps"
  "has_n P (add_issue is ps) = has_n P ps" "has_w P (add_issue is ps) = has_w P ps"
  by (simp_all add: has_n_def has_w_def add_issue_def)

text \<open>An invariant that adding a section keeps, and that does not look at issues, indices and
  digests, is kept by every loop of the plan.\<close>

locale adding =
  fixes K :: kit and I :: "pstate \<Rightarrow> bool"
  assumes keep_w: "I ps \<Longrightarrow> I (add_w K t name opts ps)"
    and keep_n: "I ps \<Longrightarrow> I (add_n K t name opts ps)"
    and keep_issue: "I ps \<Longrightarrow> I (add_issue i ps)"
    and keep_idx: "I ps \<Longrightarrow> I (ps\<lparr>ps_idx := x\<rparr>)"
    and keep_keys: "I ps \<Longrightarrow> I (ps\<lparr>ps_binding_keys := bs\<rparr>)"
begin

lemma keep_vlan_interface: "I ps \<Longrightarrow> I (vlan_interface K dev v ps)"
  by (simp add: vlan_interface_def keep_n)

lemma keep_carry_vlan: "I ps \<Longrightarrow> I (carry_vlan K name port v ps)"
  by (auto simp: carry_vlan_def Let_def keep_n keep_issue split: option.split)

lemma keep_own_port_vlan: "I ps \<Longrightarrow> I (own_port_vlan K port v ps)"
  by (simp add: own_port_vlan_def Let_def keep_n keep_vlan_interface)

lemma keep_next_station: "I ps \<Longrightarrow> I (next_station K opts ps)"
  by (simp add: next_station_def keep_w keep_idx)

lemma keep_wifi_station: "I ps \<Longrightarrow> I (wifi_station K digest st m ps)"
  by (auto simp: wifi_station_def Let_def keep_next_station keep_issue keep_keys
      intro!: fold_keeps[where I = I])

lemma keep_wifi_stations: "I ps \<Longrightarrow> I (wifi_stations K digest sts ms ps)"
  unfolding wifi_stations_def
  by (rule fold_keeps[where I = I], assumption, rule fold_keeps[where I = I], assumption,
      rule keep_wifi_station)

lemma keep_wifi_vlans: "I ps \<Longrightarrow> I (wifi_vlans K vids ms ps)"
  unfolding wifi_vlans_def wifi_vlan_def
  by (rule fold_keeps[where I = I], assumption, rule fold_keeps[where I = I], assumption,
      rule keep_w)

lemma keep_trunk_finish:
  "I ps \<Longrightarrow> I (fold (\<lambda>v. vlan_interface K (vlan_device name v) v) vids
      (fold (carry_vlan K name port) vids ps))"
  by (rule fold_keeps[where I = I], rule fold_keeps[where I = I])
    (simp_all add: keep_carry_vlan keep_vlan_interface)

lemma keep_own_port: "I ps \<Longrightarrow> I (fold (own_port_vlan K port) vids ps)"
  by (rule fold_keeps[where I = I]) (simp_all add: keep_own_port_vlan)

end

interpretation in_network: adding K "has_n P" for K P
  by unfold_locales simp_all

interpretation in_wireless: adding K "has_w P" for K P
  by unfold_locales (simp_all, simp add: has_w_def add_n_def)

lemma has_next_station:
  "(\<And>name. P (new_section ''wifi-station'' name opts)) \<Longrightarrow> has_w P (next_station K opts ps)"
  by (auto simp: next_station_def intro: has_w_add)

text \<open>The VLAN of an interface, and the stations of a group.\<close>

definition vlan_of :: "kit \<Rightarrow> string \<Rightarrow> int \<Rightarrow> usection \<Rightarrow> bool" where
  "vlan_of K ifn v s \<longleftrightarrow> s_type s = ''wifi-vlan'' \<and> opt_str K s ''iface'' = ifn
     \<and> opt_str K s ''vid'' = itoa_int v \<and> opt_str K s ''network'' = vlan_name ''v'' v"

definition interface_of :: "int \<Rightarrow> usection \<Rightarrow> bool" where
  "interface_of v s \<longleftrightarrow> s_type s = ''interface'' \<and> s_name s = vlan_name ''v'' v \<and> \<not> s_anonymous s"

definition station_of :: "kit \<Rightarrow> string \<Rightarrow> string \<Rightarrow> int \<Rightarrow> string \<Rightarrow> usection \<Rightarrow> bool" where
  "station_of K ifn key v mac s \<longleftrightarrow> s_type s = ''wifi-station'' \<and> opt_str K s ''iface'' = ifn
     \<and> opt_str K s ''key'' = key \<and> opt_str K s ''vid'' = itoa_int v \<and> opt_str K s ''mac'' = mac"

lemma opt_str_absent:
  "kit_ok K \<Longrightarrow> distinct (map fst opts) \<Longrightarrow> map_of opts o' = None \<Longrightarrow>
   opt_str K (new_section t n opts) o' = []"
  by (simp add: opt_str_def get_new_section)

lemma wifi_vlans_establish:
  assumes "kit_ok K" and "m \<in> set ms" "v \<in> set vids"
  shows "has_w (vlan_of K (fst m) v) (wifi_vlans K vids ms ps)"
  unfolding wifi_vlans_def
proof (rule fold_establishes[where Q = "has_w (vlan_of K (fst m) v)", OF assms(2)])
  show "has_w (vlan_of K (fst m) v) (fold (wifi_vlan K (fst m)) vids ps)" for ps
    by (rule fold_establishes[where Q = "has_w (vlan_of K (fst m) v)", OF assms(3)])
      (auto simp: wifi_vlan_def vlan_of_def opt_str_new[OF assms(1)] intro!: has_w_add)
  show "has_w (vlan_of K (fst m) v) ps \<Longrightarrow>
      has_w (vlan_of K (fst m) v) (fold (wifi_vlan K (fst m')) vids ps)" for m' ps
    by (rule fold_keeps[where I = "has_w (vlan_of K (fst m) v)"]) (simp_all add: wifi_vlan_def)
qed


definition skipped :: "station \<Rightarrow> string \<times> string \<Rightarrow> bool" where
  "skipped st m \<longleftrightarrow> (if st_key st = [] then \<not> valid_key (snd m) else st_key st = snd m)"

definition station_key :: "station \<Rightarrow> string \<times> string \<Rightarrow> string" where
  "station_key st m = (if st_key st = [] then snd m else st_key st)"

definition station_macs :: "station \<Rightarrow> string list" where
  "station_macs st = (if st_macs st = [] then [[]] else st_macs st)"

lemma wifi_station_establishes:
  assumes K: "kit_ok K" and "\<not> skipped st m" and mac: "mac \<in> set (station_macs st)"
  shows "has_w (station_of K (fst m) (station_key st m) (st_vid st) mac) (wifi_station K digest st m ps)"
proof -
  let ?P = "station_of K (fst m) (station_key st m) (st_vid st) mac"
  let ?opts = "station_options K (fst m) (station_key st m) (st_vid st)"
  let ?ps = "if st_key st = []
     then ps\<lparr>ps_binding_keys := append_unique (ps_binding_keys ps) (digest (station_key st m))\<rparr> else ps"
  have eq: "wifi_station K digest st m ps =
      (if st_macs st = [] then next_station K ?opts ?ps
       else fold (\<lambda>mac. next_station K (?opts @ [(''mac'', k_string K mac)])) (sort_strings (st_macs st)) ?ps)"
    using assms(2) by (auto simp: wifi_station_def Let_def skipped_def station_key_def)
  have plain: "?P (new_section ''wifi-station'' name ?opts)" if "mac = []" for name
    using that
    by (simp add: station_of_def station_options_def opt_str_new[OF K] opt_str_absent[OF K])
  have withmac: "?P (new_section ''wifi-station'' name (?opts @ [(''mac'', k_string K mac)]))" for name
    by (simp add: station_of_def station_options_def opt_str_new[OF K])
  show ?thesis
  proof (cases "st_macs st = []")
    case True
    with mac have "mac = []" by (simp add: station_macs_def)
    then show ?thesis
      unfolding eq if_P[OF True] by (intro has_next_station[where P = ?P] plain)
  next
    case False
    with mac have "mac \<in> set (sort_strings (st_macs st))" by (simp add: station_macs_def)
    then have "has_w ?P (fold (\<lambda>mac. next_station K (?opts @ [(''mac'', k_string K mac)]))
        (sort_strings (st_macs st)) ?ps)"
      by (rule fold_establishes[where Q = "has_w ?P"])
        (rule has_next_station[where P = ?P, OF withmac], rule in_wireless.keep_next_station)
    then show ?thesis unfolding eq if_not_P[OF False] .
  qed
qed

lemma wifi_stations_establish:
  assumes "kit_ok K" and "st \<in> set sts" "m \<in> set ms" and "\<not> skipped st m"
    and "mac \<in> set (station_macs st)"
  shows "has_w (station_of K (fst m) (station_key st m) (st_vid st) mac)
    (wifi_stations K digest sts ms ps)"
  unfolding wifi_stations_def
proof (rule fold_establishes[where Q = "has_w (station_of K (fst m) (station_key st m) (st_vid st) mac)",
      OF assms(2)])
  let ?P = "station_of K (fst m) (station_key st m) (st_vid st) mac"
  show "has_w ?P (fold (wifi_station K digest st) ms ps)" for ps
    by (rule fold_establishes[where Q = "has_w ?P", OF assms(3)])
      (rule wifi_station_establishes[OF assms(1,4,5)], rule in_wireless.keep_wifi_station)
  show "has_w ?P ps \<Longrightarrow> has_w ?P (fold (wifi_station K digest st') ms ps)" for st' ps
    by (rule fold_keeps[where I = "has_w ?P"]) (simp_all add: in_wireless.keep_wifi_stations[unfolded wifi_stations_def] in_wireless.keep_wifi_station)
qed

lemma vlan_interface_establishes: "has_n (interface_of v) (vlan_interface K dev v ps)"
  unfolding vlan_interface_def by (rule has_n_add) (simp add: interface_of_def)

lemma plan_trunk_interfaces:
  assumes "plan_trunk K port vids kept prev ps = Inr (conv, bname, ps')" and "v \<in> set vids"
  shows "has_n (interface_of v) ps'"
proof (cases "bridge_of K (ps_n ps) port")
  case None
  have "has_n (interface_of v) (fold (own_port_vlan K port) vids ps)"
    by (rule fold_establishes[where Q = "has_n (interface_of v)", OF assms(2)])
      (simp_all add: own_port_vlan_def Let_def vlan_interface_establishes in_network.keep_vlan_interface in_network.keep_n)
  with None assms(1) show ?thesis by (simp add: plan_trunk_def)
next
  case (Some bi)
  have "has_n (interface_of v) (fold (\<lambda>v. vlan_interface K (vlan_device name v) v) vids ps1)" for name ps1
    by (rule fold_establishes[where Q = "has_n (interface_of v)", OF assms(2)])
      (simp_all add: vlan_interface_establishes in_network.keep_vlan_interface)
  with Some assms(1) show ?thesis
    by (auto simp: plan_trunk_def Let_def split: if_splits sum.splits)
qed

lemma has_set_dynamic:
  assumes "set_dynamic K ms ps = Some ps'"
  shows "ps_n ps' = ps_n ps \<and> ps_taken ps' = ps_taken ps"
  using assms
proof (induction ms arbitrary: ps)
  case (Cons m ms)
  then show ?case by (cases m) (auto simp: Let_def split: option.splits if_splits)
qed simp

lemma sections_reindexed:
  assumes "kit_ok K" and "s \<in> set (cfg_sections c)"
  shows "\<exists>t \<in> set (cfg_sections (k_reindex K c)). same_but K {} s t"
  using same_but_reindex[OF assms(1), of "{}" c] assms(2)
  by (metis in_set_conv_nth list_all2_lengthD list_all2_nthD)

lemma same_but_opt_str: "same_but K {} s t \<Longrightarrow> opt_str K t o' = opt_str K s o' \<and> s_type t = s_type s"
  by (auto simp: same_but_def same_header_def opt_str_def)



text \<open>C9: a group key or binding never opens its VLAN to every client. In the wireless
  configuration a plan returns, each new station (the sections after those kept) of an interface
  carries a passphrase of 8 to 63 printable characters, and when that is the interface's own
  passphrase, the station is bound to a MAC address.\<close>

theorem plan_binding_guard:
  assumes "kit_ok K" and "plan K digest w n d tf prev = Inr res"
    and "s \<in> set (drop (length (foreign (owned_dropped K w n prev) w)) (cfg_sections (res_wireless res)))"
    and "s_type s = ''wifi-station''"
  shows "valid_key (opt_str K s ''key'')
    \<and> (\<exists>v \<in> set (d_vlans d). opt_str K s ''vid'' = itoa_int v)
    \<and> (\<exists>m \<in> set (managed_of K d (fst (undo K w n prev))). opt_str K s ''iface'' = fst m
         \<and> (opt_str K s ''key'' = snd m \<longrightarrow> valid_mac (opt_str K s ''mac'')))"
proof -
  obtain w' n' kept where u: "undo K w n prev = (w', n', kept)" by (metis prod_cases3)
  obtain nw nn where
    g: "grown K {''dynamic_vlan''} (foreign (owned_dropped K w n prev) w) nw (cfg_sections (res_wireless res))"
    and new: "\<forall>s \<in> set nw. \<not> s_anonymous s \<and> wifi_section K (managed_of K d w') (d_vlans d) s"
    by (rule plan_grown[OF assms(1,2) u])
  from g have "drop (length (foreign (owned_dropped K w n prev) w)) (cfg_sections (res_wireless res)) = nw"
    by (auto simp: grown_def dest: list_all2_lengthD)
  with assms(3) new have "wifi_section K (managed_of K d w') (d_vlans d) s" by simp
  with assms(4) u show ?thesis
    by (auto simp: wifi_section_def vlan_section_def station_section_def)
qed



text \<open>planning never dereferences a missing section: with a configuration package that
  keeps its contract, \<open>Plan\<close> returns a plan or a refusal with a code.\<close>

theorem plan_no_nil:
  assumes "kit_ok K"
  shows "plan K digest w n d tf prev \<noteq> Inl NilDereference"
proof
  assume p: "plan K digest w n d tf prev = Inl NilDereference"
  obtain w' n' kept where u: "undo K w n prev = (w', n', kept)" by (metis prod_cases3)
  have v: "validate d = None" using p by (auto simp: plan_def split: option.splits)
  obtain issues where fm: "find_managed K (d_ssids d) (sections_at w' (k_of_type K w' ''wifi-iface''))
      = (managed_of K d w', issues)"
    by (metis managed_of_def prod.collapse)
  note unfolded = p[unfolded plan_def v option.case kit_clone[OF assms] u Let_def
      prod.case fm plan_start_def[symmetric] trunk_port_def[symmetric]]
  let ?trunk = "plan_trunk K (trunk_port d tf) (sort (d_vlans d)) kept prev (plan_start w' n' issues)"
  have refused: "?trunk \<noteq> Inl NilDereference"
    by (auto simp: plan_trunk_def convert_def Let_def case_prod_beta split: option.splits sum.splits if_splits)
  then obtain conv bname ps1 where trunk: "?trunk = Inr (conv, bname, ps1)"
    and dyn: "set_dynamic K (managed_of K d w') ps1 = None"
    using unfolded by (auto split: if_splits sum.splits option.splits)
  have "ps_w ps1 = w'"
    using plan_trunk_inv[OF assms trunk_inv_start trunk] by (simp add: trunk_inv_def)
  with set_dynamic_total[OF assms, of "managed_of K d w'" ps1] managed_names[OF assms] dyn
  show False by auto
qed

section \<open>Names and the untagged VLAN\<close>

lemma owned_numbered_iff:
  "owned_numbered ps rest \<longleftrightarrow> (\<exists>p \<in> set ps. \<exists>n. rest = p @ n \<and> n \<noteq> [] \<and> list_all is_digit n)"
  by (induction ps) (auto simp: all_digits_iff cut_prefix_def prefix_def split: option.split)

lemma cut_prefix_case:
  "(case cut_prefix p r of None \<Rightarrow> False | Some n \<Rightarrow> Q n) \<longleftrightarrow> (\<exists>n. r = p @ n \<and> Q n)"
  by (auto simp: cut_prefix_def prefix_def)

lemma word_suffix:
  "(let (vid, iface, found) = cut_at (CHR ''_'') n
    in found \<and> all_digits vid \<and> iface \<noteq> [] \<and> trim is_word_char iface = [])
   \<longleftrightarrow> (\<exists>v i. n = v @ ''_'' @ i \<and> v \<noteq> [] \<and> list_all is_digit v \<and> i \<noteq> [] \<and> list_all is_word_char i)"
  (is "?l \<longleftrightarrow> ?r")
proof
  assume ?l
  then have f: "CHR ''_'' \<in> set n" and p: "all_digits (takeWhile (\<lambda>x. x \<noteq> CHR ''_'') n)"
      "tl (dropWhile (\<lambda>x. x \<noteq> CHR ''_'') n) \<noteq> []"
      "trim is_word_char (tl (dropWhile (\<lambda>x. x \<noteq> CHR ''_'') n)) = []"
    by (auto simp: cut_at_def)
  have "dropWhile (\<lambda>x. x \<noteq> CHR ''_'') n \<noteq> []" using f by (auto simp: dropWhile_eq_Nil_conv)
  moreover from this have "hd (dropWhile (\<lambda>x. x \<noteq> CHR ''_'') n) = CHR ''_''"
    using hd_dropWhile by blast
  ultimately have "n = takeWhile (\<lambda>x. x \<noteq> CHR ''_'') n @ ''_'' @ tl (dropWhile (\<lambda>x. x \<noteq> CHR ''_'') n)"
    by (metis append_Cons append_Nil list.collapse takeWhile_dropWhile_id)
  with p show ?r unfolding all_digits_iff trim_eq_Nil list_all_iff by blast
next
  assume ?r
  then obtain v i where n: "n = v @ CHR ''_'' # i" and v: "v \<noteq> []" "list_all is_digit v"
      and i: "i \<noteq> []" "list_all is_word_char i"
    by auto
  have "CHR ''_'' \<notin> set v" using v(2) by (auto simp: list_all_iff is_digit_def less_eq_char_def)
  with v i show ?l by (simp add: n cut_at_found all_digits_iff trim_eq_Nil list_all_iff)
qed

text \<open>\<open>OwnedName\<close> is the regular expression its comment gives,
  \<open>^perch_(ws\d+|wv\d+_\w+|v\d+|bv\d+|bvu|dv\d+|bd\d+)$\<close>, so no name of the Wi-Fi
  configuration plane (\<open>perch_n...\<close>) is ever taken for the engine's.\<close>

theorem owned_name_regex:
  "(owned_name name \<longleftrightarrow>
      name = ''perch_bvu''
    \<or> (\<exists>p \<in> {''ws'', ''v'', ''bv'', ''dv'', ''bd''}. \<exists>n.
         name = ''perch_'' @ p @ n \<and> n \<noteq> [] \<and> list_all is_digit n)
    \<or> (\<exists>v i. name = ''perch_wv'' @ v @ ''_'' @ i \<and> v \<noteq> [] \<and> list_all is_digit v
         \<and> i \<noteq> [] \<and> list_all is_word_char i))
   \<and> \<not> owned_name (''perch_n'' @ rest)"
proof -
  have iff: "owned_name name \<longleftrightarrow>
      name = ''perch_bvu''
    \<or> (\<exists>p \<in> {''ws'', ''v'', ''bv'', ''dv'', ''bd''}. \<exists>n.
         name = ''perch_'' @ p @ n \<and> n \<noteq> [] \<and> list_all is_digit n)
    \<or> (\<exists>v i. name = ''perch_wv'' @ v @ ''_'' @ i \<and> v \<noteq> [] \<and> list_all is_digit v
         \<and> i \<noteq> [] \<and> list_all is_word_char i)" for name
  proof (cases "cut_prefix perch_prefix name")
    case None
    then have "\<not> prefix ''perch_'' name"
      by (auto simp: cut_prefix_def perch_prefix_def split: if_splits)
    with None show ?thesis by (auto simp: owned_name_def prefix_def)
  next
    case (Some rest)
    then have name: "name = ''perch_'' @ rest" by (simp add: cut_prefix_Some perch_prefix_def)
    have wv: "(case cut_prefix ''wv'' rest of None \<Rightarrow> False
        | Some n \<Rightarrow> (let (vid, iface, found) = cut_at (CHR ''_'') n
            in found \<and> all_digits vid \<and> iface \<noteq> [] \<and> trim is_word_char iface = []))
      \<longleftrightarrow> (\<exists>v i. rest = ''wv'' @ v @ ''_'' @ i \<and> v \<noteq> [] \<and> list_all is_digit v
            \<and> i \<noteq> [] \<and> list_all is_word_char i)"
      unfolding word_suffix cut_prefix_case by blast
    have names: "(''perch_'' @ rest = ''perch_'' @ x) = (rest = x)"
        "(''perch_'' @ rest = ''perch_bvu'') = (rest = ''bvu'')"
        "(''perch_'' @ rest = ''perch_wv'' @ x) = (rest = ''wv'' @ x)" for x
      by auto
    show ?thesis
      unfolding owned_name_def Some option.case wv owned_numbered_iff
      unfolding name names by auto
  qed
  show ?thesis unfolding iff by auto
qed

lemma owned_names [intro]:
  "0 \<le> v \<Longrightarrow> owned_name (vlan_name ''v'' v)" "0 \<le> v \<Longrightarrow> owned_name (vlan_name ''bv'' v)"
  "0 \<le> v \<Longrightarrow> owned_name (vlan_name ''dv'' v)" "0 \<le> v \<Longrightarrow> owned_name (vlan_name ''bd'' v)"
  "owned_name bvu_name" "owned_name (perch_prefix @ ''ws'' @ itoa k)"
  by (auto simp: owned_name_def vlan_name_def bvu_name_def owned_numbered_iff list_all_iff itoa_int_digits
      itoa_digits)

lemma owned_wifi_vlan_name:
  assumes "0 \<le> v" "short_name i \<noteq> []"
  shows "owned_name (vlan_name ''wv'' v @ ''_'' @ short_name i)"
proof -
  have "list_all is_word_char (short_name_from n s)" for n s
    by (induction n s rule: short_name_from.induct) auto
  then have "\<exists>v' i'. itoa_int v @ ''_'' @ short_name i = v' @ ''_'' @ i' \<and> v' \<noteq> [] \<and> list_all is_digit v'
      \<and> i' \<noteq> [] \<and> list_all is_word_char i'"
    using assms itoa_int_digits[OF assms(1)]
    by (intro exI[of _ "itoa_int v"] exI[of _ "short_name i"]) (auto simp: list_all_iff short_name_def)
  then show ?thesis
    unfolding owned_name_def vlan_name_def append_assoc cut_prefix_append option.case word_suffix
    by (auto simp: word_suffix)
qed

lemma short_name_nonempty: "\<exists>c \<in> set s. is_word_char c \<Longrightarrow> short_name s \<noteq> []"
proof -
  have "(\<exists>c \<in> set s. is_word_char c) \<longrightarrow> short_name_from 0 s \<noteq> []"
    by (induction s) auto
  then show "\<exists>c \<in> set s. is_word_char c \<Longrightarrow> short_name s \<noteq> []" by (simp add: short_name_def)
qed

lemma next_free_props:
  "next_free used u \<notin> set used \<and> u \<le> next_free used u
   \<and> (\<forall>v. u \<le> v \<and> v < next_free used u \<longrightarrow> v \<in> set used)"
proof (induction used u rule: next_free.induct)
  case (1 used u)
  show ?case
  proof (cases "u \<in> set used")
    case True
    then have eq: "next_free used u = next_free used (u + 1)" by (subst next_free.simps) simp
    have "v \<in> set used" if "u \<le> v \<and> v < next_free used (u + 1)" for v
      using 1[OF True] True that by (cases "v = u") auto
    then show ?thesis using 1[OF True] unfolding eq by auto
  next
    case False
    then have "next_free used u = u" by (subst next_free.simps) simp
    with False show ?thesis by auto
  qed
qed


section \<open>A concrete plan\<close>

text \<open>A guest network on an untagged bridge: one group key and one MAC binding in VLAN 10.\<close>

text \<open>The names of what the engine creates. When every interface a plan manages has a word
  character in its name (every UCI section name does), all sections the ledger of a plan records
  carry names that \<open>OwnedName\<close> recognizes, so a ledger without the list and the Wi-Fi plane's marks
  and screens find all of them.\<close>

theorem plan_names_owned:
  assumes "kit_ok K" and "plan K digest w n d tf prev = Inr res"
    and "\<forall>m \<in> set (managed_of K d (fst (undo K w n prev))). \<exists>c \<in> set (fst m). is_word_char c"
  shows "\<forall>name \<in> set (the (l_owned (res_ledger res))). owned_name name"
proof -
  obtain w' n' kept where u: "undo K w n prev = (w', n', kept)" by (metis prod_cases3)
  obtain nw nn where new: "\<forall>s \<in> set nw. \<not> s_anonymous s \<and> wifi_section K (managed_of K d w') (d_vlans d) s"
      "\<forall>s \<in> set nn. \<not> s_anonymous s \<and> trunk_section K (trunk_port d tf) (d_vlans d) s"
    and owned: "set (the (l_owned (res_ledger res))) =
         s_name ` (set nw \<union> set nn) \<union> (if kept = None then {} else {bvu_name})"
    by (rule plan_grown[OF assms(1,2) u])
  have "validate d = None" using assms(2) by (auto simp: plan_def split: option.splits)
  then have vids: "0 \<le> v" if "v \<in> set (d_vlans d)" for v
    using that unfolding validate_iff by (force simp: valid_desired_def)
  have "owned_name (s_name s)" if s: "s \<in> set nw" for s
  proof -
    from new(1) s consider
        (vlan) m v where "m \<in> set (managed_of K d w')" "v \<in> set (d_vlans d)"
          "s_name s = vlan_name ''wv'' v @ ''_'' @ short_name (fst m)"
      | (station) k where "s_name s = perch_prefix @ ''ws'' @ itoa k"
      unfolding wifi_section_def vlan_section_def station_section_def by blast
    then show ?thesis
    proof cases
      case vlan
      then have "short_name (fst m) \<noteq> []" using assms(3) u by (intro short_name_nonempty) simp
      with vlan vids show ?thesis by (metis owned_wifi_vlan_name)
    next
      case station
      then show ?thesis by (metis owned_names(6))
    qed
  qed
  moreover have "owned_name (s_name s)" if "s \<in> set nn" for s
    using new(2) that vids unfolding trunk_section_def by fastforce
  ultimately show ?thesis unfolding owned by auto
qed

definition text_section :: "string \<Rightarrow> string \<Rightarrow> (string \<times> string) list \<Rightarrow> usection" where
  "text_section typ name opts = new_section typ name (map (\<lambda>(k, v). (k, k_string plain_kit v)) opts)"

definition sample_iface :: usection where
  "sample_iface = text_section ''wifi-iface'' ''guest''
     [(''mode'', ''ap''), (''ssid'', ''Guest''), (''encryption'', ''psk2''), (''key'', ''guestpass'')]"

definition sample_wireless :: uconfig where
  "sample_wireless = \<lparr>cfg_name = ''wireless'', cfg_sections = [sample_iface]\<rparr>"

definition sample_network :: uconfig where
  "sample_network = \<lparr>cfg_name = ''network'', cfg_sections =
     [text_section ''device'' ''br'' [(''type'', ''bridge''), (''name'', ''br-lan''), (''ports'', ''eth0'')],
      text_section ''interface'' ''lan'' [(''proto'', ''dhcp''), (''device'', ''br-lan'')]]\<rparr>"

definition sample_desired :: desired where
  "sample_desired = \<lparr>d_revision = 1, d_confirm_seconds = 0, d_trunk = ''eth0'', d_ssids = [''Guest''],
     d_vlans = [10], d_stations =
       [\<lparr>st_key = ''groupkey1'', st_vid = 10, st_macs = []\<rparr>,
        \<lparr>st_key = [], st_vid = 10, st_macs = [''02:00:00:00:00:01'']\<rparr>]\<rparr>"

definition empty_ledger :: ledger where
  "empty_ledger = \<lparr>l_owned = Some [], l_dynamic = [], l_converted = None\<rparr>"

lemma sample_plan:
  "\<not> isl (plan plain_kit (\<lambda>k. k) sample_wireless sample_network sample_desired [] empty_ledger)"
  by code_simp

lemma sample_plan_Inr:
  obtains res where
    "plan plain_kit (\<lambda>k. k) sample_wireless sample_network sample_desired [] empty_ledger = Inr res"
  using sample_plan by (metis sum.collapse(2))



lemma sample_station:
  "case plan plain_kit (\<lambda>k. k) sample_wireless sample_network sample_desired [] empty_ledger of
     Inl e \<Rightarrow> False
   | Inr res \<Rightarrow> list_ex (\<lambda>s. s_type s = ''wifi-station'')
       (drop (length (foreign (owned_dropped plain_kit sample_wireless sample_network empty_ledger)
          sample_wireless)) (cfg_sections (res_wireless res)))"
  by code_simp

theorem plan_binding_guard_witness:
  "\<exists>s. s_type s = ''wifi-station'' \<and> valid_key (opt_str plain_kit s ''key'')"
proof -
  obtain res where
    r: "plan plain_kit (\<lambda>k. k) sample_wireless sample_network sample_desired [] empty_ledger = Inr res"
    by (rule sample_plan_Inr)
  from sample_station obtain s where
    "s \<in> set (drop (length (foreign (owned_dropped plain_kit sample_wireless sample_network empty_ledger)
          sample_wireless)) (cfg_sections (res_wireless res)))" "s_type s = ''wifi-station''"
    unfolding r by (auto simp: list_ex_iff)
  from this(2) plan_binding_guard[OF kit_ok_plain r this] show ?thesis by blast
qed

lemma sample_managed:
  "(''guest'', ''guestpass'') \<in> set (managed_of plain_kit sample_desired
     (fst (undo plain_kit sample_wireless sample_network empty_ledger)))"
  by code_simp

lemma sample_managed_names:
  "\<forall>m \<in> set (managed_of plain_kit sample_desired
     (fst (undo plain_kit sample_wireless sample_network empty_ledger))). \<exists>c \<in> set (fst m). is_word_char c"
  by code_simp

theorem plan_names_owned_witness:
  "\<exists>res. plan plain_kit (\<lambda>k. k) sample_wireless sample_network sample_desired [] empty_ledger = Inr res
     \<and> (\<forall>name \<in> set (the (l_owned (res_ledger res))). owned_name name)"
proof -
  obtain res where
    r: "plan plain_kit (\<lambda>k. k) sample_wireless sample_network sample_desired [] empty_ledger = Inr res"
    by (rule sample_plan_Inr)
  from plan_names_owned[OF kit_ok_plain r sample_managed_names] r show ?thesis by blast
qed


theorem plan_no_nil_witness:
  "plan plain_kit (\<lambda>k. k) sample_wireless sample_network sample_desired [] empty_ledger
     \<noteq> Inl NilDereference"
  by (rule plan_no_nil[OF kit_ok_plain])

lemma sample_convert:
  "\<not> isl (convert plain_kit (cfg_sections sample_network ! 0) [1, 2, 10] None
     (plan_start sample_wireless sample_network []))"
  by code_simp


section \<open>Owned names are not per configuration\<close>

definition user_section :: usection where
  "user_section = text_section ''wifi-device'' ''perch_v10'' [(''note'', ''mine'')]"

definition user_wireless :: uconfig where
  "user_wireless = \<lparr>cfg_name = ''wireless'', cfg_sections = [sample_iface, user_section]\<rparr>"

text \<open>The ledger records names without the configuration they are in. A section of the
  wireless configuration named like one the plan creates in the network configuration is left
  in place by the plan, which is not refused, and is removed by the next undo.\<close>

theorem foreign_section_lost:
  "case plan plain_kit (\<lambda>k. k) user_wireless sample_network sample_desired [] empty_ledger of
     Inl e \<Rightarrow> False
   | Inr res \<Rightarrow> user_section \<in> set (cfg_sections (res_wireless res))
       \<and> user_section \<notin> set (cfg_sections
            (fst (undo plain_kit (res_wireless res) (res_network res) (res_ledger res))))"
  by code_simp

end
