(* ===== verification/GroupsUndo.thy ===== *)
theory GroupsUndo
  imports GroupsPlanProps
begin

text \<open>
  Device groups leave no trace: undoing a plan with the ledger it returned gives back the
  configurations the plan started from. With distinct section names, each loop over pointers
  (\<open>set_dynamic\<close>, \<open>convert\<close>'s moves, and the two restores) is a \<open>map\<close> over the sections, and
  the restore maps invert the others.
\<close>

section \<open>Pointer updates as maps\<close>

definition names_of :: "uconfig \<Rightarrow> string list" where
  "names_of c = map s_name (cfg_sections c)"

lemma update_named:
  assumes "kit_ok K" and "distinct (names_of c)" and "k_section K c name = Some i"
  shows "cfg_sections (update_at i g c) = map (\<lambda>s. if s_name s = name then g s else s) (cfg_sections c)"
proof (rule nth_equalityI)
  fix j assume "j < length (cfg_sections (update_at i g c))"
  then have j: "j < length (cfg_sections c)" by simp
  have i: "i < length (cfg_sections c)" "s_name (cfg_sections c ! i) = name"
    using kit_section_Some[OF assms(1,3)] by auto
  have "s_name (cfg_sections c ! j) = name \<longleftrightarrow> j = i"
    using nth_eq_iff_index_eq[OF assms(2), of j i] i j by (simp add: names_of_def)
  then show "cfg_sections (update_at i g c) ! j
      = map (\<lambda>s. if s_name s = name then g s else s) (cfg_sections c) ! j"
    using i j by (auto simp: update_at_def)
qed simp

lemma absent_map:
  assumes "kit_ok K" and "k_section K c name = None"
  shows "map (\<lambda>s. if s_name s = name then g s else s) (cfg_sections c) = cfg_sections c"
  using assms kit_section_None[of K c name] by (intro map_idI) auto

definition put_back :: "kit \<Rightarrow> string \<Rightarrow> usection \<Rightarrow> usection" where
  "put_back K was s = (if was = [] then k_delete K s ''dynamic_vlan''
     else k_set K s ''dynamic_vlan'' (k_string K was))"

lemma put_back_name [simp]: "kit_ok K \<Longrightarrow> s_name (put_back K was s) = s_name s"
  by (simp add: put_back_def)

lemma restore_dynamic_map:
  assumes "kit_ok K"
  shows "distinct (names_of w) \<Longrightarrow> distinct (map fst dyn) \<Longrightarrow>
    cfg_sections (restore_dynamic K dyn w) =
      map (\<lambda>s. case map_of dyn (s_name s) of None \<Rightarrow> s | Some was \<Rightarrow> put_back K was s) (cfg_sections w)"
proof (induction dyn arbitrary: w)
  case Nil
  then show ?case by simp
next
  case (Cons p dyn)
  obtain name was where p: "p = (name, was)" by (cases p)
  define w1 where "w1 = (case k_section K w name of None \<Rightarrow> w
    | Some i \<Rightarrow> if was = [] then update_at i (\<lambda>s. k_delete K s ''dynamic_vlan'') w
               else update_at i (\<lambda>s. k_set K s ''dynamic_vlan'' (k_string K was)) w)"
  have w1: "cfg_sections w1 = map (\<lambda>s. if s_name s = name then put_back K was s else s) (cfg_sections w)"
  proof (cases "k_section K w name")
    case None
    then show ?thesis by (simp add: w1_def absent_map[OF assms])
  next
    case (Some i)
    then show ?thesis
      by (simp add: w1_def update_named[OF assms Cons.prems(1)] put_back_def cong: if_cong)
  qed
  have "names_of w1 = names_of w" using assms by (auto simp: names_of_def w1)
  with Cons have "cfg_sections (restore_dynamic K dyn w1) =
      map (\<lambda>s. case map_of dyn (s_name s) of None \<Rightarrow> s | Some was \<Rightarrow> put_back K was s) (cfg_sections w1)"
    by simp
  moreover have "restore_dynamic K (p # dyn) w = restore_dynamic K dyn w1"
    by (simp add: p w1_def cong: option.case_cong)
  moreover have "map_of dyn name = None" using Cons.prems(2) p by (simp add: map_of_eq_None_iff)
  ultimately show ?case using assms by (auto simp: w1 p)
qed

definition move_back :: "kit \<Rightarrow> conversion \<Rightarrow> string \<Rightarrow> usection \<Rightarrow> usection" where
  "move_back K c dev s =
     (if opt_str K s ''device'' = vlan_device (cv_bridge c) (cv_untagged c)
      then k_set K s ''device'' (k_string K dev) else s)"

lemma move_back_name [simp]: "kit_ok K \<Longrightarrow> s_name (move_back K c dev s) = s_name s"
  by (simp add: move_back_def)

lemma restore_moved_map:
  assumes "kit_ok K"
  shows "distinct (names_of n) \<Longrightarrow> distinct (map fst mv) \<Longrightarrow>
    cfg_sections (restore_moved K c mv n) =
      map (\<lambda>s. case map_of mv (s_name s) of None \<Rightarrow> s | Some dev \<Rightarrow> move_back K c dev s) (cfg_sections n)"
proof (induction mv arbitrary: n)
  case Nil
  then show ?case by simp
next
  case (Cons p mv)
  obtain name dev where p: "p = (name, dev)" by (cases p)
  define n1 where "n1 = (case k_section K n name of None \<Rightarrow> n
    | Some i \<Rightarrow>
        if opt_str K (cfg_sections n ! i) ''device'' = vlan_device (cv_bridge c) (cv_untagged c)
        then update_at i (\<lambda>s. k_set K s ''device'' (k_string K dev)) n else n)"
  have n1: "cfg_sections n1 = map (\<lambda>s. if s_name s = name then move_back K c dev s else s) (cfg_sections n)"
  proof (cases "k_section K n name")
    case None
    then show ?thesis by (simp add: n1_def absent_map[OF assms])
  next
    case (Some i)
    then have i: "i < length (cfg_sections n)" "s_name (cfg_sections n ! i) = name"
      using kit_section_Some[OF assms] by auto
    have "cfg_sections n1 = (cfg_sections n)[i := move_back K c dev (cfg_sections n ! i)]"
      using Some i by (simp add: n1_def update_at_def move_back_def)
    also have "\<dots> = cfg_sections (update_at i (move_back K c dev) n)" by (simp add: update_at_def)
    finally show ?thesis by (simp add: update_named[OF assms Cons.prems(1) Some])
  qed
  have "names_of n1 = names_of n" using assms by (auto simp: names_of_def n1)
  with Cons have "cfg_sections (restore_moved K c mv n1) =
      map (\<lambda>s. case map_of mv (s_name s) of None \<Rightarrow> s | Some dev \<Rightarrow> move_back K c dev s) (cfg_sections n1)"
    by simp
  moreover have "restore_moved K c (p # mv) n = restore_moved K c mv n1"
    by (simp add: p n1_def cong: option.case_cong)
  moreover have "map_of mv name = None" using Cons.prems(2) p by (simp add: map_of_eq_None_iff)
  ultimately show ?case using assms by (auto simp: n1 p)
qed

section \<open>What the plan changes in sections it does not own\<close>

definition dynamic_on :: "kit \<Rightarrow> string set \<Rightarrow> usection \<Rightarrow> bool" where
  "dynamic_on K names s \<longleftrightarrow> s_name s \<in> names \<and> opt_str K s ''dynamic_vlan'' \<noteq> ''1''"

definition make_dynamic :: "kit \<Rightarrow> string set \<Rightarrow> usection \<Rightarrow> usection" where
  "make_dynamic K names s =
     (if dynamic_on K names s then k_set K s ''dynamic_vlan'' (k_string K ''1'') else s)"

lemma make_dynamic_name [simp]: "kit_ok K \<Longrightarrow> s_name (make_dynamic K names s) = s_name s"
  by (simp add: make_dynamic_def)

text \<open>One managed network of \<open>setDynamic\<close>: the section at position \<open>i\<close>, found by its name.\<close>

definition one_dynamic :: "kit \<Rightarrow> nat \<Rightarrow> string \<Rightarrow> pstate \<Rightarrow> pstate" where
  "one_dynamic K i name ps =
     (let was = opt_str K (cfg_sections (ps_w ps) ! i) ''dynamic_vlan''
      in (if was \<noteq> ''1''
          then ps\<lparr>ps_dynamic := (name, was) # filter (\<lambda>p. fst p \<noteq> name) (ps_dynamic ps),
                  ps_w := update_at i (\<lambda>s. k_set K s ''dynamic_vlan'' (k_string K ''1'')) (ps_w ps)\<rparr>
          else ps)\<lparr>ps_managed := ps_managed ps @ [name]\<rparr>)"

lemma one_dynamic_map:
  assumes K: "kit_ok K" and dist: "distinct (names_of (ps_w ps))" and i: "k_section K (ps_w ps) name = Some i"
  shows "cfg_sections (ps_w (one_dynamic K i name ps)) = map (make_dynamic K {name}) (cfg_sections (ps_w ps))"
    and "s \<in> set (cfg_sections (ps_w ps)) \<Longrightarrow> map_of (ps_dynamic (one_dynamic K i name ps)) (s_name s) =
      (if dynamic_on K {name} s then Some (opt_str K s ''dynamic_vlan'') else map_of (ps_dynamic ps) (s_name s))"
    and "distinct (map fst (ps_dynamic ps)) \<Longrightarrow> distinct (map fst (ps_dynamic (one_dynamic K i name ps)))"
proof -
  have il: "i < length (cfg_sections (ps_w ps))" "s_name (cfg_sections (ps_w ps) ! i) = name"
    using kit_section_Some[OF K i] by auto
  let ?was = "opt_str K (cfg_sections (ps_w ps) ! i) ''dynamic_vlan''"
  have uniq: "s = cfg_sections (ps_w ps) ! i" if "s \<in> set (cfg_sections (ps_w ps))" "s_name s = name" for s
    using that il dist by (metis distinct_map inj_onD names_of_def nth_mem)
  show "cfg_sections (ps_w (one_dynamic K i name ps)) = map (make_dynamic K {name}) (cfg_sections (ps_w ps))"
  proof (cases "?was = ''1''")
    case True
    with uniq have "make_dynamic K {name} s = s" if "s \<in> set (cfg_sections (ps_w ps))" for s
      using that by (auto simp: make_dynamic_def dynamic_on_def)
    with True show ?thesis by (simp add: one_dynamic_def map_idI)
  next
    case False
    have "cfg_sections (ps_w (one_dynamic K i name ps)) = map (\<lambda>s. if s_name s = name
        then k_set K s ''dynamic_vlan'' (k_string K ''1'') else s) (cfg_sections (ps_w ps))"
      using False by (simp add: one_dynamic_def update_named[OF K dist i])
    also have "\<dots> = map (make_dynamic K {name}) (cfg_sections (ps_w ps))"
      using uniq False by (auto simp: make_dynamic_def dynamic_on_def)
    finally show ?thesis .
  qed
  show "map_of (ps_dynamic (one_dynamic K i name ps)) (s_name s) =
      (if dynamic_on K {name} s then Some (opt_str K s ''dynamic_vlan'') else map_of (ps_dynamic ps) (s_name s))"
    if "s \<in> set (cfg_sections (ps_w ps))"
    using uniq[OF that] il by (auto simp: one_dynamic_def Let_def dynamic_on_def map_of_filter_other)
  show "distinct (map fst (ps_dynamic (one_dynamic K i name ps)))" if "distinct (map fst (ps_dynamic ps))"
    using that by (auto simp: one_dynamic_def Let_def distinct_map_filter)
qed

lemma set_dynamic_map:
  assumes K: "kit_ok K"
  shows "distinct (names_of (ps_w ps)) \<Longrightarrow> distinct (map fst ms) \<Longrightarrow> distinct (map fst (ps_dynamic ps)) \<Longrightarrow>
    set_dynamic K ms ps = Some ps' \<Longrightarrow>
    cfg_sections (ps_w ps') = map (make_dynamic K (fst ` set ms)) (cfg_sections (ps_w ps))
    \<and> distinct (map fst (ps_dynamic ps'))
    \<and> (\<forall>s \<in> set (cfg_sections (ps_w ps)). map_of (ps_dynamic ps') (s_name s) =
         (if dynamic_on K (fst ` set ms) s then Some (opt_str K s ''dynamic_vlan'')
          else map_of (ps_dynamic ps) (s_name s)))"
proof (induction ms arbitrary: ps)
  case Nil
  then show ?case by (simp add: make_dynamic_def[abs_def] dynamic_on_def)
next
  case (Cons m ms)
  obtain name k where m: "m = (name, k)" by (cases m)
  with Cons.prems(4) obtain i where i: "k_section K (ps_w ps) name = Some i"
    by (auto split: option.splits)
  define ps1 where "ps1 = one_dynamic K i name ps"
  have step: "set_dynamic K ms ps1 = Some ps'"
    using Cons.prems(4) m i by (simp add: ps1_def one_dynamic_def Let_def split: if_splits)
  note one = one_dynamic_map[OF K Cons.prems(1) i, folded ps1_def]
  have "names_of (ps_w ps1) = names_of (ps_w ps)" using K by (simp add: names_of_def one(1))
  with Cons.IH[of ps1] Cons.prems(1,2) step m one(3)[OF Cons.prems(3)] have IH:
    "cfg_sections (ps_w ps') = map (make_dynamic K (fst ` set ms)) (cfg_sections (ps_w ps1))"
    "distinct (map fst (ps_dynamic ps'))"
    "\<And>s. s \<in> set (cfg_sections (ps_w ps1)) \<Longrightarrow> map_of (ps_dynamic ps') (s_name s) =
       (if dynamic_on K (fst ` set ms) s then Some (opt_str K s ''dynamic_vlan'')
        else map_of (ps_dynamic ps1) (s_name s))"
    by auto
  have fresh: "name \<notin> fst ` set ms" using Cons.prems(2) m by auto
  have both: "make_dynamic K (fst ` set ms) (make_dynamic K {name} s) = make_dynamic K (fst ` set (m # ms)) s" for s
    using fresh m K by (auto simp: make_dynamic_def dynamic_on_def)
  show ?case
  proof (intro conjI ballI)
    show "cfg_sections (ps_w ps') = map (make_dynamic K (fst ` set (m # ms))) (cfg_sections (ps_w ps))"
      by (simp add: IH(1) one(1) both)
    fix s assume s: "s \<in> set (cfg_sections (ps_w ps))"
    have "make_dynamic K {name} s \<in> set (cfg_sections (ps_w ps1))" using s by (simp add: one(1))
    from IH(3)[OF this] one(2)[OF s] show "map_of (ps_dynamic ps') (s_name s) =
      (if dynamic_on K (fst ` set (m # ms)) s then Some (opt_str K s ''dynamic_vlan'')
       else map_of (ps_dynamic ps) (s_name s))"
      using fresh m K by (auto simp: make_dynamic_def dynamic_on_def split: if_splits)
  qed (rule IH(2))
qed


definition moves :: "kit \<Rightarrow> string \<Rightarrow> string set \<Rightarrow> usection \<Rightarrow> bool" where
  "moves K name created s \<longleftrightarrow> s_name s \<notin> created \<and> opt_str K s ''device'' = name"

definition move_to :: "kit \<Rightarrow> string \<Rightarrow> int \<Rightarrow> usection \<Rightarrow> usection" where
  "move_to K name u s = k_set K s ''device'' (k_string K (vlan_device name u))"

lemma move_interfaces_nth:
  assumes "kit_ok K"
  shows "distinct is \<Longrightarrow> \<forall>i \<in> set is. i < length (cfg_sections n) \<Longrightarrow>
    move_interfaces K name u created is n = (n', mv) \<Longrightarrow>
    length (cfg_sections n') = length (cfg_sections n)
    \<and> (\<forall>j < length (cfg_sections n). cfg_sections n' ! j =
         (if j \<in> set is \<and> moves K name (set created) (cfg_sections n ! j)
          then move_to K name u (cfg_sections n ! j) else cfg_sections n ! j))
    \<and> mv = map (\<lambda>i. (s_name (cfg_sections n ! i), name))
         (filter (\<lambda>i. moves K name (set created) (cfg_sections n ! i)) is)"
proof (induction "is" arbitrary: n mv)
  case Nil
  then show ?case by simp
next
  case (Cons i "is")
  let ?s = "cfg_sections n ! i"
  show ?case
  proof (cases "moves K name (set created) ?s")
    case False
    with Cons show ?thesis by (auto simp: Let_def moves_def)
  next
    case True
    define n1 where "n1 = update_at i (move_to K name u) n"
    obtain mv' where rec: "move_interfaces K name u created is n1 = (n', mv')"
      and mv: "mv = (s_name ?s, name) # mv'"
    proof (cases "move_interfaces K name u created is n1")
      case (Pair n2 mv2)
      have "move_interfaces K name u created (i # is) n = (n2, (s_name ?s, name) # mv2)"
        using True Pair by (simp add: moves_def n1_def move_to_def[abs_def])
      with Cons.prems(3) Pair that[of mv2] show thesis by simp
    qed
    have other: "cfg_sections n1 ! j = (if j = i then move_to K name u ?s else cfg_sections n ! j)"
      if "j < length (cfg_sections n)" for j
      using that by (simp add: n1_def update_at_def nth_list_update)
    have "filter (\<lambda>i. moves K name (set created) (cfg_sections n1 ! i)) is
        = filter (\<lambda>i. moves K name (set created) (cfg_sections n ! i)) is"
      using Cons.prems(1,2) other by (intro filter_cong) auto
    moreover have "s_name (cfg_sections n1 ! j) = s_name (cfg_sections n ! j)" if "j \<in> set is" for j
      using that Cons.prems(1,2) other by auto
    ultimately have "mv' = map (\<lambda>i. (s_name (cfg_sections n ! i), name))
         (filter (\<lambda>i. moves K name (set created) (cfg_sections n ! i)) is)"
      using Cons.IH[OF _ _ rec] Cons.prems(1,2) by (simp add: n1_def)
    moreover have "\<forall>j < length (cfg_sections n). cfg_sections n' ! j =
         (if j \<in> set (i # is) \<and> moves K name (set created) (cfg_sections n ! j)
          then move_to K name u (cfg_sections n ! j) else cfg_sections n ! j)"
      using Cons.IH[OF _ _ rec] Cons.prems(1,2) other True by (auto simp: n1_def)
    moreover have "length (cfg_sections n') = length (cfg_sections n)"
      using Cons.IH[OF _ _ rec] Cons.prems(1,2) by (simp add: n1_def)
    ultimately show ?thesis using True mv by simp
  qed
qed

lemma map_filter_nth: "map ((!) xs) (filter (\<lambda>i. P (xs ! i)) [0..<length xs]) = filter P xs"
proof -
  have "filter P xs = filter P (map ((!) xs) [0..<length xs])" by (simp add: map_nth)
  then show ?thesis by (simp add: filter_map comp_def)
qed

definition movable :: "kit \<Rightarrow> string \<Rightarrow> string set \<Rightarrow> usection \<Rightarrow> bool" where
  "movable K name created s \<longleftrightarrow> s_type s = ''interface'' \<and> moves K name created s"

lemma move_interfaces_map:
  assumes K: "kit_ok K"
    and mv: "move_interfaces K name u created (k_of_type K n ''interface'') n = (n', mv)"
  shows "cfg_sections n' = map (\<lambda>s. if movable K name (set created) s then move_to K name u s else s)
      (cfg_sections n)
    \<and> mv = map (\<lambda>s. (s_name s, name)) (filter (movable K name (set created)) (cfg_sections n))"
proof -
  have "distinct (k_of_type K n ''interface'')" "\<forall>i \<in> set (k_of_type K n ''interface''). i < length (cfg_sections n)"
    by (simp_all add: kit_of_type[OF K])
  note all = move_interfaces_nth[OF K this mv]
  have spec: "length (cfg_sections n') = length (cfg_sections n)"
      "\<forall>j < length (cfg_sections n). cfg_sections n' ! j =
         (if j \<in> set (k_of_type K n ''interface'') \<and> moves K name (set created) (cfg_sections n ! j)
          then move_to K name u (cfg_sections n ! j) else cfg_sections n ! j)"
      "mv = map (\<lambda>i. (s_name (cfg_sections n ! i), name))
         (filter (\<lambda>i. moves K name (set created) (cfg_sections n ! i)) (k_of_type K n ''interface''))"
    by (rule all[THEN conjunct1], rule all[THEN conjunct2, THEN conjunct1],
        rule all[THEN conjunct2, THEN conjunct2])
  have "cfg_sections n' = map (\<lambda>s. if movable K name (set created) s then move_to K name u s else s)
      (cfg_sections n)"
  proof (rule nth_equalityI)
    fix j assume "j < length (cfg_sections n')"
    then have "j < length (cfg_sections n)" using spec(1) by simp
    then show "cfg_sections n' ! j =
        map (\<lambda>s. if movable K name (set created) s then move_to K name u s else s) (cfg_sections n) ! j"
      using spec(2)[rule_format, of j] by (simp add: kit_of_type_iff[OF K] movable_def)
  qed (simp add: spec(1))
  moreover have "mv = map (\<lambda>s. (s_name s, name))
      (map ((!) (cfg_sections n)) (filter (\<lambda>i. movable K name (set created) (cfg_sections n ! i))
        [0..<length (cfg_sections n)]))"
    unfolding spec(3) kit_of_type[OF K] filter_filter movable_def by simp
  ultimately show ?thesis by (simp only: map_filter_nth)
qed

lemma map_of_const:
  "map_of (map (\<lambda>s. (s_name s, c)) ys) k = (if k \<in> s_name ` set ys then Some c else None)"
  by (induction ys) auto

lemma map_of_moved:
  assumes "distinct (map s_name xs)" and "s \<in> set xs"
  shows "map_of (map (\<lambda>s. (s_name s, name)) (filter P xs)) (s_name s) = (if P s then Some name else None)"
proof (cases "P s")
  case True
  with assms(2) have "s_name s \<in> s_name ` set (filter P xs)" by auto
  with True show ?thesis by (simp only: map_of_const if_True)
next
  case False
  have "s_name s \<notin> s_name ` set (filter P xs)"
  proof
    assume "s_name s \<in> s_name ` set (filter P xs)"
    then obtain t where "t \<in> set xs" "P t" "s_name t = s_name s" by auto
    with assms False show False by (metis distinct_map inj_onD)
  qed
  with False show ?thesis by (simp only: map_of_const if_False)
qed

section \<open>Later steps only append\<close>

definition starts_n :: "usection list \<Rightarrow> pstate \<Rightarrow> bool" where
  "starts_n old ps \<longleftrightarrow> (\<exists>news. cfg_sections (ps_n ps) = old @ news)"

definition starts_w :: "usection list \<Rightarrow> pstate \<Rightarrow> bool" where
  "starts_w old ps \<longleftrightarrow> (\<exists>news. cfg_sections (ps_w ps) = old @ news)"

interpretation network_start: adding K "starts_n old" for K old
  by unfold_locales (auto simp: starts_n_def add_n_def add_w_def add_issue_def)

interpretation wireless_start: adding K "starts_w old" for K old
  by unfold_locales (auto simp: starts_w_def add_n_def add_w_def add_issue_def)

definition keeps_dynamic :: "(string \<times> string) list \<Rightarrow> pstate \<Rightarrow> bool" where
  "keeps_dynamic d ps \<longleftrightarrow> ps_dynamic ps = d"

interpretation dynamic_record: adding K "keeps_dynamic d" for K d
  by unfold_locales (auto simp: keeps_dynamic_def add_n_def add_w_def add_issue_def)

definition names_distinct :: "pstate \<Rightarrow> bool" where
  "names_distinct ps \<longleftrightarrow> distinct (names_of (ps_w ps)) \<and> distinct (names_of (ps_n ps))"

text \<open>With a package that finds sections by name, adding never repeats a name. \<open>kit_names\<close> is
  that part of the contract, as a property of the package and the state.\<close>

definition fresh_names :: "kit \<Rightarrow> pstate \<Rightarrow> bool" where
  "fresh_names K ps \<longleftrightarrow> (kit_ok K \<longrightarrow> names_distinct ps)"

interpretation fresh: adding K "fresh_names K" for K
proof unfold_locales
  show "fresh_names K (add_w K t name opts ps)" "fresh_names K (add_n K t name opts ps)"
    if "fresh_names K ps" for t name opts ps
    using that
    by (auto simp: fresh_names_def names_distinct_def names_of_def add_w_def add_n_def kit_section_None)
qed (auto simp: fresh_names_def names_distinct_def add_issue_def)

section \<open>The trunk stage, exactly\<close>

definition moved_sections :: "kit \<Rightarrow> conversion \<Rightarrow> usection list \<Rightarrow> usection list" where
  "moved_sections K c xs =
     map (\<lambda>s. if movable K (cv_bridge c) {} s then move_to K (cv_bridge c) (cv_untagged c) s else s) xs"

lemma first_add_n:
  assumes "kit_ok K" and "ps_created ps = []"
  shows "\<exists>extra. cfg_sections (ps_n (add_n K t name opts ps)) = cfg_sections (ps_n ps) @ extra
    \<and> (\<forall>s \<in> set extra. s_type s = t)
    \<and> (\<forall>s \<in> set (cfg_sections (ps_n ps)). s_name s \<notin> set (ps_created (add_n K t name opts ps)))"
proof (cases rule: add_n_cases[of K t name opts ps])
  case taken
  with assms(2) show ?thesis by simp
next
  case added
  with assms show ?thesis
    using kit_section_None[OF assms(1), of "ps_n ps" name]
    by (intro exI[of _ "[new_section t name opts]"]) auto
qed

lemma convert_shape:
  assumes K: "kit_ok K" and c: "convert K bridge vids prev ps = Inr (conv, ps')"
    and start: "ps_created ps = []" "fresh_names K ps"
  shows "starts_n (moved_sections K conv (cfg_sections (ps_n ps))) ps'
    \<and> cv_moved conv = map (\<lambda>s. (s_name s, cv_bridge conv))
        (filter (movable K (cv_bridge conv) {}) (cfg_sections (ps_n ps)))
    \<and> cv_bridge conv = opt_str K bridge ''name'' \<and> fresh_names K ps'"
proof -
  obtain name u ports ps1 n' moved where
    name: "name = opt_str K bridge ''name''" and
    ps1: "ps1 = add_n K ''bridge-vlan'' bvu_name
       [(''device'', k_string K name), (''vlan'', k_string K (itoa_int u)),
        (''ports'', k_list K ports)] ps" and
    mv: "move_interfaces K name u (ps_created ps1) (k_of_type K (ps_n ps1) ''interface'') (ps_n ps1)
       = (n', moved)" and
    ps': "ps' = ps1\<lparr>ps_n := n'\<rparr>" and
    conv: "conv = \<lparr>cv_bridge = name, cv_untagged = u, cv_moved = moved\<rparr>"
    by (rule convert_Inr[OF c])
  note spec = move_interfaces_map[OF K mv]
  obtain extra where extra: "cfg_sections (ps_n ps1) = cfg_sections (ps_n ps) @ extra"
      "\<forall>s \<in> set extra. s_type s = ''bridge-vlan''"
      and created: "\<forall>s \<in> set (cfg_sections (ps_n ps)). s_name s \<notin> set (ps_created ps1)"
    unfolding ps1 using first_add_n[OF K start(1)] by blast
  have P: "movable K name (set (ps_created ps1)) s = movable K name {} s"
    if "s \<in> set (cfg_sections (ps_n ps1))" for s
    using that extra created by (auto simp: movable_def moves_def)
  have no: "filter (movable K name {}) extra = []"
    using extra(2) by (auto simp: filter_empty_conv movable_def)
  have secs: "cfg_sections n' = moved_sections K conv (cfg_sections (ps_n ps1))"
    using spec[THEN conjunct1] P by (auto simp: moved_sections_def conv)
  have "moved = map (\<lambda>s. (s_name s, name)) (filter (movable K name {}) (cfg_sections (ps_n ps1)))"
    using spec[THEN conjunct2] P by (metis (mono_tags, lifting) filter_cong)
  moreover have "names_of n' = names_of (ps_n ps1)"
    using K by (auto simp: names_of_def secs moved_sections_def move_to_def)
  moreover have "fresh_names K ps1" unfolding ps1 by (rule fresh.keep_n[OF start(2)])
  ultimately show ?thesis
    using extra(1) no secs conv name ps'
    by (auto simp: starts_n_def moved_sections_def fresh_names_def names_distinct_def)
qed

lemma plan_trunk_shape:
  assumes K: "kit_ok K" and t: "plan_trunk K port vids None prev ps = Inr (conv, bname, ps')"
    and start: "ps_created ps = []" "fresh_names K ps"
  shows "fresh_names K ps' \<and>
    (case conv of None \<Rightarrow> starts_n (cfg_sections (ps_n ps)) ps'
     | Some c \<Rightarrow> starts_n (moved_sections K c (cfg_sections (ps_n ps))) ps'
         \<and> cv_moved c = map (\<lambda>s. (s_name s, cv_bridge c))
             (filter (movable K (cv_bridge c) {}) (cfg_sections (ps_n ps)))
         \<and> bridge_vlans K (ps_n ps) (cv_bridge c) = [])"
proof -
  have refl: "starts_n (cfg_sections (ps_n ps)) ps" by (simp add: starts_n_def)
  show ?thesis
  proof (cases "bridge_of K (ps_n ps) port")
    case None
    with t have "conv = None" "ps' = fold (own_port_vlan K port) vids ps"
      by (simp_all add: plan_trunk_def)
    with refl start(2) show ?thesis by (simp add: network_start.keep_own_port fresh.keep_own_port)
  next
    case (Some bi)
    define name where "name = opt_str K (cfg_sections (ps_n ps) ! bi) ''name''"
    define fin where "fin = (\<lambda>ps1. fold (\<lambda>v. vlan_interface K (vlan_device name v) v) vids
        (fold (carry_vlan K name port) vids ps1))"
    note t' = t[unfolded plan_trunk_def Some Let_def option.case name_def[symmetric]]
    show ?thesis
    proof (cases "bridge_vlans K (ps_n ps) name = []")
      case False
      with t' have "conv = None" "ps' = fin ps" by (simp_all add: fin_def)
      with refl start(2) show ?thesis
        by (simp add: fin_def network_start.keep_trunk_finish fresh.keep_trunk_finish)
    next
      case True
      with t' obtain c ps1 where
        c: "convert K (cfg_sections (ps_n ps) ! bi) vids (l_converted prev) ps = Inr (c, ps1)"
        and r: "conv = Some c" "ps' = fin ps1"
        by (auto simp: fin_def split: sum.splits)
      from convert_shape[OF K c start] True r show ?thesis
        by (simp add: fin_def name_def network_start.keep_trunk_finish fresh.keep_trunk_finish)
    qed
  qed
qed


section \<open>Restoring what was recorded\<close>

definition same_text :: "kit \<Rightarrow> usection \<Rightarrow> usection \<Rightarrow> bool" where
  "same_text K s t \<longleftrightarrow> same_header s t \<and> (\<forall>o'. opt_str K t o' = opt_str K s o')"

lemma same_text_trans: "same_text K s t \<Longrightarrow> same_text K t u \<Longrightarrow> same_text K s u"
  by (auto simp: same_text_def same_header_def)

lemma same_text_all_trans:
  "list_all2 (same_text K) xs ys \<Longrightarrow> list_all2 (same_text K) ys zs \<Longrightarrow> list_all2 (same_text K) xs zs"
  by (rule list_all2_trans[OF same_text_trans])

lemma same_but_text: "same_but K {} s t \<Longrightarrow> same_text K s t"
  by (auto simp: same_text_def same_but_def opt_str_def)

text \<open>\<open>f\<close> changes the sections with \<open>P\<close>, whose names and old values \<open>v\<close> the record \<open>r\<close> holds;
  \<open>g\<close> puts a value back. Sections may have been renamed in between if they are anonymous.\<close>

lemma restored_pointwise:
  assumes all2: "list_all2 (same_but K {}) (map f xs) ow" and dist: "distinct (map s_name ow)"
    and header: "\<And>x. same_header x (f x)"
    and rec: "\<And>x. x \<in> set xs \<Longrightarrow> P x \<Longrightarrow> \<not> s_anonymous x \<and> map_of r (s_name x) = Some (v x)"
    and other: "\<And>x. x \<in> set xs \<Longrightarrow> \<not> P x \<Longrightarrow> f x = x"
    and keys: "\<And>k. k \<in> fst ` set r \<Longrightarrow> \<exists>x \<in> set xs. P x \<and> s_name x = k"
    and putback: "\<And>x y. P x \<Longrightarrow> same_but K {} (f x) y \<Longrightarrow> same_text K x (g (v x) y)"
  shows "list_all2 (same_text K) xs
    (map (\<lambda>s. case map_of r (s_name s) of None \<Rightarrow> s | Some w \<Rightarrow> g w s) ow)"
proof -
  have len: "length ow = length xs" using all2 by (auto dest: list_all2_lengthD)
  have rel: "same_but K {} (f (xs ! j)) (ow ! j)" if "j < length xs" for j
    using all2 that by (auto simp: list_all2_conv_all_nth)
  have name: "s_name (ow ! j) = s_name (xs ! j)" if "j < length xs" "\<not> s_anonymous (xs ! j)" for j
    using rel[OF that(1)] header[of "xs ! j"] that(2) by (auto simp: same_but_def same_header_def)
  have "same_text K (xs ! j) (case map_of r (s_name (ow ! j)) of None \<Rightarrow> ow ! j | Some w \<Rightarrow> g w (ow ! j))"
    if j: "j < length xs" for j
  proof (cases "P (xs ! j)")
    case True
    with rec[of "xs ! j"] name[OF j] j have "map_of r (s_name (ow ! j)) = Some (v (xs ! j))" by simp
    with putback[OF True rel[OF j]] show ?thesis by simp
  next
    case False
    have "map_of r (s_name (ow ! j)) = None"
    proof (rule ccontr)
      assume "map_of r (s_name (ow ! j)) \<noteq> None"
      then have "s_name (ow ! j) \<in> fst ` set r" by (simp add: map_of_eq_None_iff)
      from keys[OF this] obtain i where i: "i < length xs" "P (xs ! i)" "s_name (xs ! i) = s_name (ow ! j)"
        by (auto simp: in_set_conv_nth)
      with rec[of "xs ! i"] name[OF i(1)] have "s_name (ow ! i) = s_name (ow ! j)" by simp
      then have "i = j" using dist i(1) j len by (simp add: distinct_conv_nth) metis
      with i(2) False show False by simp
    qed
    with rel[OF j] other[of "xs ! j"] False j show ?thesis by (simp add: same_but_text)
  qed
  then show ?thesis by (simp add: list_all2_conv_all_nth len)
qed

lemma opt_str_set:
  "kit_ok K \<Longrightarrow> opt_str K (k_set K s n (k_string K x)) m = (if m = n then x else opt_str K s m)"
  "kit_ok K \<Longrightarrow> opt_str K (k_delete K s n) m = (if m = n then [] else opt_str K s m)"
  by (auto simp: opt_str_def kit_get_set kit_get_delete kit_str_string)

lemma header_set:
  "kit_ok K \<Longrightarrow> same_header s (k_set K s n v)" "kit_ok K \<Longrightarrow> same_header s (k_delete K s n)"
  using kit_set_header[of K s n] by (auto simp: same_header_def)

lemma wireless_back:
  assumes K: "kit_ok K" and "list_all2 (same_but K {}) (map (make_dynamic K M) xs) ow"
    and "distinct (map s_name ow)"
    and named: "\<And>x. x \<in> set xs \<Longrightarrow> s_name x \<in> M \<Longrightarrow> \<not> s_anonymous x"
    and dyn: "\<And>x. x \<in> set xs \<Longrightarrow> map_of dyn (s_name x) =
        (if dynamic_on K M x then Some (opt_str K x ''dynamic_vlan'') else None)"
    and keys: "fst ` set dyn \<subseteq> s_name ` set xs"
  shows "list_all2 (same_text K) xs
    (map (\<lambda>s. case map_of dyn (s_name s) of None \<Rightarrow> s | Some was \<Rightarrow> put_back K was s) ow)"
proof (rule restored_pointwise[OF assms(2,3), where P = "dynamic_on K M"
      and v = "\<lambda>x. opt_str K x ''dynamic_vlan''"])
  show "same_header x (make_dynamic K M x)" for x
    by (simp add: make_dynamic_def header_set[OF K])
  show "\<not> s_anonymous x \<and> map_of dyn (s_name x) = Some (opt_str K x ''dynamic_vlan'')"
    if "x \<in> set xs" "dynamic_on K M x" for x
    using that named dyn by (auto simp: dynamic_on_def)
  show "\<not> dynamic_on K M x \<Longrightarrow> make_dynamic K M x = x" for x by (simp add: make_dynamic_def)
  show "\<exists>x \<in> set xs. dynamic_on K M x \<and> s_name x = k" if "k \<in> fst ` set dyn" for k
  proof -
    from that keys obtain x where x: "x \<in> set xs" "k = s_name x" by auto
    moreover have "map_of dyn k \<noteq> None" using that by (simp add: map_of_eq_None_iff)
    ultimately show ?thesis using dyn[OF x(1)] by (auto split: if_splits)
  qed
  show "same_text K x (put_back K (opt_str K x ''dynamic_vlan'') y)"
    if "dynamic_on K M x" "same_but K {} (make_dynamic K M x) y" for x y
  proof -
    have "same_text K (make_dynamic K M x) y" using that(2) by (rule same_but_text)
    with that(1) have "same_header x y"
        "\<And>o'. opt_str K y o' = (if o' = ''dynamic_vlan'' then ''1'' else opt_str K x o')"
      using header_set(1)[OF K, of x] by (auto simp: same_text_def make_dynamic_def opt_str_set[OF K] same_header_def)
    then show ?thesis
      using header_set[OF K, of y] by (auto simp: same_text_def put_back_def opt_str_set[OF K] same_header_def)
  qed
qed

lemma network_back:
  assumes K: "kit_ok K" and "list_all2 (same_but K {}) (moved_sections K c xs) ow"
    and "distinct (map s_name ow)" and dist: "distinct (map s_name xs)"
    and named: "\<And>x. x \<in> set xs \<Longrightarrow> s_type x = ''interface'' \<Longrightarrow> \<not> s_anonymous x"
    and mv: "cv_moved c = map (\<lambda>s. (s_name s, cv_bridge c)) (filter (movable K (cv_bridge c) {}) xs)"
  shows "list_all2 (same_text K) xs
    (map (\<lambda>s. case map_of (cv_moved c) (s_name s) of None \<Rightarrow> s | Some dev \<Rightarrow> move_back K c dev s) ow)"
proof (rule restored_pointwise[OF assms(2)[unfolded moved_sections_def] assms(3),
      where P = "movable K (cv_bridge c) {}" and v = "\<lambda>x. cv_bridge c"])
  show "same_header x (if movable K (cv_bridge c) {} x then move_to K (cv_bridge c) (cv_untagged c) x else x)" for x
    by (simp add: move_to_def header_set[OF K])
  show "\<not> s_anonymous x \<and> map_of (cv_moved c) (s_name x) = Some (cv_bridge c)"
    if "x \<in> set xs" "movable K (cv_bridge c) {} x" for x
    using that named by (auto simp: mv map_of_moved[OF dist] movable_def)
  show "\<exists>x \<in> set xs. movable K (cv_bridge c) {} x \<and> s_name x = k" if "k \<in> fst ` set (cv_moved c)" for k
    using that by (auto simp: mv)
  show "same_text K x (move_back K c (cv_bridge c) y)"
    if P: "movable K (cv_bridge c) {} x" and y: "same_but K {}
      (if movable K (cv_bridge c) {} x then move_to K (cv_bridge c) (cv_untagged c) x else x) y" for x y
  proof -
    have "same_text K (move_to K (cv_bridge c) (cv_untagged c) x) y"
      using y P by (simp add: same_but_text)
    then have "same_header x y" "\<And>o'. opt_str K y o' =
        (if o' = ''device'' then vlan_device (cv_bridge c) (cv_untagged c) else opt_str K x o')"
      using header_set(1)[OF K, of x] by (auto simp: same_text_def move_to_def opt_str_set[OF K] same_header_def)
    moreover have "opt_str K x ''device'' = cv_bridge c" using P by (simp add: movable_def moves_def)
    ultimately show ?thesis
      using header_set(1)[OF K, of y]
      by (auto simp: same_text_def move_back_def opt_str_set[OF K] same_header_def)
  qed
qed simp


section \<open>The shape of a plan's result\<close>

lemma set_dynamic_keys:
  "set_dynamic K ms ps = Some ps' \<Longrightarrow>
   fst ` set (ps_dynamic ps') \<subseteq> fst ` set ms \<union> fst ` set (ps_dynamic ps)"
proof (induction ms arbitrary: ps)
  case (Cons m ms)
  obtain name k where m: "m = (name, k)" by (cases m)
  with Cons.prems obtain i where i: "k_section K (ps_w ps) name = Some i"
    by (auto split: option.splits)
  let ?was = "opt_str K (cfg_sections (ps_w ps) ! i) ''dynamic_vlan''"
  define ps1 where "ps1 =
    (if ?was \<noteq> ''1''
         then ps\<lparr>ps_dynamic := (name, ?was) # filter (\<lambda>p. fst p \<noteq> name) (ps_dynamic ps),
                 ps_w := update_at i (\<lambda>s. k_set K s ''dynamic_vlan'' (k_string K ''1'')) (ps_w ps)\<rparr>
         else ps)\<lparr>ps_managed := ps_managed ps @ [name]\<rparr>"
  have "set_dynamic K ms ps1 = Some ps'"
    using Cons.prems m i by (simp add: ps1_def Let_def split: if_splits)
  from Cons.IH[OF this] have "fst ` set (ps_dynamic ps') \<subseteq> fst ` set ms \<union> fst ` set (ps_dynamic ps1)" .
  moreover have "fst ` set (ps_dynamic ps1) \<subseteq> insert name (fst ` set (ps_dynamic ps))"
    by (auto simp: ps1_def)
  ultimately show ?case using m by auto
qed simp

lemma find_managed_distinct:
  "distinct (map s_name ss) \<Longrightarrow> distinct (map fst (fst (find_managed K ssids ss)))"
proof (induction ss)
  case (Cons s ss)
  then show ?case
    using find_managed_names[of K ssids ss] by (auto simp: Let_def case_prod_beta)
qed simp

lemma managed_distinct:
  assumes "kit_ok K" and "distinct (names_of w)"
  shows "distinct (map fst (managed_of K d w))"
proof -
  have "sections_at w (k_of_type K w ''wifi-iface'') =
      filter (\<lambda>s. s_type s = ''wifi-iface'') (cfg_sections w)"
    unfolding sections_at_def kit_of_type[OF assms(1)] by (rule map_filter_nth)
  with assms(2) show ?thesis
    unfolding managed_of_def
    by (intro find_managed_distinct) (simp add: names_of_def distinct_map_filter)
qed

definition named :: "string \<Rightarrow> uconfig \<Rightarrow> bool" where
  "named typ c \<longleftrightarrow> (\<forall>s \<in> set (cfg_sections c). s_type s = typ \<longrightarrow> \<not> s_anonymous s)"

lemma managed_named:
  assumes "kit_ok K" and "distinct (names_of w)" and "named ''wifi-iface'' w"
    and "x \<in> set (cfg_sections w)" and "s_name x \<in> fst ` set (managed_of K d w)"
  shows "\<not> s_anonymous x"
proof -
  obtain s where s: "s \<in> set (cfg_sections w)" "s_type s = ''wifi-iface''" "s_name s = s_name x"
    using assms(5) by (auto simp: managed_of_def find_managed_iff sections_at_of_type[OF assms(1)])
  have "s = x" using s(1,3) assms(2,4) by (metis distinct_map inj_onD names_of_def)
  with s assms(3) show ?thesis by (simp add: named_def)
qed

definition reindex_distinct :: "kit \<Rightarrow> bool" where
  "reindex_distinct K \<longleftrightarrow> (\<forall>c. distinct (names_of c) \<longrightarrow> distinct (names_of (k_reindex K c)))"

text \<open>What a plan did to the sections it does not own (\<open>w\<close>, \<open>n\<close>: after the undo of the previous
  plan, no conversion kept).\<close>

definition plan_shape ::
  "kit \<Rightarrow> uconfig \<Rightarrow> uconfig \<Rightarrow> plan_result \<Rightarrow> string set \<Rightarrow> usection list \<Rightarrow> usection list \<Rightarrow>
   usection list \<Rightarrow> usection list \<Rightarrow> bool" where
  "plan_shape K w n res M ow nw on nn \<longleftrightarrow>
     cfg_sections (res_wireless res) = ow @ nw \<and> cfg_sections (res_network res) = on @ nn
   \<and> (\<forall>s \<in> set nw \<union> set nn. \<not> s_anonymous s \<and> s_name s \<in> set (the (l_owned (res_ledger res))))
   \<and> l_owned (res_ledger res) \<noteq> None
   \<and> distinct (names_of (res_wireless res)) \<and> distinct (names_of (res_network res))
   \<and> list_all2 (same_but K {}) (map (make_dynamic K M) (cfg_sections w)) ow
   \<and> (\<forall>x \<in> set (cfg_sections w). s_name x \<in> M \<longrightarrow> \<not> s_anonymous x)
   \<and> distinct (map fst (l_dynamic (res_ledger res)))
   \<and> fst ` set (l_dynamic (res_ledger res)) \<subseteq> s_name ` set (cfg_sections w)
   \<and> (\<forall>x \<in> set (cfg_sections w). map_of (l_dynamic (res_ledger res)) (s_name x) =
        (if dynamic_on K M x then Some (opt_str K x ''dynamic_vlan'') else None))
   \<and> (case l_converted (res_ledger res) of
        None \<Rightarrow> list_all2 (same_but K {}) (cfg_sections n) on
      | Some c \<Rightarrow> list_all2 (same_but K {}) (moved_sections K c (cfg_sections n)) on
          \<and> cv_moved c = map (\<lambda>s. (s_name s, cv_bridge c))
               (filter (movable K (cv_bridge c) {}) (cfg_sections n))
          \<and> bridge_vlans K n (cv_bridge c) = [])"

lemma reindex_split:
  assumes "kit_ok K" and "cfg_sections c = old @ news" and "\<forall>s \<in> set news. \<not> s_anonymous s"
  obtains old' news' where "cfg_sections (k_reindex K c) = old' @ news'"
    "list_all2 (same_but K {}) old old'" "\<forall>s \<in> set news'. \<not> s_anonymous s"
    "s_name ` set news' = s_name ` set news"
proof -
  have "list_all2 (same_but K {}) (old @ news) (cfg_sections (k_reindex K c))"
    using same_but_reindex[OF assms(1), of "{}" c] assms(2) by simp
  then obtain old' news' where r: "cfg_sections (k_reindex K c) = old' @ news'"
      "list_all2 (same_but K {}) old old'" "list_all2 (same_but K {}) news news'"
    by (auto simp: list_all2_append1)
  from r(3) assms(3) have "(\<forall>s \<in> set news'. \<not> s_anonymous s) \<and> s_name ` set news' = s_name ` set news"
    by (induction rule: list_all2_induct) (auto simp: same_but_def same_header_def)
  with r that show thesis by blast
qed


lemma plan_shape_empty:
  assumes K: "kit_ok K" and "reindex_distinct K"
    and "distinct (names_of w)" "distinct (names_of n)"
    and "res_wireless res = k_reindex K w" "res_network res = k_reindex K n"
    and "l_owned (res_ledger res) = Some []" "l_dynamic (res_ledger res) = []"
    and "l_converted (res_ledger res) = None"
  shows "plan_shape K w n res {} (cfg_sections (res_wireless res)) [] (cfg_sections (res_network res)) []"
proof -
  have "make_dynamic K {} = (\<lambda>s. s)" by (auto simp: make_dynamic_def dynamic_on_def)
  with assms show ?thesis
    by (simp add: plan_shape_def reindex_distinct_def dynamic_on_def same_but_reindex)
qed

lemma start_facts [simp]:
  "ps_w (plan_start w n issues) = w" "ps_n (plan_start w n issues) = n"
  "ps_created (plan_start w n issues) = []" "ps_dynamic (plan_start w n issues) = []"
  by (simp_all add: plan_start_def)

definition network_olds :: "kit \<Rightarrow> conversion option \<Rightarrow> uconfig \<Rightarrow> usection list" where
  "network_olds K conv n = (case conv of None \<Rightarrow> cfg_sections n | Some c \<Rightarrow> moved_sections K c (cfg_sections n))"

lemma length_network_olds [simp]: "length (network_olds K conv n) = length (cfg_sections n)"
  by (simp add: network_olds_def moved_sections_def split: option.split)

text \<open>The trunk and the dynamic stage of a plan, together.\<close>

lemma dynamic_stage:
  assumes K: "kit_ok K" and dist: "distinct (names_of w)" "distinct (names_of n)"
    and trunk: "plan_trunk K port vids None prev (plan_start w n issues) = Inr (conv, bname, ps1)"
    and dyn: "set_dynamic K (managed_of K d w) ps1 = Some ps2"
  defines "M \<equiv> fst ` set (managed_of K d w)"
  shows "fresh_names K ps2" and "starts_n (network_olds K conv n) ps2"
    and "case conv of None \<Rightarrow> True | Some c \<Rightarrow>
      cv_moved c = map (\<lambda>s. (s_name s, cv_bridge c)) (filter (movable K (cv_bridge c) {}) (cfg_sections n))
      \<and> bridge_vlans K n (cv_bridge c) = []"
    and "cfg_sections (ps_w ps2) = map (make_dynamic K M) (cfg_sections w)"
    and "distinct (map fst (ps_dynamic ps2))" and "fst ` set (ps_dynamic ps2) \<subseteq> s_name ` set (cfg_sections w)"
    and "\<forall>x \<in> set (cfg_sections w). map_of (ps_dynamic ps2) (s_name x) =
      (if dynamic_on K M x then Some (opt_str K x ''dynamic_vlan'') else None)"
proof -
  have t1: "ps_w ps1 = w" "ps_dynamic ps1 = []"
    using plan_trunk_inv[OF K trunk_inv_start trunk] by (simp_all add: trunk_inv_def)
  have "fresh_names K (plan_start w n issues)"
    using dist by (simp add: fresh_names_def names_distinct_def)
  from plan_trunk_shape[OF K trunk _ this]
  have fresh1: "fresh_names K ps1" and shape: "case conv of None \<Rightarrow> starts_n (cfg_sections n) ps1
     | Some c \<Rightarrow> starts_n (moved_sections K c (cfg_sections n)) ps1
         \<and> cv_moved c = map (\<lambda>s. (s_name s, cv_bridge c))
             (filter (movable K (cv_bridge c) {}) (cfg_sections n))
         \<and> bridge_vlans K n (cv_bridge c) = []"
    by (simp_all cong: option.case_cong)
  have "distinct (names_of (ps_w ps1))" "distinct (map fst (ps_dynamic ps1))"
    using dist t1 by simp_all
  note map2 = set_dynamic_map[OF K this(1) managed_distinct[OF K dist(1)] this(2) dyn, folded M_def]
  have n2: "ps_n ps2 = ps_n ps1" using has_set_dynamic[OF dyn] by simp
  show w2: "cfg_sections (ps_w ps2) = map (make_dynamic K M) (cfg_sections w)"
    and "distinct (map fst (ps_dynamic ps2))"
    and "\<forall>x \<in> set (cfg_sections w). map_of (ps_dynamic ps2) (s_name x) =
      (if dynamic_on K M x then Some (opt_str K x ''dynamic_vlan'') else None)"
    using map2 by (simp_all add: t1)
  show "fst ` set (ps_dynamic ps2) \<subseteq> s_name ` set (cfg_sections w)"
    using set_dynamic_keys[OF dyn] managed_names[OF K, of d w] t1 by auto
  have "names_of (ps_w ps2) = names_of w" using K by (auto simp: names_of_def w2)
  then show "fresh_names K ps2" using fresh1 dist n2 by (simp add: fresh_names_def names_distinct_def)
  show "starts_n (network_olds K conv n) ps2"
    using shape n2 by (auto simp: network_olds_def starts_n_def split: option.splits)
  show "case conv of None \<Rightarrow> True | Some c \<Rightarrow>
      cv_moved c = map (\<lambda>s. (s_name s, cv_bridge c)) (filter (movable K (cv_bridge c) {}) (cfg_sections n))
      \<and> bridge_vlans K n (cv_bridge c) = []"
    using shape by (simp split: option.splits)
qed

text \<open>The stations and the networks' VLANs only append.\<close>

lemma wifi_stage:
  assumes K: "kit_ok K" and "fresh_names K ps2" and "starts_n old ps2"
    and ps4: "ps4 = wifi_stations K digest sts ms (wifi_vlans K vids ms ps2)"
  shows "names_distinct ps4" and "ps_dynamic ps4 = ps_dynamic ps2"
    and "\<exists>nw. cfg_sections (ps_w ps4) = cfg_sections (ps_w ps2) @ nw"
    and "\<exists>nn. cfg_sections (ps_n ps4) = old @ nn"
proof -
  show "names_distinct ps4"
    unfolding ps4 using assms(2) K fresh.keep_wifi_stations fresh.keep_wifi_vlans fresh_names_def by blast
  have "starts_w (cfg_sections (ps_w ps2)) ps2" "keeps_dynamic (ps_dynamic ps2) ps2"
    by (simp_all add: starts_w_def keeps_dynamic_def)
  then show "ps_dynamic ps4 = ps_dynamic ps2" "\<exists>nw. cfg_sections (ps_w ps4) = cfg_sections (ps_w ps2) @ nw"
    unfolding ps4 starts_w_def[symmetric] keeps_dynamic_def[symmetric]
    by (simp_all add: wireless_start.keep_wifi_stations wireless_start.keep_wifi_vlans
        dynamic_record.keep_wifi_stations dynamic_record.keep_wifi_vlans)
  show "\<exists>nn. cfg_sections (ps_n ps4) = old @ nn"
    unfolding ps4 starts_n_def[symmetric]
    by (intro network_start.keep_wifi_stations network_start.keep_wifi_vlans assms(3))
qed

lemma plan_shape_full:
  assumes K: "kit_ok K" and rd: "reindex_distinct K" and d: "valid_desired d"
    and dist: "distinct (names_of w)" "distinct (names_of n)" and nm: "named ''wifi-iface'' w"
    and trunk: "plan_trunk K port (sort (d_vlans d)) None prev (plan_start w n issues)
      = Inr (conv, bname, ps1)"
    and dyn: "set_dynamic K (managed_of K d w) ps1 = Some ps2"
    and ps4: "ps4 = wifi_stations K digest (d_stations d) (managed_of K d w)
               (wifi_vlans K (sort (d_vlans d)) (managed_of K d w) ps2)"
    and res: "res_wireless res = k_reindex K (ps_w ps4)" "res_network res = k_reindex K (ps_n ps4)"
      "l_owned (res_ledger res) = Some (ps_created ps4)" "l_dynamic (res_ledger res) = ps_dynamic ps4"
      "l_converted (res_ledger res) = conv"
  obtains ow nw on nn where "plan_shape K w n res (fst ` set (managed_of K d w)) ow nw on nn"
proof -
  let ?M = "fst ` set (managed_of K d w)"
  let ?olds = "network_olds K conv n"
  note two = dynamic_stage[OF K dist trunk dyn]
  note four = wifi_stage[OF K two(1,2) ps4]
  obtain nw where nw: "cfg_sections (ps_w ps4) = map (make_dynamic K ?M) (cfg_sections w) @ nw"
    using four(3) two(4) by auto
  obtain nn where nn: "cfg_sections (ps_n ps4) = ?olds @ nn" using four(4) by blast
  have "plan_inv K (wifi_section K (managed_of K d w) (d_vlans d)) (trunk_section K port (d_vlans d)) w n ps4"
    unfolding ps4 by (rule plan_full_inv[OF K d trunk dyn])
  then obtain nw' nn' where inv: "grown K {''dynamic_vlan''} (cfg_sections w) nw' (cfg_sections (ps_w ps4))"
      "grown K {''device''} (cfg_sections n) nn' (cfg_sections (ps_n ps4))"
      "set (ps_created ps4) = s_name ` (set nw' \<union> set nn')"
      "\<forall>s \<in> set nw'. \<not> s_anonymous s" "\<forall>s \<in> set nn'. \<not> s_anonymous s"
    by (auto simp: plan_inv_def planned_def)
  have "nw' = nw" "nn' = nn"
    using inv(1,2) nw nn by (auto simp: grown_def append_eq_append_conv dest: list_all2_lengthD)
  with inv have new: "\<forall>s \<in> set nw. \<not> s_anonymous s" "\<forall>s \<in> set nn. \<not> s_anonymous s"
      "set (ps_created ps4) = s_name ` set nw \<union> s_name ` set nn"
    by auto
  obtain ow nwr where ow: "cfg_sections (res_wireless res) = ow @ nwr"
      "list_all2 (same_but K {}) (map (make_dynamic K ?M) (cfg_sections w)) ow"
      "\<forall>s \<in> set nwr. \<not> s_anonymous s" "s_name ` set nwr = s_name ` set nw"
    unfolding res(1) by (rule reindex_split[OF K nw new(1)])
  obtain on nnr where on: "cfg_sections (res_network res) = on @ nnr"
      "list_all2 (same_but K {}) ?olds on"
      "\<forall>s \<in> set nnr. \<not> s_anonymous s" "s_name ` set nnr = s_name ` set nn"
    unfolding res(2) by (rule reindex_split[OF K nn new(2)])
  have "plan_shape K w n res ?M ow nwr on nnr"
    unfolding plan_shape_def
  proof (intro conjI)
    show "\<forall>s \<in> set nwr \<union> set nnr. \<not> s_anonymous s \<and> s_name s \<in> set (the (l_owned (res_ledger res)))"
      using ow(3,4) on(3,4) new(3) res(3) by auto
    show "distinct (names_of (res_wireless res))" "distinct (names_of (res_network res))"
      using four(1) rd by (simp_all add: names_distinct_def reindex_distinct_def res)
    show "\<forall>x \<in> set (cfg_sections w). s_name x \<in> ?M \<longrightarrow> \<not> s_anonymous x"
      using managed_named[OF K dist(1) nm] by blast
    show "case l_converted (res_ledger res) of
        None \<Rightarrow> list_all2 (same_but K {}) (cfg_sections n) on
      | Some c \<Rightarrow> list_all2 (same_but K {}) (moved_sections K c (cfg_sections n)) on
          \<and> cv_moved c = map (\<lambda>s. (s_name s, cv_bridge c))
               (filter (movable K (cv_bridge c) {}) (cfg_sections n))
          \<and> bridge_vlans K n (cv_bridge c) = []"
      using on(2) two(3) by (auto simp: res network_olds_def split: option.splits)
  qed (use ow on res two(5-7) four(2) in simp_all)
  then show thesis by (rule that)
qed


section \<open>Undoing a plan\<close>

lemma undo_unkept:
  assumes "l_owned prev = Some owned" and "kept_conversion K w n prev = None"
  shows "undo K w n prev =
    (k_reindex K (restore_dynamic K (l_dynamic prev) (drop_owned owned w)),
     k_reindex K (case l_converted prev of None \<Rightarrow> drop_owned owned n
       | Some c \<Rightarrow> restore_moved K c (cv_moved c) (drop_owned owned n)), None)"
  using assms by (simp add: undo_def Let_def owned_dropped_def owned_set_def cong: option.case_cong)

lemma foreign_split:
  assumes "cfg_sections c = old @ news"
    and "\<forall>s \<in> set news. \<not> s_anonymous s \<and> s_name s \<in> set owned"
    and "\<forall>s \<in> set old. s_anonymous s \<or> s_name s \<notin> set owned"
  shows "foreign owned c = old"
  using assms by (simp add: foreign_def filter_id_conv filter_empty_conv)

lemma unowned_through:
  assumes "list_all2 (same_but K {}) (map f xs) ys" and "\<And>x. same_header x (f x)"
    and "\<forall>x \<in> set xs. s_anonymous x \<or> s_name x \<notin> A"
  shows "\<forall>y \<in> set ys. s_anonymous y \<or> s_name y \<notin> A"
proof
  fix y assume "y \<in> set ys"
  then obtain j where j: "j < length ys" "y = ys ! j" by (auto simp: in_set_conv_nth)
  with assms(1) have "j < length xs" "same_but K {} (f (xs ! j)) y"
    by (auto simp: list_all2_conv_all_nth)
  with assms(2)[of "xs ! j"] assms(3) show "s_anonymous y \<or> s_name y \<notin> A"
    using nth_mem[of j xs] by (auto simp: same_but_def same_header_def)
qed

lemma text_reindex:
  assumes "kit_ok K" and "list_all2 (same_text K) xs (cfg_sections c)"
  shows "list_all2 (same_text K) xs (cfg_sections (k_reindex K c))"
proof -
  have "list_all2 (same_text K) (cfg_sections c) (cfg_sections (k_reindex K c))"
    by (rule list_all2_mono[OF same_but_reindex[OF assms(1), of "{}" c] same_but_text])
  with assms(2) show ?thesis by (rule same_text_all_trans)
qed

lemma shape_not_kept:
  assumes K: "kit_ok K" and sh: "plan_shape K w n res M ow nw on nn"
  shows "kept_conversion K (res_wireless res) (res_network res) (res_ledger res) = None"
proof (cases "l_converted (res_ledger res)")
  case None
  then show ?thesis by (simp add: kept_conversion_def)
next
  case (Some c)
  obtain owned where owned: "l_owned (res_ledger res) = Some owned"
    using sh by (auto simp: plan_shape_def)
  have on: "list_all2 (same_but K {}) (moved_sections K c (cfg_sections n)) on"
      and none: "bridge_vlans K n (cv_bridge c) = []"
      and secs: "cfg_sections (res_network res) = on @ nn"
      and news: "\<forall>s \<in> set nn. s_name s \<in> set owned"
    using sh Some owned by (auto simp: plan_shape_def)
  have "s_name s \<in> set owned" if "s \<in> set (bridge_vlans K (res_network res) (cv_bridge c))" for s
  proof -
    have s: "s \<in> set (on @ nn)" "s_type s = ''bridge-vlan''" "opt_str K s ''device'' = cv_bridge c"
      using that by (auto simp: bridge_vlans_def sections_at_of_type[OF K] secs)
    have "s \<notin> set on"
    proof
      assume "s \<in> set on"
      then obtain j where j: "j < length on" "s = on ! j" by (auto simp: in_set_conv_nth)
      let ?x = "cfg_sections n ! j"
      have jn: "j < length (cfg_sections n)"
        using on j by (auto simp: moved_sections_def dest: list_all2_lengthD)
      have rel: "same_but K {} (if movable K (cv_bridge c) {} ?x
          then move_to K (cv_bridge c) (cv_untagged c) ?x else ?x) s"
        using on j jn by (auto simp: moved_sections_def list_all2_conv_all_nth)
      then have "s_type ?x = ''bridge-vlan''"
        using s(2) header_set(1)[OF K, of ?x]
        by (auto simp: same_but_def same_header_def move_to_def split: if_splits)
      then have "same_but K {} ?x s" using rel by (simp add: movable_def)
      then have "?x \<in> set (bridge_vlans K n (cv_bridge c))"
        using s(2,3) jn same_but_opt_str[of K ?x s]
        by (auto simp: bridge_vlans_def sections_at_of_type[OF K])
      with none show False by simp
    qed
    with s(1) news show ?thesis by simp
  qed
  with Some owned show ?thesis
    by (auto simp: kept_conversion_def owned_set_def list_ex_iff)
qed


lemma plan_has_shape:
  assumes K: "kit_ok K" and rd: "reindex_distinct K"
    and p: "plan K digest wireless network d tf prev = Inr res"
    and u: "undo K wireless network prev = (w, n, None)"
    and dist: "distinct (names_of w)" "distinct (names_of n)" and nm: "named ''wifi-iface'' w"
  obtains M ow nw on nn where "plan_shape K w n res M ow nw on nn"
  using p K u
proof (cases rule: plan_Inr)
  case empty
  then have "plan_shape K w n res {} (cfg_sections (res_wireless res)) [] (cfg_sections (res_network res)) []"
    by (intro plan_shape_empty[OF K rd dist]) (simp_all add: owned_after_def)
  then show thesis by (rule that)
next
  case (full issues conv bname ps1 ps2 ps4)
  show thesis
    by (rule plan_shape_full[OF K rd full(1) dist nm full(3,4,5,7,8)])
      (use full that in \<open>auto simp: owned_after_def split: option.splits\<close>)
qed

text \<open>Undoing what has the shape of a plan, for each of the two files.\<close>

lemma shape_wireless_back:
  assumes K: "kit_ok K" and sh: "plan_shape K w n res M ow nw on nn"
    and owned: "l_owned (res_ledger res) = Some owned"
    and unowned: "\<forall>s \<in> set (cfg_sections w). s_anonymous s \<or> s_name s \<notin> set owned"
  shows "list_all2 (same_text K) (cfg_sections w)
    (cfg_sections (restore_dynamic K (l_dynamic (res_ledger res)) (drop_owned owned (res_wireless res))))"
proof -
  let ?l = "l_dynamic (res_ledger res)"
  have secs: "cfg_sections (res_wireless res) = ow @ nw"
    and news: "\<forall>s \<in> set nw. \<not> s_anonymous s \<and> s_name s \<in> set owned"
    and ow: "list_all2 (same_but K {}) (map (make_dynamic K M) (cfg_sections w)) ow"
    and dists: "distinct (map s_name ow)"
    using sh owned by (auto simp: plan_shape_def names_of_def)
  have "\<forall>s \<in> set ow. s_anonymous s \<or> s_name s \<notin> set owned"
    by (rule unowned_through[OF ow])
      (use unowned in \<open>auto simp: make_dynamic_def header_set[OF K]\<close>)
  then have fw: "foreign owned (res_wireless res) = ow"
    using foreign_split[OF secs news] by simp
  have dd: "distinct (map fst ?l)"
    and restored: "list_all2 (same_text K) (cfg_sections w)
      (map (\<lambda>s. case map_of ?l (s_name s) of None \<Rightarrow> s | Some was \<Rightarrow> put_back K was s) ow)"
    using sh unfolding plan_shape_def by (blast, intro wireless_back[OF K ow dists]) blast+
  show ?thesis
    using restore_dynamic_map[OF K _ dd, of "drop_owned owned (res_wireless res)"] dists restored
    by (simp add: names_of_def fw)
qed

lemma shape_network_back:
  assumes K: "kit_ok K" and sh: "plan_shape K w n res M ow nw on nn"
    and owned: "l_owned (res_ledger res) = Some owned"
    and unowned: "\<forall>s \<in> set (cfg_sections n). s_anonymous s \<or> s_name s \<notin> set owned"
    and dist: "distinct (names_of n)" and nm: "named ''interface'' n"
  shows "list_all2 (same_text K) (cfg_sections n) (cfg_sections (case l_converted (res_ledger res) of
        None \<Rightarrow> drop_owned owned (res_network res)
      | Some c \<Rightarrow> restore_moved K c (cv_moved c) (drop_owned owned (res_network res))))"
proof -
  have secs: "cfg_sections (res_network res) = on @ nn"
    and news: "\<forall>s \<in> set nn. \<not> s_anonymous s \<and> s_name s \<in> set owned"
    and dists: "distinct (map s_name on)"
    using sh owned by (auto simp: plan_shape_def names_of_def)
  have split: "foreign owned (res_network res) = on"
    if "list_all2 (same_but K {}) (map f (cfg_sections n)) on" "\<And>x. same_header x (f x)" for f
    using foreign_split[OF secs news unowned_through[OF that unowned]] .
  show ?thesis
  proof (cases "l_converted (res_ledger res)")
    case None
    then have on: "list_all2 (same_but K {}) (map (\<lambda>x. x) (cfg_sections n)) on"
      using sh by (simp add: plan_shape_def)
    then have "list_all2 (same_text K) (cfg_sections n) on"
      by (auto intro: list_all2_mono same_but_text)
    with None split[OF on] show ?thesis by simp
  next
    case (Some c)
    then have on: "list_all2 (same_but K {}) (moved_sections K c (cfg_sections n)) on"
      and mv: "cv_moved c = map (\<lambda>s. (s_name s, cv_bridge c))
               (filter (movable K (cv_bridge c) {}) (cfg_sections n))"
      using sh by (simp_all add: plan_shape_def)
    have fn: "foreign owned (res_network res) = on"
      by (rule split[OF on[unfolded moved_sections_def]]) (auto simp: move_to_def header_set[OF K])
    have "distinct (map fst (cv_moved c))"
      using dist by (simp add: mv names_of_def comp_def distinct_map_filter)
    then have "cfg_sections (restore_moved K c (cv_moved c) (drop_owned owned (res_network res))) =
        map (\<lambda>s. case map_of (cv_moved c) (s_name s) of None \<Rightarrow> s | Some dev \<Rightarrow> move_back K c dev s) on"
      using dists by (subst restore_moved_map[OF K]) (simp_all add: names_of_def fn)
    moreover have "list_all2 (same_text K) (cfg_sections n)
        (map (\<lambda>s. case map_of (cv_moved c) (s_name s) of None \<Rightarrow> s | Some dev \<Rightarrow> move_back K c dev s) on)"
      using nm dist by (intro network_back[OF K on dists _ _ mv]) (auto simp: named_def names_of_def)
    ultimately show ?thesis using Some by simp
  qed
qed

text \<open>C6: device groups leave no trace. Let a plan be made from configurations with distinct
  section names and named wifi-iface and interface sections, none of them (once the previous
  plan is undone and no bridge stays converted) with a name of the new ledger. Undoing that
  plan with its own ledger gives back those configurations: the same sections in the same order,
  with the same type, name and text of every option (\<open>dynamic_vlan\<close> and \<open>device\<close> included), and
  nothing stays converted.\<close>

theorem plan_undo:
  assumes K: "kit_ok K" and rd: "reindex_distinct K"
    and p: "plan K digest wireless network d tf prev = Inr res"
    and u: "undo K wireless network prev = (w, n, None)"
    and dist: "distinct (names_of w)" "distinct (names_of n)"
    and nm: "named ''wifi-iface'' w" "named ''interface'' n"
    and unowned: "\<forall>s \<in> set (cfg_sections w) \<union> set (cfg_sections n).
      s_anonymous s \<or> s_name s \<notin> set (the (l_owned (res_ledger res)))"
    and u': "undo K (res_wireless res) (res_network res) (res_ledger res) = (w', n', kept')"
  shows "list_all2 (same_text K) (cfg_sections w) (cfg_sections w')
    \<and> list_all2 (same_text K) (cfg_sections n) (cfg_sections n') \<and> kept' = None"
proof -
  obtain M ow nw on nn where sh: "plan_shape K w n res M ow nw on nn"
    by (rule plan_has_shape[OF K rd p u dist nm(1)])
  then obtain owned where owned: "l_owned (res_ledger res) = Some owned" by (auto simp: plan_shape_def)
  have "list_all2 (same_text K) (cfg_sections w)
      (cfg_sections (restore_dynamic K (l_dynamic (res_ledger res)) (drop_owned owned (res_wireless res))))"
    by (rule shape_wireless_back[OF K sh owned]) (use unowned owned in simp)
  moreover have "list_all2 (same_text K) (cfg_sections n) (cfg_sections (case l_converted (res_ledger res) of
        None \<Rightarrow> drop_owned owned (res_network res)
      | Some c \<Rightarrow> restore_moved K c (cv_moved c) (drop_owned owned (res_network res))))"
    by (rule shape_network_back[OF K sh owned _ dist(2) nm(2)]) (use unowned owned in simp)
  ultimately show ?thesis
    using undo_unkept[OF owned shape_not_kept[OF K sh]] u' by (auto intro: text_reindex[OF K])
qed


lemma reindex_distinct_plain: "reindex_distinct plain_kit"
  by (simp add: reindex_distinct_def plain_kit_def)

text \<open>The sample plan converts a bridge, sets \<open>dynamic_vlan\<close> and adds five sections; undoing it
  gives the sample back.\<close>

lemma sample_undo:
  "undo plain_kit sample_wireless sample_network empty_ledger = (sample_wireless, sample_network, None)"
  by code_simp

lemma sample_names:
  "distinct (names_of sample_wireless)" "distinct (names_of sample_network)"
  "named ''wifi-iface'' sample_wireless" "named ''interface'' sample_network"
  by code_simp+

lemma sample_unowned:
  "case plan plain_kit (\<lambda>k. k) sample_wireless sample_network sample_desired [] empty_ledger of
     Inl e \<Rightarrow> False
   | Inr res \<Rightarrow> list_all (\<lambda>s. s_anonymous s \<or> s_name s \<notin> set (the (l_owned (res_ledger res))))
       (cfg_sections sample_wireless @ cfg_sections sample_network)"
  by code_simp

theorem plan_undo_witness:
  "\<exists>res w' n'. plan plain_kit (\<lambda>k. k) sample_wireless sample_network sample_desired [] empty_ledger = Inr res
    \<and> undo plain_kit (res_wireless res) (res_network res) (res_ledger res) = (w', n', None)
    \<and> list_all2 (same_text plain_kit) (cfg_sections sample_network) (cfg_sections n')"
proof -
  obtain res where
    r: "plan plain_kit (\<lambda>k. k) sample_wireless sample_network sample_desired [] empty_ledger = Inr res"
    by (rule sample_plan_Inr)
  obtain w' n' kept' where u: "undo plain_kit (res_wireless res) (res_network res) (res_ledger res) = (w', n', kept')"
    by (metis prod_cases3)
  have "\<forall>s \<in> set (cfg_sections sample_wireless) \<union> set (cfg_sections sample_network).
      s_anonymous s \<or> s_name s \<notin> set (the (l_owned (res_ledger res)))"
    using sample_unowned unfolding r by (auto simp: list_all_iff)
  from plan_undo[OF kit_ok_plain reindex_distinct_plain r sample_undo sample_names this u] r u
  show ?thesis by blast
qed

end
