(* ===== verification/Health.thy ===== *)
theory Health
  imports UciKit
begin

text \<open>
  The Wi-Fi plane's health check, \<open>internal/wifiplane/health.go\<close>: what a committed wireless
  configuration expects to run (\<open>expect_from\<close>), what runs (\<open>gather\<close>, from netifd's, nl80211's and
  hostapd's answers), the verdict (\<open>evaluate\<close>), and the record of what was broken before an apply
  (\<open>broken_before\<close>). Maps are association lists with one entry per key. Problems carry their code,
  section and whether they were there before, not their message; durations are in seconds.
\<close>

section \<open>Data\<close>

datatype problem_code =
    RadioDown | RadioSetupFailed | BSSMissing | BSSDisabled | SSIDMismatch | CACRunning
  | ACSRunning | HostapdUnreachable | ConfigUnreadable | StatusUnreadable

record problem =
  pr_code :: problem_code
  pr_section :: string
  pr_pre :: bool

record radio_status =
  rs_up :: bool
  rs_pending :: bool
  rs_disabled :: bool
  rs_retry :: bool
  rs_ifaces :: "(string \<times> string) list"

record hostapd_status =
  hs_status :: string
  hs_bssid :: string
  hs_ssid :: string
  hs_channel :: int
  hs_dfs :: "(bool \<times> int) option"

record bss_run =
  br_radio :: string
  br_ifname :: string
  br_reachable :: bool
  br_st :: hostapd_status

record run_state =
  run_radios :: "(string \<times> radio_status) list"
  run_err :: bool
  run_bss :: "(string \<times> bss_run) list"

record exp_bss =
  eb_radios :: "string list"
  eb_ssid :: string

record expectation =
  ex_radios :: "string list"
  ex_bss :: "(string \<times> exp_bss) list"
  ex_ap :: "(string \<times> exp_bss) list"

text \<open>The apply's own list of what it expects.\<close>

record expect =
  want_bss :: "string list"
  want_radios :: "string list"

record broken =
  bk_radios :: "string list"
  bk_bss :: "string list"

record radio_health =
  rh_section :: string
  rh_up :: bool
  rh_pending :: bool
  rh_disabled :: bool
  rh_retry :: bool
  rh_channel :: int
  rh_dfs :: "int option"
  rh_expected :: bool

record bss_health =
  bh_section :: string
  bh_radio :: string
  bh_ifname :: string
  bh_ssid :: string
  bh_status :: string
  bh_expected :: bool
  bh_bssid :: string

record report =
  rep_ok :: bool
  rep_pending :: bool
  rep_radios :: "radio_health list"
  rep_bss :: "bss_health list"
  rep_problems :: "problem list"

definition cac_margin :: int where "cac_margin = 15"

section \<open>What must run\<close>

definition opt_items :: "kit \<Rightarrow> usection \<Rightarrow> string \<Rightarrow> string list" where
  "opt_items K s name = (case k_get K s name of Some v \<Rightarrow> items v | None \<Rightarrow> [])"

definition enabled :: "kit \<Rightarrow> usection \<Rightarrow> bool" where
  "enabled K s \<longleftrightarrow> to_lower (trim_space (opt_str K s ''disabled''))
     \<notin> {''1'', ''on'', ''true'', ''yes'', ''enabled''}"

definition insert_new :: "'a \<Rightarrow> 'a list \<Rightarrow> 'a list" where
  "insert_new x xs = (if x \<in> set xs then xs else xs @ [x])"

definition add_all :: "'a list \<Rightarrow> 'a list \<Rightarrow> 'a list" where
  "add_all ys xs = fold insert_new ys xs"

text \<open>One wifi-iface section: what it adds to the expectation; \<open>on\<close> are the enabled radios.\<close>

definition expect_iface :: "kit \<Rightarrow> string list \<Rightarrow> usection \<Rightarrow> expectation \<Rightarrow> expectation" where
  "expect_iface K on i e =
     (let b = \<lparr>eb_radios = opt_items K i ''device'', eb_ssid = opt_str K i ''ssid''\<rparr>;
          mode = opt_str K i ''mode''
      in if mode \<noteq> [] \<and> mode \<noteq> ''ap'' then e
         else
           (let e1 = e\<lparr>ex_ap := put (s_name i) b (ex_ap e)\<rparr>
            in if \<not> enabled K i then e1
               else
                 (let live = filter (\<lambda>r. r \<in> set on) (eb_radios b)
                  in if live = [] then e1
                     else e1\<lparr>ex_bss := put (s_name i) \<lparr>eb_radios = live, eb_ssid = eb_ssid b\<rparr> (ex_bss e1),
                             ex_radios := add_all live (ex_radios e1)\<rparr>)))"

definition all_ifaces :: "kit \<Rightarrow> usection list \<Rightarrow> (string \<times> exp_bss) list" where
  "all_ifaces K is =
     fold (\<lambda>i. put (s_name i) \<lparr>eb_radios = opt_items K i ''device'', eb_ssid = opt_str K i ''ssid''\<rparr>) is []"

text \<open>A BSS the controller lists.\<close>

definition expect_listed :: "(string \<times> exp_bss) list \<Rightarrow> string \<Rightarrow> expectation \<Rightarrow> expectation" where
  "expect_listed all name e =
     (if map_of (ex_bss e) name \<noteq> None \<or> name = [] then e
      else
        (let b = lookup_default \<lparr>eb_radios = [], eb_ssid = []\<rparr> all name
         in e\<lparr>ex_bss := put name b (ex_bss e), ex_radios := add_all (eb_radios b) (ex_radios e)\<rparr>))"

definition sections_typed :: "kit \<Rightarrow> uconfig option \<Rightarrow> string \<Rightarrow> usection list" where
  "sections_typed K cfg t =
     (case cfg of None \<Rightarrow> [] | Some c \<Rightarrow> map ((!) (cfg_sections c)) (k_of_type K c t))"

definition expect_from :: "kit \<Rightarrow> uconfig option \<Rightarrow> expect \<Rightarrow> expectation" where
  "expect_from K cfg ex =
     (let on = map s_name (filter (enabled K) (sections_typed K cfg ''wifi-device''));
          ifs = sections_typed K cfg ''wifi-iface'';
          e0 = fold (expect_iface K on) ifs \<lparr>ex_radios = [], ex_bss = [], ex_ap = []\<rparr>;
          e1 = e0\<lparr>ex_radios := add_all (filter (\<lambda>r. r \<noteq> []) (want_radios ex)) (ex_radios e0)\<rparr>
      in fold (expect_listed (all_ifaces K ifs)) (want_bss ex) e1)"

definition wanted :: "expectation \<Rightarrow> string list" where
  "wanted e = map fst (ex_ap e) @ map fst (ex_bss e)"

section \<open>What runs\<close>

definition gather_iface ::
  "string list \<Rightarrow> (string \<times> string) list \<Rightarrow> (string \<Rightarrow> hostapd_status option) \<Rightarrow> string \<Rightarrow>
   string \<times> string \<Rightarrow> (string \<times> bss_run) list \<Rightarrow> (string \<times> bss_run) list" where
  "gather_iface want beaconing ask radio i m =
     (let (section, ifname) = i
      in if section = [] \<or> ifname = [] \<or> section \<notin> set want then m
         else put section
           (case map_of beaconing ifname of
              Some ssid \<Rightarrow>
                \<lparr>br_radio = radio, br_ifname = ifname, br_reachable = True,
                 br_st = \<lparr>hs_status = ''ENABLED'', hs_bssid = [], hs_ssid = ssid, hs_channel = 0, hs_dfs = None\<rparr>\<rparr>
            | None \<Rightarrow>
                (case ask ifname of
                   Some st \<Rightarrow> \<lparr>br_radio = radio, br_ifname = ifname, br_reachable = True, br_st = st\<rparr>
                 | None \<Rightarrow>
                     \<lparr>br_radio = radio, br_ifname = ifname, br_reachable = False,
                      br_st = \<lparr>hs_status = [], hs_bssid = [], hs_ssid = [], hs_channel = 0, hs_dfs = None\<rparr>\<rparr>)) m)"

text \<open>\<open>status\<close>: netifd's answer (\<open>None\<close>: it did not); \<open>nl\<close>: nl80211's interfaces that have an SSID
  and a frequency, asked only when the check is not full; \<open>ask\<close>: hostapd's answers.\<close>

definition gather ::
  "string list \<Rightarrow> bool \<Rightarrow> (string \<times> radio_status) list option \<Rightarrow> (string \<times> string) list \<Rightarrow>
   (string \<Rightarrow> hostapd_status option) \<Rightarrow> run_state" where
  "gather want full status nl ask =
     (let radios = (case status of None \<Rightarrow> [] | Some rs \<Rightarrow> rs);
          beaconing = (if full then [] else fold (\<lambda>(ifn, ssid). put ifn ssid) nl [])
      in \<lparr>run_radios = radios, run_err = (status = None),
          run_bss = fold (\<lambda>(radio, r). fold (gather_iface want beaconing ask radio) (rs_ifaces r)) radios []\<rparr>)"

section \<open>The verdict\<close>

record tally =
  ta_problems :: "problem list"
  ta_counting :: nat
  ta_lasting :: nat

definition tally_add :: "problem \<Rightarrow> bool \<Rightarrow> tally \<Rightarrow> tally" where
  "tally_add p transient t =
     (let t1 = t\<lparr>ta_problems := ta_problems t @ [p]\<rparr>
      in if pr_pre p then t1
         else (let t2 = t1\<lparr>ta_counting := Suc (ta_counting t1)\<rparr>
               in if transient then t2 else t2\<lparr>ta_lasting := Suc (ta_lasting t2)\<rparr>))"

text \<open>A radio's problem, and whether it is transient.\<close>

definition radio_problem :: "run_state \<Rightarrow> broken \<Rightarrow> string \<Rightarrow> (problem \<times> bool) option" where
  "radio_problem rs bk name =
     (let prob = (\<lambda>code. \<lparr>pr_code = code, pr_section = name, pr_pre = (name \<in> set (bk_radios bk))\<rparr>)
      in case map_of (run_radios rs) name of
           None \<Rightarrow> Some (prob RadioDown, False)
         | Some st \<Rightarrow>
             if rs_retry st then Some (prob RadioSetupFailed, False)
             else if \<not> rs_up st \<and> rs_pending st then Some (prob RadioDown, True)
             else if \<not> rs_up st then Some (prob RadioDown, False)
             else None)"

definition radio_view :: "run_state \<Rightarrow> expectation \<Rightarrow> (string \<times> int) list \<Rightarrow> (string \<times> int) list \<Rightarrow> string \<Rightarrow> radio_health" where
  "radio_view rs e channels dfs name =
     (let st = lookup_default \<lparr>rs_up = False, rs_pending = False, rs_disabled = False, rs_retry = False,
                               rs_ifaces = []\<rparr> (run_radios rs) name
      in \<lparr>rh_section = name, rh_up = rs_up st, rh_pending = rs_pending st, rh_disabled = rs_disabled st,
          rh_retry = rs_retry st, rh_channel = lookup_default 0 channels name,
          rh_dfs = map_of dfs name, rh_expected = (name \<in> set (ex_radios e))\<rparr>)"

definition radio_round :: "run_state \<Rightarrow> expectation \<Rightarrow> broken \<Rightarrow> string \<Rightarrow> tally \<Rightarrow> tally" where
  "radio_round rs e bk name t =
     (if name \<notin> set (ex_radios e) \<or> run_err rs then t
      else case radio_problem rs bk name of
        None \<Rightarrow> t
      | Some (p, transient) \<Rightarrow> tally_add p transient t)"

text \<open>The radios' channels and radar checks, from the BSSes that answer.\<close>

definition note_channel :: "string \<times> bss_run \<Rightarrow> (string \<times> int) list \<Rightarrow> (string \<times> int) list" where
  "note_channel b m =
     (let r = snd b
      in if br_reachable r \<and> hs_channel (br_st r) > 0 \<and> lookup_default 0 m (br_radio r) = 0
         then put (br_radio r) (hs_channel (br_st r)) m else m)"

definition note_dfs :: "string \<times> bss_run \<Rightarrow> (string \<times> int) list \<Rightarrow> (string \<times> int) list" where
  "note_dfs b m =
     (let r = snd b
      in if \<not> br_reachable r then m
         else case hs_dfs (br_st r) of
           Some (True, left) \<Rightarrow> put (br_radio r) left m
         | _ \<Rightarrow> m)"

definition bss_view :: "run_state \<Rightarrow> expectation \<Rightarrow> string \<Rightarrow> bss_health" where
  "bss_view rs e name =
     (let h = \<lparr>bh_section = name,
               bh_radio = (case map_of (ex_bss e) name of
                  Some x \<Rightarrow> (case eb_radios x of [] \<Rightarrow> [] | r # _ \<Rightarrow> r) | None \<Rightarrow> []),
               bh_ifname = [], bh_ssid = [], bh_status = ''missing'',
               bh_expected = (map_of (ex_bss e) name \<noteq> None), bh_bssid = []\<rparr>
      in case map_of (run_bss rs) name of
           None \<Rightarrow> h
         | Some run \<Rightarrow>
             (let h1 = h\<lparr>bh_radio := br_radio run, bh_ifname := br_ifname run, bh_status := ''unreachable''\<rparr>
              in if br_reachable run
                 then h1\<lparr>bh_status := hs_status (br_st run), bh_ssid := hs_ssid (br_st run),
                         bh_bssid := hs_bssid (br_st run)\<rparr>
                 else h1))"

definition bss_pre :: "broken \<Rightarrow> string \<Rightarrow> exp_bss \<Rightarrow> bool" where
  "bss_pre bk name x \<longleftrightarrow> name \<in> set (bk_bss bk) \<or> list_ex (\<lambda>r. r \<in> set (bk_radios bk)) (eb_radios x)"

definition cac_left :: "hostapd_status \<Rightarrow> int" where
  "cac_left st = (case hs_dfs st of Some (True, left) \<Rightarrow> left | _ \<Rightarrow> 0)"

text \<open>One expected BSS: the tally, the extension and the radios whose check was reported.\<close>

definition bss_round ::
  "run_state \<Rightarrow> expectation \<Rightarrow> broken \<Rightarrow> string \<Rightarrow> tally \<times> int \<times> string list \<Rightarrow> tally \<times> int \<times> string list" where
  "bss_round rs e bk name acc =
     (let (t, extend, cac) = acc
      in case map_of (ex_bss e) name of
           None \<Rightarrow> acc
         | Some x \<Rightarrow>
             if run_err rs then acc
             else
               (let pre = bss_pre bk name x;
                    prob = (\<lambda>code section. \<lparr>pr_code = code, pr_section = section, pr_pre = pre\<rparr>)
                in case map_of (run_bss rs) name of
                     None \<Rightarrow> (tally_add (prob BSSMissing name) False t, extend, cac)
                   | Some run \<Rightarrow>
                       if \<not> br_reachable run
                       then (tally_add (prob HostapdUnreachable name) False t, extend, cac)
                       else
                         (let st = hs_status (br_st run)
                          in if st = ''ENABLED'' then
                               (if eb_ssid x \<noteq> [] \<and> hs_ssid (br_st run) \<noteq> eb_ssid x
                                then (tally_add (prob SSIDMismatch name) False t, extend, cac) else acc)
                             else if st = ''DFS'' then
                               (let left = cac_left (br_st run);
                                    extend' = (if left > 0 \<and> \<not> pre \<and> left + cac_margin > extend
                                               then left + cac_margin else extend)
                                in if br_radio run \<in> set cac
                                   then ((if pre then t else t\<lparr>ta_counting := Suc (ta_counting t)\<rparr>), extend', cac)
                                   else (tally_add (prob CACRunning (br_radio run)) True t, extend',
                                         br_radio run # cac))
                             else if st = ''ACS'' \<or> st = ''HT_SCAN''
                               then (tally_add (prob ACSRunning name) True t, extend, cac)
                             else if st = ''COUNTRY_UPDATE'' \<or> st = ''UNINITIALIZED'' \<or> st = []
                               then (tally_add (prob BSSDisabled name) True t, extend, cac)
                             else (tally_add (prob BSSDisabled name) False t, extend, cac))))"

definition sorted_keys :: "string list \<Rightarrow> string list" where
  "sorted_keys xs = sort_strings (remdups xs)"

definition evaluate :: "run_state \<Rightarrow> expectation \<Rightarrow> broken \<Rightarrow> report \<times> bool \<times> int" where
  "evaluate rs e bk =
     (let t0 = \<lparr>ta_problems = [], ta_counting = 0, ta_lasting = 0\<rparr>;
          t1 = (if run_err rs
                then tally_add \<lparr>pr_code = StatusUnreadable, pr_section = [], pr_pre = False\<rparr> False t0 else t0);
          radios = sorted_keys (map fst (run_radios rs) @ ex_radios e);
          channels = fold note_channel (run_bss rs) [];
          dfs = fold note_dfs (run_bss rs) [];
          t2 = fold (radio_round rs e bk) radios t1;
          sections = sorted_keys (map fst (ex_bss e) @ map fst (run_bss rs));
          (t3, extend, _) = fold (bss_round rs e bk) sections (t2, 0, []);
          ok = (ta_counting t3 = 0)
      in (\<lparr>rep_ok = ok, rep_pending = (\<not> ok \<and> ta_lasting t3 = 0),
           rep_radios = map (radio_view rs e channels dfs) radios,
           rep_bss = map (bss_view rs e) sections, rep_problems = ta_problems t3\<rparr>, ok, extend))"

section \<open>The hooks\<close>

datatype health_verdict = HealthOK | HealthPending

text \<open>\<open>check\<close>, the plane's health hook; \<open>cfg\<close>: the committed configuration, \<open>Inl\<close> when it cannot
  be read.\<close>

definition check_health ::
  "kit \<Rightarrow> unit + uconfig \<Rightarrow> expect \<Rightarrow> broken \<Rightarrow> (string list \<Rightarrow> run_state) \<Rightarrow>
   health_verdict \<times> report \<times> int" where
  "check_health K cfg ex bk run =
     (case cfg of
        Inl _ \<Rightarrow>
          (HealthPending,
           \<lparr>rep_ok = False, rep_pending = False, rep_radios = [], rep_bss = [],
            rep_problems = [\<lparr>pr_code = ConfigUnreadable, pr_section = [], pr_pre = False\<rparr>]\<rparr>, 0)
      | Inr c \<Rightarrow>
          (let e = expect_from K (Some c) ex;
               (rep, ok, extend) = evaluate (run (wanted e)) e bk
           in if ok then (HealthOK, rep, 0) else (HealthPending, rep, extend)))"

definition broken_of :: "run_state \<Rightarrow> expectation \<Rightarrow> broken option" where
  "broken_of rs e =
     (if run_err rs then None
      else
        (let (rep, _, _) = evaluate rs e \<lparr>bk_radios = [], bk_bss = []\<rparr>;
             ps = rep_problems rep;
             radios = map pr_section (filter (\<lambda>p. pr_code p \<in> {RadioDown, RadioSetupFailed}) ps);
             bss = map pr_section (filter (\<lambda>p. pr_code p \<in>
                     {BSSMissing, BSSDisabled, HostapdUnreachable, SSIDMismatch}) ps);
             stale = map fst (filter (\<lambda>(name, st). rs_retry st \<and> name \<notin> set (ex_radios e)) (run_radios rs))
         in Some \<lparr>bk_radios = sort_strings (radios @ stale), bk_bss = bss\<rparr>))"

definition health_before :: "kit \<Rightarrow> uconfig option \<Rightarrow> (string list \<Rightarrow> run_state) \<Rightarrow> broken option" where
  "health_before K cfg run =
     (let e = expect_from K cfg \<lparr>want_bss = [], want_radios = []\<rparr> in broken_of (run (wanted e)) e)"

text \<open>\<open>healthNow\<close>; \<open>cfg_err\<close>: reading the configuration failed (and it is not just missing).\<close>

definition health_now ::
  "kit \<Rightarrow> uconfig option \<Rightarrow> bool \<Rightarrow> (string list \<Rightarrow> run_state) \<Rightarrow> report" where
  "health_now K cfg cfg_err run =
     (let e = expect_from K cfg \<lparr>want_bss = [], want_radios = []\<rparr>;
          (rep, _, _) = evaluate (run (wanted e)) e \<lparr>bk_radios = [], bk_bss = []\<rparr>
      in if cfg_err
         then rep\<lparr>rep_problems := rep_problems rep @
                    [\<lparr>pr_code = ConfigUnreadable, pr_section = [], pr_pre = False\<rparr>],
                  rep_ok := False, rep_pending := False\<rparr>
         else rep)"

end
