(* ===== verification/HealthProps.thy ===== *)
theory HealthProps
  imports Health
begin

text \<open>
  What the health check of \<open>Health\<close> promises: its verdict is exactly "everything expected runs", its
  \<open>pending\<close> exactly "what does not run is on its way", its extension exactly the longest radar check
  that counts, and the record taken at snapshot time excuses exactly what was broken then.
\<close>

section \<open>The specification\<close>

definition radio_runs :: "run_state \<Rightarrow> string \<Rightarrow> bool" where
  "radio_runs rs r \<longleftrightarrow> (case map_of (run_radios rs) r of
     None \<Rightarrow> False | Some st \<Rightarrow> rs_up st \<and> \<not> rs_retry st)"

definition radio_coming :: "run_state \<Rightarrow> string \<Rightarrow> bool" where
  "radio_coming rs r \<longleftrightarrow> (case map_of (run_radios rs) r of
     None \<Rightarrow> False | Some st \<Rightarrow> \<not> rs_up st \<and> rs_pending st \<and> \<not> rs_retry st)"

text \<open>hostapd's answer about a BSS; \<open>None\<close>: it has no interface, or hostapd is silent.\<close>

definition bss_answer :: "run_state \<Rightarrow> string \<Rightarrow> hostapd_status option" where
  "bss_answer rs b = (case map_of (run_bss rs) b of
     None \<Rightarrow> None | Some run \<Rightarrow> if br_reachable run then Some (br_st run) else None)"

definition bss_beacons :: "run_state \<Rightarrow> string \<Rightarrow> exp_bss \<Rightarrow> bool" where
  "bss_beacons rs b x \<longleftrightarrow> (case bss_answer rs b of
     None \<Rightarrow> False
   | Some st \<Rightarrow> hs_status st = ''ENABLED'' \<and> (eb_ssid x = [] \<or> hs_ssid st = eb_ssid x))"

definition scanning :: "string list" where
  "scanning = [''DFS'', ''ACS'', ''HT_SCAN'']"

definition starting :: "string list" where
  "starting = [''COUNTRY_UPDATE'', ''UNINITIALIZED'', '''']"

definition bss_coming :: "run_state \<Rightarrow> string \<Rightarrow> bool" where
  "bss_coming rs b \<longleftrightarrow> (case bss_answer rs b of
     None \<Rightarrow> False | Some st \<Rightarrow> hs_status st \<in> set scanning \<union> set starting)"

text \<open>\<open>P\<close> of every expected radio and \<open>Q\<close> of every expected BSS that was not broken before.\<close>

definition counted :: "expectation \<Rightarrow> broken \<Rightarrow> (string \<Rightarrow> bool) \<Rightarrow> (string \<Rightarrow> exp_bss \<Rightarrow> bool) \<Rightarrow> bool" where
  "counted e bk P Q \<longleftrightarrow>
     (\<forall>r \<in> set (ex_radios e). r \<in> set (bk_radios bk) \<or> P r)
   \<and> (\<forall>b \<in> set (map fst (ex_bss e)). bss_pre bk b (the (map_of (ex_bss e) b)) \<or> Q b (the (map_of (ex_bss e) b)))"

section \<open>One round\<close>

definition bss_issue :: "run_state \<Rightarrow> string \<Rightarrow> exp_bss \<Rightarrow> (problem_code \<times> bool) option" where
  "bss_issue rs b x = (case map_of (run_bss rs) b of
     None \<Rightarrow> Some (BSSMissing, False)
   | Some run \<Rightarrow>
       if \<not> br_reachable run then Some (HostapdUnreachable, False)
       else if hs_status (br_st run) = ''ENABLED'' then
         (if eb_ssid x \<noteq> [] \<and> hs_ssid (br_st run) \<noteq> eb_ssid x then Some (SSIDMismatch, False) else None)
       else if hs_status (br_st run) = ''DFS'' then Some (CACRunning, True)
       else if hs_status (br_st run) = ''ACS'' \<or> hs_status (br_st run) = ''HT_SCAN'' then Some (ACSRunning, True)
       else if hs_status (br_st run) \<in> set starting then Some (BSSDisabled, True)
       else Some (BSSDisabled, False))"

definition radio_adds :: "run_state \<Rightarrow> expectation \<Rightarrow> broken \<Rightarrow> string \<Rightarrow> (problem \<times> bool) option" where
  "radio_adds rs e bk r = (if r \<notin> set (ex_radios e) \<or> run_err rs then None else radio_problem rs bk r)"

definition bss_adds :: "run_state \<Rightarrow> expectation \<Rightarrow> broken \<Rightarrow> string \<Rightarrow> (problem \<times> bool) option" where
  "bss_adds rs e bk b =
     (case map_of (ex_bss e) b of
        None \<Rightarrow> None
      | Some x \<Rightarrow>
          if run_err rs then None
          else (case bss_issue rs b x of
             None \<Rightarrow> None
           | Some (code, transient) \<Rightarrow>
               Some (\<lparr>pr_code = code, pr_section = b, pr_pre = bss_pre bk b x\<rparr>, transient)))"

definition weight :: "(problem \<times> bool) option \<Rightarrow> nat" where
  "weight a = (case a of None \<Rightarrow> 0 | Some (p, _) \<Rightarrow> if pr_pre p then 0 else 1)"

definition lasting_weight :: "(problem \<times> bool) option \<Rightarrow> nat" where
  "lasting_weight a = (case a of None \<Rightarrow> 0 | Some (p, tr) \<Rightarrow> if pr_pre p \<or> tr then 0 else 1)"

lemma tally_add_sel [simp]:
  "ta_counting (tally_add p tr t) = ta_counting t + weight (Some (p, tr))"
  "ta_lasting (tally_add p tr t) = ta_lasting t + lasting_weight (Some (p, tr))"
  "ta_problems (tally_add p tr t) = ta_problems t @ [p]"
  by (auto simp: tally_add_def weight_def lasting_weight_def Let_def)

lemma weight_None [simp]: "weight None = 0" "lasting_weight None = 0"
  by (simp_all add: weight_def lasting_weight_def)

lemma radio_round_sel:
  "ta_counting (radio_round rs e bk r t) = ta_counting t + weight (radio_adds rs e bk r)"
  "ta_lasting (radio_round rs e bk r t) = ta_lasting t + lasting_weight (radio_adds rs e bk r)"
  "ta_problems (radio_round rs e bk r t) =
     ta_problems t @ (case radio_adds rs e bk r of None \<Rightarrow> [] | Some (p, _) \<Rightarrow> [p])"
  by (auto simp: radio_round_def radio_adds_def split: option.splits)

lemma bss_round_sel:
  "ta_counting (fst (bss_round rs e bk b (t, x, c))) = ta_counting t + weight (bss_adds rs e bk b)"
  "ta_lasting (fst (bss_round rs e bk b (t, x, c))) = ta_lasting t + lasting_weight (bss_adds rs e bk b)"
  by (auto simp: bss_round_def bss_adds_def bss_issue_def starting_def Let_def weight_def lasting_weight_def
      split: option.splits)

lemma bss_round_problems:
  assumes "pr_code p \<noteq> CACRunning"
  shows "p \<in> set (ta_problems (fst (bss_round rs e bk b (t, x, c)))) \<longleftrightarrow>
    p \<in> set (ta_problems t) \<or> (\<exists>tr. bss_adds rs e bk b = Some (p, tr))"
  using assms
  by (auto simp: bss_round_def bss_adds_def bss_issue_def starting_def Let_def split: option.splits)

lemma bss_round_code:
  assumes "p \<in> set (ta_problems (fst (bss_round rs e bk b (t, x, c))))"
  shows "p \<in> set (ta_problems t) \<or> pr_code p \<in> {BSSMissing, HostapdUnreachable, SSIDMismatch, CACRunning,
    ACSRunning, BSSDisabled}"
  using assms
  by (auto simp: bss_round_def Let_def split: option.splits if_splits)

definition left_of :: "run_state \<Rightarrow> expectation \<Rightarrow> broken \<Rightarrow> string \<Rightarrow> int" where
  "left_of rs e bk b =
     (case map_of (ex_bss e) b of
        None \<Rightarrow> 0
      | Some x \<Rightarrow>
          if run_err rs \<or> bss_pre bk b x then 0
          else (case bss_answer rs b of
             None \<Rightarrow> 0
           | Some st \<Rightarrow> if hs_status st = ''DFS'' \<and> cac_left st > 0 then cac_left st + cac_margin else 0))"

lemma bss_round_extend:
  assumes "0 \<le> x"
  shows "fst (snd (bss_round rs e bk b (t, x, c))) = max x (left_of rs e bk b)"
  using assms
  by (auto simp: bss_round_def left_of_def bss_answer_def Let_def cac_margin_def split: option.splits)

section \<open>All rounds\<close>

lemma radio_rounds_sel:
  "ta_counting (fold (radio_round rs e bk) ns t) = ta_counting t + (\<Sum>n\<leftarrow>ns. weight (radio_adds rs e bk n))"
  "ta_lasting (fold (radio_round rs e bk) ns t) = ta_lasting t + (\<Sum>n\<leftarrow>ns. lasting_weight (radio_adds rs e bk n))"
  "p \<in> set (ta_problems (fold (radio_round rs e bk) ns t)) \<longleftrightarrow>
     p \<in> set (ta_problems t) \<or> (\<exists>n \<in> set ns. \<exists>tr. radio_adds rs e bk n = Some (p, tr))"
  by (induction ns arbitrary: t) (auto simp: radio_round_sel eq_commute[of "Some _"] split: option.splits)

lemma bss_rounds_sel:
  "ta_counting (fst (fold (bss_round rs e bk) ns (t, x, c))) =
     ta_counting t + (\<Sum>n\<leftarrow>ns. weight (bss_adds rs e bk n))"
  "ta_lasting (fst (fold (bss_round rs e bk) ns (t, x, c))) =
     ta_lasting t + (\<Sum>n\<leftarrow>ns. lasting_weight (bss_adds rs e bk n))"
proof (induction ns arbitrary: t x c)
  case (Cons n ns)
  {
    case 1
    obtain t' x' c' where r: "bss_round rs e bk n (t, x, c) = (t', x', c')" by (metis prod_cases3)
    show ?case using bss_round_sel(1)[of rs e bk n t x c] Cons(1)[of t' x' c'] by (simp add: r)
  next
    case 2
    obtain t' x' c' where r: "bss_round rs e bk n (t, x, c) = (t', x', c')" by (metis prod_cases3)
    show ?case using bss_round_sel(2)[of rs e bk n t x c] Cons(2)[of t' x' c'] by (simp add: r)
  }
qed simp_all

lemma bss_rounds_problems:
  assumes "pr_code p \<noteq> CACRunning"
  shows "p \<in> set (ta_problems (fst (fold (bss_round rs e bk) ns (t, x, c)))) \<longleftrightarrow>
    p \<in> set (ta_problems t) \<or> (\<exists>n \<in> set ns. \<exists>tr. bss_adds rs e bk n = Some (p, tr))"
proof (induction ns arbitrary: t x c)
  case (Cons n ns)
  obtain t' x' c' where r: "bss_round rs e bk n (t, x, c) = (t', x', c')" by (metis prod_cases3)
  show ?case using bss_round_problems[OF assms, of rs e bk n t x c] Cons[of t' x' c'] by (auto simp: r)
qed simp

lemma bss_rounds_code:
  assumes "p \<in> set (ta_problems (fst (fold (bss_round rs e bk) ns (t, x, c))))"
  shows "p \<in> set (ta_problems t) \<or> pr_code p \<in> {BSSMissing, HostapdUnreachable, SSIDMismatch, CACRunning,
    ACSRunning, BSSDisabled}"
  using assms
proof (induction ns arbitrary: t x c)
  case (Cons n ns)
  obtain t' x' c' where r: "bss_round rs e bk n (t, x, c) = (t', x', c')" by (metis prod_cases3)
  from Cons(2) have "p \<in> set (ta_problems (fst (fold (bss_round rs e bk) ns (t', x', c'))))" by (simp add: r)
  from Cons(1)[OF this] show ?case using bss_round_code[of p rs e bk n t x c] by (auto simp: r)
qed simp

lemma left_of_nonneg: "0 \<le> left_of rs e bk b"
  by (auto simp: left_of_def cac_margin_def split: option.splits)

lemma bss_rounds_extend:
  assumes "0 \<le> x"
  shows "fst (snd (fold (bss_round rs e bk) ns (t, x, c))) = fold max (map (left_of rs e bk) ns) x"
  using assms
proof (induction ns arbitrary: t x c)
  case (Cons n ns)
  obtain t' x' c' where r: "bss_round rs e bk n (t, x, c) = (t', x', c')" by (metis prod_cases3)
  with bss_round_extend[OF Cons(2), of rs e bk n t c] have x': "x' = max x (left_of rs e bk n)" by simp
  then have "0 \<le> x'" using Cons(2) by simp
  from Cons(1)[OF this, of t' c'] show ?case by (simp add: r x' max.commute)
qed simp

lemma sum_weights_zero:
  "(\<Sum>n\<leftarrow>ns. weight (f n)) = 0 \<longleftrightarrow> (\<forall>n \<in> set ns. weight (f n) = 0)"
  "(\<Sum>n\<leftarrow>ns. lasting_weight (f n)) = 0 \<longleftrightarrow> (\<forall>n \<in> set ns. lasting_weight (f n) = 0)"
  by (induction ns) auto

section \<open>The whole check\<close>

definition start_tally :: "run_state \<Rightarrow> tally" where
  "start_tally rs =
     (let t0 = \<lparr>ta_problems = [], ta_counting = 0, ta_lasting = 0\<rparr>
      in if run_err rs
         then tally_add \<lparr>pr_code = StatusUnreadable, pr_section = [], pr_pre = False\<rparr> False t0 else t0)"

definition radio_names :: "run_state \<Rightarrow> expectation \<Rightarrow> string list" where
  "radio_names rs e = sorted_keys (map fst (run_radios rs) @ ex_radios e)"

definition bss_names :: "run_state \<Rightarrow> expectation \<Rightarrow> string list" where
  "bss_names rs e = sorted_keys (map fst (ex_bss e) @ map fst (run_bss rs))"

definition end_tally :: "run_state \<Rightarrow> expectation \<Rightarrow> broken \<Rightarrow> tally \<times> int \<times> string list" where
  "end_tally rs e bk = fold (bss_round rs e bk) (bss_names rs e)
     (fold (radio_round rs e bk) (radio_names rs e) (start_tally rs), 0, [])"

lemma evaluate_sel:
  "fst (snd (evaluate rs e bk)) \<longleftrightarrow> ta_counting (fst (end_tally rs e bk)) = 0"
  "rep_ok (fst (evaluate rs e bk)) \<longleftrightarrow> ta_counting (fst (end_tally rs e bk)) = 0"
  "rep_pending (fst (evaluate rs e bk)) \<longleftrightarrow>
     ta_counting (fst (end_tally rs e bk)) \<noteq> 0 \<and> ta_lasting (fst (end_tally rs e bk)) = 0"
  "rep_problems (fst (evaluate rs e bk)) = ta_problems (fst (end_tally rs e bk))"
  "snd (snd (evaluate rs e bk)) = fst (snd (end_tally rs e bk))"
  by (simp_all add: evaluate_def end_tally_def start_tally_def radio_names_def bss_names_def Let_def
      split_beta)

lemma set_sorted_keys [simp]: "set (sorted_keys xs) = set xs"
  by (simp add: sorted_keys_def)

lemma set_names:
  "set (radio_names rs e) = fst ` set (run_radios rs) \<union> set (ex_radios e)"
  "set (bss_names rs e) = fst ` set (ex_bss e) \<union> fst ` set (run_bss rs)"
  by (simp_all add: radio_names_def bss_names_def)

lemma radio_weight:
  assumes "\<not> run_err rs"
  shows "weight (radio_adds rs e bk r) = 0 \<longleftrightarrow>
      (r \<in> set (ex_radios e) \<longrightarrow> r \<in> set (bk_radios bk) \<or> radio_runs rs r)"
    "lasting_weight (radio_adds rs e bk r) = 0 \<longleftrightarrow>
      (r \<in> set (ex_radios e) \<longrightarrow> r \<in> set (bk_radios bk) \<or> radio_runs rs r \<or> radio_coming rs r)"
  using assms
  by (auto simp: radio_adds_def radio_problem_def radio_runs_def radio_coming_def weight_def
      lasting_weight_def Let_def split: option.splits if_splits)

lemma bss_weight:
  assumes "\<not> run_err rs" "map_of (ex_bss e) b = Some x"
  shows "weight (bss_adds rs e bk b) = 0 \<longleftrightarrow> bss_pre bk b x \<or> bss_beacons rs b x"
    "lasting_weight (bss_adds rs e bk b) = 0 \<longleftrightarrow> bss_pre bk b x \<or> bss_beacons rs b x \<or> bss_coming rs b"
  using assms
  by (auto simp: bss_adds_def bss_issue_def bss_beacons_def bss_coming_def bss_answer_def scanning_def
      starting_def weight_def lasting_weight_def split: option.splits if_splits)

lemma bss_weight_None:
  assumes "b \<notin> fst ` set (ex_bss e)"
  shows "bss_adds rs e bk b = None"
  using assms map_of_eq_None_iff[of "ex_bss e" b] by (simp add: bss_adds_def)

lemma counted_radios_bss:
  assumes "\<And>r. r \<in> set (ex_radios e) \<Longrightarrow> (f r = (0::nat)) = (r \<in> set (bk_radios bk) \<or> P r)"
    and "\<And>r. r \<notin> set (ex_radios e) \<Longrightarrow> f r = 0"
    and "\<And>b x. map_of (ex_bss e) b = Some x \<Longrightarrow> (g b = (0::nat)) = (bss_pre bk b x \<or> Q b x)"
    and "\<And>b. b \<notin> fst ` set (ex_bss e) \<Longrightarrow> g b = 0"
  shows "(\<forall>n \<in> set (radio_names rs e). f n = 0) \<and> (\<forall>n \<in> set (bss_names rs e). g n = 0) \<longleftrightarrow>
    counted e bk P Q"
proof -
  have "(\<forall>n \<in> set (radio_names rs e). f n = 0) \<longleftrightarrow> (\<forall>n \<in> set (ex_radios e). f n = 0)"
    using assms(2) by (auto simp: set_names)
  moreover have "(\<forall>n \<in> set (bss_names rs e). g n = 0) \<longleftrightarrow> (\<forall>n \<in> set (map fst (ex_bss e)). g n = 0)"
    unfolding set_names list.set_map using assms(4) by (metis UnCI UnE)
  moreover have "g b = 0 \<longleftrightarrow>
      bss_pre bk b (the (map_of (ex_bss e) b)) \<or> Q b (the (map_of (ex_bss e) b))"
    if "b \<in> set (map fst (ex_bss e))" for b
  proof -
    from that obtain x where "map_of (ex_bss e) b = Some x"
      by (metis list.set_map map_of_eq_None_iff not_None_eq)
    with assms(3)[OF this] show ?thesis by simp
  qed
  ultimately show ?thesis using assms(1) by (simp add: counted_def)
qed

lemma start_tally_sel:
  "ta_counting (start_tally rs) = (if run_err rs then 1 else 0)"
  "ta_lasting (start_tally rs) = (if run_err rs then 1 else 0)"
  by (simp_all add: start_tally_def weight_def lasting_weight_def Let_def)

lemma end_counting:
  "ta_counting (fst (end_tally rs e bk)) = 0 \<longleftrightarrow>
     \<not> run_err rs \<and> counted e bk (radio_runs rs) (bss_beacons rs)"
proof (cases "run_err rs")
  case False
  show ?thesis
    unfolding end_tally_def bss_rounds_sel radio_rounds_sel start_tally_sel
    using False counted_radios_bss[where rs = rs and e = e and bk = bk
        and f = "\<lambda>r. weight (radio_adds rs e bk r)" and g = "\<lambda>b. weight (bss_adds rs e bk b)"
        and P = "radio_runs rs" and Q = "bss_beacons rs"]
    by (simp add: radio_weight bss_weight bss_weight_None sum_weights_zero)
qed (simp add: end_tally_def bss_rounds_sel radio_rounds_sel start_tally_sel)

lemma end_lasting:
  "ta_lasting (fst (end_tally rs e bk)) = 0 \<longleftrightarrow>
     \<not> run_err rs \<and> counted e bk (\<lambda>r. radio_runs rs r \<or> radio_coming rs r)
       (\<lambda>b x. bss_beacons rs b x \<or> bss_coming rs b)"
proof (cases "run_err rs")
  case False
  show ?thesis
    unfolding end_tally_def bss_rounds_sel radio_rounds_sel start_tally_sel
    using False counted_radios_bss[where rs = rs and e = e and bk = bk
        and f = "\<lambda>r. lasting_weight (radio_adds rs e bk r)"
        and g = "\<lambda>b. lasting_weight (bss_adds rs e bk b)"
        and P = "\<lambda>r. radio_runs rs r \<or> radio_coming rs r"
        and Q = "\<lambda>b x. bss_beacons rs b x \<or> bss_coming rs b"]
    by (simp add: radio_weight bss_weight bss_weight_None sum_weights_zero)
qed (simp add: end_tally_def bss_rounds_sel radio_rounds_sel start_tally_sel)

lemma end_problems:
  assumes "pr_code p \<noteq> CACRunning"
  shows "p \<in> set (ta_problems (fst (end_tally rs e bk))) \<longleftrightarrow>
     p \<in> set (ta_problems (start_tally rs))
   \<or> (\<exists>r tr. radio_adds rs e bk r = Some (p, tr)) \<or> (\<exists>b tr. bss_adds rs e bk b = Some (p, tr))"
proof -
  have "r \<in> set (radio_names rs e)" if "radio_adds rs e bk r \<noteq> None" for r
    using that by (auto simp: radio_adds_def set_names split: if_splits)
  moreover have "b \<in> set (bss_names rs e)" if "bss_adds rs e bk b \<noteq> None" for b
    using that bss_weight_None[of b e rs bk] by (auto simp: set_names)
  ultimately show ?thesis
    unfolding end_tally_def bss_rounds_problems[OF assms] radio_rounds_sel(3) by blast
qed

lemma end_extend:
  "fst (snd (end_tally rs e bk)) = fold max (map (left_of rs e bk) (bss_names rs e)) 0"
  unfolding end_tally_def by (rule bss_rounds_extend) simp

section \<open>Properties\<close>

text \<open>C20: The verdict of \<open>evaluate\<close>, and the report's \<open>ok\<close> and \<open>pending\<close>. The check passes exactly
  when netifd answered, every expected radio that was not broken before is up without a failed setup,
  and every expected BSS that was not excused beacons with its SSID; it is pending exactly when it
  fails, netifd answered, and all that does not run (and counts) is on its way: a radio being set
  up, a radar check, a channel scan, a BSS starting.\<close>

theorem health_exact:
  "(fst (snd (evaluate rs e bk)) \<longleftrightarrow> \<not> run_err rs \<and> counted e bk (radio_runs rs) (bss_beacons rs))
   \<and> (rep_ok (fst (evaluate rs e bk)) \<longleftrightarrow> fst (snd (evaluate rs e bk)))
   \<and> (rep_pending (fst (evaluate rs e bk)) \<longleftrightarrow>
        \<not> fst (snd (evaluate rs e bk)) \<and> \<not> run_err rs
        \<and> counted e bk (\<lambda>r. radio_runs rs r \<or> radio_coming rs r) (\<lambda>b x. bss_beacons rs b x \<or> bss_coming rs b))"
  unfolding evaluate_sel end_counting end_lasting by blast

lemma fold_max: "fold max xs (x::int) = Max (insert x (set xs))"
proof (induction xs arbitrary: x)
  case (Cons y xs)
  show ?case unfolding fold.simps comp_def Cons by (simp add: insert_commute max.commute Max_insert max.left_commute
        del: Max_insert) (cases "set xs = {}"; simp add: max.commute max.left_commute)
qed simp

lemma left_of_None: "b \<notin> fst ` set (ex_bss e) \<Longrightarrow> left_of rs e bk b = 0"
  using map_of_eq_None_iff[of "ex_bss e" b] by (simp add: left_of_def)

text \<open>How much longer a radar check needs, as \<open>evaluate\<close> reports it: the most, over the expected
  BSSes that were not excused and whose radio is in a radar check, of the seconds left plus the
  margin; 0 when there is none.\<close>

theorem radar_extension:
  "snd (snd (evaluate rs e bk)) = Max (insert 0 (left_of rs e bk ` fst ` set (ex_bss e)))"
proof -
  have "left_of rs e bk ` set (bss_names rs e) \<subseteq> insert 0 (left_of rs e bk ` fst ` set (ex_bss e))"
    unfolding set_names using left_of_None[of _ e rs bk] by auto
  then have "insert 0 (left_of rs e bk ` set (bss_names rs e)) = insert 0 (left_of rs e bk ` fst ` set (ex_bss e))"
    unfolding set_names by blast
  then show ?thesis unfolding evaluate_sel end_extend fold_max list.set_map by simp
qed

lemma radio_adds_no_broken:
  assumes "\<not> run_err rs"
  shows "(\<exists>p tr. radio_adds rs e bk r = Some (p, tr) \<and> pr_code p \<in> {RadioDown, RadioSetupFailed} \<and> pr_section p = s)
    \<longleftrightarrow> s = r \<and> r \<in> set (ex_radios e) \<and> \<not> radio_runs rs r"
  using assms
  by (auto simp: radio_adds_def radio_problem_def radio_runs_def Let_def split: option.splits if_splits)

lemma bss_adds_no_broken:
  assumes "\<not> run_err rs"
  shows "(\<exists>p tr. bss_adds rs e bk b = Some (p, tr)
      \<and> pr_code p \<in> {BSSMissing, BSSDisabled, HostapdUnreachable, SSIDMismatch} \<and> pr_section p = s)
    \<longleftrightarrow> s = b \<and> (\<exists>x. map_of (ex_bss e) b = Some x \<and> \<not> bss_beacons rs b x
        \<and> (\<forall>st. bss_answer rs b = Some st \<longrightarrow> hs_status st \<notin> set scanning))"
  using assms
  by (auto simp: bss_adds_def bss_issue_def bss_beacons_def bss_answer_def scanning_def starting_def
      split: option.splits if_splits)

lemma radio_adds_code:
  "radio_adds rs e bk r = Some (p, tr) \<Longrightarrow> pr_code p \<in> {RadioDown, RadioSetupFailed}"
  by (auto simp: radio_adds_def radio_problem_def Let_def split: option.splits if_splits)

lemma bss_adds_code:
  "bss_adds rs e bk b = Some (p, tr) \<Longrightarrow> pr_code p \<in> {BSSMissing, BSSDisabled, HostapdUnreachable,
     SSIDMismatch, CACRunning, ACSRunning}"
  by (auto simp: bss_adds_def bss_issue_def split: option.splits if_splits)

lemma image_by:
  assumes "\<And>p. p \<in> A \<and> C p \<longleftrightarrow> (\<exists>r tr. f r = Some (p, tr) \<and> C p)"
    and "\<And>r s. (\<exists>p tr. f r = Some (p, tr) \<and> C p \<and> g p = s) \<longleftrightarrow> s = r \<and> G r"
  shows "g ` {p \<in> A. C p} = {s. G s}"
proof (rule set_eqI)
  fix s
  have "s \<in> g ` {p \<in> A. C p} \<longleftrightarrow> (\<exists>p. (p \<in> A \<and> C p) \<and> g p = s)" by blast
  also have "\<dots> \<longleftrightarrow> (\<exists>r p tr. f r = Some (p, tr) \<and> C p \<and> g p = s)" unfolding assms(1) by blast
  also have "\<dots> \<longleftrightarrow> G s" unfolding assms(2) by simp
  finally show "s \<in> g ` {p \<in> A. C p} \<longleftrightarrow> s \<in> {s. G s}" by simp
qed

lemma broken_of_sets:
  assumes "broken_of rs e = Some b"
  shows "\<not> run_err rs"
    "set (bk_radios b) = {r. r \<in> set (ex_radios e) \<and> \<not> radio_runs rs r}
       \<union> {r. r \<notin> set (ex_radios e) \<and> (\<exists>st. (r, st) \<in> set (run_radios rs) \<and> rs_retry st)}"
    "set (bk_bss b) = {n. \<exists>x. map_of (ex_bss e) n = Some x \<and> \<not> bss_beacons rs n x
       \<and> (\<forall>st. bss_answer rs n = Some st \<longrightarrow> hs_status st \<notin> set scanning)}"
proof -
  let ?bk = "\<lparr>bk_radios = [], bk_bss = []\<rparr>"
  let ?ps = "set (rep_problems (fst (evaluate rs e ?bk)))"
  show ne: "\<not> run_err rs" using assms by (auto simp: broken_of_def split: if_splits)
  have ps: "p \<in> ?ps \<longleftrightarrow> (\<exists>r tr. radio_adds rs e ?bk r = Some (p, tr)) \<or> (\<exists>b tr. bss_adds rs e ?bk b = Some (p, tr))"
    if "pr_code p \<noteq> CACRunning" for p
    using end_problems[OF that, of rs e ?bk] ne by (simp add: evaluate_sel start_tally_def)
  have bk: "set (bk_radios b) = pr_section ` {p \<in> ?ps. pr_code p \<in> {RadioDown, RadioSetupFailed}}
      \<union> {r. r \<notin> set (ex_radios e) \<and> (\<exists>st. (r, st) \<in> set (run_radios rs) \<and> rs_retry st)}"
    "set (bk_bss b) = pr_section ` {p \<in> ?ps. pr_code p \<in> {BSSMissing, BSSDisabled, HostapdUnreachable, SSIDMismatch}}"
    using assms ne by (auto simp: broken_of_def Let_def split_beta image_iff)
  have r: "p \<in> ?ps \<and> pr_code p \<in> {RadioDown, RadioSetupFailed} \<longleftrightarrow>
      (\<exists>r tr. radio_adds rs e ?bk r = Some (p, tr) \<and> pr_code p \<in> {RadioDown, RadioSetupFailed})" for p
    using ps[of p] bss_adds_code[of rs e ?bk _ p] by (cases "pr_code p") fastforce+
  have q: "p \<in> ?ps \<and> pr_code p \<in> {BSSMissing, BSSDisabled, HostapdUnreachable, SSIDMismatch} \<longleftrightarrow>
      (\<exists>b tr. bss_adds rs e ?bk b = Some (p, tr)
         \<and> pr_code p \<in> {BSSMissing, BSSDisabled, HostapdUnreachable, SSIDMismatch})" for p
    using ps[of p] radio_adds_code[of rs e ?bk _ p] by (cases "pr_code p") fastforce+
  have "pr_section ` {p \<in> ?ps. pr_code p \<in> {RadioDown, RadioSetupFailed}} =
      {s. s \<in> set (ex_radios e) \<and> \<not> radio_runs rs s}"
    by (rule image_by[OF r radio_adds_no_broken[OF ne]])
  then show "set (bk_radios b) = {r. r \<in> set (ex_radios e) \<and> \<not> radio_runs rs r}
       \<union> {r. r \<notin> set (ex_radios e) \<and> (\<exists>st. (r, st) \<in> set (run_radios rs) \<and> rs_retry st)}"
    unfolding bk by blast
  have "pr_section ` {p \<in> ?ps. pr_code p \<in> {BSSMissing, BSSDisabled, HostapdUnreachable, SSIDMismatch}} =
      {s. \<exists>x. map_of (ex_bss e) s = Some x \<and> \<not> bss_beacons rs s x
       \<and> (\<forall>st. bss_answer rs s = Some st \<longrightarrow> hs_status st \<notin> set scanning)}"
    by (rule image_by[OF q bss_adds_no_broken[OF ne]])
  then show "set (bk_bss b) = {n. \<exists>x. map_of (ex_bss e) n = Some x \<and> \<not> bss_beacons rs n x
       \<and> (\<forall>st. bss_answer rs n = Some st \<longrightarrow> hs_status st \<notin> set scanning)}"
    unfolding bk by blast
qed

text \<open>The BSSes in a radar check or a channel scan.\<close>

definition bss_scanning :: "run_state \<Rightarrow> string \<Rightarrow> bool" where
  "bss_scanning rs b \<longleftrightarrow> (case bss_answer rs b of None \<Rightarrow> False | Some st \<Rightarrow> hs_status st \<in> set scanning)"

text \<open>The record taken at snapshot time is exact: its radios are the expected ones that do not run
  and the ones netifd gave up on that nothing is expected on; its BSSes the expected ones that neither
  beacon nor are in a radar check or a channel scan. So right after the snapshot nothing but such a
  check fails the health check: with that record it passes exactly when no BSS that counts is in a
  radar check or a channel scan.\<close>

theorem snapshot_exact:
  assumes "broken_of rs e = Some b"
  shows "set (bk_radios b) = {r. r \<in> set (ex_radios e) \<and> \<not> radio_runs rs r}
       \<union> {r. r \<notin> set (ex_radios e) \<and> (\<exists>st. (r, st) \<in> set (run_radios rs) \<and> rs_retry st)}
   \<and> set (bk_bss b) = {n. \<exists>x. map_of (ex_bss e) n = Some x \<and> \<not> bss_beacons rs n x \<and> \<not> bss_scanning rs n}
   \<and> (fst (snd (evaluate rs e b)) \<longleftrightarrow> counted e b (\<lambda>_. True) (\<lambda>n x. \<not> bss_scanning rs n))"
proof -
  have s: "\<not> bss_scanning rs n \<longleftrightarrow> (\<forall>st. bss_answer rs n = Some st \<longrightarrow> hs_status st \<notin> set scanning)" for n
    by (auto simp: bss_scanning_def split: option.splits)
  note f = broken_of_sets[OF assms]
  have bss: "set (bk_bss b) = {n. \<exists>x. map_of (ex_bss e) n = Some x \<and> \<not> bss_beacons rs n x \<and> \<not> bss_scanning rs n}"
    unfolding f(3) s ..
  have quiet: "\<not> bss_scanning rs n" if "bss_beacons rs n x" for n x
    using that by (auto simp: bss_scanning_def bss_beacons_def scanning_def split: option.splits)
  have "bss_pre b n x \<or> bss_beacons rs n x \<longleftrightarrow> bss_pre b n x \<or> \<not> bss_scanning rs n"
    if "map_of (ex_bss e) n = Some x" for n x
    using that quiet bss unfolding bss_pre_def by blast
  then have "counted e b (radio_runs rs) (bss_beacons rs) \<longleftrightarrow> counted e b (\<lambda>_. True) (\<lambda>n x. \<not> bss_scanning rs n)"
    unfolding counted_def f(2) by (force dest: weak_map_of_SomeI)
  then show ?thesis unfolding evaluate_sel end_counting using f(1,2) bss by blast
qed

definition sample_run :: run_state where
  "sample_run =
     \<lparr>run_radios = [(''radio0'', \<lparr>rs_up = True, rs_pending = False, rs_disabled = False, rs_retry = False,
                                 rs_ifaces = [(''lan0'', ''phy0-ap0''), (''guest0'', ''phy0-ap1'')]\<rparr>)],
      run_err = False,
      run_bss =
        [(''lan0'', \<lparr>br_radio = ''radio0'', br_ifname = ''phy0-ap0'', br_reachable = True,
                     br_st = \<lparr>hs_status = ''DFS'', hs_bssid = [], hs_ssid = ''Home'', hs_channel = 52,
                              hs_dfs = Some (True, 60)\<rparr>\<rparr>),
         (''guest0'', \<lparr>br_radio = ''radio0'', br_ifname = ''phy0-ap1'', br_reachable = False,
                       br_st = \<lparr>hs_status = [], hs_bssid = [], hs_ssid = [], hs_channel = 0,
                                hs_dfs = None\<rparr>\<rparr>)]\<rparr>"

definition sample_expectation :: expectation where
  "sample_expectation =
     \<lparr>ex_radios = [''radio0''],
      ex_bss = [(''lan0'', \<lparr>eb_radios = [''radio0''], eb_ssid = ''Home''\<rparr>),
                (''guest0'', \<lparr>eb_radios = [''radio0''], eb_ssid = ''Guest''\<rparr>)],
      ex_ap = []\<rparr>"

lemma sample_broken:
  "broken_of sample_run sample_expectation = Some \<lparr>bk_radios = [], bk_bss = [''guest0'']\<rparr>"
  by (simp add: broken_of_def evaluate_def sample_run_def sample_expectation_def sorted_keys_def
      sort_strings_def radio_round_def radio_problem_def bss_round_def tally_add_def cac_left_def bss_pre_def
      Let_def)

text \<open>At snapshot time one BSS is in its radar check, the other one unreachable: the second is
  excused, the first still holds the check up.\<close>

theorem snapshot_exact_witness:
  "set (bk_bss \<lparr>bk_radios = [], bk_bss = [''guest0'']\<rparr>) =
     {n. \<exists>x. map_of (ex_bss sample_expectation) n = Some x \<and> \<not> bss_beacons sample_run n x
       \<and> \<not> bss_scanning sample_run n}
   \<and> \<not> fst (snd (evaluate sample_run sample_expectation \<lparr>bk_radios = [], bk_bss = [''guest0'']\<rparr>))"
proof -
  have "\<not> counted sample_expectation \<lparr>bk_radios = [], bk_bss = [''guest0'']\<rparr> (\<lambda>_. True)
      (\<lambda>n x. \<not> bss_scanning sample_run n)"
    by (simp add: counted_def sample_expectation_def sample_run_def bss_scanning_def bss_answer_def
        scanning_def bss_pre_def)
  then show ?thesis using snapshot_exact[OF sample_broken] by blast
qed

section \<open>What is expected\<close>

lemma set_insert_new [simp]: "set (insert_new x xs) = insert x (set xs)"
  by (auto simp: insert_new_def)

lemma set_add_all [simp]: "set (add_all ys xs) = set xs \<union> set ys"
  by (induction ys arbitrary: xs) (auto simp: add_all_def)

text \<open>The interfaces that must beacon by the configuration alone: AP mode, enabled, on a radio that is.\<close>

definition live_radios :: "kit \<Rightarrow> string list \<Rightarrow> usection \<Rightarrow> string list" where
  "live_radios K on i = filter (\<lambda>r. r \<in> set on) (opt_items K i ''device'')"

definition must_beacon :: "kit \<Rightarrow> string list \<Rightarrow> usection \<Rightarrow> bool" where
  "must_beacon K on i \<longleftrightarrow> (opt_str K i ''mode'' = [] \<or> opt_str K i ''mode'' = ''ap'') \<and> enabled K i
     \<and> live_radios K on i \<noteq> []"

definition enabled_radios :: "kit \<Rightarrow> uconfig option \<Rightarrow> string list" where
  "enabled_radios K cfg = map s_name (filter (enabled K) (sections_typed K cfg ''wifi-device''))"

lemma expect_iface_sel:
  "fst ` set (ex_bss (expect_iface K on i e)) =
     fst ` set (ex_bss e) \<union> (if must_beacon K on i then {s_name i} else {})"
  "set (ex_radios (expect_iface K on i e)) =
     set (ex_radios e) \<union> (if must_beacon K on i then set (live_radios K on i) else {})"
  by (auto simp: expect_iface_def must_beacon_def live_radios_def Let_def keys_put image_iff)

lemma expect_ifaces_sel:
  "fst ` set (ex_bss (fold (expect_iface K on) is e)) =
     fst ` set (ex_bss e) \<union> s_name ` {i \<in> set is. must_beacon K on i}"
  "set (ex_radios (fold (expect_iface K on) is e)) =
     set (ex_radios e) \<union> (\<Union>i \<in> {i \<in> set is. must_beacon K on i}. set (live_radios K on i))"
  by (induction "is" arbitrary: e) (auto simp: expect_iface_sel)

lemma expect_listed_sel:
  "fst ` set (ex_bss (expect_listed all n e)) = fst ` set (ex_bss e) \<union> ({n} - {[]})"
  "set (ex_radios e) \<subseteq> set (ex_radios (expect_listed all n e))"
  using map_of_eq_None_iff[of "ex_bss e" n]
  by (auto simp: expect_listed_def Let_def simp del: not_None_eq)

lemma expect_all_listed_sel:
  "fst ` set (ex_bss (fold (expect_listed all) ns e)) = fst ` set (ex_bss e) \<union> (set ns - {[]})"
  "set (ex_radios e) \<subseteq> set (ex_radios (fold (expect_listed all) ns e))"
proof (induction ns arbitrary: e)
  case (Cons n ns)
  {
    case 1
    show ?case by (auto simp: Cons(1) expect_listed_sel)
  next
    case 2
    show ?case using Cons(2)[of "expect_listed all n e"] expect_listed_sel(2)[of e all n] by auto
  }
qed simp_all

text \<open>Every BSS's radios are expected to be up.\<close>

definition radios_expected :: "expectation \<Rightarrow> bool" where
  "radios_expected e \<longleftrightarrow> (\<forall>b x. map_of (ex_bss e) b = Some x \<longrightarrow> set (eb_radios x) \<subseteq> set (ex_radios e))"

lemma radios_expected_iface:
  "radios_expected e \<Longrightarrow> radios_expected (expect_iface K on i e)"
  by (auto simp: radios_expected_def expect_iface_def Let_def split: if_splits)

lemma radios_expected_listed:
  "radios_expected e \<Longrightarrow> radios_expected (expect_listed all n e)"
  by (auto simp: radios_expected_def expect_listed_def Let_def split: if_splits)

text \<open>What a health check expects is the union of the configuration's own list and the
  controller's: the BSSes are exactly the AP interfaces that are enabled on an enabled radio, and the
  ones the apply lists; the radios hold every radio such an interface runs on and every one the apply
  lists, and with every expected BSS all radios it is to run on.\<close>

theorem expect_union:
  "fst ` set (ex_bss (expect_from K cfg ex)) =
     s_name ` {i \<in> set (sections_typed K cfg ''wifi-iface''). must_beacon K (enabled_radios K cfg) i}
     \<union> (set (want_bss ex) - {[]})
   \<and> (\<Union>i \<in> {i \<in> set (sections_typed K cfg ''wifi-iface''). must_beacon K (enabled_radios K cfg) i}.
        set (live_radios K (enabled_radios K cfg) i)) \<union> (set (want_radios ex) - {[]})
     \<subseteq> set (ex_radios (expect_from K cfg ex))
   \<and> radios_expected (expect_from K cfg ex)"
proof -
  let ?e0 = "fold (expect_iface K (enabled_radios K cfg)) (sections_typed K cfg ''wifi-iface'')
    \<lparr>ex_radios = [], ex_bss = [], ex_ap = []\<rparr>"
  let ?e1 = "?e0\<lparr>ex_radios := add_all (filter (\<lambda>r. r \<noteq> []) (want_radios ex)) (ex_radios ?e0)\<rparr>"
  have e: "expect_from K cfg ex =
      fold (expect_listed (all_ifaces K (sections_typed K cfg ''wifi-iface''))) (want_bss ex) ?e1"
    by (simp add: expect_from_def enabled_radios_def Let_def)
  have "radios_expected ?e0"
    by (rule fold_keeps[where I = radios_expected]) (simp_all add: radios_expected_iface, simp add: radios_expected_def)
  then have "radios_expected ?e1" by (fastforce simp: radios_expected_def)
  then have "radios_expected (expect_from K cfg ex)"
    unfolding e by (rule fold_keeps[where I = radios_expected]) (rule radios_expected_listed)
  moreover have "fst ` set (ex_bss (expect_from K cfg ex)) =
     s_name ` {i \<in> set (sections_typed K cfg ''wifi-iface''). must_beacon K (enabled_radios K cfg) i}
     \<union> (set (want_bss ex) - {[]})"
    unfolding e expect_all_listed_sel by (simp add: expect_ifaces_sel)
  moreover have "set (ex_radios ?e1) \<subseteq> set (ex_radios (expect_from K cfg ex))"
    unfolding e by (rule expect_all_listed_sel(2))
  moreover have "set (ex_radios ?e1) =
      (\<Union>i \<in> {i \<in> set (sections_typed K cfg ''wifi-iface''). must_beacon K (enabled_radios K cfg) i}.
        set (live_radios K (enabled_radios K cfg) i)) \<union> (set (want_radios ex) - {[]})"
    by (auto simp: expect_ifaces_sel)
  ultimately show ?thesis by blast
qed

end
