(* ===== verification/Monitor.thy ===== *)
theory Monitor
  imports HealthProps
begin

text \<open>
  The health monitor outside applies, \<open>internal/wifiplane/monitor.go\<close>: what a report holds that lasts
  (\<open>lasting\<close>), one look (\<open>monitor_tick\<close>), and what the controller is told over a run of looks. A
  look's environment is a record: whether there is anything to watch, the report, the session, the
  clock (nanoseconds) and whether the session takes the notification.
\<close>

section \<open>Lasting problems\<close>

fun code_string :: "problem_code \<Rightarrow> string" where
  "code_string RadioDown = ''radio_down''"
| "code_string RadioSetupFailed = ''radio_setup_failed''"
| "code_string BSSMissing = ''bss_missing''"
| "code_string BSSDisabled = ''bss_disabled''"
| "code_string SSIDMismatch = ''ssid_mismatch''"
| "code_string CACRunning = ''cac_running''"
| "code_string ACSRunning = ''acs_running''"
| "code_string HostapdUnreachable = ''hostapd_unreachable''"
| "code_string ConfigUnreadable = ''config_unreadable''"
| "code_string StatusUnreadable = ''status_unreadable''"

definition problem_key :: "problem \<Rightarrow> string" where
  "problem_key p = code_string (pr_code p) @ ''@'' @ pr_section p"

definition lasting :: "report \<Rightarrow> problem list \<times> string" where
  "lasting rep =
     (let out = filter (\<lambda>p. \<not> (pr_pre p \<or> pr_code p = CACRunning \<or> pr_code p = ACSRunning)) (rep_problems rep)
      in (out, join '','' (sort_strings (map problem_key out))))"

section \<open>One look\<close>

definition health_debounce :: int where "health_debounce = 30 * 10 ^ 9"

definition second :: int where "second = 10 ^ 9"

record monitor_state =
  mo_gen :: int
  mo_have :: bool
  mo_candidate :: string
  mo_since :: int
  mo_sent :: bool
  mo_reported :: string

definition fresh_monitor :: "int \<Rightarrow> monitor_state" where
  "fresh_monitor g = \<lparr>mo_gen = g, mo_have = False, mo_candidate = [], mo_since = 0, mo_sent = False,
     mo_reported = []\<rparr>"

record health_changed =
  hc_at :: int
  hc_ok :: bool
  hc_problems :: "problem list"

record tick =
  tk_idle :: bool
  tk_now :: int
  tk_gen :: int
  tk_report :: report
  tk_taken :: bool

text \<open>Whether there is anything to watch: the plane is on and not in mode off, it has no apply open,
  and neither have the device groups (\<open>None\<close>: the engine is off).\<close>

definition monitor_idle :: "bool \<Rightarrow> bool \<Rightarrow> bool \<Rightarrow> bool option \<Rightarrow> bool" where
  "monitor_idle access_none mode_off plane_idle groups_pending \<longleftrightarrow>
     \<not> access_none \<and> \<not> mode_off \<and> plane_idle \<and> groups_pending \<noteq> Some True"

definition monitor_tick :: "tick \<Rightarrow> monitor_state \<Rightarrow> monitor_state \<times> health_changed option" where
  "monitor_tick t m =
     (if \<not> tk_idle t then (m\<lparr>mo_have := False\<rparr>, None)
      else
        (let (problems, sig) = lasting (tk_report t);
             m1 = (if mo_gen m \<noteq> tk_gen t then fresh_monitor (tk_gen t) else m)
         in if \<not> mo_have m1 \<or> sig \<noteq> mo_candidate m1
            then (m1\<lparr>mo_have := True, mo_candidate := sig, mo_since := tk_now t\<rparr>, None)
            else if (mo_sent m1 \<and> sig = mo_reported m1) \<or> tk_now t - mo_since m1 < health_debounce - second
            then (m1, None)
            else if \<not> tk_taken t then (m1, None)
            else (m1\<lparr>mo_sent := True, mo_reported := sig\<rparr>,
                  Some \<lparr>hc_at = tk_now t, hc_ok = (sig = []), hc_problems = problems\<rparr>)))"

section \<open>A run of looks\<close>

text \<open>The history of a run, the latest look first: each with whether it sent.\<close>

fun monitor_run :: "tick list \<Rightarrow> monitor_state \<times> (tick \<times> bool) list" where
  "monitor_run [] = (fresh_monitor 0, [])"
| "monitor_run (t # ts) =
     (let (m, h) = monitor_run ts; (m', note) = monitor_tick t m in (m', (t, note \<noteq> None) # h))"

abbreviation sig_of :: "tick \<Rightarrow> string" where
  "sig_of t \<equiv> snd (lasting (tk_report t))"

text \<open>What session \<open>g\<close> was told last, the looks given latest first.\<close>

fun told :: "int \<Rightarrow> (tick \<times> bool) list \<Rightarrow> string option" where
  "told g [] = None"
| "told g ((t, s) # h) =
     (if tk_idle t \<and> tk_gen t \<noteq> g then None
      else if tk_idle t \<and> s then Some (sig_of t) else told g h)"

definition sends :: "tick \<Rightarrow> tick list \<Rightarrow> bool" where
  "sends t ts \<longleftrightarrow> snd (monitor_tick t (fst (monitor_run ts))) \<noteq> None"

text \<open>The looks (latest first) have shown \<open>sig\<close> to session \<open>g\<close> without a break since \<open>since\<close>.\<close>

fun steady :: "int \<Rightarrow> string \<Rightarrow> int \<Rightarrow> tick list \<Rightarrow> bool" where
  "steady g sig since [] \<longleftrightarrow> False"
| "steady g sig since (t # ts) \<longleftrightarrow> tk_idle t \<and> tk_gen t = g \<and> sig_of t = sig
     \<and> (tk_now t = since \<or> steady g sig since ts)"

definition minv :: "tick list \<Rightarrow> bool" where
  "minv ts \<longleftrightarrow>
     (let (m, h) = monitor_run ts
      in (mo_have m \<longrightarrow> steady (mo_gen m) (mo_candidate m) (mo_since m) ts)
       \<and> told (mo_gen m) h = (if mo_sent m then Some (mo_reported m) else None)
       \<and> (\<forall>g. g \<noteq> mo_gen m \<longrightarrow> told g h = None))"

lemma monitor_run_minv: "minv ts"
proof (induction ts)
  case Nil
  show ?case by (simp add: minv_def fresh_monitor_def)
next
  case (Cons t ts)
  obtain m h where r: "monitor_run ts = (m, h)" by force
  from Cons have i: "mo_have m \<Longrightarrow> steady (mo_gen m) (mo_candidate m) (mo_since m) ts"
    "told (mo_gen m) h = (if mo_sent m then Some (mo_reported m) else None)"
    "\<And>g. g \<noteq> mo_gen m \<Longrightarrow> told g h = None"
    by (simp_all add: minv_def r)
  obtain ps sig where l: "lasting (tk_report t) = (ps, sig)" by force
  show ?case
  proof (cases "tk_idle t")
    case False
    then show ?thesis using i by (simp add: minv_def r monitor_tick_def)
  next
    case True
    show ?thesis
    proof (cases "mo_gen m = tk_gen t")
      case same: True
      show ?thesis
        using True same i l by (auto simp: minv_def r monitor_tick_def Let_def)
    next
      case False
      show ?thesis
        using True False i l by (auto simp: minv_def r monitor_tick_def Let_def fresh_monitor_def)
    qed
  qed
qed

section \<open>What the controller is told\<close>

lemma join_nonempty:
  assumes "xs \<noteq> []" "[] \<notin> set xs"
  shows "join sep xs \<noteq> []"
  using assms by (cases "(sep, xs)" rule: join.cases) auto

lemma lasting_quiet: "snd (lasting rep) = [] \<longleftrightarrow> fst (lasting rep) = []"
proof -
  let ?ks = "sort_strings (map problem_key (fst (lasting rep)))"
  have "[] \<notin> set ?ks" by (auto simp: problem_key_def)
  then have "?ks \<noteq> [] \<Longrightarrow> join '','' ?ks \<noteq> []" by (rule join_nonempty[rotated])
  moreover have "snd (lasting rep) = join '','' ?ks" by (simp add: lasting_def Let_def)
  ultimately show ?thesis by auto
qed

text \<open>C37: A notification of the Wi-Fi's health is debounced and never repeated. If a look sends one,
  then there was something to watch, the looks before have shown the same lasting problems to the
  same session without a break (no apply window in between) for at least 29 seconds, the session
  was not told the same before (or something else since), and what it is told is that problem set, OK
  exactly when it is empty.\<close>

theorem monitor_debounced:
  assumes "sends t ts"
  shows "tk_idle t
   \<and> (\<exists>since. steady (tk_gen t) (sig_of t) since ts \<and> health_debounce - second \<le> tk_now t - since)
   \<and> told (tk_gen t) (snd (monitor_run ts)) \<noteq> Some (sig_of t)
   \<and> snd (monitor_tick t (fst (monitor_run ts))) =
       Some \<lparr>hc_at = tk_now t, hc_ok = (fst (lasting (tk_report t)) = []),
             hc_problems = fst (lasting (tk_report t))\<rparr>"
proof -
  obtain m h where r: "monitor_run ts = (m, h)" by force
  obtain ps sig where l: "lasting (tk_report t) = (ps, sig)" by force
  have i: "mo_have m \<Longrightarrow> steady (mo_gen m) (mo_candidate m) (mo_since m) ts"
    "told (mo_gen m) h = (if mo_sent m then Some (mo_reported m) else None)"
    using monitor_run_minv[of ts] by (simp_all add: minv_def r)
  have q: "sig = [] \<longleftrightarrow> ps = []" using lasting_quiet[of "tk_report t"] by (simp add: l)
  from assms have f: "tk_idle t" "mo_gen m = tk_gen t" "mo_have m" "sig = mo_candidate m"
    "\<not> (mo_sent m \<and> sig = mo_reported m)" "\<not> tk_now t - mo_since m < health_debounce - second" "tk_taken t"
    by (auto simp: sends_def r l monitor_tick_def Let_def fresh_monitor_def split: if_splits)
  then have n: "snd (monitor_tick t m) = Some \<lparr>hc_at = tk_now t, hc_ok = (ps = []), hc_problems = ps\<rparr>"
    by (simp add: monitor_tick_def l Let_def q[symmetric])
  show ?thesis using f i n by (auto simp: r l)
qed

text \<open>The looks of \<open>vs\<close> all show what \<open>t\<close> shows, to its session.\<close>

definition same_as :: "tick \<Rightarrow> tick list \<Rightarrow> bool" where
  "same_as t vs \<longleftrightarrow> list_all (\<lambda>v. tk_idle v \<and> tk_gen v = tk_gen t \<and> sig_of v = sig_of t) vs"

lemma steady_since: "steady g sig since ts \<Longrightarrow> since \<in> tk_now ` set ts"
  by (induction ts) auto

lemma same_as_candidate:
  assumes "same_as t vs" "vs \<noteq> []" "sorted (map tk_now (List.rev (vs @ us)))"
  shows "let m = fst (monitor_run (vs @ us))
    in mo_gen m = tk_gen t \<and> mo_have m \<and> mo_candidate m = sig_of t \<and> mo_since m \<le> tk_now (last vs)"
  using assms
proof (induction vs)
  case (Cons v vs)
  obtain m h where r: "monitor_run (vs @ us) = (m, h)" by force
  obtain ps sig where l: "lasting (tk_report v) = (ps, sig)" by force
  have v: "tk_idle v" "tk_gen v = tk_gen t" "sig = sig_of t" using Cons(2) l by (auto simp: same_as_def)
  show ?case
  proof (cases "vs = []")
    case True
    have i: "mo_have m \<Longrightarrow> steady (mo_gen m) (mo_candidate m) (mo_since m) us"
      using monitor_run_minv[of us] r by (simp add: minv_def True)
    have "mo_since m \<le> tk_now v" if "mo_have m"
      using steady_since[OF i[OF that]] Cons(4) True by (auto simp: sorted_append)
    then show ?thesis using v r True by (auto simp: monitor_tick_def l Let_def fresh_monitor_def)
  next
    case False
    have "same_as t vs" "sorted (map tk_now (List.rev (vs @ us)))"
      using Cons(2,4) by (auto simp: same_as_def sorted_append)
    with Cons(1) False have "mo_gen m = tk_gen t" "mo_have m" "mo_candidate m = sig_of t"
      "mo_since m \<le> tk_now (last vs)"
      by (simp_all add: r Let_def)
    then show ?thesis using v r False by (auto simp: monitor_tick_def l Let_def)
  qed
qed simp

text \<open>C38: What lasts is told. On a clock that does not run back, when the looks have shown the same
  lasting problems to a session for 29 seconds or more and the session takes notifications, then after
  this look the last thing it was told is that problem set.\<close>

theorem monitor_tells:
  assumes "same_as t vs" "vs \<noteq> []" "tk_idle t" "tk_taken t"
    and "sorted (map tk_now (List.rev (vs @ us)))"
    and "health_debounce - second \<le> tk_now t - tk_now (last vs)"
  shows "told (tk_gen t) (snd (monitor_run (t # vs @ us))) = Some (sig_of t)"
proof -
  obtain m h where r: "monitor_run (vs @ us) = (m, h)" by force
  obtain ps sig where l: "lasting (tk_report t) = (ps, sig)" by force
  have m: "mo_gen m = tk_gen t" "mo_have m" "mo_candidate m = sig_of t" "mo_since m \<le> tk_now (last vs)"
    using same_as_candidate[OF assms(1,2,5)] by (simp_all add: r Let_def)
  have i: "told (mo_gen m) h = (if mo_sent m then Some (mo_reported m) else None)"
    using monitor_run_minv[of "vs @ us"] by (simp add: minv_def r)
  have "\<not> tk_now t - mo_since m < health_debounce - second" using m(4) assms(6) by linarith
  then show ?thesis
    using m i assms(3,4) by (auto simp: r monitor_tick_def l Let_def)
qed

definition sample_tick :: "int \<Rightarrow> tick" where
  "sample_tick n =
     \<lparr>tk_idle = True, tk_now = n * second, tk_gen = 7,
      tk_report = \<lparr>rep_ok = False, rep_pending = False, rep_radios = [], rep_bss = [],
        rep_problems = [\<lparr>pr_code = BSSMissing, pr_section = ''lan0'', pr_pre = False\<rparr>]\<rparr>,
      tk_taken = True\<rparr>"

lemma sample_sends: "sends (sample_tick 60) [sample_tick 30]"
  by (simp add: sends_def monitor_tick_def sample_tick_def lasting_def problem_key_def sort_strings_def
      fresh_monitor_def health_debounce_def second_def Let_def)

theorem monitor_debounced_witness:
  "told 7 (snd (monitor_run [sample_tick 30])) \<noteq> Some ''bss_missing@lan0''"
proof -
  have s: "sig_of (sample_tick 60) = ''bss_missing@lan0''" "tk_gen (sample_tick 60) = 7"
    by (simp_all add: sample_tick_def lasting_def problem_key_def sort_strings_def Let_def)
  show ?thesis using monitor_debounced[OF sample_sends] unfolding s by blast
qed

theorem monitor_tells_witness:
  "told 7 (snd (monitor_run [sample_tick 60, sample_tick 30])) = Some ''bss_missing@lan0''"
proof -
  have s: "sig_of (sample_tick n) = ''bss_missing@lan0''" "tk_gen (sample_tick n) = 7" for n
    by (simp_all add: sample_tick_def lasting_def problem_key_def sort_strings_def Let_def)
  have "same_as (sample_tick 60) [sample_tick 30]" by (simp add: same_as_def s) (simp add: sample_tick_def)
  from monitor_tells[OF this, of "[]"] show ?thesis
    unfolding s by (simp add: sample_tick_def health_debounce_def second_def)
qed

end
