(* ===== verification/GoText.thy ===== *)
theory GoText
  imports Prelude
begin

text \<open>
  More of the Go standard library the source parses text with: \<open>strconv.ParseUint\<close> and
  \<open>ParseInt\<close> at a base and width, the lines of a \<open>bufio.Scanner\<close>, \<open>net.ParseMAC\<close> and
  \<open>strings.LastIndexByte\<close>. A scanner's limit of 64 KiB per line is not modelled.
\<close>

section \<open>Numbers at a base\<close>

definition hex_val :: "char \<Rightarrow> int option" where
  "hex_val c =
     (if is_digit c then Some (int (digit_val c))
      else if CHR ''a'' \<le> lower_char c \<and> lower_char c \<le> CHR ''z''
      then Some (int (of_char (lower_char c)) - 87) else None)"

text \<open>The digits of \<open>ParseUint\<close>: \<open>None\<close> for a character that is no digit of the base.\<close>

fun digits_value :: "int \<Rightarrow> int \<Rightarrow> string \<Rightarrow> int option" where
  "digits_value b acc [] = Some acc"
| "digits_value b acc (c # cs) =
     (case hex_val c of None \<Rightarrow> None
      | Some d \<Rightarrow> if d < b then digits_value b (b * acc + d) cs else None)"

definition parse_uint :: "int \<Rightarrow> nat \<Rightarrow> string \<Rightarrow> int option" where
  "parse_uint b w s =
     (if s = [] then None
      else case digits_value b 0 s of None \<Rightarrow> None | Some n \<Rightarrow> if n < 2 ^ w then Some n else None)"

text \<open>Base 0: the base from the prefix, and underscores between digits.\<close>

definition base_prefix :: "string \<Rightarrow> int \<times> string" where
  "base_prefix s =
     (case s of
        [] \<Rightarrow> (10, s)
      | c # r \<Rightarrow>
          if c \<noteq> CHR ''0'' then (10, s)
          else if length s \<ge> 3 \<and> lower_char (hd r) = CHR ''b'' then (2, tl r)
          else if length s \<ge> 3 \<and> lower_char (hd r) = CHR ''o'' then (8, tl r)
          else if length s \<ge> 3 \<and> lower_char (hd r) = CHR ''x'' then (16, tl r)
          else (8, r))"

fun underscore_scan :: "bool \<Rightarrow> char \<Rightarrow> string \<Rightarrow> bool" where
  "underscore_scan hexa saw [] = (saw \<noteq> CHR ''_'')"
| "underscore_scan hexa saw (c # cs) =
     (if is_digit c \<or> hexa \<and> CHR ''a'' \<le> lower_char c \<and> lower_char c \<le> CHR ''f''
      then underscore_scan hexa (CHR ''0'') cs
      else if c = CHR ''_'' then saw = CHR ''0'' \<and> underscore_scan hexa (CHR ''_'') cs
      else saw \<noteq> CHR ''_'' \<and> underscore_scan hexa (CHR ''!'') cs)"

definition underscore_ok :: "string \<Rightarrow> bool" where
  "underscore_ok s =
     (if length s \<ge> 2 \<and> hd s = CHR ''0'' \<and> lower_char (s ! 1) \<in> {CHR ''b'', CHR ''o'', CHR ''x''}
      then underscore_scan (lower_char (s ! 1) = CHR ''x'') (CHR ''0'') (drop 2 s)
      else underscore_scan False (CHR ''^'') s)"

definition parse_uint0 :: "nat \<Rightarrow> string \<Rightarrow> int option" where
  "parse_uint0 w s =
     (if s = [] then None
      else
        (let (b, ds) = base_prefix s
         in case digits_value b 0 (filter (\<lambda>c. c \<noteq> CHR ''_'') ds) of
              None \<Rightarrow> None
            | Some n \<Rightarrow>
                if n < 2 ^ w \<and> (CHR ''_'' \<in> set ds \<longrightarrow> underscore_ok s) then Some n else None))"

definition cut_sign :: "string \<Rightarrow> bool \<times> string" where
  "cut_sign s =
     (case s of [] \<Rightarrow> (False, [])
      | c # r \<Rightarrow> if c = CHR ''-'' then (True, r) else if c = CHR ''+'' then (False, r) else (False, s))"

definition signed_range :: "nat \<Rightarrow> bool \<Rightarrow> int \<Rightarrow> int option" where
  "signed_range w neg n =
     (if neg then (if n \<le> 2 ^ (w - 1) then Some (- n) else None)
      else if n < 2 ^ (w - 1) then Some n else None)"

definition parse_int0 :: "nat \<Rightarrow> string \<Rightarrow> int option" where
  "parse_int0 w s =
     (let (neg, r) = cut_sign s
      in case parse_uint0 w r of None \<Rightarrow> None | Some n \<Rightarrow> signed_range w neg n)"

definition parse_int10 :: "nat \<Rightarrow> string \<Rightarrow> int option" where
  "parse_int10 w s =
     (let (neg, r) = cut_sign s
      in case parse_uint 10 w r of None \<Rightarrow> None | Some n \<Rightarrow> signed_range w neg n)"

lemma hex_val_nonneg: "hex_val c = Some d \<Longrightarrow> 0 \<le> d"
  by (auto simp: hex_val_def less_eq_char_def split: if_splits)

lemma digits_value_nonneg: "digits_value b acc s = Some n \<Longrightarrow> 0 \<le> b \<Longrightarrow> 0 \<le> acc \<Longrightarrow> 0 \<le> n"
  by (induction s arbitrary: acc) (auto split: option.splits if_splits dest: hex_val_nonneg)

lemma parse_uint_bound: "parse_uint b w s = Some n \<Longrightarrow> 0 \<le> b \<Longrightarrow> 0 \<le> n \<and> n < 2 ^ w"
  by (auto simp: parse_uint_def split: if_splits option.splits dest: digits_value_nonneg)

lemma signed_range_bound:
  "signed_range w neg n = Some i \<Longrightarrow> 0 \<le> n \<Longrightarrow> - (2 ^ (w - 1)) \<le> i \<and> i < 2 ^ (w - 1)"
proof -
  assume r: "signed_range w neg n = Some i" and n: "0 \<le> n"
  have pos: "0 < (2::int) ^ (w - 1)" by simp
  from r have "neg \<and> n \<le> 2 ^ (w - 1) \<and> i = - n \<or> n < 2 ^ (w - 1) \<and> i = n"
    by (auto simp: signed_range_def split: if_splits)
  then show ?thesis using pos n by linarith
qed

lemma digits_value_decimal:
  "list_all is_digit s \<Longrightarrow>
   digits_value 10 (int a) s = Some (int (foldl (\<lambda>a c. 10 * a + digit_val c) a s))"
proof (induction s arbitrary: a)
  case (Cons c s)
  have "digit_val c < 10" using Cons.prems by (auto simp: is_digit_iff digit_val_def)
  with Cons.prems Cons.IH[of "10 * a + digit_val c"] show ?case by (simp add: hex_val_def)
qed simp

lemma parse_uint_itoa: "int n < 2 ^ w \<Longrightarrow> parse_uint 10 w (itoa n) = Some (int n)"
proof -
  assume n: "int n < 2 ^ w"
  have "list_all is_digit (itoa n)" by (auto simp: list_all_iff dest: itoa_digits)
  then have "digits_value 10 0 (itoa n) = Some (int n)"
    using digits_value_decimal[of "itoa n" 0] decimal_value_itoa[of n] by (simp add: decimal_value_def)
  then show ?thesis using n by (simp add: parse_uint_def)
qed

section \<open>Lines\<close>

definition drop_cr :: "string \<Rightarrow> string" where
  "drop_cr s = (if s \<noteq> [] \<and> last s = CHR 0x0D then butlast s else s)"

definition scan_lines :: "string \<Rightarrow> string list" where
  "scan_lines s =
     (let ls = split_at (CHR 0x0A) s
      in map drop_cr (if last ls = [] then butlast ls else ls))"

text \<open>The part before and after the last occurrence of a byte.\<close>

definition cut_last :: "char \<Rightarrow> string \<Rightarrow> (string \<times> string) option" where
  "cut_last c s =
     (if c \<in> set s
      then Some (rev (tl (dropWhile (\<lambda>x. x \<noteq> c) (rev s))), rev (takeWhile (\<lambda>x. x \<noteq> c) (rev s)))
      else None)"

lemma cut_last_app: "c \<notin> set b \<Longrightarrow> cut_last c (a @ c # b) = Some (a, b)"
  by (auto simp: cut_last_def takeWhile_append dropWhile_append)

section \<open>Hardware addresses\<close>

definition hex_byte :: "string \<Rightarrow> int option" where
  "hex_byte p = (if length p = 2 then digits_value 16 0 p else None)"

fun all_some :: "'a option list \<Rightarrow> 'a list option" where
  "all_some [] = Some []"
| "all_some (x # xs) = (case x of None \<Rightarrow> None | Some v \<Rightarrow> map_option ((#) v) (all_some xs))"

definition parse_mac :: "string \<Rightarrow> int list option" where
  "parse_mac s =
     (if length s < 14 then None
      else
        (let pieces =
           (if s ! 2 = CHR '':'' \<or> s ! 2 = CHR ''-'' then split_at (s ! 2) s
            else if s ! 4 = CHR ''.''
            then (if list_all (\<lambda>p. length p = 4) (split_at (CHR ''.'') s)
                  then concat (map (\<lambda>p. [take 2 p, drop 2 p]) (split_at (CHR ''.'') s)) else [])
            else [])
         in if length pieces \<in> {6, 8, 20} then all_some (map hex_byte pieces) else None))"

lemma all_some_length: "all_some xs = Some ys \<Longrightarrow> length ys = length xs"
  by (induction xs arbitrary: ys) (auto split: option.splits)

lemma parse_mac_length: "parse_mac s = Some m \<Longrightarrow> length m \<in> {6, 8, 20}"
  by (auto simp: parse_mac_def Let_def dest!: all_some_length split: if_splits)

end
