(* ===== verification/GroupsTrunk.thy ===== *)
theory GroupsTrunk
  imports GoText GroupsPlan "HOL-Library.Word"
begin

text \<open>
  Where the device groups' VLANs leave the access point, \<open>internal/groups/trunk.go\<close>, and the
  check of hostapd's PSK files before a revision is kept, \<open>internal/groups/psk.go\<close>. The
  files are a record of two functions: \<open>fs_read\<close> (\<open>None\<close>: the read failed) and \<open>fs_list\<close>. \<open>w\<close> is
  the width of the platform's \<open>int\<close>, \<open>digest\<close> the SHA-256 digest in hex.
\<close>

unbundle bit_operations_syntax

section \<open>The trunk port\<close>

record fs =
  fs_read :: "string \<Rightarrow> string option"
  fs_list :: "string \<Rightarrow> string list option"

datatype trunk_error = ReadFailed | NoTrunk

definition ipv4_string :: "32 word \<Rightarrow> string" where
  "ipv4_string v =
     (let byte = (\<lambda>k. itoa (unat (ucast (drop_bit (8 * k) v) :: 8 word)))
      in byte 0 @ ''.'' @ byte 1 @ ''.'' @ byte 2 @ ''.'' @ byte 3)"

fun route_lines :: "string list \<Rightarrow> (string \<times> 32 word) option" where
  "route_lines [] = None"
| "route_lines (l # ls) =
     (let f = go_fields l
      in if length f < 8 \<or> f ! 1 \<noteq> ''00000000'' \<or> f ! 7 \<noteq> ''00000000'' then route_lines ls
         else case parse_uint 16 32 (f ! 2) of
             None \<Rightarrow> route_lines ls
           | Some v \<Rightarrow> if v = 0 then route_lines ls else Some (f ! 0, word_of_int v))"

definition default_route :: "fs \<Rightarrow> trunk_error + (string \<times> 32 word)" where
  "default_route F =
     (case fs_read F ''proc/net/route'' of
        None \<Rightarrow> Inl ReadFailed
      | Some b \<Rightarrow> (case route_lines (scan_lines b) of None \<Rightarrow> Inl NoTrunk | Some r \<Rightarrow> Inr r))"

fun arp_lines :: "string \<Rightarrow> string list \<Rightarrow> int list option" where
  "arp_lines ip [] = None"
| "arp_lines ip (l # ls) =
     (let f = go_fields l
      in if length f \<ge> 4 \<and> f ! 0 = ip
         then (case parse_mac (f ! 3) of
                 Some mac \<Rightarrow> if f ! 3 \<noteq> ''00:00:00:00:00:00'' then Some mac else arp_lines ip ls
               | None \<Rightarrow> arp_lines ip ls)
         else arp_lines ip ls)"

definition neighbor_mac :: "fs \<Rightarrow> 32 word \<Rightarrow> trunk_error + int list" where
  "neighbor_mac F ip =
     (case fs_read F ''proc/net/arp'' of
        None \<Rightarrow> Inl ReadFailed
      | Some b \<Rightarrow> (case arp_lines (ipv4_string ip) (scan_lines b) of None \<Rightarrow> Inl NoTrunk | Some m \<Rightarrow> Inr m))"

text \<open>The forwarding table: 16-byte entries, the port number in two bytes.\<close>

definition byte_at :: "string \<Rightarrow> nat \<Rightarrow> nat" where
  "byte_at e i = of_char (e ! i)"

definition entry_port :: "string \<Rightarrow> int" where
  "entry_port e = (push_bit 8 (int (byte_at e 12)) OR int (byte_at e 6))"

function fdb_port :: "string \<Rightarrow> int list \<Rightarrow> int option" where
  "fdb_port tbl mac =
     (if length tbl < 16 then None
      else
        (let e = take 16 tbl
         in if map of_char (take 6 e) = mac \<and> byte_at e 7 = 0 then Some (entry_port e)
            else fdb_port (drop 16 tbl) mac))"
  by pat_completeness auto
termination by (relation "measure (\<lambda>(tbl, mac). length tbl)") auto

declare fdb_port.simps [simp del]

text \<open>The device a default route names, or the parent of a VLAN device.\<close>

definition parent_device :: "nat \<Rightarrow> string \<Rightarrow> string" where
  "parent_device w dev =
     (case cut_last (CHR ''.'') dev of
        Some (p, v) \<Rightarrow> if p \<noteq> [] \<and> atoi w v \<noteq> None then p else dev
      | None \<Rightarrow> dev)"

definition port_number :: "fs \<Rightarrow> string \<Rightarrow> string \<Rightarrow> int option" where
  "port_number F bridge p =
     (case fs_read F (''sys/class/net/'' @ bridge @ ''/brif/'' @ p @ ''/port_no'') of
        None \<Rightarrow> None
      | Some b \<Rightarrow> parse_int0 32 (trim_space b))"

definition detect_trunk :: "nat \<Rightarrow> fs \<Rightarrow> trunk_error + string" where
  "detect_trunk w F =
     (case default_route F of
        Inl e \<Rightarrow> Inl e
      | Inr (dev, gw) \<Rightarrow>
          (let bridge = parent_device w dev
           in case fs_list F (''sys/class/net/'' @ bridge @ ''/brif'') of
                None \<Rightarrow> Inr bridge
              | Some ports \<Rightarrow>
                  (case neighbor_mac F gw of
                     Inl e \<Rightarrow> Inl e
                   | Inr mac \<Rightarrow>
                       (case fs_read F (''sys/class/net/'' @ bridge @ ''/brforward'') of
                          None \<Rightarrow> Inl NoTrunk
                        | Some tbl \<Rightarrow>
                            (case fdb_port tbl mac of
                               None \<Rightarrow> Inl NoTrunk
                             | Some no \<Rightarrow>
                                 (case List.find (\<lambda>p. port_number F bridge p = Some no) ports of
                                    Some p \<Rightarrow> Inr p
                                  | None \<Rightarrow> Inl NoTrunk))))))"

section \<open>The PSK files\<close>

definition wildcard_mac :: string where "wildcard_mac = ''00:00:00:00:00:00''"

record psk_entry =
  psk_mac :: string
  psk_key :: string
  psk_vlan :: string

definition is_blank :: "char \<Rightarrow> bool" where
  "is_blank c \<longleftrightarrow> c = CHR '' '' \<or> c = CHR 0x09"

function psk_tokens :: "string \<Rightarrow> string \<Rightarrow> psk_entry option" where
  "psk_tokens vlan rest =
     (if list_all (\<lambda>c. \<not> is_blank c) rest then None
      else
        (let tok = takeWhile (\<lambda>c. \<not> is_blank c) rest;
             rest' = dropWhile is_blank (dropWhile (\<lambda>c. \<not> is_blank c) rest);
             (k, v, found) = cut_at (CHR ''='') tok
         in if found then psk_tokens (if k = ''vlanid'' then v else vlan) rest'
            else if rest' = [] then None
            else Some \<lparr>psk_mac = to_lower tok, psk_key = rest', psk_vlan = vlan\<rparr>))"
  by pat_completeness auto
termination
proof (relation "measure (\<lambda>(vlan, rest). length rest)", simp)
  fix vlan rest tok rest' x k y v found
  assume "\<not> list_all (\<lambda>c. \<not> is_blank c) rest"
    and tok: "tok = takeWhile (\<lambda>c. \<not> is_blank c) rest"
    and r: "rest' = dropWhile is_blank (dropWhile (\<lambda>c. \<not> is_blank c) rest)"
  then obtain c cs where c: "dropWhile (\<lambda>c. \<not> is_blank c) rest = c # cs" "is_blank c"
    by (metis dropWhile_eq_Cons_conv dropWhile_eq_Nil_conv list_all_iff neq_Nil_conv)
  then have "length rest' \<le> length cs" by (simp add: r length_dropWhile_le)
  moreover have "length (c # cs) \<le> length rest"
    unfolding c(1)[symmetric] by (rule length_dropWhile_le)
  ultimately show "((if k = ''vlanid'' then v else vlan, rest'), (vlan, rest))
      \<in> measure (\<lambda>(vlan, rest). length rest)"
    by simp
qed

declare psk_tokens.simps [simp del]

definition parse_psk_line :: "string \<Rightarrow> psk_entry option" where
  "parse_psk_line l =
     (let rest = trim_space l
      in if rest = [] \<or> hd rest = CHR ''#'' then None else psk_tokens [] rest)"

definition psk_file_name :: "string \<Rightarrow> bool" where
  "psk_file_name name \<longleftrightarrow> prefix ''hostapd-'' name \<and> suffix ''.psk'' name"

definition unsafe_line :: "(string \<Rightarrow> string) \<Rightarrow> string list \<Rightarrow> string \<Rightarrow> bool" where
  "unsafe_line digest keys l =
     (case parse_psk_line l of
        None \<Rightarrow> False
      | Some e \<Rightarrow> psk_mac e = wildcard_mac \<and> digest (psk_key e) \<in> set keys)"

text \<open>\<open>Some name\<close>: the file that gives a binding's passphrase to every client.\<close>

definition check_psk_files :: "(string \<Rightarrow> string) \<Rightarrow> fs \<Rightarrow> string list \<Rightarrow> string option" where
  "check_psk_files digest F keys =
     (if keys = [] then None
      else case fs_list F ''/var/run'' of
        None \<Rightarrow> None
      | Some names \<Rightarrow>
          List.find (\<lambda>name. psk_file_name name
            \<and> (case fs_read F (''/var/run/'' @ name) of
                 None \<Rightarrow> False
               | Some b \<Rightarrow> list_ex (unsafe_line digest keys) (split_at (CHR 0x0A) b))) names)"


section \<open>The forwarding table\<close>

lemma entry_port_value:
  "entry_port e = 256 * int (byte_at e 12) + int (byte_at e 6)"
proof -
  have "take_bit 8 (int (byte_at e 6)) = int (byte_at e 6)"
    by (simp add: byte_at_def take_bit_int_eq_self)
  then have "entry_port e = concat_bit 8 (int (byte_at e 6)) (int (byte_at e 12))"
    by (simp add: entry_port_def concat_bit_def or.commute)
  also have "\<dots> = int (byte_at e 6) + push_bit 8 (int (byte_at e 12))"
    using \<open>take_bit 8 _ = _\<close> by (simp add: concat_bit_eq)
  finally show ?thesis by (simp add: push_bit_eq_mult)
qed

text \<open>The \<open>i\<close>th entry of a table, and whether it is the one for a MAC.\<close>

definition fdb_entry :: "string \<Rightarrow> nat \<Rightarrow> string" where
  "fdb_entry tbl i = take 16 (drop (16 * i) tbl)"

definition learned :: "string \<Rightarrow> int list \<Rightarrow> nat \<Rightarrow> bool" where
  "learned tbl mac i \<longleftrightarrow> 16 * i + 16 \<le> length tbl
     \<and> map of_char (take 6 (fdb_entry tbl i)) = mac \<and> byte_at (fdb_entry tbl i) 7 = 0"

lemma learned_Suc: "16 \<le> length tbl \<Longrightarrow> learned tbl mac (Suc i) = learned (drop 16 tbl) mac i"
  by (auto simp: learned_def fdb_entry_def add.commute)

lemma fdb_port_learned:
  "fdb_port tbl mac =
     (if \<exists>i. learned tbl mac i then Some (entry_port (fdb_entry tbl (LEAST i. learned tbl mac i))) else None)"
proof (induction tbl mac rule: fdb_port.induct)
  case (1 tbl mac)
  show ?case
  proof (cases "length tbl < 16")
    case True
    then show ?thesis by (subst fdb_port.simps) (auto simp: learned_def)
  next
    case False
    have zero: "learned tbl mac 0 \<longleftrightarrow> map of_char (take 6 (take 16 tbl)) = mac \<and> byte_at (take 16 tbl) 7 = 0"
      using False by (simp add: learned_def fdb_entry_def)
    show ?thesis
    proof (cases "learned tbl mac 0")
      case True
      then have "(LEAST i. learned tbl mac i) = 0" by (simp add: Least_eq_0)
      with True False zero show ?thesis
        by (subst fdb_port.simps) (auto simp: Let_def fdb_entry_def)
    next
      case not0: False
      have ex: "(\<exists>i. learned tbl mac i) \<longleftrightarrow> (\<exists>i. learned (drop 16 tbl) mac i)"
        using not0 False learned_Suc[of tbl mac] by (metis not0_implies_Suc not_le)
      have "fdb_port tbl mac = fdb_port (drop 16 tbl) mac"
        using False not0 zero by (subst fdb_port.simps) (auto simp: Let_def)
      also have "\<dots> = (if \<exists>i. learned (drop 16 tbl) mac i
          then Some (entry_port (fdb_entry (drop 16 tbl) (LEAST i. learned (drop 16 tbl) mac i))) else None)"
        using 1[OF False refl] not0 zero by auto
      also have "\<dots> = (if \<exists>i. learned tbl mac i
          then Some (entry_port (fdb_entry tbl (LEAST i. learned tbl mac i))) else None)"
      proof (cases "\<exists>i. learned tbl mac i")
        case True
        then obtain k where k: "learned tbl mac k" by blast
        have "(LEAST i. learned tbl mac i) = Suc (LEAST i. learned tbl mac (Suc i))"
          by (rule Least_Suc[OF k not0])
        also have "\<dots> = Suc (LEAST i. learned (drop 16 tbl) mac i)"
          using False by (simp add: learned_Suc)
        finally show ?thesis using ex by (simp add: fdb_entry_def add.commute)
      qed (use ex in simp)
      finally show ?thesis .
    qed
  qed
qed


text \<open>C18: a trunk port that is detected is the port the gateway is behind. The default route
  names a device; either that device (or the parent of its VLAN) is no bridge and is the port,
  or the port is one of the bridge's, whose number is that of the first entry of the bridge's
  forwarding table that learned the gateway's MAC address (and is not local).\<close>

theorem detect_trunk_sound:
  assumes "detect_trunk w F = Inr p"
  shows "\<exists>dev gw. default_route F = Inr (dev, gw) \<and>
    (let br = parent_device w dev
     in (fs_list F (''sys/class/net/'' @ br @ ''/brif'') = None \<and> p = br)
      \<or> (\<exists>ports mac tbl i.
           fs_list F (''sys/class/net/'' @ br @ ''/brif'') = Some ports \<and> p \<in> set ports
         \<and> neighbor_mac F gw = Inr mac
         \<and> fs_read F (''sys/class/net/'' @ br @ ''/brforward'') = Some tbl
         \<and> learned tbl mac i \<and> (\<forall>j < i. \<not> learned tbl mac j)
         \<and> port_number F br p = Some (256 * int (byte_at (fdb_entry tbl i) 12)
                                       + int (byte_at (fdb_entry tbl i) 6))))"
proof -
  from assms obtain dev gw where r: "default_route F = Inr (dev, gw)"
    by (auto simp: detect_trunk_def split: sum.splits)
  let ?br = "parent_device w dev"
  show ?thesis
  proof (cases "fs_list F (''sys/class/net/'' @ ?br @ ''/brif'')")
    case None
    with assms r have "p = ?br" by (simp add: detect_trunk_def Let_def)
    with r None show ?thesis by (auto simp: Let_def)
  next
    case (Some ports)
    with assms r obtain mac tbl no where m: "neighbor_mac F gw = Inr mac"
        "fs_read F (''sys/class/net/'' @ ?br @ ''/brforward'') = Some tbl" "fdb_port tbl mac = Some no"
        and f: "List.find (\<lambda>p. port_number F ?br p = Some no) ports = Some p"
      by (auto simp: detect_trunk_def Let_def split: sum.splits option.splits)
    from m(3) obtain k where k: "learned tbl mac k" and no: "no = entry_port (fdb_entry tbl (LEAST i. learned tbl mac i))"
      by (auto simp: fdb_port_learned split: if_splits)
    from f have p: "p \<in> set ports" "port_number F ?br p = Some no"
      by (auto simp: find_Some_iff)
    define i where "i = (LEAST i. learned tbl mac i)"
    have "learned tbl mac i" unfolding i_def using k by (rule LeastI)
    moreover have "\<forall>j < i. \<not> learned tbl mac j" unfolding i_def using not_less_Least by blast
    moreover have "port_number F ?br p = Some (256 * int (byte_at (fdb_entry tbl i) 12)
        + int (byte_at (fdb_entry tbl i) 6))"
      using p(2) no by (simp add: i_def entry_port_value)
    ultimately show ?thesis unfolding Let_def using r Some p(1) m(1,2) by blast
  qed
qed

text \<open>A router behind port 2 of \<open>br-lan\<close>.\<close>

definition sample_files :: "string \<Rightarrow> string option" where
  "sample_files p = map_of
     [(''proc/net/route'',
       ''Iface Destination Gateway'' @ [CHR 0x0A] @ ''br-lan.1 00000000 0101A8C0 3 0 0 0 00000000 0 0'' @ [CHR 0x0A]),
      (''proc/net/arp'', ''192.168.1.1 0x1 0x2 02:00:00:00:00:01 * br-lan'' @ [CHR 0x0A]),
      (''sys/class/net/br-lan/brforward'',
       map char_of ([2,0,0,0,0,9,1,0,0,0,0,0,0,0,0,0, 2,0,0,0,0,1,2,0,0,0,0,0,0,0,0,0] :: nat list)),
      (''sys/class/net/br-lan/brif/eth0/port_no'', ''0x1'' @ [CHR 0x0A]),
      (''sys/class/net/br-lan/brif/eth1/port_no'', ''0x2'' @ [CHR 0x0A])] p"

definition sample_fs :: fs where
  "sample_fs = \<lparr>fs_read = sample_files,
     fs_list = (\<lambda>d. if d = ''sys/class/net/br-lan/brif'' then Some [''eth0'', ''eth1''] else None)\<rparr>"

lemma sample_route: "default_route sample_fs = Inr (''br-lan.1'', 0x0101A8C0)"
  by code_simp
lemma sample_ip: "ipv4_string 0x0101A8C0 = ''192.168.1.1''"
  by code_simp
lemma sample_mac: "neighbor_mac sample_fs 0x0101A8C0 = Inr [2,0,0,0,0,1]"
  by code_simp
lemma sample_no: "fdb_port (the (fs_read sample_fs ''sys/class/net/br-lan/brforward'')) [2,0,0,0,0,1] = Some 2"
  by code_simp
lemma sample_trunk: "detect_trunk 32 sample_fs = Inr ''eth1''"
  by code_simp

theorem detect_trunk_sound_witness:
  "\<exists>dev gw. default_route sample_fs = Inr (dev, gw) \<and> detect_trunk 32 sample_fs = Inr ''eth1''"
  using detect_trunk_sound[OF sample_trunk] sample_trunk by blast

section \<open>The PSK guard\<close>

text \<open>A line as netifd writes it: an optional VLAN, a MAC and the passphrase.\<close>

definition psk_line :: "string \<Rightarrow> string \<Rightarrow> string \<Rightarrow> string" where
  "psk_line vlan mac key = (if vlan = [] then [] else ''vlanid='' @ vlan @ '' '') @ mac @ '' '' @ key"

definition bare :: "string \<Rightarrow> bool" where
  "bare key \<longleftrightarrow> key \<noteq> [] \<and> \<not> is_space (hd key) \<and> \<not> is_space (last key)"

lemma psk_tokens_mac:
  assumes "bare key"
  shows "psk_tokens vlan (wildcard_mac @ '' '' @ key)
    = Some \<lparr>psk_mac = wildcard_mac, psk_key = key, psk_vlan = vlan\<rparr>"
proof -
  let ?r = "wildcard_mac @ '' '' @ key"
  have nb: "\<forall>c \<in> set wildcard_mac. \<not> is_blank c" by code_simp
  have hd: "\<not> is_blank (hd key)" and ne: "key \<noteq> []"
    using assms by (auto simp: bare_def is_blank_def is_space_def)
  have b: "is_blank (CHR '' '')" by (simp add: is_blank_def)
  have tk: "takeWhile (\<lambda>c. \<not> is_blank c) ?r = wildcard_mac"
      "dropWhile (\<lambda>c. \<not> is_blank c) ?r = CHR '' '' # key"
    using nb b by (simp_all add: takeWhile_append dropWhile_append)
  have "dropWhile is_blank (CHR '' '' # key) = key"
    using hd ne b by (cases key) simp_all
  moreover have "cut_at (CHR ''='') wildcard_mac = (wildcard_mac, [], False)"
    by (rule cut_at_absent) code_simp
  moreover have "\<not> list_all (\<lambda>c. \<not> is_blank c) ?r" using b by simp
  moreover have "to_lower wildcard_mac = wildcard_mac" by code_simp
  ultimately show ?thesis
    using ne by (subst psk_tokens.simps) (simp only: tk Let_def prod.case if_False simp_thms)
qed

lemma psk_tokens_vlan:
  assumes "list_all is_digit v" and "rest \<noteq> []" "\<not> is_blank (hd rest)"
  shows "psk_tokens vlan (''vlanid='' @ v @ '' '' @ rest) = psk_tokens v rest"
proof -
  let ?r = "(''vlanid='' @ v) @ '' '' @ rest"
  have v: "\<forall>c \<in> set v. \<not> is_blank c" "CHR ''='' \<notin> set v"
    using assms(1) by (auto simp: list_all_iff is_digit_def is_blank_def less_eq_char_def)
  have "\<forall>c \<in> set ''vlanid=''. \<not> is_blank c" by code_simp
  with v have nb: "\<forall>c \<in> set (''vlanid='' @ v). \<not> is_blank c" by auto
  have b: "is_blank (CHR '' '')" by (simp add: is_blank_def)
  have tk: "takeWhile (\<lambda>c. \<not> is_blank c) ?r = ''vlanid='' @ v"
      "dropWhile (\<lambda>c. \<not> is_blank c) ?r = CHR '' '' # rest"
    using nb b by (simp_all only: takeWhile_append dropWhile_append) auto
  have "dropWhile is_blank (CHR '' '' # rest) = rest"
    using assms(2,3) b by (cases rest) simp_all
  moreover have "cut_at (CHR ''='') (''vlanid='' @ v) = (''vlanid'', v, True)"
    using cut_at_found[of "CHR ''=''" "''vlanid''" v] by simp
  moreover have "\<not> list_all (\<lambda>c. \<not> is_blank c) ?r" using b by simp
  ultimately have "psk_tokens vlan ?r = psk_tokens v rest"
    by (subst psk_tokens.simps) (simp only: tk Let_def prod.case if_True if_False simp_thms)
  then show ?thesis by simp
qed


lemma trim_space_ends: "s \<noteq> [] \<Longrightarrow> \<not> is_space (hd s) \<Longrightarrow> \<not> is_space (last s) \<Longrightarrow> trim_space s = s"
  by (simp add: trim_space_def trim_id)

lemma parse_psk_line_own:
  assumes "bare key" and "list_all is_digit v"
  shows "parse_psk_line (psk_line v wildcard_mac key)
    = Some \<lparr>psk_mac = wildcard_mac, psk_key = key, psk_vlan = v\<rparr>"
proof -
  let ?r = "wildcard_mac @ '' '' @ key" and ?l = "psk_line v wildcard_mac key"
  have r: "?r \<noteq> []" "hd ?r = CHR ''0''" by (simp_all add: wildcard_mac_def)
  have l: "?l \<noteq> []" "hd ?l = (if v = [] then CHR ''0'' else CHR ''v'')" "last ?l = last key"
    using assms(1) by (auto simp: psk_line_def wildcard_mac_def bare_def)
  then have "trim_space ?l = ?l"
    using assms(1) by (intro trim_space_ends) (auto simp: is_space_def bare_def)
  moreover have "psk_tokens [] ?l = Some \<lparr>psk_mac = wildcard_mac, psk_key = key, psk_vlan = v\<rparr>"
  proof (cases "v = []")
    case True
    then have "?l = ?r" by (simp add: psk_line_def)
    with True show ?thesis by (simp only: psk_tokens_mac[OF assms(1)])
  next
    case False
    have nb: "\<not> is_blank (hd ?r)" unfolding r(2) by (simp add: is_blank_def)
    have "?l = ''vlanid='' @ v @ '' '' @ ?r" using False by (simp add: psk_line_def)
    then show ?thesis
      by (simp only: psk_tokens_vlan[OF assms(2) r(1) nb] psk_tokens_mac[OF assms(1)])
  qed
  ultimately show ?thesis using l by (simp add: parse_psk_line_def Let_def)
qed


definition psk_fs :: "string \<Rightarrow> fs" where
  "psk_fs key = \<lparr>fs_read = (\<lambda>p. if p = ''/var/run/hostapd-phy0-ap0.psk''
       then Some (psk_line ''10'' wildcard_mac key) else None),
     fs_list = (\<lambda>d. if d = ''/var/run'' then Some [''hostapd-phy0-ap0.psk''] else None)\<rparr>"


text \<open>The condition on white space is needed. A passphrase that ends in a blank is valid
  (\<open>validKey\<close> accepts it, and a plan uses it for bindings), but the line is trimmed before its
  passphrase is compared, so the check misses the same leak.\<close>

theorem psk_guard_trailing_blank:
  "valid_key ''guestpass '' \<and>
   check_psk_files (\<lambda>k. k) (psk_fs ''guestpass '') [''guestpass ''] = None"
  by code_simp

end
