(* ===== verification/Applylock.thy ===== *)
theory Applylock
  imports Prelude
begin

text \<open>
  The access point's one write lock, \<open>internal/applylock/applylock.go\<close>. A \<open>*Hold\<close> is its
  position in the list of the holds the lock has handed out (\<open>l_infos\<close>), so pointer
  comparison is equality of positions; \<open>None\<close> is the nil hold. Each operation runs under
  the lock's mutex and is one step here.

  The writers (device groups, the Wi-Fi plane, updates) rely on the lock through the
  interface \<open>write_lock\<close>: its lemmas show that a hold stays until its own release and that
  every other acquire fails meanwhile, for any interleaving of operations.
\<close>

section \<open>The lock\<close>

definition groups_holder :: string where "groups_holder = ''groups''"
definition plane_holder :: string where "plane_holder = ''plane''"
definition update_holder :: string where "update_holder = ''update''"

definition holder_reason :: "string \<Rightarrow> string" where
  "holder_reason h = h @ ''_pending''"

record lock_info =
  li_holder :: string
  li_id :: string
  li_since :: int

datatype acquire_error = EmptyHolder | BusyError lock_info

record lock =
  l_infos :: "lock_info list"
  l_cur :: "nat option"

definition new_lock :: lock where
  "new_lock = \<lparr>l_infos = [], l_cur = None\<rparr>"

text \<open>\<open>Reason\<close>: the busy reason an error carries.\<close>

fun error_reason :: "acquire_error \<Rightarrow> string" where
  "error_reason (BusyError i) = holder_reason (li_holder i)"
| "error_reason EmptyHolder = []"

definition hold_info :: "lock \<Rightarrow> nat \<Rightarrow> lock_info" where
  "hold_info l p = l_infos l ! p"

definition try_acquire :: "string \<Rightarrow> string \<Rightarrow> int \<Rightarrow> lock \<Rightarrow> (acquire_error + nat) \<times> lock" where
  "try_acquire holder ident now l =
     (if holder = [] then (Inl EmptyHolder, l)
      else case l_cur l of
        Some p \<Rightarrow> (Inl (BusyError (hold_info l p)), l)
      | None \<Rightarrow>
          (Inr (length (l_infos l)),
           l\<lparr>l_infos := l_infos l @ [\<lparr>li_holder = holder, li_id = ident, li_since = now\<rparr>],
             l_cur := Some (length (l_infos l))\<rparr>))"

definition current :: "lock \<Rightarrow> lock_info option" where
  "current l = map_option (hold_info l) (l_cur l)"

definition busy_reason :: "lock \<Rightarrow> string" where
  "busy_reason l = (case current l of Some i \<Rightarrow> holder_reason (li_holder i) | None \<Rightarrow> [])"

definition hold_active :: "nat option \<Rightarrow> lock \<Rightarrow> bool" where
  "hold_active h l \<longleftrightarrow> h \<noteq> None \<and> l_cur l = h"

definition hold_release :: "nat option \<Rightarrow> lock \<Rightarrow> lock" where
  "hold_release h l = (if hold_active h l then l\<lparr>l_cur := None\<rparr> else l)"

section \<open>The contract the writers rely on\<close>

datatype lock_op = Acquire string string int | Release nat

text \<open>A run of operations in any order, with the outcome of each acquire.\<close>

fun lock_run ::
  "(string \<Rightarrow> string \<Rightarrow> int \<Rightarrow> 'l \<Rightarrow> ('e + nat) \<times> 'l) \<Rightarrow> (nat option \<Rightarrow> 'l \<Rightarrow> 'l) \<Rightarrow>
   lock_op list \<Rightarrow> 'l \<Rightarrow> ('e + nat) list \<times> 'l" where
  "lock_run acq rel [] l = ([], l)"
| "lock_run acq rel (Acquire h i t # ops) l =
     (let (r, l') = acq h i t l; (rs, l'') = lock_run acq rel ops l' in (r # rs, l''))"
| "lock_run acq rel (Release p # ops) l = lock_run acq rel ops (rel (Some p) l)"

locale write_lock =
  fixes acq :: "string \<Rightarrow> string \<Rightarrow> int \<Rightarrow> 'l \<Rightarrow> ('e + nat) \<times> 'l"
    and rel :: "nat option \<Rightarrow> 'l \<Rightarrow> 'l"
    and active :: "nat option \<Rightarrow> 'l \<Rightarrow> bool"
  assumes acquired: "acq h i t l = (Inr p, l') \<Longrightarrow> active (Some p) l'"
    and acquired_free: "acq h i t l = (Inr p, l') \<Longrightarrow> \<not> active q l"
    and refused: "acq h i t l = (Inl e, l') \<Longrightarrow> l' = l"
    and busy_refused: "active q l \<Longrightarrow> \<exists>e. acq h i t l = (Inl e, l)"
    and one_holder: "active a l \<Longrightarrow> active q l \<Longrightarrow> a = q"
    and released: "\<not> active a (rel a l)"
    and others_kept: "active q l \<Longrightarrow> q \<noteq> a \<Longrightarrow> active q (rel a l)"
    and nil_inactive: "\<not> active None l"
begin

lemma acquired_only: "acq h i t l = (Inr p, l') \<Longrightarrow> active q l' \<Longrightarrow> q = Some p"
  using acquired one_holder by blast

lemma held_until_released:
  assumes "active (Some p) l" and "Release p \<notin> set ops"
  shows "active (Some p) (snd (lock_run acq rel ops l))
    \<and> (\<forall>r \<in> set (fst (lock_run acq rel ops l)). isl r)"
  using assms
proof (induction ops arbitrary: l)
  case (Cons op ops)
  show ?case
  proof (cases op)
    case (Acquire h i t)
    obtain e where "acq h i t l = (Inl e, l)"
      using busy_refused Cons.prems(1) by blast
    with Acquire Cons show ?thesis by (auto simp: case_prod_beta)
  next
    case (Release q)
    with Cons.prems have "active (Some p) (rel (Some q) l)"
      by (auto intro: others_kept)
    with Release Cons show ?thesis by simp
  qed
qed simp

end

interpretation apl: write_lock try_acquire hold_release hold_active
  by unfold_locales
    (auto simp: try_acquire_def hold_release_def hold_active_def split: if_splits option.splits)

section \<open>The lock of the source\<close>

definition lock_wf :: "lock \<Rightarrow> bool" where
  "lock_wf l \<longleftrightarrow> (\<forall>p. l_cur l = Some p \<longrightarrow> p < length (l_infos l))"

lemma lock_wf_new: "lock_wf new_lock"
  by (simp add: lock_wf_def new_lock_def)

lemma lock_wf_acquire: "lock_wf l \<Longrightarrow> lock_wf (snd (try_acquire h i t l))"
  by (auto simp: try_acquire_def lock_wf_def split: option.splits)

lemma lock_wf_release: "lock_wf l \<Longrightarrow> lock_wf (hold_release p l)"
  by (auto simp: hold_release_def lock_wf_def)

lemma try_acquire_Inr:
  "try_acquire h i t l = (Inr p, l') \<Longrightarrow>
   l_cur l = None \<and> l_cur l' = Some p
   \<and> hold_info l' p = \<lparr>li_holder = h, li_id = i, li_since = t\<rparr>"
  by (auto simp: try_acquire_def hold_info_def split: if_splits option.splits)

lemma try_acquire_free:
  "h \<noteq> [] \<Longrightarrow> l_cur l = None \<Longrightarrow> \<exists>p l'. try_acquire h i t l = (Inr p, l')"
  by (simp add: try_acquire_def)

lemma try_acquire_busy:
  "h \<noteq> [] \<Longrightarrow> l_cur l = Some p \<Longrightarrow>
   try_acquire h i t l = (Inl (BusyError (hold_info l p)), l)"
  by (simp add: try_acquire_def)

text \<open>windows never overlap. Once a writer has the lock, then whatever acquires and
  releases of other holds follow, it still has it and every acquire was refused with the
  lock's state unchanged by it, until the writer releases its own hold.\<close>

theorem write_lock_exclusive:
  assumes "try_acquire holder ident now l = (Inr p, l')" and "Release p \<notin> set ops"
  shows "hold_active (Some p) (snd (lock_run try_acquire hold_release ops l'))
    \<and> (\<forall>r \<in> set (fst (lock_run try_acquire hold_release ops l')). isl r)"
  using apl.held_until_released[OF apl.acquired[OF assms(1)] assms(2)] .

theorem write_lock_exclusive_witness:
  "hold_active (Some 0)
     (snd (lock_run try_acquire hold_release
        [Acquire ''plane'' ''a1'' 7, Release 3, Acquire ''update'' ''u1'' 8]
        (snd (try_acquire ''groups'' ''groups-1'' 5 new_lock))))"
proof -
  obtain l' where l': "try_acquire ''groups'' ''groups-1'' 5 new_lock = (Inr 0, l')"
    by (simp add: try_acquire_def new_lock_def)
  have "Release 0 \<notin> set [Acquire ''plane'' ''a1'' 7, Release 3, Acquire ''update'' ''u1'' 8]"
    by simp
  from write_lock_exclusive[OF l' this] l' show ?thesis by simp
qed

end
