(* ===== verification/GroupsEngine.thy ===== *)
theory GroupsEngine
  imports GroupsTrunk GroupsPlanProps Applylock
begin

text \<open>
  The device-groups engine, \<open>internal/groups/engine.go\<close>: \<open>New\<close>, \<open>Start\<close>, \<open>Apply\<close>, the confirm
  timer, \<open>Confirm\<close>, \<open>rollbackLocked\<close>, \<open>State\<close> and \<open>Owned\<close>. Each runs under the engine's mutex
  and is one function on \<open>gsys\<close>: the engine's fields, the write lock, the files it writes, the
  state file, and what it told the outside (the \<open>Wrote\<close> hook, the reloads).

  \<open>site\<close> holds what does not change: the configuration package (\<open>k\<close>, \<open>parse\<close>, \<open>render\<close>), the
  digest and the platform's \<open>int\<close> width. \<open>env\<close> is what one call meets: the clock, the staged
  changes, the files of trunk detection, and which of its reads, writes and commands succeed
  (\<open>x_ok\<close>). A failed atomic write leaves the file as it was. Times are in nanoseconds; JSON is
  read back as it was written; formatted times and messages are not modelled.
\<close>

section \<open>Data\<close>

record apply_result =
  ar_revision :: int
  ar_state :: string
  ar_deadline :: "int option"
  ar_trunk :: string
  ar_bridge :: string
  ar_converted :: bool
  ar_managed :: "string list"
  ar_issues :: "issue list"

record gpending =
  gp_revision :: int
  gp_deadline :: int
  gp_ledger :: ledger
  gp_network :: bool
  gp_keys :: "string list"
  gp_result :: apply_result

datatype rollback_reason =
    WindowPassedDown | NoConfirm | WriteWirelessFailed | WriteNetworkFailed | ReloadFailed
  | UnsafeBinding string

record grollback =
  gr_revision :: int
  gr_at :: int
  gr_reason :: rollback_reason

record gstate =
  gs_applied :: int
  gs_ledger :: ledger
  gs_pending :: "gpending option"
  gs_last :: "grollback option"
  gs_trunk :: string

definition empty_gstate :: gstate where
  "empty_gstate = \<lparr>gs_applied = 0, gs_ledger = \<lparr>l_owned = None, l_dynamic = [], l_converted = None\<rparr>,
     gs_pending = None, gs_last = None, gs_trunk = []\<rparr>"

record gsys =
  g_st :: gstate
  g_timer :: "(int \<times> int) option"
  g_hold :: "nat option"
  g_lock :: lock
  g_wireless :: "string option"
  g_network :: "string option"
  g_copy_w :: "string option"
  g_copy_n :: "string option"
  g_disk :: "gstate option"
  g_wrote :: "(string \<times> (string \<times> string) list) list"
  g_reloads :: "bool list"

record site =
  si_kit :: kit
  si_digest :: "string \<Rightarrow> string"
  si_parse :: "string \<Rightarrow> string \<Rightarrow> uconfig option"
  si_render :: "uconfig \<Rightarrow> string"
  si_width :: nat

text \<open>The fallible calls of one operation.\<close>

datatype call =
    ReadWireless | ReadNetwork | CopyWireless | CopyNetwork | PersistPending | PersistNoop
  | WriteWireless | WriteNetwork | Reload | ReadCopyW | ReadCopyN | RestoreWireless
  | RestoreNetwork | ReloadRollback | PersistRollback | PersistConfirm

record env =
  x_ok :: "call \<Rightarrow> bool"
  x_now :: int
  x_staged :: "string \<Rightarrow> bool"
  x_sessions :: "string list"
  x_snapshot :: "string list option"
  x_fs :: fs

definition min_confirm :: int where "min_confirm = 30"
definition max_confirm :: int where "max_confirm = 600"
definition default_confirm :: int where "default_confirm = 120"

text \<open>The confirm window in seconds.\<close>

definition confirm_seconds :: "int \<Rightarrow> int" where
  "confirm_seconds c =
     (let c1 = (if c = 0 then default_confirm else c);
          c2 = (if c1 < min_confirm then min_confirm else c1)
      in if c2 > max_confirm then max_confirm else c2)"

definition apply_id :: "int \<Rightarrow> string" where
  "apply_id rv = ''groups-'' @ itoa_int rv"

definition busy :: "string \<Rightarrow> refusal" where
  "busy reason = (refuse ''busy'')\<lparr>r_reason := reason\<rparr>"

text \<open>Changes staged in uci (the command line, or a LuCI session), and a LuCI apply.\<close>

definition uncommitted :: "env \<Rightarrow> string \<Rightarrow> bool" where
  "uncommitted x name \<longleftrightarrow> x_staged x (''/tmp/.uci/'' @ name)
     \<or> list_ex (\<lambda>dir. x_staged x (dir @ ''/'' @ name)) (x_sessions x)"

definition luci_pending :: "env \<Rightarrow> bool" where
  "luci_pending x \<longleftrightarrow> (case x_snapshot x of None \<Rightarrow> False | Some entries \<Rightarrow> entries \<noteq> [])"

section \<open>Pieces\<close>

definition release_locked :: "gsys \<Rightarrow> gsys" where
  "release_locked s = s\<lparr>g_lock := hold_release (g_hold s) (g_lock s), g_hold := None\<rparr>"

definition persist_locked :: "env \<Rightarrow> call \<Rightarrow> gsys \<Rightarrow> gsys" where
  "persist_locked x c s = (if x_ok x c then s\<lparr>g_disk := Some (g_st s)\<rparr> else s)"

definition wrote :: "int \<Rightarrow> (string \<times> string) list \<Rightarrow> gsys \<Rightarrow> gsys" where
  "wrote rv files s = (if files = [] then s else s\<lparr>g_wrote := g_wrote s @ [(apply_id rv, files)]\<rparr>)"

definition reload :: "bool \<Rightarrow> gsys \<Rightarrow> gsys" where
  "reload network s = s\<lparr>g_reloads := g_reloads s @ [network]\<rparr>"

definition arm_locked :: "gpending \<Rightarrow> gsys \<Rightarrow> gsys" where
  "arm_locked p s = s\<lparr>g_timer := Some (gp_revision p, gp_deadline p)\<rparr>"

definition file_bytes :: "string option \<Rightarrow> string" where
  "file_bytes f = (case f of None \<Rightarrow> [] | Some b \<Rightarrow> b)"

definition read_config :: "site \<Rightarrow> bool \<Rightarrow> string option \<Rightarrow> string \<Rightarrow> (string \<times> uconfig) option" where
  "read_config D ok f name =
     (if f \<noteq> None \<and> \<not> ok then None
      else (case si_parse D name (file_bytes f) of None \<Rightarrow> None | Some c \<Rightarrow> Some (file_bytes f, c)))"

text \<open>\<open>rollbackLocked\<close>: each configuration whose copy can be read and written back is.\<close>

definition restore_w :: "env \<Rightarrow> gsys \<Rightarrow> gsys \<times> (string \<times> string) list" where
  "restore_w x s =
     (case g_copy_w s of
        Some b \<Rightarrow> if x_ok x ReadCopyW \<and> x_ok x RestoreWireless
                  then (s\<lparr>g_wireless := Some b\<rparr>, [(''wireless'', b)]) else (s, [])
      | None \<Rightarrow> (s, []))"

definition restore_n :: "env \<Rightarrow> gsys \<Rightarrow> gsys \<times> (string \<times> string) list" where
  "restore_n x s =
     (case g_copy_n s of
        Some b \<Rightarrow> if x_ok x ReadCopyN \<and> x_ok x RestoreNetwork
                  then (s\<lparr>g_network := Some b\<rparr>, [(''network'', b)]) else (s, [])
      | None \<Rightarrow> (s, []))"

definition rollback_locked :: "env \<Rightarrow> rollback_reason \<Rightarrow> gsys \<Rightarrow> gsys" where
  "rollback_locked x reason s =
     (case gs_pending (g_st s) of
        None \<Rightarrow> s
      | Some p \<Rightarrow>
          (let (s1, rw) = restore_w x (s\<lparr>g_timer := None\<rparr>);
               (s2, rn) = restore_n x s1;
               s3 = reload True (wrote (gp_revision p) (rw @ rn) s2);
               s4 = s3\<lparr>g_st := (g_st s3)
                 \<lparr>gs_last := Some \<lparr>gr_revision = gp_revision p, gr_at = x_now x, gr_reason = reason\<rparr>,
                  gs_pending := None\<rparr>\<rparr>
           in release_locked (persist_locked x PersistRollback s4)))"

section \<open>Apply\<close>

text \<open>What \<open>Apply\<close> has worked out before it writes: the plan and the new files.\<close>

record planned_apply =
  pa_res :: plan_result
  pa_raw_w :: string
  pa_raw_n :: string
  pa_new_w :: string
  pa_new_n :: string
  pa_wch :: bool
  pa_nch :: bool

definition apply_plan :: "site \<Rightarrow> env \<Rightarrow> desired \<Rightarrow> gsys \<Rightarrow> plan_error + planned_apply" where
  "apply_plan D x d s =
     (if luci_pending x then Inl (Refused (busy ''luci_pending''))
      else if uncommitted x ''wireless'' \<or> uncommitted x ''network''
      then Inl (Refused (refuse ''uncommitted''))
      else case read_config D (x_ok x ReadWireless) (g_wireless s) ''wireless'' of
        None \<Rightarrow> Inl (Refused (refuse ''config_unreadable''))
      | Some (w_raw, wc) \<Rightarrow>
          (case read_config D (x_ok x ReadNetwork) (g_network s) ''network'' of
             None \<Rightarrow> Inl (Refused (refuse ''config_unreadable''))
           | Some (n_raw, nc) \<Rightarrow>
               (let trunk_fact = (if d_trunk d = [] \<or> d_trunk d = ''auto''
                      then (case detect_trunk (si_width D) (x_fs x) of Inl _ \<Rightarrow> [] | Inr p \<Rightarrow> p) else [])
                in case plan (si_kit D) (si_digest D) wc nc d trunk_fact (gs_ledger (g_st s)) of
                     Inl e \<Rightarrow> Inl e
                   | Inr res \<Rightarrow>
                       Inr \<lparr>pa_res = res, pa_raw_w = w_raw, pa_raw_n = n_raw,
                            pa_new_w = si_render D (res_wireless res),
                            pa_new_n = si_render D (res_network res),
                            pa_wch = (si_render D (res_wireless res) \<noteq> si_render D wc),
                            pa_nch = (si_render D (res_network res) \<noteq> si_render D nc)\<rparr>)))"

definition result_of :: "desired \<Rightarrow> plan_result \<Rightarrow> apply_result" where
  "result_of d res =
     \<lparr>ar_revision = d_revision d, ar_state = [], ar_deadline = None, ar_trunk = res_trunk_port res,
      ar_bridge = res_bridge res, ar_converted = res_converted res, ar_managed = res_managed res,
      ar_issues = res_issues res\<rparr>"

definition note_trunk :: "plan_result \<Rightarrow> gsys \<Rightarrow> gsys" where
  "note_trunk res s =
     (if res_trunk_port res \<noteq> [] then s\<lparr>g_st := (g_st s)\<lparr>gs_trunk := res_trunk_port res\<rparr>\<rparr> else s)"

text \<open>The copies to go back to: the state with those that were written, and whether both were.\<close>

definition save_copies :: "env \<Rightarrow> planned_apply \<Rightarrow> gsys \<Rightarrow> bool \<times> gsys" where
  "save_copies x pa s =
     (if \<not> x_ok x CopyWireless then (False, s)
      else
        (let s1 = s\<lparr>g_copy_w := Some (pa_raw_w pa)\<rparr>
         in if \<not> x_ok x CopyNetwork then (False, s1)
            else (True, s1\<lparr>g_copy_n := Some (pa_raw_n pa)\<rparr>)))"

text \<open>The window opens: the pending record, the lock, the state file.\<close>

definition new_pending :: "env \<Rightarrow> desired \<Rightarrow> planned_apply \<Rightarrow> gpending" where
  "new_pending x d pa =
     (let deadline = x_now x + confirm_seconds (d_confirm_seconds d) * 1000000000
      in \<lparr>gp_revision = d_revision d, gp_deadline = deadline, gp_ledger = res_ledger (pa_res pa),
          gp_network = pa_nch pa, gp_keys = res_binding_keys (pa_res pa),
          gp_result = (result_of d (pa_res pa))\<lparr>ar_state := ''pending_confirm'', ar_deadline := Some deadline\<rparr>\<rparr>)"

definition open_window :: "env \<Rightarrow> gpending \<Rightarrow> nat \<Rightarrow> gsys \<Rightarrow> gsys" where
  "open_window x p h s =
     persist_locked x PersistPending
       (s\<lparr>g_st := (g_st s)\<lparr>gs_pending := Some p\<rparr>, g_hold := Some h\<rparr>)"

definition apply_failed :: plan_error where
  "apply_failed = Refused (refuse ''apply_failed'')"

text \<open>The writes, the reload and the timer.\<close>

definition apply_files ::
  "env \<Rightarrow> planned_apply \<Rightarrow> gpending \<Rightarrow> gsys \<Rightarrow> (plan_error + apply_result) \<times> gsys" where
  "apply_files x pa p s =
     (if pa_wch pa \<and> \<not> x_ok x WriteWireless then (Inl apply_failed, rollback_locked x WriteWirelessFailed s)
      else
        (let s1 = (if pa_wch pa then s\<lparr>g_wireless := Some (pa_new_w pa)\<rparr> else s)
         in if pa_nch pa \<and> \<not> x_ok x WriteNetwork
            then (Inl apply_failed, rollback_locked x WriteNetworkFailed s1)
            else
              (let s2 = (if pa_nch pa then s1\<lparr>g_network := Some (pa_new_n pa)\<rparr> else s1);
                   written = (if pa_wch pa then [(''wireless'', pa_new_w pa)] else [])
                           @ (if pa_nch pa then [(''network'', pa_new_n pa)] else []);
                   s3 = reload (pa_nch pa) (wrote (gp_revision p) written s2)
               in if \<not> x_ok x Reload then (Inl apply_failed, rollback_locked x ReloadFailed s3)
                  else (Inr (gp_result p), arm_locked p s3))))"

definition apply_desired ::
  "site \<Rightarrow> env \<Rightarrow> desired \<Rightarrow> gsys \<Rightarrow> (plan_error + apply_result) \<times> gsys" where
  "apply_desired D x d s =
     (case gs_pending (g_st s) of
        Some p \<Rightarrow>
          if gp_revision p = d_revision d then (Inr (gp_result p), s)
          else (Inl (Refused (busy (holder_reason groups_holder))), s)
      | None \<Rightarrow>
          (case validate d of
             Some r \<Rightarrow> (Inl (Refused r), s)
           | None \<Rightarrow>
               (case try_acquire groups_holder (apply_id (d_revision d)) (x_now x) (g_lock s) of
                  (Inl e, _) \<Rightarrow> (Inl (Refused (busy (error_reason e))), s)
                | (Inr h, lk) \<Rightarrow>
                    (let s0 = s\<lparr>g_lock := lk\<rparr>;
                         release = (\<lambda>t. t\<lparr>g_lock := hold_release (Some h) (g_lock t)\<rparr>)
                     in case apply_plan D x d s0 of
                          Inl e \<Rightarrow> (Inl e, release s0)
                        | Inr pa \<Rightarrow>
                            (let s1 = note_trunk (pa_res pa) s0
                             in if \<not> pa_wch pa \<and> \<not> pa_nch pa
                                then (Inr ((result_of d (pa_res pa))\<lparr>ar_state := ''noop''\<rparr>),
                                      release (persist_locked x PersistNoop
                                        (s1\<lparr>g_st := (g_st s1)\<lparr>gs_applied := d_revision d,
                                           gs_ledger := res_ledger (pa_res pa)\<rparr>\<rparr>)))
                                else
                                  (case save_copies x pa s1 of
                                     (False, s2) \<Rightarrow> (Inl apply_failed, release s2)
                                   | (True, s2) \<Rightarrow>
                                       (let p = new_pending x d pa
                                        in apply_files x pa p (open_window x p h s2))))))))"

section \<open>Confirm, the timer, start\<close>

definition confirm :: "site \<Rightarrow> env \<Rightarrow> int \<Rightarrow> gsys \<Rightarrow> plan_error option \<times> gsys" where
  "confirm D x rv s =
     (case gs_pending (g_st s) of
        None \<Rightarrow> (if gs_applied (g_st s) = rv then (None, s) else (Some (Refused (refuse ''not_pending'')), s))
      | Some p \<Rightarrow>
          if gp_revision p \<noteq> rv then (Some (Refused (refuse ''not_pending'')), s)
          else case check_psk_files (si_digest D) (x_fs x) (gp_keys p) of
            Some bad \<Rightarrow> (Some (Refused (refuse ''unsafe_binding'')), rollback_locked x (UnsafeBinding bad) s)
          | None \<Rightarrow>
              (let s1 = s\<lparr>g_timer := None,
                     g_st := (g_st s)\<lparr>gs_applied := rv, gs_ledger := gp_ledger p, gs_pending := None\<rparr>\<rparr>;
                   s2 = release_locked (persist_locked x PersistConfirm s1)
               in (None, s2\<lparr>g_copy_w := None, g_copy_n := None\<rparr>)))"

text \<open>A timer armed for revision \<open>rv\<close> fires (or fires late, after it was stopped).\<close>

definition timer_fires :: "env \<Rightarrow> int \<Rightarrow> gsys \<Rightarrow> gsys" where
  "timer_fires x rv s =
     (case gs_pending (g_st s) of
        Some p \<Rightarrow> if gp_revision p = rv then rollback_locked x NoConfirm s else s
      | None \<Rightarrow> s)"

definition start :: "env \<Rightarrow> gsys \<Rightarrow> gsys" where
  "start x s =
     (case gs_pending (g_st s) of
        None \<Rightarrow> s
      | Some p \<Rightarrow>
          (let s1 = (case try_acquire groups_holder (apply_id (gp_revision p)) (x_now x) (g_lock s) of
                       (Inr h, lk) \<Rightarrow> s\<lparr>g_lock := lk, g_hold := Some h\<rparr>
                     | (Inl _, _) \<Rightarrow> s)
           in if gp_deadline p - x_now x \<le> 0 then rollback_locked x WindowPassedDown s1
              else arm_locked p s1))"

text \<open>\<open>New\<close>: the engine of a process that starts, from the state file (unreadable or missing:
  empty). The lock of the process is new.\<close>

definition new_engine :: "gsys \<Rightarrow> gsys" where
  "new_engine s =
     s\<lparr>g_st := (case g_disk s of None \<Rightarrow> empty_gstate | Some st \<Rightarrow> st),
       g_timer := None, g_hold := None, g_lock := new_lock\<rparr>"

definition restart :: "env \<Rightarrow> gsys \<Rightarrow> gsys" where
  "restart x s = start x (new_engine s)"


section \<open>Runs of the engine\<close>

text \<open>The states in which \<open>Apply\<close> can be cut off: after the rollback copies, after the pending
  record was saved, and after each file was written.\<close>

inductive mid_apply :: "site \<Rightarrow> env \<Rightarrow> desired \<Rightarrow> gsys \<Rightarrow> gsys \<Rightarrow> bool" for D x d s where
  at_copies: "gs_pending (g_st s) = None \<Longrightarrow>
    try_acquire groups_holder i t (g_lock s) = (Inr h, lk) \<Longrightarrow>
    apply_plan D x d (s\<lparr>g_lock := lk\<rparr>) = Inr pa \<Longrightarrow>
    save_copies x pa (note_trunk (pa_res pa) (s\<lparr>g_lock := lk\<rparr>)) = (b, s2) \<Longrightarrow> mid_apply D x d s s2"
| at_pending: "gs_pending (g_st s) = None \<Longrightarrow>
    try_acquire groups_holder i t (g_lock s) = (Inr h, lk) \<Longrightarrow>
    apply_plan D x d (s\<lparr>g_lock := lk\<rparr>) = Inr pa \<Longrightarrow>
    save_copies x pa (note_trunk (pa_res pa) (s\<lparr>g_lock := lk\<rparr>)) = (True, s2) \<Longrightarrow>
    mid_apply D x d s (open_window x (new_pending x d pa) h s2)"
| at_wireless: "gs_pending (g_st s) = None \<Longrightarrow>
    try_acquire groups_holder i t (g_lock s) = (Inr h, lk) \<Longrightarrow>
    apply_plan D x d (s\<lparr>g_lock := lk\<rparr>) = Inr pa \<Longrightarrow>
    save_copies x pa (note_trunk (pa_res pa) (s\<lparr>g_lock := lk\<rparr>)) = (True, s2) \<Longrightarrow>
    mid_apply D x d s ((open_window x (new_pending x d pa) h s2)\<lparr>g_wireless := Some (pa_new_w pa)\<rparr>)"
| at_network: "gs_pending (g_st s) = None \<Longrightarrow>
    try_acquire groups_holder i t (g_lock s) = (Inr h, lk) \<Longrightarrow>
    apply_plan D x d (s\<lparr>g_lock := lk\<rparr>) = Inr pa \<Longrightarrow>
    save_copies x pa (note_trunk (pa_res pa) (s\<lparr>g_lock := lk\<rparr>)) = (True, s2) \<Longrightarrow>
    mid_apply D x d s ((open_window x (new_pending x d pa) h s2)
      \<lparr>g_wireless := f, g_network := Some (pa_new_n pa)\<rparr>)"

text \<open>The state file can be written. (The other calls of an environment may fail.)\<close>

definition persists :: "env \<Rightarrow> bool" where
  "persists x \<longleftrightarrow> x_ok x PersistPending \<and> x_ok x PersistNoop \<and> x_ok x PersistRollback \<and> x_ok x PersistConfirm"

inductive gstep :: "site \<Rightarrow> env \<Rightarrow> gsys \<Rightarrow> gsys \<Rightarrow> bool" for D x where
  do_apply: "persists x \<Longrightarrow> gstep D x s (snd (apply_desired D x d s))"
| do_confirm: "persists x \<Longrightarrow> gstep D x s (snd (confirm D x rv s))"
| do_timer: "persists x \<Longrightarrow> gstep D x s (timer_fires x rv s)"
| do_restart: "persists x \<Longrightarrow> gstep D x s (restart x s)"
| do_crash: "persists x \<Longrightarrow> persists y \<Longrightarrow> mid_apply D y d s t \<Longrightarrow> gstep D x s (restart x t)"
| do_edit: "gstep D x s (s\<lparr>g_wireless := fw, g_network := fn\<rparr>)"
| other_acquire: "h \<noteq> groups_holder \<Longrightarrow> gstep D x s (s\<lparr>g_lock := snd (try_acquire h i t (g_lock s))\<rparr>)"
| other_release: "Some q \<noteq> g_hold s \<Longrightarrow> gstep D x s (s\<lparr>g_lock := hold_release (Some q) (g_lock s)\<rparr>)"

inductive_cases gstep_cases: "gstep D x s t"

definition init_gsys :: "gsys \<Rightarrow> bool" where
  "init_gsys s \<longleftrightarrow> g_st s = empty_gstate \<and> g_disk s = None \<and> g_hold s = None \<and> g_timer s = None
     \<and> g_lock s = new_lock"

inductive greach :: "site \<Rightarrow> gsys \<Rightarrow> bool" for D where
  begins: "init_gsys s \<Longrightarrow> greach D s"
| steps: "greach D s \<Longrightarrow> gstep D x s t \<Longrightarrow> greach D t"

section \<open>The invariant\<close>

text \<open>The window is open exactly while the engine holds the write lock and its timer is armed;
  the copies to go back to are there, and a restart reads the same state.\<close>

definition same_saved :: "gstate \<Rightarrow> gstate \<Rightarrow> bool" where
  "same_saved a b \<longleftrightarrow> gs_applied a = gs_applied b \<and> gs_ledger a = gs_ledger b
     \<and> gs_pending a = gs_pending b"

definition ginv_window :: "gsys \<Rightarrow> bool" where
  "ginv_window s \<longleftrightarrow>
     (case gs_pending (g_st s) of
        None \<Rightarrow> g_hold s = None
      | Some p \<Rightarrow> g_hold s \<noteq> None \<and> hold_active (g_hold s) (g_lock s)
          \<and> g_timer s = Some (gp_revision p, gp_deadline p)
          \<and> g_copy_w s \<noteq> None \<and> g_copy_n s \<noteq> None)"

definition ginv_saved :: "gsys \<Rightarrow> bool" where
  "ginv_saved s \<longleftrightarrow>
     same_saved (case g_disk s of None \<Rightarrow> empty_gstate | Some st \<Rightarrow> st) (g_st s)"

definition ginv :: "gsys \<Rightarrow> bool" where
  "ginv s \<longleftrightarrow> ginv_window s \<and> ginv_saved s"

lemma same_saved_refl [simp]: "same_saved a a"
  by (simp add: same_saved_def)

lemma restores_fields [simp]:
  "g_st (fst (restore_w x s)) = g_st s" "g_st (fst (restore_n x s)) = g_st s"
  "g_hold (fst (restore_w x s)) = g_hold s" "g_hold (fst (restore_n x s)) = g_hold s"
  "g_lock (fst (restore_w x s)) = g_lock s" "g_lock (fst (restore_n x s)) = g_lock s"
  "g_copy_w (fst (restore_w x s)) = g_copy_w s" "g_copy_w (fst (restore_n x s)) = g_copy_w s"
  "g_copy_n (fst (restore_w x s)) = g_copy_n s" "g_copy_n (fst (restore_n x s)) = g_copy_n s"
  "g_network (fst (restore_w x s)) = g_network s" "g_wireless (fst (restore_n x s)) = g_wireless s"
  "g_disk (fst (restore_w x s)) = g_disk s" "g_disk (fst (restore_n x s)) = g_disk s"
  by (simp_all add: restore_w_def restore_n_def split: option.splits)

lemma wrote_fields [simp]:
  "g_st (wrote r f s) = g_st s" "g_hold (wrote r f s) = g_hold s" "g_lock (wrote r f s) = g_lock s"
  "g_disk (wrote r f s) = g_disk s" "g_wireless (wrote r f s) = g_wireless s"
  "g_network (wrote r f s) = g_network s" "g_copy_w (wrote r f s) = g_copy_w s"
  "g_copy_n (wrote r f s) = g_copy_n s"
  by (simp_all add: wrote_def)

definition restores :: "env \<Rightarrow> bool" where
  "restores x \<longleftrightarrow> x_ok x ReadCopyW \<and> x_ok x ReadCopyN \<and> x_ok x RestoreWireless \<and> x_ok x RestoreNetwork"

lemma restores_ok:
  "restores x \<Longrightarrow> g_copy_w s = Some b \<Longrightarrow> g_wireless (fst (restore_w x s)) = Some b"
  "restores x \<Longrightarrow> g_copy_n s = Some b \<Longrightarrow> g_network (fst (restore_n x s)) = Some b"
  by (simp_all add: restore_w_def restore_n_def restores_def)

text \<open>What a rollback leaves.\<close>

lemma rollback_effect:
  assumes p: "gs_pending (g_st s) = Some p"
  shows "gs_pending (g_st (rollback_locked x r s)) = None"
    "gs_applied (g_st (rollback_locked x r s)) = gs_applied (g_st s)"
    "gs_ledger (g_st (rollback_locked x r s)) = gs_ledger (g_st s)"
    "gs_last (g_st (rollback_locked x r s))
       = Some \<lparr>gr_revision = gp_revision p, gr_at = x_now x, gr_reason = r\<rparr>"
    "g_hold (rollback_locked x r s) = None"
    "g_lock (rollback_locked x r s) = hold_release (g_hold s) (g_lock s)"
    "g_copy_w (rollback_locked x r s) = g_copy_w s" "g_copy_n (rollback_locked x r s) = g_copy_n s"
    "persists x \<Longrightarrow> g_disk (rollback_locked x r s) = Some (g_st (rollback_locked x r s))"
    "restores x \<Longrightarrow> g_copy_w s = Some bw \<Longrightarrow> g_wireless (rollback_locked x r s) = Some bw"
    "restores x \<Longrightarrow> g_copy_n s = Some bn \<Longrightarrow> g_network (rollback_locked x r s) = Some bn"
  using p
  by (simp_all add: rollback_locked_def Let_def case_prod_beta persist_locked_def release_locked_def
      reload_def persists_def restores_ok)

lemma rollback_none: "gs_pending (g_st s) = None \<Longrightarrow> rollback_locked x r s = s"
  by (simp add: rollback_locked_def)

lemma ginv_rollback:
  assumes "persists x" and "ginv s"
  shows "ginv (rollback_locked x r s)"
proof (cases "gs_pending (g_st s)")
  case None
  with assms(2) show ?thesis by (simp add: rollback_none)
next
  case (Some p)
  from rollback_effect(1,5,9)[OF this] assms(1) show ?thesis
    by (simp add: ginv_def ginv_window_def ginv_saved_def)
qed

lemma ginv_rollback_any:
  assumes "persists x" and "gs_pending (g_st s) = Some p"
  shows "ginv (rollback_locked x r s)"
  using rollback_effect(1,5,9)[OF assms(2)] assms(1)
  by (simp add: ginv_def ginv_window_def ginv_saved_def)


section \<open>Each step keeps the invariant\<close>

lemma note_trunk_fields [simp]:
  "gs_applied (g_st (note_trunk r s)) = gs_applied (g_st s)"
  "gs_ledger (g_st (note_trunk r s)) = gs_ledger (g_st s)"
  "gs_pending (g_st (note_trunk r s)) = gs_pending (g_st s)"
  "g_hold (note_trunk r s) = g_hold s" "g_lock (note_trunk r s) = g_lock s"
  "g_disk (note_trunk r s) = g_disk s" "g_wireless (note_trunk r s) = g_wireless s"
  "g_network (note_trunk r s) = g_network s"
  by (simp_all add: note_trunk_def)

lemma save_copies_fields:
  "save_copies x pa s = (b, s2) \<Longrightarrow>
   g_st s2 = g_st s \<and> g_hold s2 = g_hold s \<and> g_lock s2 = g_lock s \<and> g_disk s2 = g_disk s
   \<and> g_wireless s2 = g_wireless s \<and> g_network s2 = g_network s
   \<and> (b \<longrightarrow> g_copy_w s2 = Some (pa_raw_w pa) \<and> g_copy_n s2 = Some (pa_raw_n pa))"
  by (auto simp: save_copies_def Let_def split: if_splits)

text \<open>The window as \<open>open_window\<close> leaves it, before the timer is armed.\<close>

definition opened :: "gpending \<Rightarrow> gsys \<Rightarrow> bool" where
  "opened p s \<longleftrightarrow> gs_pending (g_st s) = Some p \<and> g_hold s \<noteq> None \<and> hold_active (g_hold s) (g_lock s)
     \<and> g_copy_w s \<noteq> None \<and> g_copy_n s \<noteq> None \<and> g_disk s = Some (g_st s)"

lemma open_window_opened:
  assumes "persists x" and acq: "try_acquire o' i t (g_lock s) = (Inr h, lk)"
    and copies: "save_copies x pa (note_trunk r (s\<lparr>g_lock := lk\<rparr>)) = (True, s2)"
  shows "opened p (open_window x p h s2)"
proof -
  have "hold_active (Some h) lk" by (rule apl.acquired[OF acq])
  with save_copies_fields[OF copies] assms(1) show ?thesis
    by (simp add: opened_def open_window_def persist_locked_def persists_def)
qed

lemma opened_files [simp]:
  "opened p (s\<lparr>g_wireless := fw\<rparr>) = opened p s" "opened p (s\<lparr>g_network := fn\<rparr>) = opened p s"
  "opened p (wrote rv fs s) = opened p s" "opened p (reload b s) = opened p s"
  by (simp_all add: opened_def reload_def)

lemma opened_armed: "opened p s \<Longrightarrow> ginv (arm_locked p s)"
  by (simp add: opened_def ginv_def ginv_window_def ginv_saved_def arm_locked_def)

lemma ginv_apply_files:
  assumes "persists x" and "opened p s"
  shows "ginv (snd (apply_files x pa p s))"
proof -
  have pend: "gs_pending (g_st t) = Some p" if "opened p t" for t
    using that by (simp add: opened_def)
  show ?thesis
    using assms(2)
    by (auto simp: apply_files_def Let_def opened_armed intro!: ginv_rollback_any[OF assms(1)] dest: pend
        split: if_splits)
      (simp_all add: reload_def opened_def)
qed

text \<open>The ways an apply can go when nothing is pending.\<close>

lemma apply_cases:
  assumes "gs_pending (g_st s) = None"
  obtains (invalid) r where "validate d = Some r" "apply_desired D x d s = (Inl (Refused r), s)"
  | (locked) e where "apply_desired D x d s = (Inl (Refused (busy (error_reason e))), s)"
      "\<exists>lk. try_acquire groups_holder (apply_id (d_revision d)) (x_now x) (g_lock s) = (Inl e, lk)"
  | (unplanned) e h lk where
      "try_acquire groups_holder (apply_id (d_revision d)) (x_now x) (g_lock s) = (Inr h, lk)"
      "apply_plan D x d (s\<lparr>g_lock := lk\<rparr>) = Inl e"
      "apply_desired D x d s = (Inl e, s\<lparr>g_lock := hold_release (Some h) lk\<rparr>)"
  | (noop) h lk pa where
      "try_acquire groups_holder (apply_id (d_revision d)) (x_now x) (g_lock s) = (Inr h, lk)"
      "apply_plan D x d (s\<lparr>g_lock := lk\<rparr>) = Inr pa" "\<not> pa_wch pa" "\<not> pa_nch pa"
      "apply_desired D x d s =
        (let s1 = note_trunk (pa_res pa) (s\<lparr>g_lock := lk\<rparr>);
             s2 = persist_locked x PersistNoop (s1\<lparr>g_st := (g_st s1)\<lparr>gs_applied := d_revision d,
                    gs_ledger := res_ledger (pa_res pa)\<rparr>\<rparr>)
         in (Inr ((result_of d (pa_res pa))\<lparr>ar_state := ''noop''\<rparr>),
             s2\<lparr>g_lock := hold_release (Some h) (g_lock s2)\<rparr>))"
  | (uncopied) h lk pa s2 where
      "try_acquire groups_holder (apply_id (d_revision d)) (x_now x) (g_lock s) = (Inr h, lk)"
      "save_copies x pa (note_trunk (pa_res pa) (s\<lparr>g_lock := lk\<rparr>)) = (False, s2)"
      "apply_desired D x d s = (Inl apply_failed, s2\<lparr>g_lock := hold_release (Some h) (g_lock s2)\<rparr>)"
  | (files) h lk pa s2 where "validate d = None"
      "try_acquire groups_holder (apply_id (d_revision d)) (x_now x) (g_lock s) = (Inr h, lk)"
      "apply_plan D x d (s\<lparr>g_lock := lk\<rparr>) = Inr pa" "pa_wch pa \<or> pa_nch pa"
      "save_copies x pa (note_trunk (pa_res pa) (s\<lparr>g_lock := lk\<rparr>)) = (True, s2)"
      "apply_desired D x d s =
        apply_files x pa (new_pending x d pa) (open_window x (new_pending x d pa) h s2)"
proof (cases "validate d")
  case (Some r)
  with assms show thesis by (intro invalid) (simp_all add: apply_desired_def)
next
  case valid: None
  obtain r lk where acq: "try_acquire groups_holder (apply_id (d_revision d)) (x_now x) (g_lock s) = (r, lk)"
    by fastforce
  show thesis
  proof (cases r)
    case (Inl e)
    with assms valid acq show thesis by (intro locked) (auto simp: apply_desired_def)
  next
    case (Inr h)
    note acq' = acq[unfolded Inr]
    note start = apply_desired_def[of D x d s, unfolded assms option.case valid acq' prod.case sum.case Let_def]
    show thesis
    proof (cases "apply_plan D x d (s\<lparr>g_lock := lk\<rparr>)")
      case (Inl e)
      then show thesis by (intro unplanned[OF acq']) (simp_all add: start)
    next
      case pa: (Inr pa)
      obtain b s2 where sc: "save_copies x pa (note_trunk (pa_res pa) (s\<lparr>g_lock := lk\<rparr>)) = (b, s2)"
        by fastforce
      consider "\<not> pa_wch pa \<and> \<not> pa_nch pa" | "pa_wch pa \<or> pa_nch pa" "\<not> b" | "pa_wch pa \<or> pa_nch pa" b
        by blast
      then show thesis
      proof cases
        case 1
        then show thesis by (intro noop[OF acq' pa]) (simp_all add: start pa Let_def)
      next
        case 2
        then have "apply_desired D x d s = (Inl apply_failed, s2\<lparr>g_lock := hold_release (Some h) (g_lock s2)\<rparr>)"
          using sc by (auto simp: start pa)
        with 2 sc show thesis by (intro uncopied[OF acq']) simp_all
      next
        case 3
        then have "apply_desired D x d s =
            apply_files x pa (new_pending x d pa) (open_window x (new_pending x d pa) h s2)"
          using sc by (auto simp: start pa)
        with 3 sc show thesis by (intro files[OF valid acq' pa]) simp_all
      qed
    qed
  qed
qed

lemma ginv_apply:
  assumes ok: "persists x" and inv: "ginv s"
  shows "ginv (snd (apply_desired D x d s))"
proof (cases "gs_pending (g_st s)")
  case (Some p)
  with inv show ?thesis by (simp add: apply_desired_def)
next
  case None
  have hold: "g_hold s = None" and saved: "ginv_saved s"
    using inv None by (simp_all add: ginv_def ginv_window_def)
  have quiet: "ginv t" if "gs_pending (g_st t) = None" "g_hold t = None" "ginv_saved t" for t
    using that by (simp add: ginv_def ginv_window_def)
  from None show ?thesis
  proof (cases rule: apply_cases[where d = d and D = D and x = x])
    case (unplanned e h lk)
    have "ginv (s\<lparr>g_lock := hold_release (Some h) lk\<rparr>)"
      by (rule quiet) (use None hold saved in \<open>simp_all add: ginv_saved_def\<close>)
    with unplanned show ?thesis by simp
  next
    case (noop h lk pa)
    with None hold ok show ?thesis
      by (auto simp: Let_def persist_locked_def persists_def ginv_saved_def intro!: quiet)
  next
    case (uncopied h lk pa s2)
    have "ginv (s2\<lparr>g_lock := hold_release (Some h) (g_lock s2)\<rparr>)"
      using save_copies_fields[OF uncopied(2)] None hold saved
      by (intro quiet) (auto simp: ginv_saved_def same_saved_def)
    with uncopied show ?thesis by simp
  next
    case (files h lk pa s2)
    have "ginv (snd (apply_files x pa (new_pending x d pa) (open_window x (new_pending x d pa) h s2)))"
      by (rule ginv_apply_files[OF ok open_window_opened[OF ok files(2) files(5)]])
    with files show ?thesis by simp
  qed (use inv in simp_all)
qed

lemma ginv_confirm: "persists x \<Longrightarrow> ginv s \<Longrightarrow> ginv (snd (confirm D x rv s))"
  by (auto simp: confirm_def Let_def ginv_rollback split: option.splits)
    (auto simp: ginv_def ginv_window_def ginv_saved_def persist_locked_def release_locked_def persists_def)

lemma ginv_timer: "persists x \<Longrightarrow> ginv s \<Longrightarrow> ginv (timer_fires x rv s)"
  by (auto simp: timer_fires_def ginv_rollback split: option.split)

text \<open>A restart of a process whose state file is as \<open>t\<close>: any state in memory will do.\<close>

definition restartable :: "gsys \<Rightarrow> bool" where
  "restartable s \<longleftrightarrow> (\<forall>st p. g_disk s = Some st \<longrightarrow> gs_pending st = Some p \<longrightarrow>
     g_copy_w s \<noteq> None \<and> g_copy_n s \<noteq> None)"

lemma start_acquires:
  "\<exists>h lk. try_acquire groups_holder i t new_lock = (Inr h, lk) \<and> hold_active (Some h) lk"
proof -
  obtain h lk where "try_acquire groups_holder i t new_lock = (Inr h, lk)"
    using try_acquire_free[of groups_holder new_lock i t] by (auto simp: groups_holder_def new_lock_def)
  then show ?thesis using apl.acquired by blast
qed

lemma ginv_restart:
  assumes ok: "persists x" and rs: "restartable s"
  shows "ginv (restart x s)"
proof (cases "g_disk s")
  case None
  then show ?thesis
    by (simp add: restart_def new_engine_def start_def empty_gstate_def ginv_def ginv_window_def ginv_saved_def)
next
  case (Some st)
  show ?thesis
  proof (cases "gs_pending st")
    case None
    with Some show ?thesis
      by (simp add: restart_def new_engine_def start_def ginv_def ginv_window_def ginv_saved_def)
  next
    case pend: (Some p)
    obtain h lk where acq: "try_acquire groups_holder (apply_id (gp_revision p)) (x_now x) new_lock = (Inr h, lk)"
        "hold_active (Some h) lk"
      using start_acquires by blast
    define s1 where "s1 = (new_engine s)\<lparr>g_lock := lk, g_hold := Some h\<rparr>"
    have o: "opened p s1"
      using Some pend acq rs by (simp add: opened_def s1_def new_engine_def restartable_def)
    have "restart x s = (if gp_deadline p - x_now x \<le> 0 then rollback_locked x WindowPassedDown s1
        else arm_locked p s1)"
      using Some pend acq by (simp add: restart_def start_def new_engine_def s1_def Let_def)
    then show ?thesis
      using opened_armed[OF o] ginv_rollback_any[OF ok, of s1 p] o by (simp add: opened_def)
  qed
qed

lemma ginv_restartable: "ginv s \<Longrightarrow> restartable s"
  by (auto simp: ginv_def ginv_window_def ginv_saved_def restartable_def same_saved_def split: option.splits)

lemma mid_restartable:
  assumes "persists y" and "ginv s" and "mid_apply D y d s t"
  shows "restartable t"
  using assms(3)
proof cases
  case (at_copies i t' h lk pa b)
  then have "g_disk t = g_disk s" using save_copies_fields[OF at_copies(4)] by simp
  with at_copies(1) assms(2) show ?thesis
    by (auto simp: ginv_def ginv_saved_def restartable_def same_saved_def)
next
  case (at_pending i t' h lk pa s2)
  then have "opened (new_pending y d pa) t"
    using open_window_opened[OF assms(1)] by blast
  then show ?thesis by (simp add: opened_def restartable_def)
next
  case (at_wireless i t' h lk pa s2)
  then have "opened (new_pending y d pa) t"
    using open_window_opened[OF assms(1)] opened_files(1) by blast
  then show ?thesis by (simp add: opened_def restartable_def)
next
  case (at_network i t' h lk pa s2 f)
  have "opened (new_pending y d pa) (open_window y (new_pending y d pa) h s2)"
    by (rule open_window_opened[OF assms(1) at_network(3) at_network(5)])
  then show ?thesis using at_network(1) by (simp add: opened_def restartable_def)
qed

lemma ginv_step:
  assumes "ginv s" and "gstep D x s t"
  shows "ginv t"
  using assms(2,1)
proof (induction rule: gstep.induct)
  case (do_crash y d s t)
  then show ?case using mid_restartable ginv_restart by blast
next
  case (do_restart s)
  then show ?case using ginv_restart ginv_restartable by blast
next
  case (other_acquire h s i t)
  show ?case
  proof (cases "gs_pending (g_st s)")
    case None
    with other_acquire show ?thesis by (simp add: ginv_def ginv_window_def ginv_saved_def)
  next
    case (Some p)
    then have "hold_active (g_hold s) (g_lock s)"
      using other_acquire by (simp add: ginv_def ginv_window_def)
    then obtain e where "try_acquire h i t (g_lock s) = (Inl e, g_lock s)"
      using apl.busy_refused by blast
    with other_acquire show ?thesis by simp
  qed
next
  case (other_release q s)
  then show ?case
    by (auto simp: ginv_def ginv_window_def ginv_saved_def split: option.splits intro: apl.others_kept)
qed (simp_all add: ginv_apply ginv_confirm ginv_timer,
     simp add: ginv_def ginv_window_def ginv_saved_def cong: option.case_cong)

lemma ginv_reach: "greach D s \<Longrightarrow> ginv s"
proof (induction rule: greach.induct)
  case (begins s)
  then show ?case
    by (simp add: init_gsys_def empty_gstate_def ginv_def ginv_window_def ginv_saved_def)
qed (rule ginv_step)


section \<open>What the engine guarantees\<close>

text \<open>C16: a window is open exactly while the engine holds the write lock. In every state the
  engine can get into, with the other writers, edits of the files, failing reads and writes of
  the configurations, and crashes of the daemon in the middle of an apply: while an apply waits
  for its confirm, the engine's hold is the write lock's, its deadline timer is armed and both
  copies to go back to exist; otherwise the engine holds nothing.\<close>

theorem window_holds_lock:
  assumes "greach D s"
  shows "case gs_pending (g_st s) of
      None \<Rightarrow> g_hold s = None
    | Some p \<Rightarrow> (\<exists>h. g_hold s = Some h \<and> l_cur (g_lock s) = Some h)
        \<and> g_timer s = Some (gp_revision p, gp_deadline p)
        \<and> g_copy_w s \<noteq> None \<and> g_copy_n s \<noteq> None"
  using ginv_reach[OF assms]
  by (auto simp: ginv_def ginv_window_def hold_active_def split: option.splits)

definition still_open :: "gpending \<Rightarrow> gsys \<Rightarrow> gsys \<Rightarrow> bool" where
  "still_open p s t \<longleftrightarrow> gs_pending (g_st t) = Some p
     \<and> gs_applied (g_st t) = gs_applied (g_st s) \<and> gs_ledger (g_st t) = gs_ledger (g_st s)
     \<and> g_copy_w t = g_copy_w s \<and> g_copy_n t = g_copy_n s"

definition rolled_back :: "env \<Rightarrow> gpending \<Rightarrow> gsys \<Rightarrow> gsys \<Rightarrow> bool" where
  "rolled_back x p s t \<longleftrightarrow> gs_pending (g_st t) = None
     \<and> gs_applied (g_st t) = gs_applied (g_st s) \<and> gs_ledger (g_st t) = gs_ledger (g_st s)
     \<and> (\<exists>r. gs_last (g_st t) = Some r \<and> gr_revision r = gp_revision p)
     \<and> l_cur (g_lock t) = None
     \<and> (restores x \<longrightarrow> g_wireless t = g_copy_w s \<and> g_network t = g_copy_n s)"

definition kept :: "site \<Rightarrow> env \<Rightarrow> gpending \<Rightarrow> gsys \<Rightarrow> gsys \<Rightarrow> bool" where
  "kept D x p s t \<longleftrightarrow> gs_pending (g_st t) = None \<and> gs_applied (g_st t) = gp_revision p
     \<and> gs_ledger (g_st t) = gp_ledger p \<and> l_cur (g_lock t) = None
     \<and> g_wireless t = g_wireless s \<and> g_network t = g_network s
     \<and> check_psk_files (si_digest D) (x_fs x) (gp_keys p) = None"

lemma release_frees: "hold_active h l \<Longrightarrow> l_cur (hold_release h l) = None"
  by (simp add: hold_release_def)

lemma window_rolls_back:
  assumes "ginv s" and p: "gs_pending (g_st s) = Some p"
  shows "rolled_back x p s (rollback_locked x r s)"
proof -
  have h: "hold_active (g_hold s) (g_lock s)" "g_copy_w s \<noteq> None" "g_copy_n s \<noteq> None"
    using assms by (simp_all add: ginv_def ginv_window_def)
  show ?thesis
    using rollback_effect[OF p, where x = x and r = r] release_frees[OF h(1)] h(2,3)
    by (auto simp: rolled_back_def)
qed

lemma window_restart:
  assumes "persists x" and "ginv s" and p: "gs_pending (g_st s) = Some p"
  shows "still_open p s (restart x s) \<or> rolled_back x p s (restart x s)"
proof -
  have saved: "same_saved (case g_disk s of None \<Rightarrow> empty_gstate | Some st \<Rightarrow> st) (g_st s)"
    using assms(2) by (simp add: ginv_def ginv_saved_def)
  then obtain st where st: "g_disk s = Some st" "gs_pending st = Some p"
      "gs_applied st = gs_applied (g_st s)" "gs_ledger st = gs_ledger (g_st s)"
    using p by (cases "g_disk s") (auto simp: same_saved_def empty_gstate_def)
  obtain h lk where acq: "try_acquire groups_holder (apply_id (gp_revision p)) (x_now x) new_lock = (Inr h, lk)"
      "hold_active (Some h) lk"
    using start_acquires by blast
  define s1 where "s1 = (new_engine s)\<lparr>g_lock := lk, g_hold := Some h\<rparr>"
  have eq: "restart x s = (if gp_deadline p - x_now x \<le> 0 then rollback_locked x WindowPassedDown s1
      else arm_locked p s1)"
    using st acq by (simp add: restart_def start_def new_engine_def s1_def Let_def)
  have p1: "gs_pending (g_st s1) = Some p" using st by (simp add: s1_def new_engine_def)
  have copies: "g_copy_w s \<noteq> None" "g_copy_n s \<noteq> None"
    using assms(2) p by (simp_all add: ginv_def ginv_window_def)
  have "rolled_back x p s (rollback_locked x WindowPassedDown s1)"
    using rollback_effect[OF p1, where x = x and r = WindowPassedDown] release_frees[OF acq(2)] copies st
    by (auto simp: rolled_back_def s1_def new_engine_def)
  moreover have "still_open p s (arm_locked p s1)"
    using st p by (simp add: still_open_def arm_locked_def s1_def new_engine_def)
  ultimately show ?thesis using eq by simp
qed



section \<open>The outcome of an apply\<close>

lemma confirm_seconds_range: "30 \<le> confirm_seconds c \<and> confirm_seconds c \<le> 600"
  by (simp add: confirm_seconds_def Let_def min_confirm_def max_confirm_def)

lemma apply_plan_raw:
  "apply_plan D x d s = Inr pa \<Longrightarrow>
   pa_raw_w pa = file_bytes (g_wireless s) \<and> pa_raw_n pa = file_bytes (g_network s)"
  by (auto simp: apply_plan_def read_config_def Let_def split: if_splits option.splits sum.splits)

lemma opened_copies:
  assumes "save_copies x pa (note_trunk r (s\<lparr>g_lock := lk\<rparr>)) = (True, s2)"
  shows "g_copy_w (open_window x p h s2) = Some (pa_raw_w pa)"
    "g_copy_n (open_window x p h s2) = Some (pa_raw_n pa)"
    "g_wireless (open_window x p h s2) = g_wireless s" "g_network (open_window x p h s2) = g_network s"
    "gs_applied (g_st (open_window x p h s2)) = gs_applied (g_st s)"
    "gs_ledger (g_st (open_window x p h s2)) = gs_ledger (g_st s)"
    "g_lock (open_window x p h s2) = lk" "g_hold (open_window x p h s2) = Some h"
    "gs_pending (g_st (open_window x p h s2)) = Some p"
  using save_copies_fields[OF assms] by (simp_all add: open_window_def persist_locked_def)

text \<open>What a rollback out of \<open>Apply\<close> leaves: the confirmed state, a free lock, and the old bytes.\<close>

definition as_before :: "env \<Rightarrow> gsys \<Rightarrow> gsys \<Rightarrow> bool" where
  "as_before x s t \<longleftrightarrow> gs_pending (g_st t) = None
     \<and> gs_applied (g_st t) = gs_applied (g_st s) \<and> gs_ledger (g_st t) = gs_ledger (g_st s)
     \<and> l_cur (g_lock t) = l_cur (g_lock s)
     \<and> (restores x \<longrightarrow> file_bytes (g_wireless t) = file_bytes (g_wireless s)
          \<and> file_bytes (g_network t) = file_bytes (g_network s))"

definition window_opened :: "env \<Rightarrow> desired \<Rightarrow> planned_apply \<Rightarrow> gsys \<Rightarrow> gsys \<Rightarrow> bool" where
  "window_opened x d pa s t \<longleftrightarrow>
     (\<exists>p. gs_pending (g_st t) = Some p \<and> gp_revision p = d_revision d
        \<and> gp_ledger p = res_ledger (pa_res pa) \<and> gp_keys p = res_binding_keys (pa_res pa)
        \<and> x_now x + 30 * 1000000000 \<le> gp_deadline p \<and> gp_deadline p \<le> x_now x + 600 * 1000000000)
     \<and> g_copy_w t = Some (file_bytes (g_wireless s)) \<and> g_copy_n t = Some (file_bytes (g_network s))
     \<and> g_wireless t = (if pa_wch pa then Some (pa_new_w pa) else g_wireless s)
     \<and> g_network t = (if pa_nch pa then Some (pa_new_n pa) else g_network s)
     \<and> gs_applied (g_st t) = gs_applied (g_st s) \<and> gs_ledger (g_st t) = gs_ledger (g_st s)"

lemma rolled_out:
  assumes p: "gs_pending (g_st u) = Some p"
    and "gs_applied (g_st u) = gs_applied (g_st s)" "gs_ledger (g_st u) = gs_ledger (g_st s)"
    and "l_cur (g_lock s) = None" "hold_active (g_hold u) (g_lock u)"
    and "g_copy_w u = Some (file_bytes (g_wireless s))" "g_copy_n u = Some (file_bytes (g_network s))"
  shows "as_before x s (rollback_locked x r u)"
  using rollback_effect[OF p, where x = x and r = r] release_frees[OF assms(5)] assms(2-4,6,7)
  by (auto simp: as_before_def file_bytes_def)

lemma reload_fields [simp]:
  "g_st (reload b s) = g_st s" "g_hold (reload b s) = g_hold s" "g_lock (reload b s) = g_lock s"
  "g_copy_w (reload b s) = g_copy_w s" "g_copy_n (reload b s) = g_copy_n s"
  "g_wireless (reload b s) = g_wireless s" "g_network (reload b s) = g_network s"
  by (simp_all add: reload_def)

lemma apply_files_outcome:
  assumes p: "gs_pending (g_st u) = Some p"
    and same: "gs_applied (g_st u) = gs_applied (g_st s)" "gs_ledger (g_st u) = gs_ledger (g_st s)"
    and lock: "l_cur (g_lock s) = None" "hold_active (g_hold u) (g_lock u)"
    and copies: "g_copy_w u = Some (file_bytes (g_wireless s))" "g_copy_n u = Some (file_bytes (g_network s))"
    and out: "apply_files x pa p u = (r, t)"
  shows "case r of Inl e \<Rightarrow> as_before x s t
    | Inr res \<Rightarrow> res = gp_result p \<and> gs_pending (g_st t) = Some p \<and> g_copy_w t = g_copy_w u
        \<and> g_copy_n t = g_copy_n u \<and> g_st t = g_st u
        \<and> g_wireless t = (if pa_wch pa then Some (pa_new_w pa) else g_wireless u)
        \<and> g_network t = (if pa_nch pa then Some (pa_new_n pa) else g_network u)"
proof -
  have rb: "as_before x s (rollback_locked x why v)"
    if "g_st v = g_st u" "g_hold v = g_hold u" "g_lock v = g_lock u" "g_copy_w v = g_copy_w u"
      "g_copy_n v = g_copy_n u" for v why
    by (rule rolled_out[of v p]) (use that p same lock copies in simp_all)
  from out show ?thesis
    using p by (auto simp: apply_files_def Let_def arm_locked_def intro!: rb split: if_splits)
qed

text \<open>An apply whose plan is made and whose copies are saved ends as before it, or with the window open.\<close>

lemma apply_files_atomic:
  assumes acq: "try_acquire groups_holder (apply_id (d_revision d)) (x_now x) (g_lock s) = (Inr h, lk)"
    and pa: "apply_plan D x d (s\<lparr>g_lock := lk\<rparr>) = Inr pa" and ch: "pa_wch pa \<or> pa_nch pa"
    and sv: "save_copies x pa (note_trunk (pa_res pa) (s\<lparr>g_lock := lk\<rparr>)) = (True, s2)"
    and none: "gs_pending (g_st s) = None"
    and out: "apply_files x pa (new_pending x d pa) (open_window x (new_pending x d pa) h s2) = (r, t)"
  shows "case r of Inl e \<Rightarrow> as_before x s t
    | Inr res \<Rightarrow> ar_revision res = d_revision d \<and> ar_state res = ''pending_confirm'' \<and> window_opened x d pa s t"
proof -
  let ?p = "new_pending x d pa"
  note oc = opened_copies[OF sv, where p = ?p and h = h]
  note raw = apply_plan_raw[OF pa]
  have lock: "l_cur (g_lock s) = None" "hold_active (Some h) lk"
    using try_acquire_Inr[OF acq] apl.acquired[OF acq] by simp_all
  have dl: "x_now x + 30 * 1000000000 \<le> gp_deadline ?p" "gp_deadline ?p \<le> x_now x + 600 * 1000000000"
    using confirm_seconds_range[of "d_confirm_seconds d"] by (auto simp: new_pending_def Let_def)
  have pf: "gp_revision ?p = d_revision d" "gp_ledger ?p = res_ledger (pa_res pa)"
      "gp_keys ?p = res_binding_keys (pa_res pa)" "ar_revision (gp_result ?p) = d_revision d"
      "ar_state (gp_result ?p) = ''pending_confirm''"
    by (simp_all add: new_pending_def Let_def result_of_def)
  have res: "case r of Inl e \<Rightarrow> as_before x s t
    | Inr res \<Rightarrow> res = gp_result ?p \<and> gs_pending (g_st t) = Some ?p
        \<and> g_copy_w t = g_copy_w (open_window x ?p h s2) \<and> g_copy_n t = g_copy_n (open_window x ?p h s2)
        \<and> g_st t = g_st (open_window x ?p h s2)
        \<and> g_wireless t = (if pa_wch pa then Some (pa_new_w pa) else g_wireless (open_window x ?p h s2))
        \<and> g_network t = (if pa_nch pa then Some (pa_new_n pa) else g_network (open_window x ?p h s2))"
    by (rule apply_files_outcome[OF _ _ _ lock(1) _ _ _ out]) (use oc raw lock none in simp_all)
  show ?thesis
  proof (cases r)
    case (Inr a)
    with res oc raw dl pf none have "window_opened x d pa s t" by (auto simp: window_opened_def)
    with Inr res pf show ?thesis by auto
  qed (use res in simp)
qed

text \<open>C1: an apply is atomic. With nothing pending, an apply that fails for any reason (a refusal, a
  failed write or a failed reload, each after any number of steps) leaves the confirmed
  revision and ledger, the write lock, and (if what was written can be restored) the bytes of both
  files as they were; one that succeeds has either changed no file and recorded the revision, or
  opened a window of 30 to 600 seconds with copies of the old bytes, the new files in place and
  the confirmed revision and ledger unchanged.\<close>

theorem apply_atomic:
  assumes "gs_pending (g_st s) = None" and "apply_desired D x d s = (r, t)"
  shows "case r of
      Inl e \<Rightarrow> as_before x s t
    | Inr res \<Rightarrow> ar_revision res = d_revision d
        \<and> (ar_state res = ''noop'' \<and> gs_pending (g_st t) = None \<and> gs_applied (g_st t) = d_revision d
             \<and> g_wireless t = g_wireless s \<and> g_network t = g_network s \<and> l_cur (g_lock t) = None
           \<or> ar_state res = ''pending_confirm''
             \<and> (\<exists>pa lk. apply_plan D x d (s\<lparr>g_lock := lk\<rparr>) = Inr pa \<and> window_opened x d pa s t))"
  using assms(1)
proof (cases rule: apply_cases[where d = d and D = D and x = x])
  case (invalid r')
  with assms show ?thesis by (auto simp: as_before_def)
next
  case (locked e)
  with assms show ?thesis by (auto simp: as_before_def)
next
  case (unplanned e h lk)
  have "l_cur (g_lock s) = None" "l_cur (hold_release (Some h) lk) = None"
    using try_acquire_Inr[OF unplanned(1)] release_frees[OF apl.acquired[OF unplanned(1)]] by simp_all
  with unplanned assms show ?thesis by (auto simp: as_before_def)
next
  case (noop h lk pa)
  have "l_cur (hold_release (Some h) lk) = None"
    by (rule release_frees[OF apl.acquired[OF noop(1)]])
  with noop assms show ?thesis by (auto simp: Let_def persist_locked_def result_of_def)
next
  case (uncopied h lk pa s2)
  have "l_cur (g_lock s) = None" "l_cur (hold_release (Some h) lk) = None"
    using try_acquire_Inr[OF uncopied(1)] release_frees[OF apl.acquired[OF uncopied(1)]] by simp_all
  with uncopied(3) save_copies_fields[OF uncopied(2)] assms show ?thesis by (auto simp: as_before_def)
next
  case (files h lk pa s2)
  from files(6) assms(2) have "apply_files x pa (new_pending x d pa) (open_window x (new_pending x d pa) h s2) = (r, t)"
    by simp
  from apply_files_atomic[OF files(2-5) assms(1) this] files(3) show ?thesis
    by (auto split: sum.splits)
qed


section \<open>What the engine reports\<close>

record state_view =
  sv_applied :: int
  sv_pending :: "(int \<times> int) option"
  sv_last :: "grollback option"
  sv_trunk :: string

definition state_of :: "site \<Rightarrow> env \<Rightarrow> gsys \<Rightarrow> state_view" where
  "state_of D x s =
     \<lparr>sv_applied = gs_applied (g_st s),
      sv_pending = map_option (\<lambda>p. (gp_revision p, gp_deadline p)) (gs_pending (g_st s)),
      sv_last = gs_last (g_st s),
      sv_trunk = (if gs_trunk (g_st s) = []
         then (case detect_trunk (si_width D) (x_fs x) of Inl _ \<Rightarrow> [] | Inr p \<Rightarrow> p)
         else gs_trunk (g_st s))\<rparr>"

record owned_view =
  ov_sections :: "string list"
  ov_dynamic :: "string list"
  ov_converted :: string
  ov_pending :: bool

definition engine_ledgers :: "gstate \<Rightarrow> ledger list" where
  "engine_ledgers st = gs_ledger st # (case gs_pending st of None \<Rightarrow> [] | Some p \<Rightarrow> [gp_ledger p])"

definition config_or_empty :: "site \<Rightarrow> bool \<Rightarrow> string option \<Rightarrow> string \<Rightarrow> uconfig" where
  "config_or_empty D ok f name =
     (case read_config D ok f name of None \<Rightarrow> \<lparr>cfg_name = name, cfg_sections = []\<rparr> | Some (_, c) \<Rightarrow> c)"

definition owned :: "site \<Rightarrow> env \<Rightarrow> gsys \<Rightarrow> owned_view" where
  "owned D x s =
     (let ls = engine_ledgers (g_st s);
          w = config_or_empty D (x_ok x ReadWireless) (g_wireless s) ''wireless'';
          n = config_or_empty D (x_ok x ReadNetwork) (g_network s) ''network''
      in \<lparr>ov_sections = sort_strings (remdups (concat (map (\<lambda>l. owned_set l w n) ls))),
          ov_dynamic = sort_strings (remdups (concat (map (\<lambda>l. map fst (l_dynamic l)) ls))),
          ov_converted = fold (\<lambda>l c. case l_converted l of None \<Rightarrow> c | Some v \<Rightarrow> cv_bridge v) ls [],
          ov_pending = (gs_pending (g_st s) \<noteq> None)\<rparr>)"

section \<open>A concrete run\<close>

definition sample_site :: site where
  "sample_site = \<lparr>si_kit = plain_kit, si_digest = (\<lambda>k. k),
     si_parse = (\<lambda>name b. Some (if name = ''wireless'' then sample_wireless else sample_network)),
     si_render = (\<lambda>c. join '' '' (map s_name (cfg_sections c))), si_width = 32\<rparr>"

definition sample_env :: env where
  "sample_env = \<lparr>x_ok = (\<lambda>_. True), x_now = 7, x_staged = (\<lambda>_. False), x_sessions = [],
     x_snapshot = None, x_fs = \<lparr>fs_read = (\<lambda>_. None), fs_list = (\<lambda>_. None)\<rparr>\<rparr>"

definition sample_start :: gsys where
  "sample_start = \<lparr>g_st = empty_gstate, g_timer = None, g_hold = None, g_lock = new_lock,
     g_wireless = Some ''w'', g_network = Some ''n'', g_copy_w = None, g_copy_n = None,
     g_disk = None, g_wrote = [], g_reloads = []\<rparr>"

definition sample_opened :: gsys where
  "sample_opened = snd (apply_desired sample_site sample_env sample_desired sample_start)"

lemma sample_reach: "greach sample_site sample_start" "greach sample_site sample_opened"
proof -
  show r: "greach sample_site sample_start"
    by (rule begins) (simp add: init_gsys_def sample_start_def)
  have "gstep sample_site sample_env sample_start sample_opened"
    unfolding sample_opened_def by (rule do_apply) (simp add: persists_def sample_env_def)
  with r show "greach sample_site sample_opened" by (rule steps)
qed

lemma sample_pending: "gs_pending (g_st sample_opened) \<noteq> None"
  by code_simp

theorem window_holds_lock_witness:
  "\<exists>h. g_hold sample_opened = Some h \<and> l_cur (g_lock sample_opened) = Some h"
  using window_holds_lock[OF sample_reach(2)] sample_pending by (auto split: option.splits)


theorem apply_atomic_witness:
  "\<exists>r t. apply_desired sample_site sample_env sample_desired sample_start = (Inr r, t)
     \<and> ar_revision r = 1"
proof -
  have "\<not> isl (fst (apply_desired sample_site sample_env sample_desired sample_start))"
    by code_simp
  then obtain r t where a: "apply_desired sample_site sample_env sample_desired sample_start = (Inr r, t)"
    by (metis isl_def prod.collapse sum.collapse(2))
  have "gs_pending (g_st sample_start) = None" by (simp add: sample_start_def empty_gstate_def)
  from apply_atomic[OF this a] a show ?thesis by (simp add: sample_desired_def)
qed

end
