(* ===== verification/Screen.thy ===== *)
theory Screen
  imports GroupsPlanProps Applylock Health "HOL-Library.Multiset"
begin

text \<open>
  What the Wi-Fi plane does before and around the kit's plane (\<open>openwrt/plane\<close>, third party):
  \<open>screen.go\<close> (whose sections are whose, the screen of an apply, the validator of its result),
  \<open>guard.go\<close> (the boot guard) and the parts of \<open>wifiplane.go\<close> that decide: \<open>New\<close>'s access and
  configurations, \<open>Serve\<close>'s dispatch, the hello's groups state, the plane's use of the write lock,
  and the reload a commit needs. Requests are decoded JSON: the decoding is a parameter.
\<close>

section \<open>Ownership\<close>

definition plane_config :: "string \<Rightarrow> bool" where
  "plane_config c \<longleftrightarrow> c = ''wireless'' \<or> c = ''network''"

text \<open>\<open>owner\<close>: the mark of a section in reads; \<open>held\<close> are the groups engine's sections.\<close>

definition owner :: "string list \<Rightarrow> string \<Rightarrow> string \<Rightarrow> string" where
  "owner held config section =
     (if \<not> plane_config config then []
      else if section \<in> set held \<or> owned_name section then ''groups'' else [])"

definition groups_name :: "string list \<Rightarrow> string \<Rightarrow> bool" where
  "groups_name held name \<longleftrightarrow> name \<noteq> [] \<and> (name \<in> set held \<or> owned_name name)"

section \<open>The screen\<close>

datatype access = AccessNone | AccessRead | AccessWrite

record screen_op =
  op_kind :: string
  op_config :: string
  op_section :: string
  op_rename :: string
  op_sections :: "string list"

record apply_screen =
  as_dry_run :: bool
  as_ops :: "screen_op list"
  as_ledger :: "(string \<times> string) list"
  as_guards :: "string list option"

record envelope =
  ev_payload :: "string option"
  ev_sig :: string

datatype plane_error = BadParams | NotOwned "string list" | InvalidConfig | GuardMissingError

text \<open>What an operation names: its section, its new name, the sections it orders.\<close>

definition touched :: "screen_op \<Rightarrow> (string \<times> string) list" where
  "touched p = (op_config p, op_section p) # (op_config p, op_rename p)
     # map (Pair (op_config p)) (op_sections p)"

definition hits :: "string list \<Rightarrow> apply_screen \<Rightarrow> string list" where
  "hits held a =
     map (\<lambda>(c, n). c @ ''.'' @ n)
       (filter (\<lambda>(c, n). plane_config c \<and> groups_name held n) (concat (map touched (as_ops a)) @ as_ledger a))"

text \<open>\<open>screenApply\<close>; \<open>env\<close> and \<open>dec\<close> decode JSON, \<open>guard\<close>: whether the boot guard is missing.\<close>

definition screened_params :: "(string \<Rightarrow> envelope option) \<Rightarrow> string \<Rightarrow> string" where
  "screened_params env raw =
     (case env raw of
        None \<Rightarrow> raw
      | Some e \<Rightarrow> (case ev_payload e of
          None \<Rightarrow> raw
        | Some p \<Rightarrow> if ev_sig e \<noteq> [] then p else raw))"

definition screen_apply ::
  "(string \<Rightarrow> envelope option) \<Rightarrow> (string \<Rightarrow> apply_screen option) \<Rightarrow> access \<Rightarrow> string list \<Rightarrow> bool \<Rightarrow> bool \<Rightarrow>
   string \<Rightarrow> plane_error option" where
  "screen_apply env dec access held openwrt guard_missing raw =
     (if access \<noteq> AccessWrite then None
      else case dec (screened_params env raw) of
        None \<Rightarrow> None
      | Some a \<Rightarrow>
          if as_guards a \<noteq> None \<and> the (as_guards a) \<noteq> [] then Some BadParams
          else if hits held a \<noteq> [] then Some (NotOwned (sort_strings (hits held a)))
          else if \<not> as_dry_run a \<and> openwrt \<and> guard_missing then Some GuardMissingError
          else None)"

section \<open>The validator\<close>

text \<open>\<open>fmt.Sprint\<close> of a list of strings.\<close>

definition sprint_list :: "string list \<Rightarrow> string" where
  "sprint_list xs = ''['' @ join '' '' xs @ '']''"

definition names_typed :: "kit \<Rightarrow> uconfig \<Rightarrow> string \<Rightarrow> string list" where
  "names_typed K c t = map s_name (sections_typed K (Some c) t)"

definition check_wireless :: "kit \<Rightarrow> uconfig \<Rightarrow> uconfig \<Rightarrow> plane_error option" where
  "check_wireless K before after =
     (let b = sort_strings (names_typed K before ''wifi-device'');
          a = sort_strings (names_typed K after ''wifi-device'')
      in if sprint_list b \<noteq> sprint_list a then Some InvalidConfig
         else
           (let still = names_typed K after ''wifi-iface'';
                was = filter (\<lambda>n. n \<in> set still) (names_typed K before ''wifi-iface'');
                now = filter (\<lambda>n. n \<in> set was) (names_typed K after ''wifi-iface'')
            in if sprint_list was \<noteq> sprint_list now then Some InvalidConfig else None))"

section \<open>Dispatch\<close>

text \<open>The kit's method names (\<open>plane.Methods\<close>).\<close>

record plane_methods =
  pm_read :: string
  pm_apply :: string
  pm_confirm :: string
  pm_rollback :: string
  pm_ack :: string

definition method_capabilities :: string where "method_capabilities = ''wifi.capabilities''"
definition method_health :: string where "method_health = ''wifi.health''"

datatype serve_error = Off | ReadParams | MethodNotFound string | Screened plane_error

datatype served =
    Refuse serve_error
  | ServeCapabilities
  | ServeHealth
  | KitRead "string list"
  | KitWrite string string

definition methods_served :: "plane_methods \<Rightarrow> string list" where
  "methods_served m = [method_capabilities, method_health, pm_read m, pm_apply m, pm_confirm m, pm_rollback m, pm_ack m]"

text \<open>\<open>Serve\<close>: what answers a request; \<open>params\<close> decodes the read's (\<open>None\<close>: it cannot).\<close>

definition serve ::
  "plane_methods \<Rightarrow> (string \<Rightarrow> string list option) \<Rightarrow> (string \<Rightarrow> plane_error option) \<Rightarrow> access \<Rightarrow>
   string \<Rightarrow> string \<Rightarrow> served" where
  "serve m params screen access meth raw =
     (if access = AccessNone then Refuse Off
      else if meth = method_capabilities then ServeCapabilities
      else if meth = method_health then ServeHealth
      else if meth = pm_read m then
        (if raw \<noteq> [] \<and> raw \<noteq> ''null'' then
           (case params raw of None \<Rightarrow> Refuse ReadParams | Some cs \<Rightarrow> KitRead cs)
         else KitRead [])
      else if meth = pm_apply m then
        (case screen raw of Some e \<Rightarrow> Refuse (Screened e) | None \<Rightarrow> KitWrite meth raw)
      else if meth \<in> {pm_confirm m, pm_rollback m, pm_ack m} then KitWrite meth raw
      else Refuse (MethodNotFound meth))"

text \<open>\<open>New\<close>: the access and the configurations the kit's plane gets.\<close>

definition effective_access :: "bool \<Rightarrow> access \<Rightarrow> access" where
  "effective_access openwrt a = (if openwrt then a else AccessNone)"

definition kept_configs :: "string list \<Rightarrow> string list" where
  "kept_configs cs = filter plane_config cs"

record groups_hello =
  gh_engine :: bool
  gh_enabled :: bool
  gh_state :: string

text \<open>\<open>pending\<close>: the engine's \<open>Owned().Pending\<close>; \<open>None\<close>: there is no engine.\<close>

definition groups_hello_of :: "bool option \<Rightarrow> bool \<Rightarrow> groups_hello" where
  "groups_hello_of pending on =
     \<lparr>gh_engine = True, gh_enabled = (pending \<noteq> None \<and> on),
      gh_state = (if pending = Some True then ''pending_confirm'' else ''idle'')\<rparr>"

fun reload_kind_from :: "string \<Rightarrow> string list \<Rightarrow> string" where
  "reload_kind_from acc [] = acc"
| "reload_kind_from acc (c # cs) =
     (if c = ''network'' then ''network''
      else reload_kind_from (if c = ''wireless'' then ''wifi'' else acc) cs)"

definition reload_kind :: "string list \<Rightarrow> string" where
  "reload_kind cs = reload_kind_from ''none'' cs"

section \<open>The plane's use of the write lock\<close>

record plane_lock =
  pl_lock :: lock
  pl_hold :: "nat option"

definition plane_acquire :: "string \<Rightarrow> int \<Rightarrow> plane_lock \<Rightarrow> (bool \<times> string) \<times> plane_lock" where
  "plane_acquire ident now pl =
     (case try_acquire plane_holder ident now (pl_lock pl) of
        (Inl e, l) \<Rightarrow> ((False, if error_reason e \<noteq> [] then error_reason e else ''locked''), pl\<lparr>pl_lock := l\<rparr>)
      | (Inr h, l) \<Rightarrow> ((True, []), pl\<lparr>pl_lock := l, pl_hold := Some h\<rparr>))"

definition plane_release :: "plane_lock \<Rightarrow> plane_lock" where
  "plane_release pl = pl\<lparr>pl_lock := hold_release (pl_hold pl) (pl_lock pl), pl_hold := None\<rparr>"

section \<open>The boot guard\<close>

definition self_installed_line :: string where
  "self_installed_line = ''# Installed by the perch-apd daemon: the package on this device did not ship it.''"

fun contains :: "string \<Rightarrow> string \<Rightarrow> bool" where
  "contains sub [] \<longleftrightarrow> sub = []"
| "contains sub (c # s) \<longleftrightarrow> prefix sub (c # s) \<or> contains sub s"

text \<open>The package's script is the parameter \<open>script\<close> (\<open>perch-apd-guard.init\<close>).\<close>

definition line_feed :: char where "line_feed = CHR 10"

definition self_installed_script :: "string \<Rightarrow> string" where
  "self_installed_script script =
     (let i = (case find_index (\<lambda>c. c = line_feed) script of Some i \<Rightarrow> Suc i | None \<Rightarrow> 0)
      in take i script @ self_installed_line @ [line_feed] @ drop i script)"

datatype guard_state = GuardInstalled | GuardSelfInstalled | GuardMissing

text \<open>The files: the script with whether it is executable, and the link; what may fail: reading the
  script, looking the link up, writing, changing the mode, linking.\<close>

record guard_files =
  gf_script :: "(string \<times> bool) option"
  gf_link :: bool

record guard_env =
  gv_read :: bool
  gv_lookup :: bool
  gv_write :: bool
  gv_chmod :: bool
  gv_symlink :: bool

definition guard_status :: "guard_env \<Rightarrow> guard_files \<Rightarrow> guard_state" where
  "guard_status v f =
     (case gf_script f of
        None \<Rightarrow> GuardMissing
      | Some (b, exec) \<Rightarrow>
          if \<not> exec then GuardMissing
          else if \<not> (gv_lookup v \<and> gf_link f) then GuardMissing
          else if \<not> gv_read v then GuardMissing
          else if contains self_installed_line b then GuardSelfInstalled else GuardInstalled)"

text \<open>The script's part of \<open>EnsureGuard\<close>: the files, whether they changed; \<open>None\<close>: an error.\<close>

definition ensure_script :: "string \<Rightarrow> guard_env \<Rightarrow> guard_files \<Rightarrow> (guard_files \<times> bool) option" where
  "ensure_script script v f =
     (let want = self_installed_script script;
          install = (if gv_write v then Some (f\<lparr>gf_script := Some (want, True)\<rparr>, True) else None)
      in case gf_script f of
           None \<Rightarrow> install
         | Some (b, exec) \<Rightarrow>
             if \<not> gv_read v then None
             else if contains self_installed_line b \<and> b \<noteq> want then install
             else if \<not> exec then
               (if gv_chmod v then Some (f\<lparr>gf_script := Some (b, True)\<rparr>, True) else None)
             else Some (f, False))"

text \<open>\<open>EnsureGuard\<close>: the files afterwards, the status, whether anything changed, whether it failed.\<close>

definition ensure_guard ::
  "string \<Rightarrow> guard_env \<Rightarrow> guard_files \<Rightarrow> guard_files \<times> guard_state \<times> bool \<times> bool" where
  "ensure_guard script v f =
     (case ensure_script script v f of
        None \<Rightarrow> (f, GuardMissing, False, True)
      | Some (f1, changed) \<Rightarrow>
          if gv_lookup v \<and> \<not> gf_link f1 then
            (if gv_symlink v
             then (let f2 = f1\<lparr>gf_link := True\<rparr> in (f2, guard_status v f2, True, False))
             else (f1, GuardMissing, changed, True))
          else (f1, guard_status v f1, changed, False))"

section \<open>What reaches the kit\<close>

lemma hits_none:
  "hits held a = [] \<longleftrightarrow>
     (\<forall>(c, n) \<in> set (concat (map touched (as_ops a)) @ as_ledger a).
        plane_config c \<and> n \<noteq> [] \<longrightarrow> n \<notin> set held \<and> \<not> owned_name n)"
  by (auto simp: hits_def filter_empty_conv groups_name_def)

lemma screen_passes:
  assumes "screen_apply env dec AccessWrite held openwrt missing raw = None"
    and "dec (screened_params env raw) = Some a"
  shows "hits held a = []" "openwrt \<Longrightarrow> missing \<Longrightarrow> as_dry_run a"
    "as_guards a = None \<or> as_guards a = Some []"
  using assms by (cases "as_guards a"; auto simp: screen_apply_def split: if_splits)+


definition sample_methods :: plane_methods where
  "sample_methods = \<lparr>pm_read = ''wifi.config.read'', pm_apply = ''wifi.config.apply'',
     pm_confirm = ''wifi.config.confirm'', pm_rollback = ''wifi.config.rollback'', pm_ack = ''wifi.config.ack''\<rparr>"

definition sample_screen :: apply_screen where
  "sample_screen = \<lparr>as_dry_run = False,
     as_ops = [\<lparr>op_kind = ''set'', op_config = ''wireless'', op_section = ''perch_n1_radio0'', op_rename = [],
                op_sections = []\<rparr>],
     as_ledger = [], as_guards = None\<rparr>"


section \<open>The result of an apply\<close>

lemma sprint_list_inject:
  assumes "\<forall>x \<in> set xs \<union> set ys. CHR '' '' \<notin> set x \<and> x \<noteq> []"
  shows "sprint_list xs = sprint_list ys \<longleftrightarrow> xs = ys"
proof
  assume "sprint_list xs = sprint_list ys"
  then have j: "join '' '' xs = join '' '' ys" by (simp add: sprint_list_def)
  have e: "join '' '' zs = [] \<longleftrightarrow> zs = []" if "\<forall>z \<in> set zs. z \<noteq> []" for zs :: "string list"
    using that by (cases "('' '', zs)" rule: join.cases) auto
  show "xs = ys"
  proof (cases "xs = [] \<or> ys = []")
    case True
    then show ?thesis using j e[of xs] e[of ys] assms by auto
  next
    case False
    then have "split_at (CHR '' '') (join '' '' xs) = xs" "split_at (CHR '' '') (join '' '' ys) = ys"
      using assms by (auto intro!: split_at_join)
    with j show ?thesis by metis
  qed
qed simp

lemma sort_strings_eq: "sort_strings xs = sort_strings ys \<longleftrightarrow> mset xs = mset ys"
  unfolding sort_strings_def by (metis mset_sort properties_for_sort sorted_sort)

text \<open>Section names: UCI has no blanks in them.\<close>

definition section_names_ok :: "kit \<Rightarrow> uconfig \<Rightarrow> bool" where
  "section_names_ok K c \<longleftrightarrow> list_all (\<lambda>n. n \<noteq> [] \<and> CHR '' '' \<notin> set n)
     (names_typed K c ''wifi-device'' @ names_typed K c ''wifi-iface'')"

text \<open>The validator of an apply's result accepts exactly the results that keep the radios and the
  order of the interfaces: the same radio sections (in any order), and the interfaces that are there
  before and after in the same sequence, so that no existing BSSID moves.\<close>

theorem check_wireless_exact:
  assumes "section_names_ok K before" "section_names_ok K after"
  shows "check_wireless K before after = None \<longleftrightarrow>
     mset (names_typed K before ''wifi-device'') = mset (names_typed K after ''wifi-device'')
   \<and> filter (\<lambda>n. n \<in> set (names_typed K after ''wifi-iface'')) (names_typed K before ''wifi-iface'') =
     filter (\<lambda>n. n \<in> set (names_typed K before ''wifi-iface'')) (names_typed K after ''wifi-iface'')"
proof -
  let ?b = "names_typed K before ''wifi-iface''" and ?a = "names_typed K after ''wifi-iface''"
  have ok: "\<forall>x \<in> set (names_typed K before t) \<union> set (names_typed K after t). CHR '' '' \<notin> set x \<and> x \<noteq> []"
    if "t \<in> {''wifi-device'', ''wifi-iface''}" for t
    using assms that by (auto simp: section_names_ok_def list_all_iff)
  have now: "filter (\<lambda>n. n \<in> set (filter (\<lambda>n. n \<in> set ?a) ?b)) ?a = filter (\<lambda>n. n \<in> set ?b) ?a"
    by (rule filter_cong) auto
  have d: "sprint_list (sort_strings (names_typed K before ''wifi-device'')) =
      sprint_list (sort_strings (names_typed K after ''wifi-device'')) \<longleftrightarrow>
      mset (names_typed K before ''wifi-device'') = mset (names_typed K after ''wifi-device'')"
    unfolding sort_strings_eq[symmetric] by (rule sprint_list_inject) (use ok in auto)
  have i: "sprint_list (filter (\<lambda>n. n \<in> set ?a) ?b) = sprint_list (filter (\<lambda>n. n \<in> set ?b) ?a) \<longleftrightarrow>
      filter (\<lambda>n. n \<in> set ?a) ?b = filter (\<lambda>n. n \<in> set ?b) ?a"
    by (rule sprint_list_inject) (use ok in auto)
  show ?thesis unfolding check_wireless_def Let_def now d i[symmetric] by simp
qed

definition wifi_config :: "(string \<times> string) list \<Rightarrow> uconfig" where
  "wifi_config ss = \<lparr>cfg_name = ''wireless'',
     cfg_sections = map (\<lambda>(t, n). \<lparr>s_name = n, s_type = t, s_anonymous = False, s_options = []\<rparr>) ss\<rparr>"

definition config_before :: uconfig where
  "config_before = wifi_config [(''wifi-device'', ''radio0''), (''wifi-iface'', ''lan''), (''wifi-iface'', ''guest'')]"

definition config_after :: uconfig where
  "config_after = wifi_config [(''wifi-device'', ''radio0''), (''wifi-iface'', ''guest''), (''wifi-iface'', ''lan'')]"

lemma screen_names:
  "names_typed plain_kit config_before ''wifi-device'' = [''radio0'']"
  "names_typed plain_kit config_before ''wifi-iface'' = [''lan'', ''guest'']"
  "names_typed plain_kit config_after ''wifi-device'' = [''radio0'']"
  "names_typed plain_kit config_after ''wifi-iface'' = [''guest'', ''lan'']"
  by code_simp+

text \<open>Two interfaces that swap places are refused.\<close>

theorem check_wireless_exact_witness: "check_wireless plain_kit config_before config_after \<noteq> None"
proof -
  have "section_names_ok plain_kit config_before" "section_names_ok plain_kit config_after"
    by (simp_all add: section_names_ok_def screen_names)
  from check_wireless_exact[OF this] show ?thesis unfolding screen_names by simp
qed

section \<open>The boot guard is there\<close>

lemma contains_append: "contains sub s \<Longrightarrow> contains sub (pre @ s)"
  by (induction pre) auto

lemma contains_prefix: "contains sub (sub @ s)"
proof -
  have "contains sub t" if "prefix sub t" for t using that by (cases t) auto
  then show ?thesis by simp
qed

lemma self_installed: "contains self_installed_line (self_installed_script script)"
  unfolding self_installed_script_def Let_def by (intro contains_append contains_prefix)

lemma ensure_script_facts:
  assumes "ensure_script script v f = Some (f1, changed)" "gv_read v"
  shows "\<exists>b. gf_script f1 = Some (b, True)"
    "gf_script f = Some (b0, x) \<Longrightarrow> \<not> contains self_installed_line b0 \<Longrightarrow> gf_script f1 = Some (b0, True)"
    "ensure_script script v f1 = Some (f1, False)"
    "gf_link f1 = gf_link f"
  using assms self_installed[of script]
  by (auto simp: ensure_script_def Let_def ex_bool_eq split: option.splits if_splits)

text \<open>The boot guard. When \<open>EnsureGuard\<close> reports no error on a file system that answers, the guard
  is in place afterwards, executable and linked (so no apply is refused for it); a script the package
  shipped keeps its text; and running it again changes nothing.\<close>

theorem guard_ensured:
  assumes "ensure_guard script v f = (f', st, changed, False)" "gv_read v" "gv_lookup v"
  shows "st = guard_status v f' \<and> st \<noteq> GuardMissing
    \<and> (\<forall>b x. gf_script f = Some (b, x) \<and> \<not> contains self_installed_line b \<longrightarrow>
        gf_script f' = Some (b, True) \<and> st = GuardInstalled)
    \<and> ensure_guard script v f' = (f', st, False, False)"
proof -
  obtain f1 c where s: "ensure_script script v f = Some (f1, c)"
    using assms(1) by (auto simp: ensure_guard_def split: option.splits)
  obtain b where b: "gf_script f1 = Some (b, True)" "ensure_script script v f1 = Some (f1, False)"
      "\<forall>b0 x. gf_script f = Some (b0, x) \<and> \<not> contains self_installed_line b0 \<longrightarrow> b = b0"
    using ensure_script_facts[OF s assms(2)] by fastforce
  have f': "f' = f1\<lparr>gf_link := True\<rparr>" and st: "st = guard_status v f'"
    using assms(1,3) s by (auto simp: ensure_guard_def Let_def split: if_splits)
  have status: "st = (if contains self_installed_line b then GuardSelfInstalled else GuardInstalled)"
    unfolding st using assms(2,3) b(1) by (simp add: guard_status_def f')
  have "ensure_script script v f' = Some (f', False)"
    using b(1,2) by (auto simp: f' ensure_script_def Let_def split: if_splits)
  then have "ensure_guard script v f' = (f', st, False, False)"
    by (simp add: ensure_guard_def st f')
  then show ?thesis using st status b(1,3) f' by (auto split: if_splits)
qed

theorem guard_ensured_witness:
  "let v = \<lparr>gv_read = True, gv_lookup = True, gv_write = True, gv_chmod = True, gv_symlink = True\<rparr>;
       f = \<lparr>gf_script = None, gf_link = False\<rparr>
   in fst (snd (ensure_guard ''#!/bin/sh'' v f)) \<noteq> GuardMissing"
proof -
  let ?v = "\<lparr>gv_read = True, gv_lookup = True, gv_write = True, gv_chmod = True, gv_symlink = True\<rparr>"
  let ?f = "\<lparr>gf_script = None, gf_link = False\<rparr>"
  have "\<exists>f' st changed. ensure_guard ''#!/bin/sh'' ?v ?f = (f', st, changed, False)"
    by (simp add: ensure_guard_def ensure_script_def Let_def ex_bool_eq)
  then obtain f' st changed where e: "ensure_guard ''#!/bin/sh'' ?v ?f = (f', st, changed, False)" by blast
  from guard_ensured[OF this] have "st \<noteq> GuardMissing" by (metis guard_env.select_convs(1,2))
  then show ?thesis by (simp add: e)
qed

end
