(* ===== verification/Updates.thy ===== *)
theory Updates
  imports Applylock
begin

text \<open>
  Agent updates, \<open>internal/update/update.go\<close>: what perch-apd puts around the kit's updater (perch-agentkit,
  third party), the write lock from an install until its plan is over. The plan on disk, as the kit
  reads it, is \<open>None\<close> (none, or unreadable) or its id with whether its phase is terminal. Each critical
  section is one step; the updater's hold is the \<open>hold\<close> field, its lock the shared one.
\<close>

section \<open>The updater\<close>

record updater =
  up_lock :: lock
  up_hold :: "nat option"

record plan_file =
  pf_id :: string
  pf_terminal :: bool

definition over :: "plan_file option \<Rightarrow> bool" where
  "over p \<longleftrightarrow> (case p of None \<Rightarrow> True | Some f \<Rightarrow> pf_terminal f)"

text \<open>\<open>busy\<close>: why an update must wait now.\<close>

definition update_busy :: "lock \<Rightarrow> string" where
  "update_busy l =
     (case current l of
        None \<Rightarrow> []
      | Some i \<Rightarrow> if li_holder i = update_holder then [] else holder_reason (li_holder i))"

datatype busy_code = CodeBusy | CodeBusyPendingApply

datatype install_outcome = Installing | LockBusy busy_code string | InstallFailed

definition busy_error :: "acquire_error \<Rightarrow> install_outcome" where
  "busy_error e =
     LockBusy (case e of
         BusyError i \<Rightarrow> if li_holder i = update_holder then CodeBusy else CodeBusyPendingApply
       | EmptyHolder \<Rightarrow> CodeBusyPendingApply)
       (error_reason e)"

definition keep :: "nat \<Rightarrow> updater \<Rightarrow> updater" where
  "keep h u = u\<lparr>up_hold := Some h\<rparr>"

text \<open>\<open>Install\<close>; \<open>ok\<close>: the kit's install succeeded.\<close>

definition install :: "string \<Rightarrow> int \<Rightarrow> bool \<Rightarrow> updater \<Rightarrow> install_outcome \<times> updater" where
  "install ident now ok u =
     (case try_acquire update_holder ident now (up_lock u) of
        (Inl e, _) \<Rightarrow> (busy_error e, u)
      | (Inr h, l) \<Rightarrow>
          if ok then (Installing, keep h (u\<lparr>up_lock := l\<rparr>))
          else (InstallFailed, u\<lparr>up_lock := hold_release (Some h) l\<rparr>))"

text \<open>\<open>Startup\<close>: the lock again while a plan is in progress.\<close>

definition startup :: "plan_file option \<Rightarrow> int \<Rightarrow> updater \<Rightarrow> updater" where
  "startup plan now u =
     (case plan of
        None \<Rightarrow> u
      | Some f \<Rightarrow>
          if pf_terminal f then u
          else (case try_acquire update_holder (pf_id f) now (up_lock u) of
                  (Inl _, _) \<Rightarrow> u
                | (Inr h, l) \<Rightarrow> keep h (u\<lparr>up_lock := l\<rparr>)))"

text \<open>One look of \<open>releaseWhenDone\<close> for \<open>hold\<close>, and whether the watcher goes on.\<close>

definition release_when_done :: "nat option \<Rightarrow> plan_file option \<Rightarrow> updater \<Rightarrow> bool \<times> updater" where
  "release_when_done hold plan u =
     (if \<not> hold_active hold (up_lock u) then (False, u)
      else if over plan
      then (False, u\<lparr>up_hold := (if up_hold u = hold then None else up_hold u),
                     up_lock := hold_release hold (up_lock u)\<rparr>)
      else (True, u))"

definition holding :: "updater \<Rightarrow> bool" where
  "holding u \<longleftrightarrow> hold_active (up_hold u) (up_lock u)"

text \<open>\<open>guardContent\<close>: the guard the updater keeps in place; \<open>pkg\<close> and \<open>own\<close> are the package's script and
  the daemon's (\<open>SelfInstalledScript\<close>).\<close>

definition guard_content :: "string \<Rightarrow> string \<Rightarrow> string option \<Rightarrow> string" where
  "guard_content pkg own installed = (if installed = Some pkg then pkg else own)"

section \<open>Its hold\<close>

text \<open>A hold of the lock under a name.\<close>

definition held_as :: "string \<Rightarrow> nat option \<Rightarrow> lock \<Rightarrow> bool" where
  "held_as who h l \<longleftrightarrow> (case h of
     None \<Rightarrow> False
   | Some p \<Rightarrow> l_cur l = Some p \<and> li_holder (hold_info l p) = who)"

lemma held_as_active: "held_as who h l \<Longrightarrow> hold_active h l"
  by (auto simp: held_as_def hold_active_def split: option.splits)

lemma held_as_one: "held_as a h l \<Longrightarrow> held_as b k l \<Longrightarrow> a = b \<and> h = k"
  by (auto simp: held_as_def split: option.splits)

lemma held_as_current: "held_as who h l \<Longrightarrow> \<exists>i. current l = Some i \<and> li_holder i = who"
  by (auto simp: held_as_def current_def split: option.splits)

lemma acquired_held: "try_acquire who i t l = (Inr p, l') \<Longrightarrow> held_as who (Some p) l'"
  by (auto simp: held_as_def dest: try_acquire_Inr)

lemma acquire_free: "try_acquire who i t l = (Inr p, l') \<Longrightarrow> \<not> held_as w h l"
  by (auto simp: held_as_def dest: try_acquire_Inr split: option.splits)

lemma held_busy: "held_as w h l \<Longrightarrow> \<exists>e. try_acquire who i t l = (Inl e, l)"
  by (auto simp: held_as_def try_acquire_def split: option.splits)

lemma held_kept: "held_as w h l \<Longrightarrow> q \<noteq> h \<Longrightarrow> held_as w h (hold_release q l)"
  by (auto simp: held_as_def hold_release_def hold_active_def hold_info_def split: option.splits)

lemma held_new: "\<not> held_as w h new_lock"
  by (simp add: held_as_def new_lock_def split: option.split)

lemma free_after: "try_acquire who i t l = (Inr p, l') \<Longrightarrow> l_cur (hold_release (Some p) l') = None"
  by (auto simp: hold_release_def hold_active_def dest: try_acquire_Inr)

lemma install_held:
  assumes "up_hold u = None \<or> held_as update_holder (up_hold u) (up_lock u)"
  shows "let u' = snd (install i t ok u)
    in (up_hold u' = None \<or> held_as update_holder (up_hold u') (up_lock u'))
     \<and> (\<forall>w h. w \<noteq> update_holder \<and> held_as w h (up_lock u) \<longrightarrow> held_as w h (up_lock u'))
     \<and> (fst (install i t ok u) = Installing \<longrightarrow> up_hold u' \<noteq> None)
     \<and> (fst (install i t ok u) \<noteq> Installing \<longrightarrow> up_hold u' = up_hold u)"
proof -
  obtain r l where a: "try_acquire update_holder i t (up_lock u) = (r, l)" by force
  show ?thesis
  proof (cases r)
    case (Inl e)
    then show ?thesis using assms a by (simp add: install_def busy_error_def)
  next
    case (Inr p)
    note acq = a[unfolded Inr]
    have free: "\<not> held_as w h (up_lock u)" for w h using acquire_free[OF acq] .
    then have none: "up_hold u = None" using assms by blast
    show ?thesis using acq free none acquired_held[OF acq]
      by (simp add: install_def keep_def)
  qed
qed


end
