(* ===== verification/Writers.thy ===== *)
theory Writers
  imports GroupsEngine Screen Updates
begin

text \<open>
  The three writers of one access point and their one write lock: the device-groups engine
  (\<open>GroupsEngine\<close>), the Wi-Fi plane (its hold in \<open>Screen\<close>; its windows are the kit's) and the updater
  (\<open>Updates\<close>), composed the way \<open>cmd/perch-apd/main.go\<close> does: one process, started updater first, then
  the engine, then the plane, each taking the lock again for a window a restart interrupted.
\<close>

section \<open>The access point\<close>

text \<open>The engine with the shared lock; the plane's hold and whether its window is open (the kit's
  pending record, which survives a restart); the updater's hold and the plan on disk.\<close>

record ap =
  ap_engine :: gsys
  ap_plane_hold :: "nat option"
  ap_plane_open :: bool
  ap_update_hold :: "nat option"
  ap_plan :: "plan_file option"

abbreviation ap_lock :: "ap \<Rightarrow> lock" where
  "ap_lock a \<equiv> g_lock (ap_engine a)"

definition with_lock :: "lock \<Rightarrow> ap \<Rightarrow> ap" where
  "with_lock l a = a\<lparr>ap_engine := (ap_engine a)\<lparr>g_lock := l\<rparr>\<rparr>"

definition plane_view :: "ap \<Rightarrow> plane_lock" where
  "plane_view a = \<lparr>pl_lock = ap_lock a, pl_hold = ap_plane_hold a\<rparr>"

definition put_plane :: "plane_lock \<Rightarrow> ap \<Rightarrow> ap" where
  "put_plane p a = with_lock (pl_lock p) (a\<lparr>ap_plane_hold := pl_hold p\<rparr>)"

definition update_view :: "ap \<Rightarrow> updater" where
  "update_view a = \<lparr>up_lock = ap_lock a, up_hold = ap_update_hold a\<rparr>"

definition put_update :: "updater \<Rightarrow> ap \<Rightarrow> ap" where
  "put_update u a = with_lock (up_lock u) (a\<lparr>ap_update_hold := up_hold u\<rparr>)"

section \<open>The daemon starts\<close>

text \<open>The engine object and its lock are new; the plane's window is resumed (\<open>resumed\<close>) or closed by
  the kit before anything else.\<close>

definition start_plane :: "string \<Rightarrow> int \<Rightarrow> bool \<Rightarrow> ap \<Rightarrow> ap" where
  "start_plane ident now resumed a =
     (if \<not> ap_plane_open a then a
      else if resumed then put_plane (snd (plane_acquire ident now (plane_view a))) a
      else a\<lparr>ap_plane_open := False\<rparr>)"

definition run_daemon :: "env \<Rightarrow> string \<Rightarrow> bool \<Rightarrow> ap \<Rightarrow> ap" where
  "run_daemon x ident resumed a =
     (let a0 = a\<lparr>ap_engine := new_engine (ap_engine a), ap_plane_hold := None, ap_update_hold := None\<rparr>;
          a1 = put_update (startup (ap_plan a0) (x_now x) (update_view a0)) a0;
          a2 = a1\<lparr>ap_engine := start x (ap_engine a1)\<rparr>
      in start_plane ident (x_now x) resumed a2)"

section \<open>Steps\<close>

inductive engine_op :: "site \<Rightarrow> env \<Rightarrow> gsys \<Rightarrow> gsys \<Rightarrow> bool" for D x s where
  op_apply: "persists x \<Longrightarrow> engine_op D x s (snd (apply_desired D x d s))"
| op_confirm: "persists x \<Longrightarrow> engine_op D x s (snd (confirm D x rv s))"
| op_timer: "persists x \<Longrightarrow> engine_op D x s (timer_fires x rv s)"
| op_edit: "engine_op D x s (s\<lparr>g_wireless := fw, g_network := fn\<rparr>)"

inductive_simps engine_op_simps: "engine_op D x s t"

inductive ap_step :: "site \<Rightarrow> ap \<Rightarrow> ap \<Rightarrow> bool" for D a where
  groups: "engine_op D x (ap_engine a) g \<Longrightarrow> ap_step D a (a\<lparr>ap_engine := g\<rparr>)"
| plane_opens: "plane_acquire ident now (plane_view a) = ((True, r), p) \<Longrightarrow>
    ap_step D a ((put_plane p a)\<lparr>ap_plane_open := True\<rparr>)"
| plane_refused: "plane_acquire ident now (plane_view a) = ((False, r), p) \<Longrightarrow> ap_step D a (put_plane p a)"
| plane_closes: "ap_plane_open a \<Longrightarrow>
    ap_step D a ((put_plane (plane_release (plane_view a)) a)\<lparr>ap_plane_open := False\<rparr>)"
| installs: "install ident now True (update_view a) = (Installing, u) \<Longrightarrow>
    ap_step D a ((put_update u a)\<lparr>ap_plan := Some \<lparr>pf_id = ident, pf_terminal = False\<rparr>\<rparr>)"
| install_fails: "install ident now ok (update_view a) = (r, u) \<Longrightarrow> r \<noteq> Installing \<Longrightarrow>
    ap_step D a (put_update u a)"
| plan_ends: "ap_step D a (a\<lparr>ap_plan := map_option (\<lambda>f. f\<lparr>pf_terminal := True\<rparr>) (ap_plan a)\<rparr>)"
| watcher: "release_when_done (ap_update_hold a) (ap_plan a) (update_view a) = (b, u) \<Longrightarrow>
    ap_step D a (put_update u a)"
| restarts: "persists x \<Longrightarrow> ap_step D a (run_daemon x ident resumed a)"
| crashes: "persists x \<Longrightarrow> persists y \<Longrightarrow> mid_apply D y d (ap_engine a) g \<Longrightarrow>
    ap_step D a (run_daemon x ident resumed (a\<lparr>ap_engine := g\<rparr>))"

inductive_cases ap_step_cases: "ap_step D a b"

definition init_ap :: "ap \<Rightarrow> bool" where
  "init_ap a \<longleftrightarrow> init_gsys (ap_engine a) \<and> ap_plane_hold a = None \<and> \<not> ap_plane_open a
     \<and> ap_update_hold a = None \<and> ap_plan a = None"

inductive ap_reach :: "site \<Rightarrow> ap \<Rightarrow> bool" for D where
  begins: "init_ap a \<Longrightarrow> ap_reach D a"
| steps: "ap_reach D a \<Longrightarrow> ap_step D a b \<Longrightarrow> ap_reach D b"

section \<open>The invariant\<close>

definition holds_right :: "string \<Rightarrow> nat option \<Rightarrow> lock \<Rightarrow> bool" where
  "holds_right who h l \<longleftrightarrow> h = None \<or> held_as who h l"

definition ap_inv :: "ap \<Rightarrow> bool" where
  "ap_inv a \<longleftrightarrow> ginv (ap_engine a)
     \<and> holds_right groups_holder (g_hold (ap_engine a)) (ap_lock a)
     \<and> holds_right plane_holder (ap_plane_hold a) (ap_lock a)
     \<and> holds_right update_holder (ap_update_hold a) (ap_lock a)
     \<and> (ap_plane_open a \<longleftrightarrow> ap_plane_hold a \<noteq> None)
     \<and> (\<not> over (ap_plan a) \<longrightarrow> ap_update_hold a \<noteq> None)"

lemma writers_distinct [simp]:
  "groups_holder \<noteq> plane_holder" "groups_holder \<noteq> update_holder" "plane_holder \<noteq> update_holder"
  "plane_holder \<noteq> groups_holder" "update_holder \<noteq> groups_holder" "update_holder \<noteq> plane_holder"
  "groups_holder \<noteq> []" "plane_holder \<noteq> []" "update_holder \<noteq> []"
  by (simp_all add: groups_holder_def plane_holder_def update_holder_def)

lemma holds_right_other:
  "holds_right w h l \<Longrightarrow> held_as v k l \<Longrightarrow> w \<noteq> v \<Longrightarrow> h = None"
  using held_as_one unfolding holds_right_def by blast

lemma holds_right_none [simp]: "holds_right w None l"
  by (simp add: holds_right_def)

lemma holds_right_kept:
  "holds_right w h l \<Longrightarrow> h = None \<or> q \<noteq> h \<Longrightarrow> holds_right w h (hold_release q l)"
  using held_kept unfolding holds_right_def by blast

text \<open>What the engine's operations do to the lock.\<close>

definition engine_keeps :: "gsys \<Rightarrow> gsys \<Rightarrow> bool" where
  "engine_keeps s t \<longleftrightarrow> holds_right groups_holder (g_hold t) (g_lock t)
     \<and> (\<forall>w h. w \<noteq> groups_holder \<and> held_as w h (g_lock s) \<longrightarrow> held_as w h (g_lock t))"

lemma engine_keeps_same:
  "holds_right groups_holder (g_hold s) (g_lock s) \<Longrightarrow> g_lock t = g_lock s \<Longrightarrow> g_hold t = g_hold s \<Longrightarrow> engine_keeps s t"
  by (simp add: engine_keeps_def)

lemma engine_keeps_taken:
  assumes "try_acquire groups_holder i n (g_lock s) = (Inr h, lk)"
    and "g_lock t = lk \<and> g_hold t = Some h \<or> g_hold t = None"
  shows "engine_keeps s t"
  using acquired_held[OF assms(1)] acquire_free[OF assms(1)] assms(2)
  by (auto simp: engine_keeps_def holds_right_def)

lemma rollback_keeps:
  assumes "holds_right groups_holder (g_hold s) (g_lock s)"
  shows "engine_keeps s (rollback_locked x r s)"
proof (cases "gs_pending (g_st s)")
  case None
  then show ?thesis using assms by (simp add: rollback_none engine_keeps_same)
next
  case (Some p)
  have "held_as w h (hold_release (g_hold s) (g_lock s))" if "w \<noteq> groups_holder" "held_as w h (g_lock s)" for w h
  proof -
    have "h \<noteq> g_hold s"
      using that assms unfolding holds_right_def by (auto simp: held_as_def split: option.splits)
    then show ?thesis using held_kept[OF that(2)] by metis
  qed
  then show ?thesis using rollback_effect(5,6)[OF Some] by (simp add: engine_keeps_def)
qed

lemma engine_keeps_lock_only:
  "engine_keeps s t \<Longrightarrow> g_lock s' = g_lock s \<Longrightarrow> engine_keeps s' t"
  by (simp add: engine_keeps_def)

lemma apply_files_hold:
  assumes "gs_pending (g_st s) = Some p"
  shows "(g_lock (snd (apply_files x pa p s)) = g_lock s \<and> g_hold (snd (apply_files x pa p s)) = g_hold s)
    \<or> g_hold (snd (apply_files x pa p s)) = None"
  using assms
  by (auto simp: apply_files_def Let_def arm_locked_def reload_def rollback_effect(5))

lemma apply_keeps:
  assumes inv: "ginv s" and h: "holds_right groups_holder (g_hold s) (g_lock s)"
  shows "engine_keeps s (snd (apply_desired D x d s))"
proof (cases "gs_pending (g_st s)")
  case (Some p)
  then show ?thesis using h by (simp add: apply_desired_def engine_keeps_same)
next
  case None
  have hold: "g_hold s = None" using inv None by (simp add: ginv_def ginv_window_def)
  from None show ?thesis
  proof (cases rule: apply_cases[where d = d and D = D and x = x])
    case (unplanned e h lk)
    then show ?thesis using hold by (intro engine_keeps_taken) simp_all
  next
    case (noop h lk pa)
    then show ?thesis using hold by (intro engine_keeps_taken) (simp_all add: Let_def persist_locked_def)
  next
    case (uncopied h lk pa s2)
    then show ?thesis using hold save_copies_fields[OF uncopied(2)] by (intro engine_keeps_taken) simp_all
  next
    case (files h lk pa s2)
    let ?s = "open_window x (new_pending x d pa) h s2"
    have "gs_pending (g_st ?s) = Some (new_pending x d pa)" "g_lock ?s = lk" "g_hold ?s = Some h"
      using save_copies_fields[OF files(5)] by (simp_all add: open_window_def persist_locked_def)
    then show ?thesis
      using apply_files_hold[of ?s "new_pending x d pa" x pa] files(6)
      by (intro engine_keeps_taken[OF files(2)]) auto
  qed (use h in \<open>simp_all add: engine_keeps_same\<close>)
qed

lemma confirm_keeps:
  assumes "holds_right groups_holder (g_hold s) (g_lock s)"
  shows "engine_keeps s (snd (confirm D x rv s))"
proof (cases "gs_pending (g_st s)")
  case (Some p)
  have "held_as w h (hold_release (g_hold s) (g_lock s))" if "w \<noteq> groups_holder" "held_as w h (g_lock s)" for w h
  proof -
    have "h \<noteq> g_hold s"
      using that assms unfolding holds_right_def by (auto simp: held_as_def split: option.splits)
    then show ?thesis using held_kept[OF that(2)] by metis
  qed
  then show ?thesis
    using Some assms rollback_keeps[OF assms]
    by (auto simp: confirm_def Let_def release_locked_def persist_locked_def engine_keeps_def
        split: option.split)
qed (use assms in \<open>simp add: confirm_def engine_keeps_same\<close>)

lemma timer_keeps:
  "holds_right groups_holder (g_hold s) (g_lock s) \<Longrightarrow> engine_keeps s (timer_fires x rv s)"
  by (auto simp: timer_fires_def rollback_keeps engine_keeps_same split: option.split)

lemma engine_op_keeps:
  assumes "engine_op D x s t" "ginv s" "holds_right groups_holder (g_hold s) (g_lock s)"
  shows "engine_keeps s t \<and> ginv t"
  using assms(1)
proof cases
  case (op_apply d)
  then show ?thesis using assms apply_keeps ginv_apply by simp
next
  case (op_confirm rv)
  then show ?thesis using assms confirm_keeps ginv_confirm by simp
next
  case (op_timer rv)
  then show ?thesis using assms timer_keeps ginv_timer by simp
next
  case (op_edit fw fn)
  have "gstep D x s t" unfolding op_edit by (rule gstep.do_edit)
  then show ?thesis using assms ginv_step op_edit by (simp add: engine_keeps_same)
qed

lemma ap_inv_engine:
  assumes i: "ap_inv a" and k: "engine_keeps (ap_engine a) g" and g: "ginv g"
  shows "ap_inv (a\<lparr>ap_engine := g\<rparr>)"
proof -
  have "holds_right w h (g_lock g)" if "holds_right w h (ap_lock a)" "w \<noteq> groups_holder" for w h
    using k that unfolding engine_keeps_def holds_right_def by blast
  then show ?thesis using i k g by (simp add: ap_inv_def engine_keeps_def)
qed

text \<open>A change of the shared lock by another writer is one the engine's runs allow.\<close>

lemma ginv_lock:
  assumes "ginv s" "g_hold s = None \<or> held_as groups_holder (g_hold s) l"
  shows "ginv (s\<lparr>g_lock := l\<rparr>)"
  using assms
  by (auto simp: ginv_def ginv_window_def ginv_saved_def dest: held_as_active split: option.splits)

lemma ap_inv_with_lock:
  assumes "ap_inv a" "holds_right groups_holder (g_hold (ap_engine a)) l"
    "holds_right plane_holder (ap_plane_hold b) l" "holds_right update_holder (ap_update_hold b) l"
    "ap_plane_open b \<longleftrightarrow> ap_plane_hold b \<noteq> None" "\<not> over (ap_plan b) \<longrightarrow> ap_update_hold b \<noteq> None"
    "ap_engine b = ap_engine a"
  shows "ap_inv (with_lock l b)"
  using assms ginv_lock[of "ap_engine a" l] by (simp add: ap_inv_def with_lock_def holds_right_def)

section \<open>Each step keeps it\<close>

lemma ap_inv_holds:
  assumes "ap_inv a"
  shows "holds_right groups_holder (g_hold (ap_engine a)) (ap_lock a)"
    "holds_right plane_holder (ap_plane_hold a) (ap_lock a)"
    "holds_right update_holder (ap_update_hold a) (ap_lock a)"
    "ap_plane_open a \<longleftrightarrow> ap_plane_hold a \<noteq> None"
    "\<not> over (ap_plan a) \<longrightarrow> ap_update_hold a \<noteq> None" "ginv (ap_engine a)"
  using assms by (simp_all add: ap_inv_def)

text \<open>After an acquire of a free lock nobody else holds anything.\<close>

lemma acquire_alone:
  assumes "ap_inv a" "try_acquire who i t (ap_lock a) = (Inr p, l)"
  shows "g_hold (ap_engine a) = None" "ap_plane_hold a = None" "ap_update_hold a = None"
  using ap_inv_holds(1-3)[OF assms(1)] acquire_free[OF assms(2)] unfolding holds_right_def by blast+

lemma plane_acquire_cases:
  assumes "plane_acquire ident now (plane_view a) = (r, p)"
  obtains (taken) h l where "try_acquire plane_holder ident now (ap_lock a) = (Inr h, l)"
      "r = (True, [])" "p = \<lparr>pl_lock = l, pl_hold = Some h\<rparr>"
  | (refused) e where "try_acquire plane_holder ident now (ap_lock a) = (Inl e, ap_lock a)"
      "\<not> fst r" "p = plane_view a"
proof -
  obtain o' l where t: "try_acquire plane_holder ident now (ap_lock a) = (o', l)" by force
  show thesis
  proof (cases o')
    case (Inl e)
    with t have "l = ap_lock a" using apl.refused by blast
    with Inl t assms show thesis by (intro refused[of e]) (auto simp: plane_acquire_def plane_view_def)
  next
    case (Inr h)
    with t assms show thesis by (intro taken[of h l]) (auto simp: plane_acquire_def plane_view_def)
  qed
qed

lemma with_lock_update [simp]:
  "(with_lock l a)\<lparr>ap_plane_open := b\<rparr> = with_lock l (a\<lparr>ap_plane_open := b\<rparr>)"
  "(with_lock l a)\<lparr>ap_plan := f\<rparr> = with_lock l (a\<lparr>ap_plan := f\<rparr>)"
  by (cases a; simp add: with_lock_def)+

lemma put_views [simp]: "put_plane (plane_view a) a = a" "put_update (update_view a) a = a"
  by (simp_all add: put_plane_def plane_view_def put_update_def update_view_def with_lock_def)

lemma ap_inv_plane_opens:
  assumes i: "ap_inv a" and p: "plane_acquire ident now (plane_view a) = ((True, r), p)"
  shows "ap_inv ((put_plane p a)\<lparr>ap_plane_open := True\<rparr>)"
  using p
proof (cases rule: plane_acquire_cases)
  case (taken h l)
  have "ap_inv (with_lock l (a\<lparr>ap_plane_hold := Some h, ap_plane_open := True\<rparr>))"
    by (rule ap_inv_with_lock[OF i])
      (use ap_inv_holds(5)[OF i] acquire_alone[OF i taken(1)] acquired_held[OF taken(1)] in
        \<open>simp_all add: holds_right_def\<close>)
  then show ?thesis by (simp add: taken put_plane_def)
qed simp

lemma ap_inv_plane_closes:
  assumes i: "ap_inv a"
  shows "ap_inv ((put_plane (plane_release (plane_view a)) a)\<lparr>ap_plane_open := False\<rparr>)"
proof -
  let ?l = "hold_release (ap_plane_hold a) (ap_lock a)"
  note h = ap_inv_holds[OF i]
  have "holds_right w k ?l" if "holds_right w k (ap_lock a)" "w \<noteq> plane_holder" for w k
    using that h(2) held_kept held_as_one unfolding holds_right_def
    by (metis apl.nil_inactive hold_release_def)
  then have "ap_inv (with_lock ?l (a\<lparr>ap_plane_hold := None, ap_plane_open := False\<rparr>))"
    using h by (intro ap_inv_with_lock[OF i]) simp_all
  then show ?thesis
    by (simp add: put_plane_def plane_release_def plane_view_def)
qed

lemma install_cases:
  assumes "install ident now ok (update_view a) = (r, u)"
  obtains (installing) h l where "try_acquire update_holder ident now (ap_lock a) = (Inr h, l)"
      "r = Installing" "u = \<lparr>up_lock = l, up_hold = Some h\<rparr>"
  | (failed) h l where "try_acquire update_holder ident now (ap_lock a) = (Inr h, l)"
      "r \<noteq> Installing" "u = \<lparr>up_lock = hold_release (Some h) l, up_hold = ap_update_hold a\<rparr>"
  | (refused) "r \<noteq> Installing" "u = update_view a"
proof -
  obtain o' l where t: "try_acquire update_holder ident now (ap_lock a) = (o', l)" by force
  show thesis
  proof (cases o')
    case (Inl e)
    with t assms show thesis by (intro refused) (auto simp: install_def update_view_def busy_error_def)
  next
    case (Inr h)
    show thesis
    proof (cases ok)
      case True
      with Inr t assms show thesis
        by (intro installing[of h l]) (auto simp: install_def update_view_def keep_def)
    next
      case False
      with Inr t assms show thesis by (intro failed[of h l]) (auto simp: install_def update_view_def)
    qed
  qed
qed

lemma ap_inv_installs:
  assumes i: "ap_inv a" and u: "install ident now ok (update_view a) = (Installing, u)"
  shows "ap_inv ((put_update u a)\<lparr>ap_plan := Some f\<rparr>)"
  using u
proof (cases rule: install_cases)
  case (installing h l)
  have "ap_inv (with_lock l (a\<lparr>ap_update_hold := Some h, ap_plan := Some f\<rparr>))"
    by (rule ap_inv_with_lock[OF i])
      (use ap_inv_holds(4)[OF i] acquire_alone[OF i installing(1)] acquired_held[OF installing(1)] in
        \<open>simp_all add: holds_right_def\<close>)
  then show ?thesis by (simp add: installing put_update_def)
qed simp_all

lemma ap_inv_install_fails:
  assumes i: "ap_inv a" and u: "install ident now ok (update_view a) = (r, u)" "r \<noteq> Installing"
  shows "ap_inv (put_update u a)"
  using u(1)
proof (cases rule: install_cases)
  case (failed h l)
  note alone = acquire_alone[OF i failed(1)]
  have "ap_inv (with_lock (hold_release (Some h) l) a)"
    by (rule ap_inv_with_lock[OF i]) (use alone ap_inv_holds(4,5)[OF i] in simp_all)
  then show ?thesis by (simp add: failed put_update_def)
qed (use i u(2) in simp_all)

lemma ap_inv_watcher:
  assumes i: "ap_inv a"
    and u: "release_when_done (ap_update_hold a) (ap_plan a) (update_view a) = (b, u)"
  shows "ap_inv (put_update u a)"
proof (cases "hold_active (ap_update_hold a) (ap_lock a) \<and> over (ap_plan a)")
  case False
  then have "u = update_view a" using u by (auto simp: release_when_done_def update_view_def split: if_splits)
  then show ?thesis using i by simp
next
  case True
  let ?l = "hold_release (ap_update_hold a) (ap_lock a)"
  note h = ap_inv_holds[OF i]
  have "holds_right w k ?l" if "holds_right w k (ap_lock a)" "w \<noteq> update_holder" for w k
    using that h(3) held_kept held_as_one unfolding holds_right_def
    by (metis apl.nil_inactive hold_release_def)
  then have "ap_inv (with_lock ?l (a\<lparr>ap_update_hold := None\<rparr>))"
    using h True by (intro ap_inv_with_lock[OF i]) simp_all
  moreover have "put_update u a = with_lock ?l (a\<lparr>ap_update_hold := None\<rparr>)"
    using u True by (auto simp: release_when_done_def update_view_def put_update_def with_lock_def)
  ultimately show ?thesis by simp
qed

section \<open>A restart\<close>

text \<open>The apply the state file says is pending.\<close>

definition saved_pending :: "gsys \<Rightarrow> gpending option" where
  "saved_pending s = gs_pending (g_st (new_engine s))"

lemma start_quiet: "saved_pending s = None \<Longrightarrow> start x ((new_engine s)\<lparr>g_lock := l\<rparr>) = (new_engine s)\<lparr>g_lock := l\<rparr>"
  by (simp add: start_def saved_pending_def)

lemma new_engine_lock: "g_lock (new_engine s) = new_lock" "g_hold (new_engine s) = None"
  by (simp_all add: new_engine_def)

lemma new_engine_same: "(new_engine s)\<lparr>g_lock := new_lock\<rparr> = new_engine s"
  by (simp add: new_engine_def)

lemma restart_holds: "holds_right groups_holder (g_hold (restart x s)) (g_lock (restart x s))"
proof (cases "saved_pending s")
  case None
  then show ?thesis using start_quiet[OF None, of x new_lock]
    by (simp add: restart_def new_engine_same new_engine_lock)
next
  case (Some p)
  obtain h lk where acq: "try_acquire groups_holder (apply_id (gp_revision p)) (x_now x) new_lock = (Inr h, lk)"
    using start_acquires by blast
  define s1 where "s1 = (new_engine s)\<lparr>g_lock := lk, g_hold := Some h\<rparr>"
  have "restart x s = (if gp_deadline p - x_now x \<le> 0 then rollback_locked x WindowPassedDown s1 else arm_locked p s1)"
    using Some acq by (simp add: restart_def start_def saved_pending_def new_engine_lock s1_def Let_def)
  moreover have "gs_pending (g_st s1) = Some p" using Some by (simp add: s1_def saved_pending_def)
  ultimately show ?thesis
    using rollback_effect(5)[of s1 p] acquired_held[OF acq] by (simp add: arm_locked_def s1_def holds_right_def)
qed

lemma startup_over: "over f \<Longrightarrow> startup f t u = u"
  by (auto simp: startup_def over_def split: option.splits)

lemma startup_new:
  assumes "\<not> over pf"
  obtains h l where "startup pf t \<lparr>up_lock = new_lock, up_hold = None\<rparr> = \<lparr>up_lock = l, up_hold = Some h\<rparr>"
    "held_as update_holder (Some h) l"
proof -
  obtain f where f: "pf = Some f" "\<not> pf_terminal f" using assms by (auto simp: over_def split: option.splits)
  obtain h l where "try_acquire update_holder (pf_id f) t new_lock = (Inr h, l)"
    using try_acquire_free[of update_holder new_lock "pf_id f" t] by (auto simp: new_lock_def)
  with f acquired_held[OF this] show thesis by (intro that[of l h]) (simp_all add: startup_def keep_def)
qed

text \<open>A daemon started with no update in progress: the plane's window is kept if it resumes.\<close>

lemma run_daemon_over:
  assumes g: "ginv (restart x (ap_engine a))" and over: "over (ap_plan a)"
    and one: "saved_pending (ap_engine a) = None \<or> \<not> ap_plane_open a"
  shows "ap_inv (run_daemon x ident resumed a)"
proof -
  define a2 where "a2 = a\<lparr>ap_plane_hold := None, ap_update_hold := None, ap_engine := restart x (ap_engine a)\<rparr>"
  have run: "run_daemon x ident resumed a = start_plane ident (x_now x) resumed a2"
    using over by (simp add: run_daemon_def startup_over put_update_def update_view_def with_lock_def
        new_engine_lock new_engine_same restart_def a2_def)
  have i: "ap_inv (a2\<lparr>ap_plane_open := False\<rparr>)"
    using g restart_holds[of x "ap_engine a"] over by (simp add: ap_inv_def a2_def)
  consider (closed) "\<not> ap_plane_open a" | (dropped) "ap_plane_open a" "\<not> resumed" | (resumed) "ap_plane_open a" resumed
    by blast
  then show ?thesis
  proof cases
    case closed
    then have "a2\<lparr>ap_plane_open := False\<rparr> = a2" by (cases a) (simp add: a2_def)
    with i have "ap_inv a2" by simp
    then show ?thesis using closed run by (simp add: start_plane_def a2_def)
  next
    case dropped
    then show ?thesis using i run by (simp add: start_plane_def a2_def)
  next
    case resumed
    have "saved_pending (ap_engine a) = None" using one resumed by simp
    then have "g_lock (restart x (ap_engine a)) = new_lock"
      using start_quiet[of "ap_engine a" x new_lock] by (simp add: restart_def new_engine_same new_engine_lock)
    then obtain h l where "try_acquire plane_holder ident (x_now x) (ap_lock a2) = (Inr h, l)"
      using try_acquire_free[of plane_holder new_lock ident "x_now x"] by (auto simp: a2_def new_lock_def)
    then have acq: "plane_acquire ident (x_now x) (plane_view (a2\<lparr>ap_plane_open := False\<rparr>)) =
        ((True, []), \<lparr>pl_lock = l, pl_hold = Some h\<rparr>)"
      by (simp add: plane_acquire_def plane_view_def)
    have "put_plane \<lparr>pl_lock = l, pl_hold = Some h\<rparr> a2 =
        (put_plane \<lparr>pl_lock = l, pl_hold = Some h\<rparr> (a2\<lparr>ap_plane_open := False\<rparr>))\<lparr>ap_plane_open := True\<rparr>"
      using resumed by (cases a) (simp add: put_plane_def a2_def)
    then show ?thesis
      using ap_inv_plane_opens[OF i acq] acq resumed run
      by (simp add: start_plane_def a2_def plane_view_def)
  qed
qed

text \<open>And with an update in progress: the updater has its hold again, and nothing else is open.\<close>

lemma run_daemon_updating:
  assumes g: "ginv (restart x (ap_engine a))" and going: "\<not> over (ap_plan a)"
    and q: "saved_pending (ap_engine a) = None" and po: "\<not> ap_plane_open a"
  shows "ap_inv (run_daemon x ident resumed a)"
proof -
  let ?g = "ap_engine a"
  obtain h l where u: "startup (ap_plan a) (x_now x) \<lparr>up_lock = new_lock, up_hold = None\<rparr> =
      \<lparr>up_lock = l, up_hold = Some h\<rparr>" "held_as update_holder (Some h) l"
    by (rule startup_new[OF going])
  have e: "restart x ?g = new_engine ?g"
    using start_quiet[OF q, of x new_lock] by (simp add: restart_def new_engine_same)
  have "run_daemon x ident resumed a =
      a\<lparr>ap_plane_hold := None, ap_update_hold := Some h, ap_engine := (new_engine ?g)\<lparr>g_lock := l\<rparr>\<rparr>"
    using u(1) po start_quiet[OF q]
    by (simp add: run_daemon_def put_update_def update_view_def with_lock_def new_engine_lock start_plane_def)
  moreover have "ginv ((new_engine ?g)\<lparr>g_lock := l\<rparr>)"
    using g unfolding e by (rule ginv_lock) (simp add: new_engine_lock)
  ultimately show ?thesis using u(2) po by (simp add: ap_inv_def new_engine_lock holds_right_def)
qed

lemma run_daemon_inv:
  assumes ok: "persists x" and r: "restartable (ap_engine a)"
    and one: "saved_pending (ap_engine a) = None \<or> \<not> ap_plane_open a" "over (ap_plan a) \<or> \<not> ap_plane_open a"
      "over (ap_plan a) \<or> saved_pending (ap_engine a) = None"
  shows "ap_inv (run_daemon x ident resumed a)"
  using run_daemon_over[OF ginv_restart[OF ok r] _ one(1)] run_daemon_updating[OF ginv_restart[OF ok r]] one(2,3)
  by (cases "over (ap_plan a)") simp_all

lemma saved_pending_ginv: "ginv s \<Longrightarrow> saved_pending s = gs_pending (g_st s)"
  by (auto simp: ginv_def ginv_saved_def same_saved_def saved_pending_def new_engine_def split: option.splits)

lemma pending_held: "ginv s \<Longrightarrow> gs_pending (g_st s) \<noteq> None \<Longrightarrow> g_hold s \<noteq> None"
  by (auto simp: ginv_def ginv_window_def)

lemma ap_inv_alone:
  assumes i: "ap_inv a"
  shows "g_hold (ap_engine a) = None \<or> ap_plane_hold a = None" "ap_update_hold a = None \<or> ap_plane_hold a = None"
    "ap_update_hold a = None \<or> g_hold (ap_engine a) = None"
  using ap_inv_holds(1-3)[OF i] held_as_one unfolding holds_right_def by (metis writers_distinct)+

lemma ap_inv_restarts:
  assumes "ap_inv a" "persists x"
  shows "ap_inv (run_daemon x ident resumed a)"
  using ap_inv_holds[OF assms(1)] ap_inv_alone[OF assms(1)]
    saved_pending_ginv[of "ap_engine a"] pending_held[of "ap_engine a"]
  by (intro run_daemon_inv[OF assms(2)] ginv_restartable) auto

lemma ap_inv_crashes:
  assumes i: "ap_inv a" and x: "persists x" "persists y" and m: "mid_apply D y d (ap_engine a) g"
  shows "ap_inv (run_daemon x ident resumed (a\<lparr>ap_engine := g\<rparr>))"
proof -
  obtain ii t h lk where "try_acquire groups_holder ii t (ap_lock a) = (Inr h, lk)"
    using m by cases blast+
  from acquire_alone[OF i this] have "\<not> ap_plane_open a" "over (ap_plan a)"
    using ap_inv_holds(4,5)[OF i] by auto
  then show ?thesis
    using mid_restartable[OF x(2) _ m] ap_inv_holds(6)[OF i] by (intro run_daemon_inv[OF x(1)]) simp_all
qed

lemma ap_inv_step:
  assumes "ap_inv a" "ap_step D a b"
  shows "ap_inv b"
  using assms(2)
proof cases
  case (groups x g)
  then show ?thesis
    using engine_op_keeps ap_inv_engine assms(1) ap_inv_holds(1,6)[OF assms(1)] by metis
next
  case (plane_refused ident now r p)
  from plane_refused(2) have "p = plane_view a" by (cases rule: plane_acquire_cases) simp_all
  then show ?thesis using plane_refused assms(1) by simp
next
  case plan_ends
  then show ?thesis using assms(1) by (auto simp: ap_inv_def over_def split: option.splits)
next
  case (plane_opens ident now r p)
  then show ?thesis using ap_inv_plane_opens[OF assms(1)] by simp
next
  case plane_closes
  then show ?thesis using ap_inv_plane_closes[OF assms(1)] by simp
next
  case (installs ident now u)
  then show ?thesis using ap_inv_installs[OF assms(1)] by simp
next
  case (install_fails ident now ok r u)
  then show ?thesis using ap_inv_install_fails[OF assms(1)] by simp
next
  case (watcher bb u)
  then show ?thesis using ap_inv_watcher[OF assms(1)] by simp
next
  case (restarts x ident resumed)
  then show ?thesis using ap_inv_restarts[OF assms(1)] by simp
next
  case (crashes x y d g ident resumed)
  then show ?thesis using ap_inv_crashes[OF assms(1)] by simp
qed

lemma ap_inv_reach: "ap_reach D a \<Longrightarrow> ap_inv a"
proof (induction rule: ap_reach.induct)
  case (begins a)
  then have "ginv (ap_engine a)"
    using ginv_reach greach.begins by (auto simp: init_ap_def)
  then show ?case using begins by (simp add: init_ap_def init_gsys_def ap_inv_def over_def)
qed (rule ap_inv_step)

section \<open>Windows never overlap\<close>

text \<open>The writers that have a window open: an apply that waits for its confirm, an update in progress.\<close>

definition open_windows :: "ap \<Rightarrow> string list" where
  "open_windows a =
     (if gs_pending (g_st (ap_engine a)) \<noteq> None then [groups_holder] else [])
   @ (if ap_plane_open a then [plane_holder] else [])
   @ (if over (ap_plan a) then [] else [update_holder])"

lemma open_windows_exact:
  assumes "ap_reach D a"
  shows "length (open_windows a) \<le> 1
    \<and> (\<forall>w \<in> set (open_windows a). (\<exists>i. current (ap_lock a) = Some i \<and> li_holder i = w)
        \<and> busy_reason (ap_lock a) = w @ ''_pending'')"
proof -
  note i = ap_inv_reach[OF assms]
  note h = ap_inv_holds[OF i]
  have named: "(\<exists>i. current (ap_lock a) = Some i \<and> li_holder i = w) \<and> busy_reason (ap_lock a) = w @ ''_pending''"
    if "holds_right w k (ap_lock a)" "k \<noteq> None" for w k
    using that held_as_current[of w k "ap_lock a"] by (auto simp: holds_right_def busy_reason_def holder_reason_def)
  have "g_hold (ap_engine a) \<noteq> None" if "gs_pending (g_st (ap_engine a)) \<noteq> None"
    using pending_held[OF h(6) that] .
  then show ?thesis
    using ap_inv_alone[OF i] h(4,5) named[OF h(1)] named[OF h(2)] named[OF h(3)]
    by (cases "gs_pending (g_st (ap_engine a))") (auto simp: open_windows_def)
qed


definition sample_ap :: ap where
  "sample_ap = \<lparr>ap_engine = sample_start, ap_plane_hold = None, ap_plane_open = False, ap_update_hold = None,
     ap_plan = None\<rparr>"

text \<open>An update starts; the Wi-Fi plane is then refused.\<close>

definition sample_updating :: ap where
  "sample_updating = (put_update (snd (install ''u1'' 5 True (update_view sample_ap))) sample_ap)
     \<lparr>ap_plan := Some \<lparr>pf_id = ''u1'', pf_terminal = False\<rparr>\<rparr>"

lemma sample_updating_reach: "ap_reach sample_site sample_updating"
proof -
  have "init_gsys sample_start"
    by (simp add: init_gsys_def sample_start_def)
  then have "ap_reach sample_site sample_ap"
    by (intro ap_reach.begins) (simp add: init_ap_def sample_ap_def)
  moreover have "ap_step sample_site sample_ap sample_updating"
    unfolding sample_updating_def
    by (rule ap_step.installs[where now = 5]) (simp add: install_def update_view_def sample_ap_def sample_start_def
        try_acquire_def new_lock_def keep_def)
  ultimately show ?thesis by (rule ap_reach.steps)
qed


end
