(* ===== verification/Nl80211.thy ===== *)
theory Nl80211
  imports Prelude "HOL-Library.Word" "HOL-Library.Signed_Division"
begin

text \<open>
  The Wi-Fi facts the kernel reports, \<open>internal/nl80211\<close>: interfaces, stations, the survey, the radios (a
  split wiphy dump) and the regulatory domains, parsed from netlink attributes. The decoder of one
  attribute block (mdlayher/netlink) is a parameter: \<open>None\<close> when it rejects the block, else the
  attributes in order and whether it ended without an error. The byte order and the width of \<open>int\<close> are
  the device's. A parser that fails is \<open>Inl\<close>: its callers drop what was read so far.
\<close>

section \<open>Attributes and integers\<close>

type_synonym octets = "8 word list"
type_synonym attr = "16 word \<times> octets"

record netlink =
  nl_attrs :: "octets \<Rightarrow> (attr list \<times> bool) option"
  nl_big :: bool
  nl_wide :: bool

datatype nl_error = BadAttributes

fun from_le :: "octets \<Rightarrow> int" where
  "from_le [] = 0"
| "from_le (b # bs) = uint b + 256 * from_le bs"

definition native :: "netlink \<Rightarrow> octets \<Rightarrow> int" where
  "native N bs = from_le (if nl_big N then List.rev bs else bs)"

definition u32 :: "netlink \<Rightarrow> octets \<Rightarrow> 32 word" where
  "u32 N b =
     (if length b \<ge> 4 then word_of_int (native N (take 4 b))
      else if length b \<ge> 2 then word_of_int (native N (take 2 b))
      else if length b = 1 then word_of_int (uint (hd b)) else 0)"

definition u64 :: "netlink \<Rightarrow> octets \<Rightarrow> 64 word" where
  "u64 N b = (if length b \<ge> 8 then word_of_int (native N (take 8 b)) else ucast (u32 N b))"

definition u16 :: "netlink \<Rightarrow> octets \<Rightarrow> 16 word" where
  "u16 N b = word_of_int (native N (take 2 b))"

text \<open>\<open>int(u32(v))\<close>: on a 32-bit device the value wraps.\<close>

definition int_of_u32 :: "netlink \<Rightarrow> 32 word \<Rightarrow> int" where
  "int_of_u32 N w = (if nl_wide N then uint w else sint w)"

definition u32_int :: "netlink \<Rightarrow> octets \<Rightarrow> int" where
  "u32_int N v = int_of_u32 N (u32 N v)"

definition octet_string :: "octets \<Rightarrow> string" where
  "octet_string v = map (\<lambda>w. char_of (unat w)) v"

definition cstring :: "octets \<Rightarrow> string" where
  "cstring v = trim_right (\<lambda>c. c = CHR 0x00) (octet_string v)"

section \<open>The kernel's numbers\<close>

text \<open>The attributes and enumerations of \<open>linux/nl80211.h\<close> the daemon reads.\<close>

abbreviation attr_wiphy :: "16 word" where "attr_wiphy \<equiv> 1"
abbreviation attr_ifindex :: "16 word" where "attr_ifindex \<equiv> 3"
abbreviation attr_ifname :: "16 word" where "attr_ifname \<equiv> 4"
abbreviation attr_iftype :: "16 word" where "attr_iftype \<equiv> 5"
abbreviation attr_mac :: "16 word" where "attr_mac \<equiv> 6"
abbreviation attr_sta_info :: "16 word" where "attr_sta_info \<equiv> 21"
abbreviation attr_reg_alpha2 :: "16 word" where "attr_reg_alpha2 \<equiv> 33"
abbreviation attr_wiphy_freq :: "16 word" where "attr_wiphy_freq \<equiv> 38"
abbreviation attr_ssid :: "16 word" where "attr_ssid \<equiv> 52"
abbreviation attr_survey_info :: "16 word" where "attr_survey_info \<equiv> 84"
abbreviation attr_wiphy_tx_power_lvl :: "16 word" where "attr_wiphy_tx_power_lvl \<equiv> 98"
abbreviation attr_channel_width :: "16 word" where "attr_channel_width \<equiv> 159"
abbreviation attr_center_freq1 :: "16 word" where "attr_center_freq1 \<equiv> 160"

abbreviation sta_inactive_time :: "16 word" where "sta_inactive_time \<equiv> 1"
abbreviation sta_rx_bytes :: "16 word" where "sta_rx_bytes \<equiv> 2"
abbreviation sta_tx_bytes :: "16 word" where "sta_tx_bytes \<equiv> 3"
abbreviation sta_signal :: "16 word" where "sta_signal \<equiv> 7"
abbreviation sta_tx_bitrate :: "16 word" where "sta_tx_bitrate \<equiv> 8"
abbreviation sta_rx_packets :: "16 word" where "sta_rx_packets \<equiv> 9"
abbreviation sta_tx_packets :: "16 word" where "sta_tx_packets \<equiv> 10"
abbreviation sta_tx_retries :: "16 word" where "sta_tx_retries \<equiv> 11"
abbreviation sta_tx_failed :: "16 word" where "sta_tx_failed \<equiv> 12"
abbreviation sta_signal_avg :: "16 word" where "sta_signal_avg \<equiv> 13"
abbreviation sta_rx_bitrate :: "16 word" where "sta_rx_bitrate \<equiv> 14"
abbreviation sta_connected_time :: "16 word" where "sta_connected_time \<equiv> 16"
abbreviation sta_flags :: "16 word" where "sta_flags \<equiv> 17"
abbreviation sta_rx_bytes64 :: "16 word" where "sta_rx_bytes64 \<equiv> 23"
abbreviation sta_tx_bytes64 :: "16 word" where "sta_tx_bytes64 \<equiv> 24"
abbreviation sta_expected_throughput :: "16 word" where "sta_expected_throughput \<equiv> 27"

abbreviation rate_bitrate :: "16 word" where "rate_bitrate \<equiv> 1"
abbreviation rate_bitrate32 :: "16 word" where "rate_bitrate32 \<equiv> 5"

abbreviation survey_frequency :: "16 word" where "survey_frequency \<equiv> 1"
abbreviation survey_noise :: "16 word" where "survey_noise \<equiv> 2"
abbreviation survey_in_use :: "16 word" where "survey_in_use \<equiv> 3"
abbreviation survey_time :: "16 word" where "survey_time \<equiv> 4"
abbreviation survey_time_busy :: "16 word" where "survey_time_busy \<equiv> 5"
abbreviation survey_time_rx :: "16 word" where "survey_time_rx \<equiv> 7"
abbreviation survey_time_tx :: "16 word" where "survey_time_tx \<equiv> 8"

abbreviation sta_flag_authorized :: "nat" where "sta_flag_authorized \<equiv> 1"
abbreviation sta_flag_authenticated :: "nat" where "sta_flag_authenticated \<equiv> 5"
abbreviation sta_flag_associated :: "nat" where "sta_flag_associated \<equiv> 7"

abbreviation iftype_unspecified :: "32 word" where "iftype_unspecified \<equiv> 0"
abbreviation iftype_adhoc :: "32 word" where "iftype_adhoc \<equiv> 1"
abbreviation iftype_station :: "32 word" where "iftype_station \<equiv> 2"
abbreviation iftype_ap :: "32 word" where "iftype_ap \<equiv> 3"
abbreviation iftype_ap_vlan :: "32 word" where "iftype_ap_vlan \<equiv> 4"
abbreviation iftype_wds :: "32 word" where "iftype_wds \<equiv> 5"
abbreviation iftype_monitor :: "32 word" where "iftype_monitor \<equiv> 6"
abbreviation iftype_mesh_point :: "32 word" where "iftype_mesh_point \<equiv> 7"
abbreviation iftype_p2p_client :: "32 word" where "iftype_p2p_client \<equiv> 8"
abbreviation iftype_p2p_go :: "32 word" where "iftype_p2p_go \<equiv> 9"

abbreviation dfs_fcc :: int where "dfs_fcc \<equiv> 1"
abbreviation dfs_etsi :: int where "dfs_etsi \<equiv> 2"
abbreviation dfs_jp :: int where "dfs_jp \<equiv> 3"

abbreviation dfs_usable :: int where "dfs_usable \<equiv> 0"
abbreviation dfs_unavailable :: int where "dfs_unavailable \<equiv> 1"
abbreviation dfs_available :: int where "dfs_available \<equiv> 2"

abbreviation band_2ghz :: int where "band_2ghz \<equiv> 0"
abbreviation band_5ghz :: int where "band_5ghz \<equiv> 1"
abbreviation band_60ghz :: int where "band_60ghz \<equiv> 2"
abbreviation band_6ghz :: int where "band_6ghz \<equiv> 3"

section \<open>Loops over attributes\<close>

text \<open>A loop over the attributes of a block; the steps may fail.\<close>

fun fold_ok :: "('a \<Rightarrow> 's \<Rightarrow> 'e + 's) \<Rightarrow> 'a list \<Rightarrow> 's \<Rightarrow> 'e + 's" where
  "fold_ok f [] s = Inr s"
| "fold_ok f (x # xs) s = (case f x s of Inl e \<Rightarrow> Inl e | Inr s' \<Rightarrow> fold_ok f xs s')"

definition scan :: "netlink \<Rightarrow> (attr \<Rightarrow> 's \<Rightarrow> nl_error + 's) \<Rightarrow> octets \<Rightarrow> 's \<Rightarrow> nl_error + 's" where
  "scan N f b s =
     (case nl_attrs N b of
        None \<Rightarrow> Inl BadAttributes
      | Some (as, ok) \<Rightarrow>
          (case fold_ok f as s of
             Inl e \<Rightarrow> Inl e
           | Inr s' \<Rightarrow> if ok then Inr s' else Inl BadAttributes))"

section \<open>Interfaces\<close>

text \<open>Types are enum nl80211_iftype.\<close>

record interface =
  if_index :: int
  if_name :: string
  if_wiphy :: int
  if_type :: "32 word"
  if_mac :: "octets option"
  if_ssid :: string
  if_freq :: int
  if_width :: int
  if_center1 :: int
  if_txpower :: int

definition iwinfo_mode :: "32 word \<Rightarrow> string" where
  "iwinfo_mode t =
     (if t = iftype_ap then ''Master'' else if t = iftype_adhoc then ''Ad-Hoc'' else if t = iftype_station then ''Client''
      else if t = iftype_monitor then ''Monitor'' else if t = iftype_ap_vlan then ''Master (VLAN)'' else if t = iftype_wds then ''WDS''
      else if t = iftype_mesh_point then ''Mesh Point'' else if t = iftype_p2p_client then ''P2P Client'' else if t = iftype_p2p_go then ''P2P Go''
      else ''Unknown'')"

definition empty_interface :: interface where
  "empty_interface = \<lparr>if_index = 0, if_name = [], if_wiphy = 0, if_type = 0, if_mac = None, if_ssid = [],
     if_freq = 0, if_width = -1, if_center1 = 0, if_txpower = 0\<rparr>"

definition interface_attr :: "netlink \<Rightarrow> attr \<Rightarrow> interface \<Rightarrow> interface" where
  "interface_attr N a i =
     (let (t, v) = a
      in if t = attr_ifindex then i\<lparr>if_index := u32_int N v\<rparr>
         else if t = attr_ifname then i\<lparr>if_name := cstring v\<rparr>
         else if t = attr_wiphy then i\<lparr>if_wiphy := u32_int N v\<rparr>
         else if t = attr_iftype then i\<lparr>if_type := u32 N v\<rparr>
         else if t = attr_mac then (if length v = 6 then i\<lparr>if_mac := Some v\<rparr> else i)
         else if t = attr_ssid then i\<lparr>if_ssid := octet_string v\<rparr>
         else if t = attr_wiphy_freq then i\<lparr>if_freq := u32_int N v\<rparr>
         else if t = attr_channel_width then i\<lparr>if_width := u32_int N v\<rparr>
         else if t = attr_center_freq1 then i\<lparr>if_center1 := u32_int N v\<rparr>
         else if t = attr_wiphy_tx_power_lvl then i\<lparr>if_txpower := sint (u32 N v)\<rparr>
         else i)"

definition parse_interface :: "netlink \<Rightarrow> octets \<Rightarrow> nl_error + interface" where
  "parse_interface N b = scan N (\<lambda>a i. Inr (interface_attr N a i)) b empty_interface"

text \<open>\<open>Interfaces\<close>, from the messages of the dump; a wdev without a netdev is left out.\<close>

fun parse_interfaces :: "netlink \<Rightarrow> octets list \<Rightarrow> nl_error + interface list" where
  "parse_interfaces N [] = Inr []"
| "parse_interfaces N (m # ms) =
     (case parse_interface N m of
        Inl e \<Rightarrow> Inl e
      | Inr i \<Rightarrow> (case parse_interfaces N ms of
          Inl e \<Rightarrow> Inl e
        | Inr is \<Rightarrow> Inr (if if_index i = 0 then is else i # is)))"

section \<open>Stations\<close>

record station_info =
  sn_mac :: "octets option"
  sn_inactive :: "32 word"
  sn_connected :: "32 word option"
  sn_rx_bytes :: "64 word"
  sn_tx_bytes :: "64 word"
  sn_has_bytes :: bool
  sn_rx_packets :: "32 word"
  sn_tx_packets :: "32 word"
  sn_has_packets :: bool
  sn_tx_retries :: "32 word"
  sn_tx_failed :: "32 word"
  sn_signal :: "int option"
  sn_signal_avg :: "int option"
  sn_tx_rate :: "32 word option"
  sn_rx_rate :: "32 word option"
  sn_tx_rate16 :: "16 word"
  sn_has_tx_rate16 :: bool
  sn_throughput :: "32 word option"
  sn_flags :: "(bool \<times> bool \<times> bool) option"

definition empty_station :: station_info where
  "empty_station = \<lparr>sn_mac = None, sn_inactive = 0, sn_connected = None, sn_rx_bytes = 0, sn_tx_bytes = 0,
     sn_has_bytes = False, sn_rx_packets = 0, sn_tx_packets = 0, sn_has_packets = False,
     sn_tx_retries = 0, sn_tx_failed = 0, sn_signal = None, sn_signal_avg = None, sn_tx_rate = None,
     sn_rx_rate = None, sn_tx_rate16 = 0, sn_has_tx_rate16 = False, sn_throughput = None, sn_flags = None\<rparr>"

record rates =
  rt_32 :: "32 word option"
  rt_16 :: "16 word option"

text \<open>\<open>parseRate\<close>: a block that cannot be decoded gives what was read before the error.\<close>

definition rate_attr :: "netlink \<Rightarrow> attr \<Rightarrow> rates \<Rightarrow> rates" where
  "rate_attr N a r =
     (let (t, v) = a
      in if t = rate_bitrate32 then r\<lparr>rt_32 := Some (u32 N v)\<rparr>
         else if t = rate_bitrate \<and> length v \<ge> 2 then r\<lparr>rt_16 := Some (u16 N v)\<rparr> else r)"

definition parse_rate :: "netlink \<Rightarrow> octets \<Rightarrow> rates" where
  "parse_rate N b =
     (case nl_attrs N b of
        None \<Rightarrow> \<lparr>rt_32 = None, rt_16 = None\<rparr>
      | Some (as, _) \<Rightarrow> fold (rate_attr N) as \<lparr>rt_32 = None, rt_16 = None\<rparr>)"

definition rate_value :: "rates \<Rightarrow> 32 word option" where
  "rate_value r = (case rt_32 r of Some x \<Rightarrow> Some x | None \<Rightarrow> map_option ucast (rt_16 r))"

definition flag :: "32 word \<Rightarrow> 32 word \<Rightarrow> nat \<Rightarrow> bool" where
  "flag msk val n \<longleftrightarrow> bit msk n \<and> bit val n"

text \<open>The 32-bit byte counters seen so far beside the station.\<close>

type_synonym counters = "64 word \<times> 64 word \<times> bool"

definition sta_attr :: "netlink \<Rightarrow> attr \<Rightarrow> station_info \<times> counters \<Rightarrow> station_info \<times> counters" where
  "sta_attr N a acc =
     (let (t, v) = a; (s, rx, tx, have) = acc
      in if t = sta_inactive_time then (s\<lparr>sn_inactive := u32 N v\<rparr>, rx, tx, have)
         else if t = sta_connected_time then (s\<lparr>sn_connected := Some (u32 N v)\<rparr>, rx, tx, have)
         else if t = sta_rx_bytes then (s, ucast (u32 N v), tx, True)
         else if t = sta_tx_bytes then (s, rx, ucast (u32 N v), True)
         else if t = sta_rx_bytes64 then (s\<lparr>sn_rx_bytes := u64 N v, sn_has_bytes := True\<rparr>, rx, tx, have)
         else if t = sta_tx_bytes64 then (s\<lparr>sn_tx_bytes := u64 N v, sn_has_bytes := True\<rparr>, rx, tx, have)
         else if t = sta_rx_packets then (s\<lparr>sn_rx_packets := u32 N v, sn_has_packets := True\<rparr>, rx, tx, have)
         else if t = sta_tx_packets then (s\<lparr>sn_tx_packets := u32 N v, sn_has_packets := True\<rparr>, rx, tx, have)
         else if t = sta_tx_retries then (s\<lparr>sn_tx_retries := u32 N v\<rparr>, rx, tx, have)
         else if t = sta_tx_failed then (s\<lparr>sn_tx_failed := u32 N v\<rparr>, rx, tx, have)
         else if t = sta_signal then ((if v \<noteq> [] then s\<lparr>sn_signal := Some (sint (hd v))\<rparr> else s), rx, tx, have)
         else if t = sta_signal_avg then ((if v \<noteq> [] then s\<lparr>sn_signal_avg := Some (sint (hd v))\<rparr> else s), rx, tx, have)
         else if t = sta_tx_bitrate then
           (let r = parse_rate N v;
                s1 = (if rate_value r \<noteq> None then s\<lparr>sn_tx_rate := rate_value r\<rparr> else s)
            in (s1\<lparr>sn_tx_rate16 := (case rt_16 r of Some x \<Rightarrow> x | None \<Rightarrow> 0),
                   sn_has_tx_rate16 := (rt_16 r \<noteq> None)\<rparr>, rx, tx, have))
         else if t = sta_rx_bitrate then
           (let r = parse_rate N v
            in (if rate_value r \<noteq> None then s\<lparr>sn_rx_rate := rate_value r\<rparr> else s, rx, tx, have))
         else if t = sta_expected_throughput then (s\<lparr>sn_throughput := Some (u32 N v)\<rparr>, rx, tx, have)
         else if t = sta_flags then
           (if length v \<ge> 8
            then (let msk = word_of_int (native N (take 4 v)); val = word_of_int (native N (take 4 (drop 4 v)))
                  in (s\<lparr>sn_flags := Some (flag msk val sta_flag_authorized, flag msk val sta_flag_authenticated, flag msk val sta_flag_associated)\<rparr>, rx, tx, have))
            else (s, rx, tx, have))
         else (s, rx, tx, have))"

definition parse_sta_info :: "netlink \<Rightarrow> octets \<Rightarrow> station_info \<Rightarrow> nl_error + station_info" where
  "parse_sta_info N b s =
     (case scan N (\<lambda>a acc. Inr (sta_attr N a acc)) b (s, 0, 0, False) of
        Inl e \<Rightarrow> Inl e
      | Inr (s', rx, tx, have) \<Rightarrow>
          Inr (if \<not> sn_has_bytes s' \<and> have
               then s'\<lparr>sn_rx_bytes := rx, sn_tx_bytes := tx, sn_has_bytes := True\<rparr> else s'))"

definition station_attr :: "netlink \<Rightarrow> attr \<Rightarrow> station_info \<Rightarrow> nl_error + station_info" where
  "station_attr N a s =
     (let (t, v) = a
      in if t = attr_mac then Inr (if length v = 6 then s\<lparr>sn_mac := Some v\<rparr> else s)
         else if t = attr_sta_info then parse_sta_info N v s
         else Inr s)"

definition parse_station :: "netlink \<Rightarrow> octets \<Rightarrow> nl_error + station_info" where
  "parse_station N b = scan N (station_attr N) b empty_station"

fun parse_stations :: "netlink \<Rightarrow> octets list \<Rightarrow> nl_error + station_info list" where
  "parse_stations N [] = Inr []"
| "parse_stations N (m # ms) =
     (case parse_station N m of
        Inl e \<Rightarrow> Inl e
      | Inr s \<Rightarrow> (case parse_stations N ms of
          Inl e \<Rightarrow> Inl e
        | Inr ss \<Rightarrow> Inr (if sn_mac s = None then ss else s # ss)))"

section \<open>The survey\<close>

record survey_entry =
  sv_freq :: int
  sv_noise :: "int option"
  sv_in_use :: bool
  sv_time :: "64 word"
  sv_busy :: "64 word"
  sv_rx :: "64 word"
  sv_tx :: "64 word"

definition empty_survey :: survey_entry where
  "empty_survey = \<lparr>sv_freq = 0, sv_noise = None, sv_in_use = False, sv_time = 0, sv_busy = 0, sv_rx = 0, sv_tx = 0\<rparr>"

definition survey_attr :: "netlink \<Rightarrow> attr \<Rightarrow> survey_entry \<Rightarrow> survey_entry" where
  "survey_attr N a e =
     (let (t, v) = a
      in if t = survey_frequency then e\<lparr>sv_freq := u32_int N v\<rparr>
         else if t = survey_noise then (if v \<noteq> [] then e\<lparr>sv_noise := Some (sint (hd v))\<rparr> else e)
         else if t = survey_in_use then e\<lparr>sv_in_use := True\<rparr>
         else if t = survey_time then e\<lparr>sv_time := u64 N v\<rparr>
         else if t = survey_time_busy then e\<lparr>sv_busy := u64 N v\<rparr>
         else if t = survey_time_rx then e\<lparr>sv_rx := u64 N v\<rparr>
         else if t = survey_time_tx then e\<lparr>sv_tx := u64 N v\<rparr>
         else e)"

definition survey_info :: "netlink \<Rightarrow> attr \<Rightarrow> survey_entry \<times> bool \<Rightarrow> nl_error + (survey_entry \<times> bool)" where
  "survey_info N a acc =
     (let (t, v) = a; (e, found) = acc
      in if t \<noteq> attr_survey_info then Inr acc
         else (case scan N (\<lambda>a e. Inr (survey_attr N a e)) v e of
                 Inl x \<Rightarrow> Inl x | Inr e' \<Rightarrow> Inr (e', True)))"

definition parse_survey :: "netlink \<Rightarrow> octets \<Rightarrow> nl_error + (survey_entry \<times> bool)" where
  "parse_survey N b = scan N (survey_info N) b (empty_survey, False)"

fun parse_surveys :: "netlink \<Rightarrow> octets list \<Rightarrow> nl_error + survey_entry list" where
  "parse_surveys N [] = Inr []"
| "parse_surveys N (m # ms) =
     (case parse_survey N m of
        Inl x \<Rightarrow> Inl x
      | Inr (e, found) \<Rightarrow> (case parse_surveys N ms of
          Inl x \<Rightarrow> Inl x
        | Inr es \<Rightarrow> Inr (if found then e # es else es)))"

text \<open>\<open>RegDomain\<close>: the first alpha2 of the messages.\<close>

fun parse_reg_domain :: "netlink \<Rightarrow> octets list \<Rightarrow> nl_error + string" where
  "parse_reg_domain N [] = Inr []"
| "parse_reg_domain N (m # ms) =
     (case nl_attrs N m of
        None \<Rightarrow> Inl BadAttributes
      | Some (as, _) \<Rightarrow>
          (case List.find (\<lambda>(t, _). t = attr_reg_alpha2) as of
             Some (_, v) \<Rightarrow> Inr (cstring v)
           | None \<Rightarrow> parse_reg_domain N ms))"

section \<open>Channels\<close>

text \<open>Go's integer division rounds towards zero.\<close>

definition freq_to_channel :: "int \<Rightarrow> int" where
  "freq_to_channel f =
     (if f \<le> 0 then 0
      else if f = 2484 then 14
      else if f < 2484 then (f - 2407) sdiv 5
      else if f \<ge> 4910 \<and> f \<le> 4980 then (f - 4000) sdiv 5
      else if f < 5950 then (f - 5000) sdiv 5
      else if f \<le> 45000 then (f - 5950) sdiv 5
      else if f \<ge> 58320 \<and> f \<le> 70200 then (f - 56160) sdiv 2160
      else 0)"

definition band :: "int \<Rightarrow> string" where
  "band f =
     (if f \<le> 0 then [] else if f < 3000 then ''2.4'' else if f < 5900 then ''5''
      else if f < 58000 then ''6'' else ''60'')"

definition channel_width_mhz :: "int \<Rightarrow> int" where
  "channel_width_mhz w =
     (if w = 0 \<or> w = 1 then 20 else if w = 2 then 40 else if w = 3 then 80 else if w = 4 \<or> w = 5 then 160
      else if w = 6 then 5 else if w = 7 then 10 else if w = 13 then 320 else 0)"

definition dfs_region_name :: "int \<Rightarrow> string" where
  "dfs_region_name r = (if r = dfs_fcc then ''FCC'' else if r = dfs_etsi then ''ETSI'' else if r = dfs_jp then ''JP'' else [])"

end
