(* ===== verification/Wiphy.thy ===== *)
theory Wiphy
  imports Nl80211
begin

text \<open>
  The radios, \<open>internal/nl80211/wiphy.go\<close>: the split wiphy dump (a radio and a band of it span several
  messages), the regulatory domains, and how many interfaces of a type a radio can run. The maps by
  index are association lists; a radio's bands are kept beside it until the end, as in the source.
\<close>

section \<open>Data\<close>

record wiphy_freq =
  wf_mhz :: int
  wf_disabled :: bool
  wf_no_ir :: bool
  wf_radar :: bool
  wf_indoor :: bool
  wf_max_power :: int
  wf_dfs_state :: int
  wf_cac_ms :: int
  wf_no_ht40_minus :: bool
  wf_no_ht40_plus :: bool
  wf_no_80 :: bool
  wf_no_160 :: bool
  wf_no_320 :: bool
  wf_no_he :: bool
  wf_no_eht :: bool

record wiphy_band =
  wb_band :: int
  wb_freqs :: "wiphy_freq list"
  wb_ht :: "16 word"
  wb_vht :: "32 word"
  wb_he_phy :: "8 word"
  wb_eht_phy :: "8 word"
  wb_has_he :: bool
  wb_has_eht :: bool

record iface_limit =
  il_max :: int
  il_types :: "32 word list"

record iface_combination =
  ic_limits :: "iface_limit list"
  ic_max_num :: int
  ic_channels :: int
  ic_radar_widths :: "32 word"

record wiphy =
  wp_index :: int
  wp_name :: string
  wp_bands :: "wiphy_band list"
  wp_types :: "32 word list"
  wp_combinations :: "iface_combination list"
  wp_self_managed :: bool
  wp_antenna_tx :: "32 word"
  wp_antenna_rx :: "32 word"

section \<open>The kernel's numbers\<close>

abbreviation attr_wiphy_name :: "16 word" where "attr_wiphy_name \<equiv> 2"
abbreviation attr_wiphy_bands :: "16 word" where "attr_wiphy_bands \<equiv> 22"
abbreviation attr_supported_iftypes :: "16 word" where "attr_supported_iftypes \<equiv> 32"
abbreviation attr_wiphy_antenna_avail_tx :: "16 word" where "attr_wiphy_antenna_avail_tx \<equiv> 113"
abbreviation attr_wiphy_antenna_avail_rx :: "16 word" where "attr_wiphy_antenna_avail_rx \<equiv> 114"
abbreviation attr_interface_combinations :: "16 word" where "attr_interface_combinations \<equiv> 120"
abbreviation attr_dfs_region :: "16 word" where "attr_dfs_region \<equiv> 146"
abbreviation attr_split_wiphy_dump :: "16 word" where "attr_split_wiphy_dump \<equiv> 174"
abbreviation attr_wiphy_self_managed_reg :: "16 word" where "attr_wiphy_self_managed_reg \<equiv> 216"

abbreviation band_attr_freqs :: "16 word" where "band_attr_freqs \<equiv> 1"
abbreviation band_attr_ht_capa :: "16 word" where "band_attr_ht_capa \<equiv> 4"
abbreviation band_attr_vht_capa :: "16 word" where "band_attr_vht_capa \<equiv> 8"
abbreviation band_attr_iftype_data :: "16 word" where "band_attr_iftype_data \<equiv> 9"
abbreviation band_iftype_attr_iftypes :: "16 word" where "band_iftype_attr_iftypes \<equiv> 1"
abbreviation band_iftype_attr_he_cap_phy :: "16 word" where "band_iftype_attr_he_cap_phy \<equiv> 3"
abbreviation band_iftype_attr_eht_cap_phy :: "16 word" where "band_iftype_attr_eht_cap_phy \<equiv> 9"

abbreviation freq_attr_freq :: "16 word" where "freq_attr_freq \<equiv> 1"
abbreviation freq_attr_disabled :: "16 word" where "freq_attr_disabled \<equiv> 2"
abbreviation freq_attr_no_ir :: "16 word" where "freq_attr_no_ir \<equiv> 3"
abbreviation freq_attr_radar :: "16 word" where "freq_attr_radar \<equiv> 5"
abbreviation freq_attr_max_tx_power :: "16 word" where "freq_attr_max_tx_power \<equiv> 6"
abbreviation freq_attr_dfs_state :: "16 word" where "freq_attr_dfs_state \<equiv> 7"
abbreviation freq_attr_no_ht40_minus :: "16 word" where "freq_attr_no_ht40_minus \<equiv> 9"
abbreviation freq_attr_no_ht40_plus :: "16 word" where "freq_attr_no_ht40_plus \<equiv> 10"
abbreviation freq_attr_no80 :: "16 word" where "freq_attr_no80 \<equiv> 11"
abbreviation freq_attr_no160 :: "16 word" where "freq_attr_no160 \<equiv> 12"
abbreviation freq_attr_dfs_cac_time :: "16 word" where "freq_attr_dfs_cac_time \<equiv> 13"
abbreviation freq_attr_indoor_only :: "16 word" where "freq_attr_indoor_only \<equiv> 14"
abbreviation freq_attr_no_he :: "16 word" where "freq_attr_no_he \<equiv> 19"
abbreviation freq_attr_no320 :: "16 word" where "freq_attr_no320 \<equiv> 26"
abbreviation freq_attr_no_eht :: "16 word" where "freq_attr_no_eht \<equiv> 27"

abbreviation iface_comb_limits :: "16 word" where "iface_comb_limits \<equiv> 1"
abbreviation iface_comb_max_num :: "16 word" where "iface_comb_max_num \<equiv> 2"
abbreviation iface_comb_num_channels :: "16 word" where "iface_comb_num_channels \<equiv> 4"
abbreviation iface_comb_radar_detect_widths :: "16 word" where "iface_comb_radar_detect_widths \<equiv> 5"
abbreviation iface_limit_max :: "16 word" where "iface_limit_max \<equiv> 1"
abbreviation iface_limit_types :: "16 word" where "iface_limit_types \<equiv> 2"

section \<open>What a radio can run\<close>

definition combination_interfaces :: "32 word \<Rightarrow> iface_combination \<Rightarrow> int" where
  "combination_interfaces t c =
     (let n = fold (\<lambda>l n. if t \<in> set (il_types l) then n + il_max l else n) (ic_limits c) 0
      in if ic_max_num c > 0 \<and> n > ic_max_num c then ic_max_num c else n)"

definition max_interfaces :: "wiphy \<Rightarrow> 32 word \<Rightarrow> int" where
  "max_interfaces w t =
     (let best = fold (\<lambda>c best. let n = combination_interfaces t c in if n > best then n else best)
                   (wp_combinations w) 0
      in if best = 0 \<and> t \<in> set (wp_types w) then 1 else best)"

definition find_band :: "wiphy \<Rightarrow> int \<Rightarrow> wiphy_band option" where
  "find_band w b = List.find (\<lambda>x. wb_band x = b) (wp_bands w)"

section \<open>Nested blocks\<close>

definition parse_iftype_flags :: "netlink \<Rightarrow> octets \<Rightarrow> 32 word list" where
  "parse_iftype_flags N b =
     (case nl_attrs N b of None \<Rightarrow> [] | Some (as, _) \<Rightarrow> map (\<lambda>(t, _). ucast t) as)"

definition limit_attr :: "netlink \<Rightarrow> attr \<Rightarrow> iface_limit \<Rightarrow> iface_limit" where
  "limit_attr N a l =
     (let (t, v) = a
      in if t = iface_limit_max then l\<lparr>il_max := u32_int N v\<rparr>
         else if t = iface_limit_types then l\<lparr>il_types := parse_iftype_flags N v\<rparr> else l)"

definition limits_attr :: "netlink \<Rightarrow> attr \<Rightarrow> iface_limit list \<Rightarrow> nl_error + iface_limit list" where
  "limits_attr N a ls =
     (case scan N (\<lambda>a l. Inr (limit_attr N a l)) (snd a) \<lparr>il_max = 0, il_types = []\<rparr> of
        Inl e \<Rightarrow> Inl e | Inr l \<Rightarrow> Inr (ls @ [l]))"

definition combination_attr ::
  "netlink \<Rightarrow> attr \<Rightarrow> iface_combination \<Rightarrow> nl_error + iface_combination" where
  "combination_attr N a c =
     (let (t, v) = a
      in if t = iface_comb_limits then
           (case scan N (limits_attr N) v (ic_limits c) of
              Inl e \<Rightarrow> Inl e | Inr ls \<Rightarrow> Inr (c\<lparr>ic_limits := ls\<rparr>))
         else if t = iface_comb_max_num then Inr (c\<lparr>ic_max_num := u32_int N v\<rparr>)
         else if t = iface_comb_num_channels then Inr (c\<lparr>ic_channels := u32_int N v\<rparr>)
         else if t = iface_comb_radar_detect_widths then Inr (c\<lparr>ic_radar_widths := u32 N v\<rparr>)
         else Inr c)"

definition combinations_attr ::
  "netlink \<Rightarrow> attr \<Rightarrow> iface_combination list \<Rightarrow> nl_error + iface_combination list" where
  "combinations_attr N a cs =
     (case scan N (combination_attr N) (snd a)
             \<lparr>ic_limits = [], ic_max_num = 0, ic_channels = 0, ic_radar_widths = 0\<rparr> of
        Inl e \<Rightarrow> Inl e | Inr c \<Rightarrow> Inr (cs @ [c]))"

definition parse_combinations :: "netlink \<Rightarrow> octets \<Rightarrow> nl_error + iface_combination list" where
  "parse_combinations N b = scan N (combinations_attr N) b []"

definition empty_freq :: wiphy_freq where
  "empty_freq = \<lparr>wf_mhz = 0, wf_disabled = False, wf_no_ir = False, wf_radar = False, wf_indoor = False,
     wf_max_power = 0, wf_dfs_state = 0, wf_cac_ms = 0, wf_no_ht40_minus = False, wf_no_ht40_plus = False,
     wf_no_80 = False, wf_no_160 = False, wf_no_320 = False, wf_no_he = False, wf_no_eht = False\<rparr>"

definition freq_attr :: "netlink \<Rightarrow> attr \<Rightarrow> wiphy_freq \<Rightarrow> wiphy_freq" where
  "freq_attr N a f =
     (let (t, v) = a
      in if t = freq_attr_freq then f\<lparr>wf_mhz := u32_int N v\<rparr>
         else if t = freq_attr_disabled then f\<lparr>wf_disabled := True\<rparr>
         else if t = freq_attr_no_ir then f\<lparr>wf_no_ir := True\<rparr>
         else if t = freq_attr_radar then f\<lparr>wf_radar := True\<rparr>
         else if t = freq_attr_max_tx_power then f\<lparr>wf_max_power := u32_int N v\<rparr>
         else if t = freq_attr_dfs_state then f\<lparr>wf_dfs_state := u32_int N v\<rparr>
         else if t = freq_attr_dfs_cac_time then f\<lparr>wf_cac_ms := u32_int N v\<rparr>
         else if t = freq_attr_indoor_only then f\<lparr>wf_indoor := True\<rparr>
         else if t = freq_attr_no_ht40_minus then f\<lparr>wf_no_ht40_minus := True\<rparr>
         else if t = freq_attr_no_ht40_plus then f\<lparr>wf_no_ht40_plus := True\<rparr>
         else if t = freq_attr_no80 then f\<lparr>wf_no_80 := True\<rparr>
         else if t = freq_attr_no160 then f\<lparr>wf_no_160 := True\<rparr>
         else if t = freq_attr_no320 then f\<lparr>wf_no_320 := True\<rparr>
         else if t = freq_attr_no_he then f\<lparr>wf_no_he := True\<rparr>
         else if t = freq_attr_no_eht then f\<lparr>wf_no_eht := True\<rparr>
         else f)"

definition freqs_attr :: "netlink \<Rightarrow> attr \<Rightarrow> wiphy_freq list \<Rightarrow> nl_error + wiphy_freq list" where
  "freqs_attr N a fs =
     (case scan N (\<lambda>a f. Inr (freq_attr N a f)) (snd a) empty_freq of
        Inl e \<Rightarrow> Inl e | Inr f \<Rightarrow> Inr (if wf_mhz f > 0 then fs @ [f] else fs))"

definition parse_freqs :: "netlink \<Rightarrow> octets \<Rightarrow> nl_error + wiphy_freq list" where
  "parse_freqs N b = scan N (freqs_attr N) b []"

definition iftype_caps :: "attr \<Rightarrow> wiphy_band \<Rightarrow> wiphy_band" where
  "iftype_caps a w =
     (let (t, v) = a
      in if t = band_iftype_attr_he_cap_phy \<and> v \<noteq> [] then w\<lparr>wb_has_he := True, wb_he_phy := or (wb_he_phy w) (hd v)\<rparr>
         else if t = band_iftype_attr_eht_cap_phy \<and> v \<noteq> [] then w\<lparr>wb_has_eht := True, wb_eht_phy := or (wb_eht_phy w) (hd v)\<rparr>
         else w)"

definition iftype_data :: "netlink \<Rightarrow> attr \<Rightarrow> wiphy_band \<Rightarrow> nl_error + wiphy_band" where
  "iftype_data N a w = scan N (\<lambda>a w. Inr (iftype_caps a w)) (snd a) w"

definition parse_iftype_data :: "netlink \<Rightarrow> octets \<Rightarrow> wiphy_band \<Rightarrow> nl_error + wiphy_band" where
  "parse_iftype_data N b w = scan N (iftype_data N) b w"

definition band_attr :: "netlink \<Rightarrow> attr \<Rightarrow> wiphy_band \<Rightarrow> nl_error + wiphy_band" where
  "band_attr N a w =
     (let (t, v) = a
      in if t = band_attr_freqs then
           (case parse_freqs N v of Inl e \<Rightarrow> Inl e | Inr fs \<Rightarrow> Inr (w\<lparr>wb_freqs := wb_freqs w @ fs\<rparr>))
         else if t = band_attr_ht_capa then Inr (w\<lparr>wb_ht := ucast (u32 N v)\<rparr>)
         else if t = band_attr_vht_capa then Inr (w\<lparr>wb_vht := u32 N v\<rparr>)
         else if t = band_attr_iftype_data then parse_iftype_data N v w
         else Inr w)"

definition empty_band :: "int \<Rightarrow> wiphy_band" where
  "empty_band i = \<lparr>wb_band = i, wb_freqs = [], wb_ht = 0, wb_vht = 0, wb_he_phy = 0, wb_eht_phy = 0,
     wb_has_he = False, wb_has_eht = False\<rparr>"

type_synonym bands = "(int \<times> wiphy_band) list"

definition bands_attr :: "netlink \<Rightarrow> attr \<Rightarrow> bands \<Rightarrow> nl_error + bands" where
  "bands_attr N a acc =
     (let idx = uint (fst a); w = lookup_default (empty_band idx) acc idx
      in case scan N (band_attr N) (snd a) w of
           Inl e \<Rightarrow> Inl e | Inr w' \<Rightarrow> Inr (put idx w' acc))"

definition parse_bands :: "netlink \<Rightarrow> octets \<Rightarrow> bands \<Rightarrow> nl_error + bands" where
  "parse_bands N b acc = scan N (bands_attr N) b acc"

section \<open>The dump\<close>

text \<open>A radio with its bands so far; its own \<open>wp_bands\<close> stays empty until the end.\<close>

type_synonym radio = "wiphy \<times> bands"

definition empty_wiphy :: "int \<Rightarrow> wiphy" where
  "empty_wiphy i = \<lparr>wp_index = i, wp_name = [], wp_bands = [], wp_types = [], wp_combinations = [],
     wp_self_managed = False, wp_antenna_tx = 0, wp_antenna_rx = 0\<rparr>"

definition wiphy_attr :: "netlink \<Rightarrow> attr \<Rightarrow> radio \<Rightarrow> nl_error + radio" where
  "wiphy_attr N a r =
     (let (t, v) = a; (w, bs) = r
      in if t = attr_wiphy_name then Inr (w\<lparr>wp_name := cstring v\<rparr>, bs)
         else if t = attr_supported_iftypes then Inr (w\<lparr>wp_types := wp_types w @ parse_iftype_flags N v\<rparr>, bs)
         else if t = attr_wiphy_self_managed_reg then Inr (w\<lparr>wp_self_managed := True\<rparr>, bs)
         else if t = attr_wiphy_antenna_avail_tx then Inr (w\<lparr>wp_antenna_tx := u32 N v\<rparr>, bs)
         else if t = attr_wiphy_antenna_avail_rx then Inr (w\<lparr>wp_antenna_rx := u32 N v\<rparr>, bs)
         else if t = attr_interface_combinations then
           (case parse_combinations N v of
              Inl e \<Rightarrow> Inl e
            | Inr cs \<Rightarrow> Inr (w\<lparr>wp_combinations := wp_combinations w @ cs\<rparr>, bs))
         else if t = attr_wiphy_bands then
           (case parse_bands N v bs of Inl e \<Rightarrow> Inl e | Inr bs' \<Rightarrow> Inr (w, bs'))
         else Inr (w, bs))"

text \<open>The radios by index, in the order they were first seen.\<close>

type_synonym radios = "(int \<times> radio) list"

text \<open>A message names its radio with attribute 1 (every such attribute makes the radio known; the
  last one is the message's).\<close>

definition known_radio :: "int \<Rightarrow> radios \<Rightarrow> radios" where
  "known_radio i rs = (if map_of rs i = None then rs @ [(i, empty_wiphy i, [])] else rs)"

definition update_radio :: "int \<Rightarrow> radio \<Rightarrow> radios \<Rightarrow> radios" where
  "update_radio i r rs = map (\<lambda>(k, x). (k, if k = i then r else x)) rs"

definition wiphy_message :: "netlink \<Rightarrow> octets \<Rightarrow> radios \<Rightarrow> nl_error + radios" where
  "wiphy_message N b rs =
     (case nl_attrs N b of
        None \<Rightarrow> Inl BadAttributes
      | Some (as, ok) \<Rightarrow>
          (let idxs = map (\<lambda>(_, v). u32_int N v) (filter (\<lambda>(t, _). t = attr_wiphy) as);
               rest = filter (\<lambda>(t, _). t \<noteq> attr_wiphy) as;
               rs1 = fold known_radio idxs rs
           in if \<not> ok then Inl BadAttributes
              else if idxs = [] then Inr rs1
              else (case fold_ok (wiphy_attr N) rest (the (map_of rs1 (last idxs))) of
                      Inl e \<Rightarrow> Inl e
                    | Inr r \<Rightarrow> Inr (update_radio (last idxs) r rs1))))"

definition finish_radio :: "radio \<Rightarrow> wiphy" where
  "finish_radio r = (fst r)\<lparr>wp_bands := sort_key wb_band (map snd (snd r))\<rparr>"

definition parse_wiphys :: "netlink \<Rightarrow> octets list \<Rightarrow> nl_error + wiphy list" where
  "parse_wiphys N msgs =
     (case fold_ok (wiphy_message N) msgs [] of
        Inl e \<Rightarrow> Inl e
      | Inr rs \<Rightarrow> Inr (map (\<lambda>i. finish_radio (the (map_of rs i))) (sort (map fst rs))))"

section \<open>The regulatory domains\<close>

record reg_domain =
  rd_wiphy :: int
  rd_alpha2 :: string
  rd_region :: int

definition reg_attr :: "netlink \<Rightarrow> attr \<Rightarrow> reg_domain \<Rightarrow> reg_domain" where
  "reg_attr N a r =
     (let (t, v) = a
      in if t = attr_wiphy then r\<lparr>rd_wiphy := u32_int N v\<rparr>
         else if t = attr_reg_alpha2 then r\<lparr>rd_alpha2 := cstring v\<rparr>
         else if t = attr_dfs_region \<and> v \<noteq> [] then r\<lparr>rd_region := uint (hd v)\<rparr>
         else r)"

definition reg_message :: "netlink \<Rightarrow> octets \<Rightarrow> reg_domain list \<Rightarrow> nl_error + reg_domain list" where
  "reg_message N b rs =
     (case scan N (\<lambda>a r. Inr (reg_attr N a r)) b \<lparr>rd_wiphy = -1, rd_alpha2 = [], rd_region = 0\<rparr> of
        Inl e \<Rightarrow> Inl e
      | Inr r \<Rightarrow> Inr (if rd_alpha2 r \<noteq> [] then rs @ [r] else rs))"

definition parse_reg_domains :: "netlink \<Rightarrow> octets list \<Rightarrow> nl_error + reg_domain list" where
  "parse_reg_domains N msgs = fold_ok (reg_message N) msgs []"

end
