(* ===== verification/Radios.thy ===== *)
theory Radios
  imports UciKit Wiphy Complex_Main
begin

text \<open>
  The radios of the access point and what they offer, \<open>internal/wificaps/radios.go\<close> and \<open>hostapd.go\<close>:
  which phy a radio's section means, its channels and modes, what runs on it, the hostapd build and the
  regulatory domain. Files, links and directories are the record \<open>probe\<close>; the kernel's and netifd's
  answers are arguments. Powers are exact hundredths of a dBm.
\<close>

section \<open>The device's files\<close>

record probe =
  pb_file :: "string \<Rightarrow> string option"
  pb_exists :: "string \<Rightarrow> bool"
  pb_dir :: "string \<Rightarrow> string list option"
  pb_resolve :: "string \<Rightarrow> string option"

definition probe_read :: "probe \<Rightarrow> string \<Rightarrow> string" where
  "probe_read P s = (case pb_file P s of None \<Rightarrow> [] | Some b \<Rightarrow> trim_space b)"

definition probe_list :: "probe \<Rightarrow> string \<Rightarrow> string list" where
  "probe_list P d = (case pb_dir P d of None \<Rightarrow> [] | Some ns \<Rightarrow> ns)"

text \<open>\<open>atoi\<close> of the package: 0 for what is not a number (the clamped value strconv returns for one that is
  out of range is not modelled: the files read hold small numbers).\<close>

definition atoi0 :: "nat \<Rightarrow> string \<Rightarrow> int" where
  "atoi0 w s = (case atoi w (trim_space s) of None \<Rightarrow> 0 | Some n \<Rightarrow> n)"

section \<open>The sections\<close>

record uci_radio =
  ur_section :: string
  ur_path :: string
  ur_band :: string
  ur_macaddr :: string
  ur_phy :: string
  ur_country :: string
  ur_disabled :: bool

text \<open>A radio of netifd's status.\<close>

record netifd_radio =
  nr_up :: bool
  nr_disabled :: bool
  nr_retry :: bool
  nr_path :: string
  nr_band :: string
  nr_hwmode :: string
  nr_htmode :: string
  nr_country :: string
  nr_ifaces :: "(string \<times> string) list"

type_synonym netifd_status = "(string \<times> netifd_radio) list"

definition hwmode_band :: "string \<Rightarrow> string" where
  "hwmode_band h =
     (if h = ''11a'' then ''5g'' else if h = ''11b'' \<or> h = ''11g'' then ''2g''
      else if h = ''11ad'' then ''60g'' else [])"

definition uci_radio_of :: "kit \<Rightarrow> usection \<Rightarrow> uci_radio" where
  "uci_radio_of K s =
     \<lparr>ur_section = s_name s, ur_path = opt_str K s ''path'',
      ur_band = (if opt_str K s ''band'' = [] then hwmode_band (opt_str K s ''hwmode'') else opt_str K s ''band''),
      ur_macaddr = opt_str K s ''macaddr'', ur_phy = opt_str K s ''phy'', ur_country = opt_str K s ''country'',
      ur_disabled = (opt_str K s ''disabled'' = ''1'')\<rparr>"

text \<open>\<open>uciRadios\<close>: the sections of the configuration, if it can be read, else netifd's radios.\<close>

definition uci_radios :: "kit \<Rightarrow> uconfig option \<Rightarrow> netifd_status \<Rightarrow> uci_radio list" where
  "uci_radios K cfg st =
     (case cfg of
        Some c \<Rightarrow> map (\<lambda>i. uci_radio_of K (cfg_sections c ! i)) (k_of_type K c ''wifi-device'')
      | None \<Rightarrow>
          map (\<lambda>(name, r).
            \<lparr>ur_section = name, ur_path = nr_path r,
             ur_band = (if nr_band r = [] then hwmode_band (nr_hwmode r) else nr_band r),
             ur_macaddr = [], ur_phy = [], ur_country = nr_country r, ur_disabled = False\<rparr>)
            (sort_key fst st))"

section \<open>The phys\<close>

record phy_info =
  ph_name :: string
  ph_devpath :: string
  ph_mac :: string
  ph_index :: int

definition phy_info_of :: "nat \<Rightarrow> probe \<Rightarrow> string \<Rightarrow> phy_info" where
  "phy_info_of w P name =
     (let dir = ''/sys/class/ieee80211/'' @ name
      in \<lparr>ph_name = name,
          ph_devpath = (case pb_resolve P (dir @ ''/device'') of None \<Rightarrow> [] | Some d \<Rightarrow> d),
          ph_mac = to_lower (probe_read P (dir @ ''/macaddress'')),
          ph_index = atoi0 w (probe_read P (dir @ ''/index''))\<rparr>)"

definition all_phys :: "nat \<Rightarrow> probe \<Rightarrow> phy_info list" where
  "all_phys w P = sort_key ph_index (map (phy_info_of w P) (probe_list P ''/sys/class/ieee80211''))"

definition find_phy :: "nat \<Rightarrow> phy_info list \<Rightarrow> uci_radio \<Rightarrow> string" where
  "find_phy w phys r =
     (if ur_path r \<noteq> [] then
        (let (base, ofs, _) = cut_at (CHR ''+'') (ur_path r);
             n = atoi0 w ofs;
             matches = map ph_name (filter (\<lambda>p. ph_devpath p \<noteq> [] \<and> suffix base (ph_devpath p)) phys)
         in if 0 \<le> n \<and> n < int (length matches) then matches ! nat n else [])
      else
        (case (if ur_macaddr r = [] then None
               else List.find (\<lambda>p. ph_mac p = to_lower (ur_macaddr r)) phys) of
           Some p \<Rightarrow> ph_name p
         | None \<Rightarrow>
             (case (if ur_phy r = [] then None else List.find (\<lambda>p. ph_name p = ur_phy r) phys) of
                Some p \<Rightarrow> ph_name p
              | None \<Rightarrow> [])))"

text \<open>\<open>radioPhys\<close>: the last of two sections with one name counts.\<close>

definition radio_phys :: "nat \<Rightarrow> probe \<Rightarrow> uci_radio list \<Rightarrow> (string \<times> string) list" where
  "radio_phys w P rs = fold (\<lambda>r m. put (ur_section r) (find_phy w (all_phys w P) r) m) rs []"

section \<open>What a band offers\<close>

definition band_index :: "string \<Rightarrow> int" where
  "band_index b =
     (if b = ''2g'' then band_2ghz else if b = ''5g'' then band_5ghz else if b = ''6g'' then band_6ghz
      else if b = ''60g'' then band_60ghz else -1)"

definition add_mode :: "bool \<times> string \<Rightarrow> string list \<Rightarrow> string list" where
  "add_mode p ms = (if fst p \<and> snd p \<notin> set ms then ms @ [snd p] else ms)"

definition ht_candidates :: "wiphy_band \<Rightarrow> (bool \<times> string) list" where
  "ht_candidates b =
     (let ht = wb_ht b > 0; vht = wb_vht b > 0; he = wb_has_he b; eht = wb_has_eht b;
          he_cap = wb_he_phy b; eht_cap = wb_eht_phy b
      in [(True, ''NOHT''), (ht, ''HT20''), (vht, ''VHT20''), (he, ''HE20''), (eht, ''EHT20'')]
       @ (if and (wb_ht b) 2 \<noteq> 0 then [(True, ''HT40''), (vht, ''VHT40'')] else [])
       @ [(and he_cap 2 \<noteq> 0, ''HE40''), (eht \<and> and he_cap 2 \<noteq> 0, ''EHT40'')]
       @ (if wb_band b \<noteq> 0 then
            [(and he_cap 4 \<noteq> 0, ''HE40''), (eht \<and> and he_cap 4 \<noteq> 0, ''EHT40''), (vht, ''VHT80''),
             (and he_cap 4 \<noteq> 0, ''HE80''), (eht \<and> and he_cap 4 \<noteq> 0, ''EHT80''),
             (and (drop_bit 2 (wb_vht b)) 3 \<noteq> 0, ''VHT160''), (and he_cap 24 \<noteq> 0, ''HE160''),
             (eht \<and> and he_cap 24 \<noteq> 0, ''EHT160''), (and eht_cap 2 \<noteq> 0, ''EHT320'')]
          else []))"

definition ht_modes :: "wiphy_band \<Rightarrow> string list" where
  "ht_modes b = (if wb_band b = band_60ghz then [] else fold add_mode (ht_candidates b) [])"

text \<open>The width an \<open>htmode\<close> names, if it names one.\<close>

definition mode_width :: "nat \<Rightarrow> string \<Rightarrow> int option" where
  "mode_width w m =
     (let ds = dropWhile (\<lambda>c. \<not> is_digit c) m
      in if ds = [] \<or> length ds = length m then None else Some (atoi0 w ds))"

definition generations :: "wiphy_band \<Rightarrow> string list" where
  "generations b =
     map snd (filter fst [(wb_ht b > 0, ''HT''), (wb_vht b > 0, ''VHT''), (wb_has_he b, ''HE''), (wb_has_eht b, ''EHT'')])"

definition band_widths :: "nat \<Rightarrow> string list \<Rightarrow> int list" where
  "band_widths w hs = sort (remdups (20 # List.map_filter (mode_width w) hs))"

definition band_modes :: "nat \<Rightarrow> wiphy_band \<Rightarrow> int list \<times> string list \<times> string list" where
  "band_modes w b = (let hs = ht_modes b in (band_widths w hs, generations b, hs))"

section \<open>The radios\<close>

record radio_channel =
  ch_channel :: int
  ch_mhz :: int
  ch_max :: rat
  ch_dfs :: bool
  ch_no_ir :: bool
  ch_disabled :: bool
  ch_cac :: int
  ch_state :: string

record current_channel =
  cu_channel :: int
  cu_mhz :: int
  cu_width :: int
  cu_htmode :: string
  cu_txpower :: rat

record radio_facts =
  rf_section :: string
  rf_phy :: string
  rf_path :: string
  rf_band :: string
  rf_present :: bool
  rf_up :: bool
  rf_disabled :: bool
  rf_retry :: bool
  rf_country :: string
  rf_reg_country :: string
  rf_self_managed :: bool
  rf_txpower_max :: rat
  rf_max_bss :: int
  rf_widths :: "int list"
  rf_modes :: "string list"
  rf_htmodes :: "string list"
  rf_channels :: "radio_channel list"
  rf_current :: "current_channel option"

definition dbm :: "int \<Rightarrow> rat" where
  "dbm mbm = of_int mbm / 100"

definition freq_channel :: "int \<Rightarrow> int" where
  "freq_channel mhz = (if mhz = 5935 then 2 else freq_to_channel mhz)"

definition cac_seconds :: "wiphy_freq \<Rightarrow> string \<Rightarrow> int" where
  "cac_seconds f region =
     (if wf_cac_ms f > 0 then (wf_cac_ms f + 999) sdiv 1000
      else if region = ''ETSI'' \<and> 5600 \<le> wf_mhz f \<and> wf_mhz f \<le> 5650 then 600 else 60)"

definition dfs_state :: "int \<Rightarrow> string" where
  "dfs_state s = (if s = dfs_unavailable then ''unavailable'' else if s = dfs_available then ''available'' else ''usable'')"

definition channel_of :: "string \<Rightarrow> wiphy_freq \<Rightarrow> radio_channel" where
  "channel_of region f =
     \<lparr>ch_channel = freq_channel (wf_mhz f), ch_mhz = wf_mhz f, ch_max = dbm (wf_max_power f),
      ch_dfs = wf_radar f, ch_no_ir = wf_no_ir f, ch_disabled = wf_disabled f,
      ch_cac = (if wf_radar f then cac_seconds f region else 0),
      ch_state = (if wf_radar f then dfs_state (wf_dfs_state f) else [])\<rparr>"

text \<open>\<open>current\<close>: the phy's first interface with a frequency, an access point's if any.\<close>

definition pick_iface :: "wiphy \<Rightarrow> interface list \<Rightarrow> interface option" where
  "pick_iface w is =
     fold (\<lambda>i pick.
         if if_wiphy i \<noteq> wp_index w \<or> if_freq i \<le> 0 then pick
         else (case pick of
             None \<Rightarrow> Some i
           | Some p \<Rightarrow> if if_type i = iftype_ap \<and> if_type p \<noteq> iftype_ap then Some i else pick)) is None"

definition current_of :: "wiphy \<Rightarrow> interface list \<Rightarrow> current_channel option" where
  "current_of w is =
     map_option (\<lambda>p. \<lparr>cu_channel = freq_channel (if_freq p), cu_mhz = if_freq p,
         cu_width = channel_width_mhz (if_width p), cu_htmode = [],
         cu_txpower = (if if_txpower p > 0 then dbm (if_txpower p) else 0)\<rparr>) (pick_iface w is)"

definition wiphy_named :: "wiphy list \<Rightarrow> string \<Rightarrow> wiphy option" where
  "wiphy_named ws n = List.find (\<lambda>w. wp_name w = n) (List.rev ws)"

record regulatory =
  rg_global :: string
  rg_region :: string
  rg_reason :: "string option"
  rg_self_managed :: "string list"

text \<open>The domain of a self-managed phy, the last one reported.\<close>

definition self_domain :: "reg_domain list \<Rightarrow> int \<Rightarrow> string option" where
  "self_domain regs i =
     map_option rd_alpha2 (List.find (\<lambda>d. 0 \<le> rd_wiphy d \<and> rd_wiphy d = i) (List.rev regs))"

definition band_facts :: "nat \<Rightarrow> string \<Rightarrow> wiphy_band \<Rightarrow> radio_facts \<Rightarrow> radio_facts" where
  "band_facts w region b r =
     (let (ws, ms, hs) = band_modes w b; chs = map (channel_of region) (wb_freqs b)
      in r\<lparr>rf_widths := ws, rf_modes := ms, rf_htmodes := hs, rf_channels := chs,
           rf_txpower_max := fold (\<lambda>c best. if \<not> ch_disabled c \<and> ch_max c > best then ch_max c else best) chs
             (rf_txpower_max r)\<rparr>)"

definition radio_facts_of ::
  "nat \<Rightarrow> netifd_status \<Rightarrow> wiphy list \<Rightarrow> interface list \<Rightarrow> regulatory \<Rightarrow> reg_domain list
     \<Rightarrow> (string \<times> string) list \<Rightarrow> uci_radio \<Rightarrow> radio_facts" where
  "radio_facts_of w st ws is rg regs phys u =
     (let s = map_of st (ur_section u);
          phy = lookup_default [] phys (ur_section u);
          known = wiphy_named ws phy;
          r = \<lparr>rf_section = ur_section u, rf_phy = phy, rf_path = ur_path u, rf_band = ur_band u,
               rf_present = (phy \<noteq> [] \<and> (known \<noteq> None \<or> ws = [])),
               rf_up = (case s of None \<Rightarrow> False | Some x \<Rightarrow> nr_up x),
               rf_disabled = (ur_disabled u \<or> (case s of None \<Rightarrow> False | Some x \<Rightarrow> nr_disabled x)),
               rf_retry = (case s of None \<Rightarrow> False | Some x \<Rightarrow> nr_retry x),
               rf_country = ur_country u, rf_reg_country = [], rf_self_managed = False, rf_txpower_max = 0,
               rf_max_bss = 0, rf_widths = [], rf_modes = [], rf_htmodes = [], rf_channels = [],
               rf_current = None\<rparr>
      in case known of
           None \<Rightarrow> r
         | Some p \<Rightarrow>
             (let own = (if wp_self_managed p then self_domain regs (wp_index p) else None);
                  r1 = r\<lparr>rf_self_managed := wp_self_managed p,
                         rf_reg_country := (case own of None \<Rightarrow> rg_global rg | Some c \<Rightarrow> c),
                         rf_max_bss := max_interfaces p 3\<rparr>;
                  bi = band_index (ur_band u);
                  bi' = (if bi < 0 \<and> length (wp_bands p) = 1 then wb_band (hd (wp_bands p)) else bi);
                  r2 = (case find_band p bi' of None \<Rightarrow> r1 | Some b \<Rightarrow> band_facts w (rg_region rg) b r1)
              in r2\<lparr>rf_current :=
                   (case s of
                      None \<Rightarrow> current_of p is
                    | Some x \<Rightarrow> map_option (\<lambda>c. c\<lparr>cu_htmode := nr_htmode x\<rparr>) (current_of p is))\<rparr>))"

definition all_radios ::
  "nat \<Rightarrow> kit \<Rightarrow> probe \<Rightarrow> uconfig option \<Rightarrow> netifd_status \<Rightarrow> wiphy list \<Rightarrow> interface list \<Rightarrow> regulatory
     \<Rightarrow> reg_domain list \<Rightarrow> radio_facts list" where
  "all_radios w K P cfg st ws is rg regs =
     (let us = uci_radios K cfg st
      in map (radio_facts_of w st ws is rg regs (radio_phys w P us)) us)"

section \<open>The hostapd build and the regulatory domain\<close>

definition hostapd_variant :: "string list \<Rightarrow> string" where
  "hostapd_variant installed =
     (let wpad = filter (prefix ''wpad'') installed;
          hostapd = filter (\<lambda>n. \<not> prefix ''wpad'' n \<and> (n = ''hostapd'' \<or> prefix ''hostapd-'' n
            \<and> n \<noteq> ''hostapd-common'' \<and> n \<noteq> ''hostapd-utils'')) installed
      in if wpad \<noteq> [] then hd (sort_strings wpad)
         else if hostapd \<noteq> [] then hd (sort_strings hostapd) else [])"

definition feature_names :: "string list" where
  "feature_names = [''11r'', ''sae'', ''owe'', ''eap'', ''wps'', ''mesh'', ''11ac'', ''11ax'', ''11be'', ''acs'', ''ocv'']"

text \<open>The answers of one build, kept by the binary's size and time; \<open>run\<close> is a feature's exit status, if the
  binary could be run.\<close>

record feature_cache =
  fc_key :: string
  fc_features :: "(string \<times> bool) list"

definition hostapd_features ::
  "string option \<Rightarrow> (string \<Rightarrow> int option) \<Rightarrow> feature_cache \<Rightarrow> (string \<times> bool) list \<times> feature_cache" where
  "hostapd_features key run c =
     (let k = (case key of None \<Rightarrow> [] | Some k \<Rightarrow> k)
      in if k \<noteq> [] \<and> k = fc_key c then (fc_features c, c)
         else
           (let out = map (\<lambda>f. (f, run f = Some 0)) feature_names;
                ran = list_ex (\<lambda>f. run f \<noteq> None) feature_names
            in (out, if ran \<and> k \<noteq> [] then \<lparr>fc_key = k, fc_features = out\<rparr> else c)))"

definition identity_uid_map :: "string \<Rightarrow> bool" where
  "identity_uid_map s =
     (if s = [] then True
      else (let ls = split_at (CHR 0x0A) (trim_space s)
            in if length ls \<noteq> 1 then False
               else go_fields (hd ls) = [''0'', ''0'', ''4294967295'']))"

definition regulatory_of :: "probe \<Rightarrow> bool \<Rightarrow> wiphy list \<Rightarrow> reg_domain list \<Rightarrow> regulatory" where
  "regulatory_of P has_nl ws regs =
     (let glob = fold (\<lambda>d g. if rd_wiphy d < 0 then (rd_alpha2 d, dfs_region_name (rd_region d)) else g) regs ([], [])
      in \<lparr>rg_global = fst glob, rg_region = snd glob,
          rg_reason = (if \<not> has_nl then Some ''no_wifi''
            else if \<not> identity_uid_map (probe_read P ''/proc/self/uid_map'') then Some ''user_namespace'' else None),
          rg_self_managed = map wp_name (filter wp_self_managed ws)\<rparr>)"

end
