(* ===== verification/WiphyProps.thy ===== *)
theory WiphyProps
  imports Wiphy
begin

text \<open>
  What the netlink parsers of \<open>Nl80211\<close> and \<open>Wiphy\<close> promise: integers are read exactly, the last attribute
  of a kind counts and 64-bit counters win over 32-bit ones, a wiphy dump means the same however the
  kernel splits it, its result is in order, and channel numbers are those of the standard.
\<close>

section \<open>Loops over attributes\<close>

lemma fold_ok_append:
  "fold_ok f (xs @ ys) s = (case fold_ok f xs s of Inl e \<Rightarrow> Inl e | Inr s' \<Rightarrow> fold_ok f ys s')"
  by (induction xs arbitrary: s) (auto split: sum.splits)

lemma fold_ok_Inr [simp]: "fold_ok (\<lambda>a s. Inr (f a s)) xs s = Inr (fold f xs s)"
  by (induction xs arbitrary: s) auto

lemma fold_ok_keeps:
  assumes "fold_ok f xs s = Inr t" "I s" "\<And>x u v. x \<in> set xs \<Longrightarrow> I u \<Longrightarrow> f x u = Inr v \<Longrightarrow> I v"
  shows "I t"
  using assms
proof (induction xs arbitrary: s)
  case (Cons x xs)
  then obtain v where v: "f x s = Inr v" "fold_ok f xs v = Inr t" by (auto split: sum.splits)
  have "I v" by (rule Cons.prems(3)[OF _ Cons.prems(2) v(1)]) simp
  from Cons.IH[OF v(2) this] show ?case using Cons.prems(3) by (meson list.set_intros(2))
qed simp

lemma scan_keeps:
  assumes "scan N f b s = Inr t" "I s" "\<And>x u v. I u \<Longrightarrow> f x u = Inr v \<Longrightarrow> I v"
  shows "I t"
proof -
  obtain as where "fold_ok f as s = Inr t"
    using assms(1) by (auto simp: scan_def split: option.splits sum.splits if_splits)
  then show ?thesis by (rule fold_ok_keeps) (use assms(2,3) in auto)
qed

lemma scan_pure:
  "scan N (\<lambda>a s. Inr (f a s)) b s =
     (case nl_attrs N b of
        None \<Rightarrow> Inl BadAttributes
      | Some (as, ok) \<Rightarrow> if ok then Inr (fold f as s) else Inl BadAttributes)"
  by (simp add: scan_def split: option.split)

text \<open>A field that only attributes of one kind set holds what the last of them says.\<close>

definition last_of :: "('a \<Rightarrow> bool) \<Rightarrow> ('a \<Rightarrow> 'b) \<Rightarrow> 'b \<Rightarrow> 'a list \<Rightarrow> 'b" where
  "last_of Q h d xs = (case List.find Q (List.rev xs) of Some a \<Rightarrow> h a | None \<Rightarrow> d)"

lemma last_of_simps [simp]:
  "last_of Q h d [] = d"
  "last_of Q h d (xs @ [x]) = (if Q x then h x else last_of Q h d xs)"
  by (simp_all add: last_of_def)

lemma fold_last_of:
  assumes "\<And>a s. P (f a s) = (if Q a then h a else P s)"
  shows "P (fold f as s) = last_of Q h (P s) as"
  by (induction as rule: rev_induct) (simp_all add: assms)

section \<open>Integers\<close>

lemma from_le_range: "0 \<le> from_le bs \<and> from_le bs < 256 ^ length bs"
proof (induction bs)
  case (Cons b bs)
  have "uint b < 256" using uint_lt2p[of b] by simp
  with Cons show ?case by simp
qed simp

lemma native_range: "0 \<le> native N bs \<and> native N bs < 256 ^ length bs"
  using from_le_range[of bs] from_le_range[of "List.rev bs"] by (simp add: native_def)

lemma signed_31:
  assumes "0 \<le> n" "n < 2 ^ 32"
  shows "signed_take_bit 31 n = (if n < 2 ^ 31 then n else n - (2 ^ 32 :: int))"
proof (cases "n < 2 ^ 31")
  case False
  have "(n + 2 ^ 31) mod 2 ^ 32 = (n + 2 ^ 31 - 2 ^ 32) mod 2 ^ 32" by (metis minus_mod_self2)
  also have "\<dots> = n - 2 ^ 31" using assms False by (simp add: mod_pos_pos_trivial)
  finally show ?thesis using False by (simp add: signed_take_bit_eq_take_bit_shift take_bit_int_def)
qed (use assms in \<open>simp add: signed_take_bit_int_eq_self_iff\<close>)

text \<open>Integers of the kernel are read without loss: a value of four bytes or more is exactly its first
  four bytes in the device's order, and on a device whose \<open>int\<close> has 64 bits its conversion to \<open>int\<close> is
  the same number; where \<open>int\<close> has 32 bits it is that number or, from 2^31, that number less 2^32.\<close>

theorem u32_exact:
  assumes "4 \<le> length b"
  shows "uint (u32 N b) = native N (take 4 b)
    \<and> (nl_wide N \<longrightarrow> u32_int N b = native N (take 4 b))
    \<and> (\<not> nl_wide N \<longrightarrow> u32_int N b =
         (if native N (take 4 b) < 2 ^ 31 then native N (take 4 b) else native N (take 4 b) - 2 ^ 32))"
proof -
  let ?n = "native N (take 4 b)"
  have r: "0 \<le> ?n" "?n < 2 ^ 32" using native_range[of N "take 4 b"] assms by simp_all
  have u: "u32 N b = word_of_int ?n" using assms by (simp add: u32_def)
  have e: "uint (u32 N b) = ?n" unfolding u using r by (simp add: uint_word_of_int)
  have "sint (u32 N b) = signed_take_bit 31 ?n"
    unfolding sint_uint e by simp
  also have "\<dots> = (if ?n < 2 ^ 31 then ?n else ?n - 2 ^ 32)" using r by (rule signed_31)
  finally show ?thesis using e by (simp add: u32_int_def int_of_u32_def)
qed

theorem u32_exact_witness:
  "u32_int \<lparr>nl_attrs = (\<lambda>_. None), nl_big = False, nl_wide = False\<rparr> [255, 255, 255, 255] = -1"
proof -
  let ?N = "\<lparr>nl_attrs = (\<lambda>_. None), nl_big = False, nl_wide = False\<rparr>"
  have "native ?N (take 4 [255, 255, 255, 255]) = 4294967295" by (simp add: native_def)
  with u32_exact[of "[255, 255, 255, 255]" ?N] show ?thesis by simp
qed

section \<open>Channels\<close>

text \<open>The centre frequency of a channel: 2.4, 5, 4.9 (Japan), 6 and 60 GHz.\<close>

definition channel_of_band :: "int \<Rightarrow> int \<Rightarrow> int \<Rightarrow> bool" where
  "channel_of_band base c f \<longleftrightarrow>
     base = 2407 \<and> 1 \<le> c \<and> c \<le> 13 \<and> f = 2407 + 5 * c
   \<or> base = 2484 \<and> c = 14 \<and> f = 2484
   \<or> base = 4000 \<and> 182 \<le> c \<and> c \<le> 196 \<and> f = 4000 + 5 * c
   \<or> base = 5000 \<and> 36 \<le> c \<and> c \<le> 177 \<and> f = 5000 + 5 * c
   \<or> base = 5950 \<and> 1 \<le> c \<and> c \<le> 233 \<and> f = 5950 + 5 * c
   \<or> base = 56160 \<and> 1 \<le> c \<and> c \<le> 6 \<and> f = 56160 + 2160 * c"

lemma sdiv_exact [simp]: "0 < (k::int) \<Longrightarrow> k * c sdiv k = c"
  by (simp add: signed_divide_int_def abs_mult sgn_mult sgn_mult_abs)

text \<open>A channel's centre frequency gives the channel's number back, and its band's name.\<close>

theorem channel_roundtrip:
  assumes "channel_of_band base c f"
  shows "freq_to_channel f = c
    \<and> band f = (if base < 3000 then ''2.4'' else if base < 5950 then ''5'' else if base = 5950 then ''6'' else ''60'')"
  using assms unfolding channel_of_band_def
  by (elim disjE conjE) (auto simp: freq_to_channel_def band_def)

theorem channel_roundtrip_witness: "freq_to_channel 5500 = 100 \<and> band 5500 = ''5''"
  using channel_roundtrip[of 5000 100 5500] by (simp add: channel_of_band_def)

section \<open>Stations\<close>

abbreviation kind :: "16 word \<Rightarrow> attr \<Rightarrow> bool" where
  "kind t \<equiv> (\<lambda>a. fst a = t)"

lemma sta_attr_sel:
  "sn_inactive (fst (sta_attr N a acc)) = (if kind 1 a then u32 N (snd a) else sn_inactive (fst acc))"
  "sn_rx_bytes (fst (sta_attr N a acc)) = (if kind 23 a then u64 N (snd a) else sn_rx_bytes (fst acc))"
  "sn_tx_bytes (fst (sta_attr N a acc)) = (if kind 24 a then u64 N (snd a) else sn_tx_bytes (fst acc))"
  "sn_has_bytes (fst (sta_attr N a acc)) = (if kind 23 a \<or> kind 24 a then True else sn_has_bytes (fst acc))"
  "fst (snd (sta_attr N a acc)) = (if kind 2 a then ucast (u32 N (snd a)) else fst (snd acc))"
  "fst (snd (snd (sta_attr N a acc))) = (if kind 3 a then ucast (u32 N (snd a)) else fst (snd (snd acc)))"
  "snd (snd (snd (sta_attr N a acc))) = (if kind 2 a \<or> kind 3 a then True else snd (snd (snd acc)))"
  "sn_signal (fst (sta_attr N a acc)) =
     (if kind 7 a \<and> snd a \<noteq> [] then Some (sint (hd (snd a))) else sn_signal (fst acc))"
  "sn_tx_failed (fst (sta_attr N a acc)) = (if kind 12 a then u32 N (snd a) else sn_tx_failed (fst acc))"
  "sn_connected (fst (sta_attr N a acc)) = (if kind 16 a then Some (u32 N (snd a)) else sn_connected (fst acc))"
  by (cases a; cases acc; simp add: sta_attr_def Let_def)+

lemma fold_any:
  assumes "\<And>a s. P (f a s) = (Q a \<or> P s)"
  shows "P (fold f as s) = (P s \<or> (\<exists>a \<in> set as. Q a))"
  by (induction as arbitrary: s) (auto simp: assms)

text \<open>What a station's block says. Every number is the one of the last attribute of its kind (a signal
  with no byte does not count), and the traffic counters are the 64-bit ones whenever the kernel sends
  any, else the 32-bit ones, widened; without either there are none.\<close>

theorem station_block:
  assumes "nl_attrs N b = Some (as, True)"
  shows "\<exists>s. parse_sta_info N b empty_station = Inr s
    \<and> sn_inactive s = last_of (kind 1) (\<lambda>a. u32 N (snd a)) 0 as
    \<and> sn_connected s = last_of (kind 16) (\<lambda>a. Some (u32 N (snd a))) None as
    \<and> sn_tx_failed s = last_of (kind 12) (\<lambda>a. u32 N (snd a)) 0 as
    \<and> sn_signal s = last_of (\<lambda>a. kind 7 a \<and> snd a \<noteq> []) (\<lambda>a. Some (sint (hd (snd a)))) None as
    \<and> (sn_has_bytes s \<longleftrightarrow> (\<exists>a \<in> set as. kind 23 a \<or> kind 24 a \<or> kind 2 a \<or> kind 3 a))
    \<and> (if \<exists>a \<in> set as. kind 23 a \<or> kind 24 a
       then sn_rx_bytes s = last_of (kind 23) (\<lambda>a. u64 N (snd a)) 0 as
         \<and> sn_tx_bytes s = last_of (kind 24) (\<lambda>a. u64 N (snd a)) 0 as
       else sn_rx_bytes s = last_of (kind 2) (\<lambda>a. ucast (u32 N (snd a))) 0 as
         \<and> sn_tx_bytes s = last_of (kind 3) (\<lambda>a. ucast (u32 N (snd a))) 0 as)"
proof -
  let ?acc = "fold (sta_attr N) as (empty_station, 0, 0, False)"
  obtain s rx tx have32 where r: "?acc = (s, rx, tx, have32)" by (metis prod_cases4)
  note l = fold_last_of[where f = "sta_attr N" and as = as and s = "(empty_station, 0, 0, False)"]
  note any = fold_any[where f = "sta_attr N" and as = as and s = "(empty_station, 0, 0, False)"]
  have f: "sn_inactive s = last_of (kind 1) (\<lambda>a. u32 N (snd a)) 0 as"
    "sn_rx_bytes s = last_of (kind 23) (\<lambda>a. u64 N (snd a)) 0 as"
    "sn_tx_bytes s = last_of (kind 24) (\<lambda>a. u64 N (snd a)) 0 as"
    "rx = last_of (kind 2) (\<lambda>a. ucast (u32 N (snd a))) 0 as"
    "tx = last_of (kind 3) (\<lambda>a. ucast (u32 N (snd a))) 0 as"
    "sn_signal s = last_of (\<lambda>a. kind 7 a \<and> snd a \<noteq> []) (\<lambda>a. Some (sint (hd (snd a)))) None as"
    "sn_tx_failed s = last_of (kind 12) (\<lambda>a. u32 N (snd a)) 0 as"
    "sn_connected s = last_of (kind 16) (\<lambda>a. Some (u32 N (snd a))) None as"
    using l[where P = "\<lambda>acc. sn_inactive (fst acc)", OF sta_attr_sel(1)]
      l[where P = "\<lambda>acc. sn_rx_bytes (fst acc)", OF sta_attr_sel(2)]
      l[where P = "\<lambda>acc. sn_tx_bytes (fst acc)", OF sta_attr_sel(3)]
      l[where P = "\<lambda>acc. fst (snd acc)", OF sta_attr_sel(5)]
      l[where P = "\<lambda>acc. fst (snd (snd acc))", OF sta_attr_sel(6)]
      l[where P = "\<lambda>acc. sn_signal (fst acc)", OF sta_attr_sel(8)]
      l[where P = "\<lambda>acc. sn_tx_failed (fst acc)", OF sta_attr_sel(9)]
      l[where P = "\<lambda>acc. sn_connected (fst acc)", OF sta_attr_sel(10)]
    unfolding r by (simp_all add: empty_station_def)
  have g: "sn_has_bytes s \<longleftrightarrow> (\<exists>a \<in> set as. kind 23 a \<or> kind 24 a)"
    "have32 \<longleftrightarrow> (\<exists>a \<in> set as. kind 2 a \<or> kind 3 a)"
    using any[where P = "\<lambda>acc. sn_has_bytes (fst acc)" and Q = "\<lambda>a. kind 23 a \<or> kind 24 a"]
      any[where P = "\<lambda>acc. snd (snd (snd acc))" and Q = "\<lambda>a. kind 2 a \<or> kind 3 a"]
    unfolding r by (simp_all add: empty_station_def sta_attr_sel)
  have none: "\<not> (\<exists>a \<in> set as. kind t a) \<Longrightarrow> last_of (kind t) h d as = d" for t h and d :: "64 word"
    by (auto simp: last_of_def find_Some_iff split: option.split) (metis length_rev nth_mem set_rev)
  let ?s = "if \<not> sn_has_bytes s \<and> have32
    then s\<lparr>sn_rx_bytes := rx, sn_tx_bytes := tx, sn_has_bytes := True\<rparr> else s"
  have "parse_sta_info N b empty_station = Inr ?s"
    unfolding parse_sta_info_def scan_pure assms option.case prod.case if_True r sum.case ..
  moreover have "if \<exists>a \<in> set as. kind 23 a \<or> kind 24 a
       then sn_rx_bytes ?s = last_of (kind 23) (\<lambda>a. u64 N (snd a)) 0 as
         \<and> sn_tx_bytes ?s = last_of (kind 24) (\<lambda>a. u64 N (snd a)) 0 as
       else sn_rx_bytes ?s = last_of (kind 2) (\<lambda>a. ucast (u32 N (snd a))) 0 as
         \<and> sn_tx_bytes ?s = last_of (kind 3) (\<lambda>a. ucast (u32 N (snd a))) 0 as"
    using g f(2-5) none[of 23] none[of 24] none[of 2] none[of 3] by (cases have32) auto
  moreover have "sn_has_bytes ?s \<longleftrightarrow> (\<exists>a \<in> set as. kind 23 a \<or> kind 24 a \<or> kind 2 a \<or> kind 3 a)"
    using g by auto
  moreover have "sn_inactive ?s = sn_inactive s" "sn_connected ?s = sn_connected s"
    "sn_tx_failed ?s = sn_tx_failed s" "sn_signal ?s = sn_signal s"
    by simp_all
  ultimately show ?thesis using f(1,6,7,8) by (intro exI[of _ ?s]) simp
qed

theorem station_block_witness:
  "\<exists>s. parse_sta_info \<lparr>nl_attrs = (\<lambda>_. Some ([(2, [1, 0, 0, 0]), (7, [200])], True)), nl_big = False, nl_wide = True\<rparr> [] empty_station = Inr s
    \<and> sn_rx_bytes s = 1 \<and> sn_tx_bytes s = 0 \<and> sn_signal s = Some (-56)"
proof -
  let ?N = "\<lparr>nl_attrs = (\<lambda>_. Some ([(2, [1, 0, 0, 0]), (7, [200])], True)), nl_big = False, nl_wide = True\<rparr>"
  have "nl_attrs ?N [] = Some ([(2, [1, 0, 0, 0]), (7, [200])], True)" by simp
  from station_block[OF this] show ?thesis
    by (auto simp: last_of_def u32_def native_def)
qed

section \<open>The split dump\<close>

lemma known_radio_known: "map_of (known_radio i rs) i \<noteq> None"
  by (cases "map_of rs i") (auto simp: known_radio_def map_add_def)

lemma known_radio_same: "map_of rs i \<noteq> None \<Longrightarrow> known_radio i rs = rs"
  by (auto simp: known_radio_def)

lemma update_radio_get: "map_of (update_radio i r rs) j = (if j = i then map_option (\<lambda>_. r) (map_of rs i) else map_of rs j)"
  unfolding update_radio_def by (induction rs) auto

lemma update_radio_twice: "update_radio i r' (update_radio i r rs) = update_radio i r' rs"
  by (simp add: update_radio_def case_prod_unfold)

lemma wiphy_message_of:
  assumes "nl_attrs N m = Some ((1, v) # r, True)" "1 \<notin> fst ` set r"
  shows "wiphy_message N m rs =
    (let i = u32_int N v; rs1 = known_radio i rs
     in case fold_ok (wiphy_attr N) r (the (map_of rs1 i)) of
          Inl e \<Rightarrow> Inl e | Inr x \<Rightarrow> Inr (update_radio i x rs1))"
proof -
  have "filter (\<lambda>(t, _). t = 1) r = []" "filter (\<lambda>(t, _). t \<noteq> 1) r = r"
    using assms(2) by (force simp: filter_empty_conv filter_id_conv)+
  then show ?thesis using assms(1) by (simp add: wiphy_message_def Let_def split: sum.split)
qed

lemma wiphy_message_split:
  assumes m: "nl_attrs N m = Some ((1, v) # r1 @ r2, True)"
    and m1: "nl_attrs N m1 = Some ((1, v) # r1, True)" and m2: "nl_attrs N m2 = Some ((1, v) # r2, True)"
    and n: "1 \<notin> fst ` set r1" "1 \<notin> fst ` set r2"
  shows "fold_ok (wiphy_message N) [m1, m2] rs = wiphy_message N m rs"
proof -
  have n': "1 \<notin> fst ` set (r1 @ r2)" using n by auto
  let ?i = "u32_int N v" let ?rs = "known_radio ?i rs"
  show ?thesis
  proof (cases "fold_ok (wiphy_attr N) r1 (the (map_of ?rs ?i))")
    case (Inr x)
    obtain y where y: "map_of ?rs ?i = Some y" using known_radio_known by fast
    have g: "map_of (update_radio ?i x ?rs) ?i = Some x" by (simp add: update_radio_get y)
    have "known_radio ?i (update_radio ?i x ?rs) = update_radio ?i x ?rs"
      by (rule known_radio_same) (simp add: g)
    with Inr g show ?thesis
      unfolding fold_ok.simps wiphy_message_of[OF m n'] wiphy_message_of[OF m1 n(1)] wiphy_message_of[OF m2 n(2)]
      by (simp add: Let_def fold_ok_append update_radio_twice split: sum.split)
  qed (simp add: wiphy_message_of[OF m n'] wiphy_message_of[OF m1 n(1)] Let_def fold_ok_append)
qed

text \<open>C25: The result does not depend on how the kernel splits its dump: a radio's message may come as two,
  each naming the radio and carrying a part of the attributes, anywhere in the dump, and the radios read
  (or the error) are the same.\<close>

theorem wiphy_split_invariant:
  assumes "nl_attrs N m = Some ((1, v) # r1 @ r2, True)"
    and "nl_attrs N m1 = Some ((1, v) # r1, True)" and "nl_attrs N m2 = Some ((1, v) # r2, True)"
    and "1 \<notin> fst ` set r1" "1 \<notin> fst ` set r2"
  shows "parse_wiphys N (before @ m1 # m2 # after) = parse_wiphys N (before @ m # after)"
proof -
  have "fold_ok (wiphy_message N) (before @ [m1, m2] @ after) [] = fold_ok (wiphy_message N) (before @ [m] @ after) []"
    unfolding fold_ok_append wiphy_message_split[OF assms] by (simp split: sum.split)
  then show ?thesis by (simp add: parse_wiphys_def)
qed

definition split_decoder :: netlink where
  "split_decoder = \<lparr>nl_attrs = (\<lambda>b.
       if b = [0] then Some ([(1, [0, 0, 0, 0]), (2, [112]), (216, [])], True)
       else if b = [1] then Some ([(1, [0, 0, 0, 0]), (2, [112])], True)
       else Some ([(1, [0, 0, 0, 0]), (216, [])], True)), nl_big = False, nl_wide = True\<rparr>"

theorem wiphy_split_invariant_witness:
  "parse_wiphys split_decoder [[1], [2]] = parse_wiphys split_decoder [[0]]
   \<and> parse_wiphys split_decoder [[0]] = Inr [(empty_wiphy 0)\<lparr>wp_name := ''p'', wp_self_managed := True\<rparr>]"
proof
  show "parse_wiphys split_decoder [[1], [2]] = parse_wiphys split_decoder [[0]]"
    using wiphy_split_invariant[of split_decoder "[0]" "[0, 0, 0, 0]" "[(2, [112])]" "[(216, [])]" "[1]" "[2]" "[]" "[]"]
    by (simp add: split_decoder_def)
  show "parse_wiphys split_decoder [[0]] = Inr [(empty_wiphy 0)\<lparr>wp_name := ''p'', wp_self_managed := True\<rparr>]"
    by code_simp
qed

text \<open>The radios are kept apart by index, a radio's bands by number.\<close>

definition caps_ok :: "wiphy_band \<Rightarrow> bool" where
  "caps_ok b \<longleftrightarrow> (wb_he_phy b \<noteq> 0 \<longrightarrow> wb_has_he b) \<and> (wb_eht_phy b \<noteq> 0 \<longrightarrow> wb_has_eht b)"

definition bands_ok :: "bands \<Rightarrow> bool" where
  "bands_ok bs \<longleftrightarrow> distinct (map fst bs) \<and> (\<forall>(j, b) \<in> set bs. wb_band b = j \<and> caps_ok b)"

definition radios_ok :: "radios \<Rightarrow> bool" where
  "radios_ok rs \<longleftrightarrow> distinct (map fst rs) \<and> (\<forall>(i, w, bs) \<in> set rs. wp_index w = i \<and> bands_ok bs)"

abbreviation band_ok :: "int \<Rightarrow> wiphy_band \<Rightarrow> bool" where
  "band_ok j b \<equiv> wb_band b = j \<and> caps_ok b"

lemma bands_ok_put: "bands_ok bs \<Longrightarrow> band_ok j b \<Longrightarrow> bands_ok (put j b bs)"
  unfolding bands_ok_def by (intro conjI distinct_put) (auto simp: put_def)

lemma bands_ok_get: "bands_ok bs \<Longrightarrow> band_ok j (lookup_default (empty_band j) bs j)"
  by (auto simp: lookup_default_def bands_ok_def empty_band_def caps_ok_def split: option.split dest: map_of_SomeD)

lemma iftype_caps_band: "band_ok j w \<Longrightarrow> band_ok j (iftype_caps a w)"
  by (auto simp: iftype_caps_def caps_ok_def split: prod.split)

lemma iftype_data_band: "iftype_data N a w = Inr w' \<Longrightarrow> band_ok j w \<Longrightarrow> band_ok j w'"
  unfolding iftype_data_def by (rule scan_keeps[where I = "band_ok j"], assumption+) (use iftype_caps_band in blast)

lemma parse_iftype_data_band: "parse_iftype_data N b w = Inr w' \<Longrightarrow> band_ok j w \<Longrightarrow> band_ok j w'"
  unfolding parse_iftype_data_def by (rule scan_keeps[where I = "band_ok j"]) (auto dest: iftype_data_band)

lemma band_attr_band: "band_attr N a w = Inr w' \<Longrightarrow> band_ok j w \<Longrightarrow> band_ok j w'"
  by (auto simp: band_attr_def Let_def caps_ok_def split: prod.splits if_splits sum.splits
      dest: parse_iftype_data_band[of _ _ w w' j, unfolded caps_ok_def])

lemma parse_bands_ok: "parse_bands N b bs = Inr bs' \<Longrightarrow> bands_ok bs \<Longrightarrow> bands_ok bs'"
proof (unfold parse_bands_def, erule scan_keeps, assumption)
  fix a u v assume u: "bands_ok u" and v: "bands_attr N a u = Inr v"
  let ?j = "uint (fst a)"
  obtain w where w: "scan N (band_attr N) (snd a) (lookup_default (empty_band ?j) u ?j) = Inr w" "v = put ?j w u"
    using v by (auto simp: bands_attr_def Let_def split: sum.splits)
  from w(1) have "band_ok ?j w"
    by (rule scan_keeps[where I = "band_ok ?j", OF _ bands_ok_get[OF u]]) (rule band_attr_band)
  then show "bands_ok v" unfolding w(2) by (rule bands_ok_put[OF u])
qed

abbreviation radio_ok :: "int \<Rightarrow> radio \<Rightarrow> bool" where
  "radio_ok i r \<equiv> wp_index (fst r) = i \<and> bands_ok (snd r)"

lemma wiphy_attr_ok: "wiphy_attr N a r = Inr r' \<Longrightarrow> radio_ok i r \<Longrightarrow> radio_ok i r'"
  by (auto simp: wiphy_attr_def Let_def split: prod.splits if_splits sum.splits dest: parse_bands_ok)

lemma known_radio_ok: "radios_ok rs \<Longrightarrow> radios_ok (known_radio i rs)"
  by (auto simp: radios_ok_def known_radio_def bands_ok_def empty_wiphy_def map_of_eq_None_iff)

lemma known_radios_ok: "radios_ok rs \<Longrightarrow> radios_ok (fold known_radio is rs)"
  by (induction "is" arbitrary: rs) (simp_all add: known_radio_ok)

lemma known_radios_known: "i \<in> set is \<or> map_of rs i \<noteq> None \<Longrightarrow> map_of (fold known_radio is rs) i \<noteq> None"
proof (induction "is" arbitrary: rs)
  case (Cons j js)
  have "map_of (known_radio j rs) i \<noteq> None" if "i = j \<or> map_of rs i \<noteq> None"
    using that known_radio_known[of j rs] by (auto simp: known_radio_def)
  with Cons show ?case by auto
qed simp

lemma update_radio_ok: "radios_ok rs \<Longrightarrow> radio_ok i r \<Longrightarrow> radios_ok (update_radio i r rs)"
proof -
  assume ok: "radios_ok rs" and r: "radio_ok i r"
  have "map fst (update_radio i r rs) = map fst rs" by (simp add: update_radio_def case_prod_unfold)
  moreover have "wp_index w = j \<and> bands_ok bs" if mem: "(j, w, bs) \<in> set (update_radio i r rs)" for j w bs
  proof -
    obtain p where p: "(j, w, bs) = (case p of (k, x) \<Rightarrow> (k, if k = i then r else x))" "p \<in> set rs"
      using mem unfolding update_radio_def set_map by (rule imageE)
    obtain x where x: "p = (j, x)" "(w, bs) = (if j = i then r else x)" using p(1) by (cases p) simp
    with p(2) ok r show ?thesis by (cases x; cases r) (auto simp: radios_ok_def split: if_splits)
  qed
  ultimately show ?thesis using ok by (auto simp: radios_ok_def)
qed

lemma radios_ok_get: "radios_ok rs \<Longrightarrow> map_of rs i = Some r \<Longrightarrow> radio_ok i r"
  by (cases r) (auto simp: radios_ok_def dest: map_of_SomeD)

lemma wiphy_message_ok: "wiphy_message N b rs = Inr rs' \<Longrightarrow> radios_ok rs \<Longrightarrow> radios_ok rs'"
proof -
  assume m: "wiphy_message N b rs = Inr rs'" and ok: "radios_ok rs"
  obtain as where "nl_attrs N b = Some (as, True)"
    using m by (auto simp: wiphy_message_def Let_def split: option.splits if_splits)
  define ids where "ids = map (\<lambda>(_, v). u32_int N v) (filter (\<lambda>(t, _). t = 1) as)"
  let ?rs = "fold known_radio ids rs"
  have ok1: "radios_ok ?rs" using ok by (rule known_radios_ok)
  show "radios_ok rs'"
  proof (cases "ids = []")
    case True then show ?thesis using m ok \<open>nl_attrs N b = _\<close> by (simp add: wiphy_message_def Let_def ids_def)
  next
    case False
    obtain r where r: "map_of ?rs (last ids) = Some r"
      using known_radios_known[of "last ids" ids rs] last_in_set[OF False] by auto
    obtain r' where r': "fold_ok (wiphy_attr N) (filter (\<lambda>(t, _). t \<noteq> 1) as) r = Inr r'"
      "rs' = update_radio (last ids) r' ?rs"
      using m False \<open>nl_attrs N b = _\<close> r by (auto simp: wiphy_message_def Let_def ids_def[symmetric] split: sum.splits)
    have "radio_ok (last ids) r'"
      by (rule fold_ok_keeps[where I = "radio_ok (last ids)", OF r'(1) radios_ok_get[OF ok1 r]]) (rule wiphy_attr_ok)
    then show ?thesis unfolding r'(2) by (rule update_radio_ok[OF ok1])
  qed
qed

lemma bands_sorted: "bands_ok bs \<Longrightarrow> sorted_wrt (<) (map wb_band (sort_key wb_band (map snd bs)))"
proof -
  assume ok: "bands_ok bs"
  have "map wb_band (map snd bs) = map fst bs" using ok by (auto simp: bands_ok_def)
  with ok have "distinct (map wb_band (map snd bs))" by (simp only: bands_ok_def)
  then have "distinct (map wb_band (sort_key wb_band (map snd bs)))" by (simp only: distinct_map distinct_sort set_sort)
  then show ?thesis by (simp add: strict_sorted_iff)
qed

lemma parsed_radios:
  assumes "parse_wiphys N msgs = Inr ws"
  shows "\<exists>rs. distinct (map fst rs) \<and> ws = map (\<lambda>i. finish_radio (the (map_of rs i))) (sort (map fst rs))
    \<and> (\<forall>i \<in> set (map fst rs). radio_ok i (the (map_of rs i)))"
proof -
  obtain rs where rs: "fold_ok (wiphy_message N) msgs [] = Inr rs"
    "ws = map (\<lambda>i. finish_radio (the (map_of rs i))) (sort (map fst rs))"
    using assms by (auto simp: parse_wiphys_def split: sum.splits)
  have ok: "radios_ok rs"
    by (rule fold_ok_keeps[OF rs(1)]) (simp add: radios_ok_def, rule wiphy_message_ok)
  have each: "radio_ok i (the (map_of rs i))" if "i \<in> set (map fst rs)" for i
    using that radios_ok_get[OF ok, of i] by (cases "map_of rs i") (auto simp: map_of_eq_None_iff)
  have "distinct (map fst rs)" using ok by (simp add: radios_ok_def)
  with rs(2) each show ?thesis by blast
qed

lemma parsed_bands_caps:
  assumes "parse_wiphys N msgs = Inr ws" "w \<in> set ws" "b \<in> set (wp_bands w)"
  shows "caps_ok b"
proof -
  obtain rs where ws: "ws = map (\<lambda>i. finish_radio (the (map_of rs i))) (sort (map fst rs))"
    and each: "\<And>i. i \<in> set (map fst rs) \<Longrightarrow> radio_ok i (the (map_of rs i))"
    using parsed_radios[OF assms(1)] by blast
  obtain i where i: "i \<in> set (map fst rs)" "w = finish_radio (the (map_of rs i))"
    using assms(2) unfolding ws set_map set_sort by (rule imageE) simp
  have "b \<in> snd ` set (snd (the (map_of rs i)))" using assms(3) by (simp add: i(2) finish_radio_def)
  then show ?thesis using each[OF i(1)] by (auto simp: bands_ok_def)
qed

text \<open>The radios read come in the order of their indexes, each once, and every radio's bands in the
  order of their numbers, each once, whatever the order of the kernel's messages.\<close>

theorem wiphys_sorted:
  assumes "parse_wiphys N msgs = Inr ws"
  shows "sorted_wrt (<) (map wp_index ws) \<and> (\<forall>w \<in> set ws. sorted_wrt (<) (map wb_band (wp_bands w)))"
proof -
  obtain rs where ok: "distinct (map fst rs)" and ws: "ws = map (\<lambda>i. finish_radio (the (map_of rs i))) (sort (map fst rs))"
    and each: "\<And>i. i \<in> set (map fst rs) \<Longrightarrow> radio_ok i (the (map_of rs i))"
    using parsed_radios[OF assms] by blast
  have "map wp_index ws = sort (map fst rs)"
    unfolding ws map_map by (rule map_idI) (use each in \<open>simp add: finish_radio_def\<close>)
  moreover have "sorted_wrt (<) (sort (map fst rs))" using ok by (simp add: strict_sorted_iff)
  moreover have "sorted_wrt (<) (map wb_band (wp_bands w))" if "w \<in> set ws" for w
    using that unfolding ws by (force simp: finish_radio_def intro!: bands_sorted each[THEN conjunct2])
  ultimately show ?thesis by simp
qed

definition two_radios :: netlink where
  "two_radios = \<lparr>nl_attrs = (\<lambda>b. Some ([(1, b)], True)), nl_big = False, nl_wide = True\<rparr>"

theorem wiphys_sorted_witness:
  "\<exists>ws. parse_wiphys two_radios [[1, 0, 0, 0], [0, 0, 0, 0], [1, 0, 0, 0]] = Inr ws \<and> map wp_index ws = [0, 1]
     \<and> sorted_wrt (<) (map wp_index ws)"
proof -
  let ?ws = "[empty_wiphy 0, empty_wiphy 1]"
  have p: "parse_wiphys two_radios [[1, 0, 0, 0], [0, 0, 0, 0], [1, 0, 0, 0]] = Inr ?ws" by code_simp
  show ?thesis using wiphys_sorted[OF p] p by (intro exI[of _ ?ws]) (simp add: empty_wiphy_def)
qed

section \<open>How many interfaces a radio runs\<close>

lemma fold_greatest: "fold (\<lambda>x m. if h x > m then h x else m) xs (m::int) = Max (insert m (h ` set xs))"
proof (induction xs arbitrary: m)
  case (Cons x xs)
  have "(if h x > m then h x else m) = max (h x) m" by simp
  with Cons show ?case by (simp add: Max_insert2 insert_commute max_def) (cases xs; simp add: max_def)
qed simp

definition allowed :: "32 word \<Rightarrow> iface_combination \<Rightarrow> int" where
  "allowed t c =
     (let n = sum_list (map il_max (filter (\<lambda>l. t \<in> set (il_types l)) (ic_limits c)))
      in if ic_max_num c > 0 then min n (ic_max_num c) else n)"

lemma limits_sum:
  "fold (\<lambda>l n. if t \<in> set (il_types l) then n + il_max l else n) ls n
     = n + sum_list (map il_max (filter (\<lambda>l. t \<in> set (il_types l)) ls))"
  by (induction ls arbitrary: n) simp_all

lemma combination_interfaces_allowed: "combination_interfaces t c = allowed t c"
  by (simp add: combination_interfaces_def allowed_def limits_sum Let_def)

text \<open>The number of interfaces of a type a radio offers is the most that one of its combinations allows
  (the sum of that combination's limits for the type, no more than its total where it names one); a
  type no combination counts runs once if the radio supports it, else not at all.\<close>

theorem max_interfaces_best:
  "max_interfaces w t =
     (let m = Max (insert 0 (allowed t ` set (wp_combinations w)))
      in if m = 0 \<and> t \<in> set (wp_types w) then 1 else m)"
  unfolding max_interfaces_def combination_interfaces_allowed Let_def fold_greatest ..

end
