(* ===== verification/RadiosProps.thy ===== *)
theory RadiosProps
  imports Radios WiphyProps
begin

text \<open>
  What the controller can rely on in a radio's modes: the \<open>htmode\<close> values, the generations and the widths
  \<open>bandModes\<close> gives for any band the kernel reports agree with one another.
\<close>

lemma fold_add_mode:
  "distinct ms \<Longrightarrow> distinct (fold add_mode ps ms)
     \<and> set (fold add_mode ps ms) = set ms \<union> snd ` set (filter fst ps)"
  by (induction ps arbitrary: ms) (auto simp: add_mode_def)

lemma ht_modes_candidates: "h \<in> set (ht_modes b) \<Longrightarrow> (True, h) \<in> set (ht_candidates b)"
  using fold_add_mode[of "[]" "ht_candidates b"] by (auto simp: ht_modes_def split: if_splits)

text \<open>An \<open>htmode\<close> with a width is a generation with the width's digits.\<close>

definition named_mode :: "string \<Rightarrow> nat \<Rightarrow> string" where
  "named_mode g n = g @ itoa n"

definition mode_of :: "wiphy_band \<Rightarrow> string \<Rightarrow> bool" where
  "mode_of b h \<longleftrightarrow> (\<exists>g \<in> set (generations b). \<exists>n \<in> {20, 40, 80, 160, 320}. h = named_mode g n)"

lemma named_modes:
  "named_mode ''HT'' 20 = ''HT20''" "named_mode ''HT'' 40 = ''HT40''"
  "named_mode ''VHT'' 20 = ''VHT20''" "named_mode ''VHT'' 40 = ''VHT40''" "named_mode ''VHT'' 80 = ''VHT80''"
  "named_mode ''VHT'' 160 = ''VHT160''"
  "named_mode ''HE'' 20 = ''HE20''" "named_mode ''HE'' 40 = ''HE40''" "named_mode ''HE'' 80 = ''HE80''"
  "named_mode ''HE'' 160 = ''HE160''"
  "named_mode ''EHT'' 20 = ''EHT20''" "named_mode ''EHT'' 40 = ''EHT40''" "named_mode ''EHT'' 80 = ''EHT80''"
  "named_mode ''EHT'' 160 = ''EHT160''" "named_mode ''EHT'' 320 = ''EHT320''"
  by code_simp+

lemma generations_in:
  "wb_ht b > 0 \<Longrightarrow> ''HT'' \<in> set (generations b)" "wb_vht b > 0 \<Longrightarrow> ''VHT'' \<in> set (generations b)"
  "wb_has_he b \<Longrightarrow> ''HE'' \<in> set (generations b)" "wb_has_eht b \<Longrightarrow> ''EHT'' \<in> set (generations b)"
  by (simp_all add: generations_def)

lemma mode_ofI: "g \<in> set (generations b) \<Longrightarrow> n \<in> {20, 40, 80, 160, 320} \<Longrightarrow> mode_of b (named_mode g n)"
  unfolding mode_of_def by blast

lemmas mode_of_intros =
  mode_ofI[OF generations_in(1), of b 20 for b, simplified named_modes] 
  mode_ofI[OF generations_in(1), of b 40 for b, simplified named_modes]
  mode_ofI[OF generations_in(2), of b 20 for b, simplified named_modes]
  mode_ofI[OF generations_in(2), of b 40 for b, simplified named_modes]
  mode_ofI[OF generations_in(2), of b 80 for b, simplified named_modes]
  mode_ofI[OF generations_in(2), of b 160 for b, simplified named_modes]
  mode_ofI[OF generations_in(3), of b 20 for b, simplified named_modes]
  mode_ofI[OF generations_in(3), of b 40 for b, simplified named_modes]
  mode_ofI[OF generations_in(3), of b 80 for b, simplified named_modes]
  mode_ofI[OF generations_in(3), of b 160 for b, simplified named_modes]
  mode_ofI[OF generations_in(4), of b 20 for b, simplified named_modes]
  mode_ofI[OF generations_in(4), of b 40 for b, simplified named_modes]
  mode_ofI[OF generations_in(4), of b 80 for b, simplified named_modes]
  mode_ofI[OF generations_in(4), of b 160 for b, simplified named_modes]
  mode_ofI[OF generations_in(4), of b 320 for b, simplified named_modes]

lemma word_bits_pos: "and x m \<noteq> 0 \<Longrightarrow> 0 < (x :: 'a::len word)"
  by (cases "x = 0") (auto simp: word_gt_0)

lemma drop_bits_pos: "and (drop_bit n x) m \<noteq> 0 \<Longrightarrow> 0 < (x :: 'a::len word)"
  by (cases "x = 0") (auto simp: word_gt_0)

lemma caps_bits:
  assumes "caps_ok b"
  shows "and (wb_he_phy b) m \<noteq> 0 \<Longrightarrow> wb_has_he b" "and (wb_eht_phy b) m \<noteq> 0 \<Longrightarrow> wb_has_eht b"
  using assms by (auto simp: caps_ok_def)

lemma candidates_modes:
  assumes ok: "caps_ok b" and h: "(True, h) \<in> set (ht_candidates b)"
  shows "h = ''NOHT'' \<or> mode_of b h"
proof -
  note facts = mode_of_intros word_bits_pos drop_bits_pos caps_bits[OF ok]
  from h show ?thesis
    unfolding ht_candidates_def Let_def set_append Un_iff
    by (elim disjE) (auto intro: facts split: if_splits)
qed

text \<open>The width read back from a mode's name, at either size of \<open>int\<close>.\<close>

lemma mode_widths_32:
  "list_all (\<lambda>g. list_all (\<lambda>n. mode_width 32 (named_mode g n) = Some (int n)) [20, 40, 80, 160, 320])
     [''HT'', ''VHT'', ''HE'', ''EHT'']"
  by code_simp

lemma mode_widths_64:
  "list_all (\<lambda>g. list_all (\<lambda>n. mode_width 64 (named_mode g n) = Some (int n)) [20, 40, 80, 160, 320])
     [''HT'', ''VHT'', ''HE'', ''EHT'']"
  by code_simp

lemma mode_width_named:
  assumes "w \<in> {32, 64}" "g \<in> set (generations b)" "n \<in> {20, 40, 80, 160, 320}"
  shows "mode_width w (named_mode g n) = Some (int n)"
proof -
  have "g \<in> {''HT'', ''VHT'', ''HE'', ''EHT''}" using assms(2) by (auto simp: generations_def split: if_splits)
  then show ?thesis using assms(1,3) mode_widths_32 mode_widths_64 by auto
qed

lemma mode_width_noht: "mode_width w ''NOHT'' = None"
  by (simp add: mode_width_def is_digit_def)

text \<open>C30: What a radio's band offers is consistent whatever the kernel reports of it: the widths come in
  ascending order, each once, 20 MHz among them; no \<open>htmode\<close> comes twice; and each is \<open>NOHT\<close> or one of the
  reported generations followed by one of the reported widths.\<close>

theorem htmodes_wellformed:
  assumes "parse_wiphys N msgs = Inr ws" "p \<in> set ws" "b \<in> set (wp_bands p)" and w: "w \<in> {32, 64}"
    and m: "band_modes w b = (widths, modes, htmodes)"
  shows "sorted_wrt (<) widths \<and> 20 \<in> set widths \<and> distinct htmodes
    \<and> (\<forall>h \<in> set htmodes. h = ''NOHT'' \<or> (\<exists>g \<in> set modes. \<exists>n. int n \<in> set widths \<and> h = g @ itoa n))"
proof -
  have caps: "caps_ok b" by (rule parsed_bands_caps[OF assms(1-3)])
  have eqs: "widths = band_widths w htmodes" "modes = generations b" "htmodes = ht_modes b"
    using m by (auto simp: band_modes_def Let_def)
  have "\<exists>g \<in> set modes. \<exists>n. int n \<in> set widths \<and> h = g @ itoa n" if h: "h \<in> set htmodes" "h \<noteq> ''NOHT''" for h
  proof -
    obtain g n where g: "g \<in> set (generations b)" "n \<in> {20, 40, 80, 160, 320}" "h = named_mode g n"
      using candidates_modes[OF caps ht_modes_candidates, of h] h unfolding eqs(3) mode_of_def by blast
    have "int n \<in> set widths"
      using h(1) mode_width_named[OF w g(1,2)] unfolding eqs(1) g(3) by (force simp: band_widths_def map_filter_def)
    then show ?thesis using g(1,3) unfolding eqs(2) named_mode_def by blast
  qed
  moreover have "distinct htmodes" unfolding eqs(3) using fold_add_mode[of "[]"] by (simp add: ht_modes_def)
  moreover have "sorted_wrt (<) widths" unfolding eqs(1) by (simp add: band_widths_def strict_sorted_iff)
  moreover have "20 \<in> set widths" unfolding eqs(1) by (simp add: band_widths_def)
  ultimately show ?thesis by blast
qed

text \<open>A radio whose 5 GHz band reports HT40, VHT160, HE with its 40, 80 and 160 MHz bits.\<close>

definition busy_band :: netlink where
  "busy_band = \<lparr>nl_attrs = (\<lambda>b. Some (
       if b = [0] then [(1, [0, 0, 0, 0]), (22, [1])]
       else if b = [1] then [(1, [2])]
       else if b = [2] then [(4, [2, 0, 0, 0]), (8, [4, 0, 0, 0]), (9, [3])]
       else if b = [3] then [(1, [4])]
       else if b = [4] then [(3, [30])]
       else [], True)), nl_big = False, nl_wide = True\<rparr>"

definition busy_band_read :: wiphy_band where
  "busy_band_read = (empty_band 1)\<lparr>wb_ht := 2, wb_vht := 4, wb_has_he := True, wb_he_phy := 30\<rparr>"

theorem htmodes_wellformed_witness:
  "band_modes 64 busy_band_read
     = ([20, 40, 80, 160], [''HT'', ''VHT'', ''HE''],
        [''NOHT'', ''HT20'', ''VHT20'', ''HE20'', ''HT40'', ''VHT40'', ''HE40'', ''VHT80'', ''HE80'', ''VHT160'', ''HE160''])
   \<and> (\<exists>g \<in> {''HT'', ''VHT'', ''HE''}. \<exists>n. int n \<in> set [20, 40, 80, 160] \<and> ''VHT160'' = g @ itoa n)"
proof -
  have p: "parse_wiphys busy_band [[0]] = Inr [(empty_wiphy 0)\<lparr>wp_bands := [busy_band_read]\<rparr>]" by code_simp
  have m: "band_modes 64 busy_band_read
     = ([20, 40, 80, 160], [''HT'', ''VHT'', ''HE''],
        [''NOHT'', ''HT20'', ''VHT20'', ''HE20'', ''HT40'', ''VHT40'', ''HE40'', ''VHT80'', ''HE80'', ''VHT160'', ''HE160''])"
    by code_simp
  have "\<forall>h \<in> set [''NOHT'', ''HT20'', ''VHT20'', ''HE20'', ''HT40'', ''VHT40'', ''HE40'', ''VHT80'', ''HE80'', ''VHT160'', ''HE160''].
      h = ''NOHT'' \<or> (\<exists>g \<in> set [''HT'', ''VHT'', ''HE'']. \<exists>n. int n \<in> set [20, 40, 80, 160] \<and> h = g @ itoa n)"
    by (rule htmodes_wellformed[OF p _ _ _ m, THEN conjunct2, THEN conjunct2, THEN conjunct2])
      (rule list.set_intros, simp_all add: empty_wiphy_def)
  from bspec[OF this, of "''VHT160''"]
  have "\<exists>g \<in> set [''HT'', ''VHT'', ''HE'']. \<exists>n. int n \<in> set [20, 40, 80, 160] \<and> ''VHT160'' = g @ itoa n" by simp
  with m show ?thesis by simp
qed

end
