(* ===== verification/Push.thy ===== *)
theory Push
  imports Prelude
begin

text \<open>
  The params of a metrics push, \<open>internal/agent/push.go\<close>: the Prometheus text is escaped into a JSON
  string byte by byte. \<open>json_loop\<close> is the loop of \<open>appendJSONString\<close> with its position and the start of
  the run it has not copied yet; \<open>escape\<close> says what it writes for the rest of the text. A JSON reader
  gets the text back, with U+FFFD for every byte that is not UTF-8, and the whole frame is UTF-8.
\<close>

section \<open>UTF-8\<close>

definition code :: "char \<Rightarrow> int" where
  "code c = of_char c"

definition octet :: "int \<Rightarrow> char" where
  "octet n = char_of n"

definition rune_error :: int where
  "rune_error = 65533"

text \<open>\<open>utf8.DecodeRune\<close>: the rune at the start and how many bytes it takes; an encoding that is not UTF-8
  (a surrogate, an overlong or a truncated one) is \<open>rune_error\<close> of one byte.\<close>

definition continues :: "char \<Rightarrow> bool" where
  "continues c \<longleftrightarrow> 128 \<le> code c \<and> code c \<le> 191"

text \<open>What may follow a first byte: the bounds of the second one.\<close>

definition second_low :: "char \<Rightarrow> int" where
  "second_low c = (if code c = 224 then 160 else if code c = 240 then 144 else 128)"

definition second_high :: "char \<Rightarrow> int" where
  "second_high c = (if code c = 237 then 159 else if code c = 244 then 143 else 191)"

definition decode_rune :: "string \<Rightarrow> int \<times> nat" where
  "decode_rune s =
     (case s of
        [] \<Rightarrow> (rune_error, 0)
      | a # s1 \<Rightarrow>
          if code a < 128 then (code a, 1)
          else if code a < 194 \<or> code a > 244 then (rune_error, 1)
          else (case s1 of
              [] \<Rightarrow> (rune_error, 1)
            | b # s2 \<Rightarrow>
                if \<not> (second_low a \<le> code b \<and> code b \<le> second_high a) then (rune_error, 1)
                else if code a < 224 then ((code a - 192) * 64 + (code b - 128), 2)
                else (case s2 of
                    [] \<Rightarrow> (rune_error, 1)
                  | c # s3 \<Rightarrow>
                      if \<not> continues c then (rune_error, 1)
                      else if code a < 240
                      then ((code a - 224) * 4096 + (code b - 128) * 64 + (code c - 128), 3)
                      else (case s3 of
                          [] \<Rightarrow> (rune_error, 1)
                        | d # s4 \<Rightarrow>
                            if \<not> continues d then (rune_error, 1)
                            else ((code a - 240) * 262144 + (code b - 128) * 4096
                                    + (code c - 128) * 64 + (code d - 128), 4)))))"

definition bad_rune :: "int \<times> nat \<Rightarrow> bool" where
  "bad_rune p \<longleftrightarrow> p = (rune_error, 1)"

lemma decode_rune_ascii [simp]: "code c < 128 \<Longrightarrow> decode_rune (c # s) = (code c, 1)"
  by (simp add: decode_rune_def)

lemma decode_rune_size: "s \<noteq> [] \<Longrightarrow> 1 \<le> snd (decode_rune s) \<and> snd (decode_rune s) \<le> length s"
  by (simp add: decode_rune_def split: list.split)

section \<open>The escaping\<close>

definition hex_digit :: "int \<Rightarrow> char" where
  "hex_digit n = ''0123456789abcdef'' ! nat n"

definition escape_byte :: "char \<Rightarrow> string" where
  "escape_byte c =
     (if c = CHR 0x22 \<or> c = CHR 0x5C then [CHR 0x5C, c]
      else if c = CHR 0x0A then [CHR 0x5C, CHR ''n'']
      else if c = CHR 0x0D then [CHR 0x5C, CHR ''r'']
      else if c = CHR 0x09 then [CHR 0x5C, CHR ''t'']
      else CHR 0x5C # ''u00'' @ [hex_digit (code c div 16), hex_digit (code c mod 16)])"

definition plain_byte :: "char \<Rightarrow> bool" where
  "plain_byte c \<longleftrightarrow> 32 \<le> code c \<and> c \<noteq> CHR 0x22 \<and> c \<noteq> CHR 0x5C"

definition replacement :: string where
  "replacement = [CHR 0xEF, CHR 0xBF, CHR 0xBD]"

definition line_separator :: "int \<Rightarrow> bool" where
  "line_separator r \<longleftrightarrow> r = 8232 \<or> r = 8233"

definition escape_rune :: "int \<Rightarrow> string" where
  "escape_rune r = CHR 0x5C # ''u202'' @ [hex_digit (r mod 16)]"

text \<open>A piece \<open>s[start:i]\<close>.\<close>

definition slice :: "string \<Rightarrow> nat \<Rightarrow> nat \<Rightarrow> string" where
  "slice s start i = take (i - start) (drop start s)"

lemma decode_advances: "i < length s \<Longrightarrow> length s - (i + snd (decode_rune (drop i s))) < length s - i"
  using decode_rune_size[of "drop i s"] by (intro diff_less_mono2) auto

function json_loop :: "string \<Rightarrow> nat \<Rightarrow> nat \<Rightarrow> string \<Rightarrow> string" where
  "json_loop s i start dst =
     (if \<not> i < length s then dst @ slice s start (length s) @ [CHR 0x22]
      else if code (s ! i) < 128 then
        (if plain_byte (s ! i) then json_loop s (i + 1) start dst
         else json_loop s (i + 1) (i + 1) (dst @ slice s start i @ escape_byte (s ! i)))
      else if bad_rune (decode_rune (drop i s)) then
        json_loop s (i + snd (decode_rune (drop i s))) (i + snd (decode_rune (drop i s)))
          (dst @ slice s start i @ replacement)
      else if line_separator (fst (decode_rune (drop i s))) then
        json_loop s (i + snd (decode_rune (drop i s))) (i + snd (decode_rune (drop i s)))
          (dst @ slice s start i @ escape_rune (fst (decode_rune (drop i s))))
      else json_loop s (i + snd (decode_rune (drop i s))) start dst)"
  by auto

termination
  by (relation "measure (\<lambda>(s, i, _, _). length s - i)") (auto intro: decode_advances)

declare json_loop.simps [simp del]

definition append_json_string :: "string \<Rightarrow> string \<Rightarrow> string" where
  "append_json_string dst s = json_loop s 0 0 (dst @ [CHR 0x22])"

text \<open>\<open>pushParams\<close> writes into an empty buffer: \<open>stamp\<close> is the formatted time, \<open>took\<close> milliseconds, and
  \<open>ports\<close> the ports if the daemon reports them; \<open>enc\<close>, the standard library's encoder, may fail.\<close>

definition append_ports :: "('p list \<Rightarrow> string option) \<Rightarrow> string \<Rightarrow> 'p list \<Rightarrow> string" where
  "append_ports enc b ports =
     (case enc ports of None \<Rightarrow> b | Some j \<Rightarrow> b @ CHR '','' # CHR 0x22 # ''ports'' @ [CHR 0x22, CHR '':''] @ j)"

definition member :: "string \<Rightarrow> string" where
  "member k = CHR 0x22 # k @ [CHR 0x22, CHR '':'']"

definition push_params ::
  "('p list \<Rightarrow> string option) \<Rightarrow> string \<Rightarrow> string \<Rightarrow> int \<Rightarrow> nat \<Rightarrow> 'p list option \<Rightarrow> string" where
  "push_params enc metrics stamp took seqno ports =
     (let b1 = CHR ''{'' # member ''format'' @ CHR 0x22 # ''prometheus-text'' @ [CHR 0x22, CHR '','']
                 @ member ''collectedAt'' @ [CHR 0x22];
          b2 = b1 @ stamp @ [CHR 0x22, CHR '',''] @ member ''durationMs'' @ itoa_int took
                 @ CHR '','' # member ''seq'' @ itoa seqno;
          b3 = (case ports of None \<Rightarrow> b2 | Some ps \<Rightarrow> append_ports enc b2 ps);
          b4 = append_json_string (b3 @ CHR '','' # member ''text'') metrics
      in b4 @ [CHR ''}''])"

section \<open>What the loop writes\<close>

function escape :: "string \<Rightarrow> string" where
  "escape s =
     (if s = [] then []
      else if code (hd s) < 128 then (if plain_byte (hd s) then [hd s] else escape_byte (hd s)) @ escape (tl s)
      else (if bad_rune (decode_rune s) then replacement
            else if line_separator (fst (decode_rune s)) then escape_rune (fst (decode_rune s))
            else take (snd (decode_rune s)) s)
        @ escape (drop (snd (decode_rune s)) s))"
  by auto

termination
  by (relation "measure length") (auto dest: decode_rune_size)

declare escape.simps [simp del]

lemma slice_grows: "start \<le> i \<Longrightarrow> slice s start (i + k) = slice s start i @ take k (drop i s)"
  using take_add[of "i - start" k "drop start s"] by (simp add: slice_def)

lemma json_loop_escape:
  "start \<le> i \<Longrightarrow> i \<le> length s \<Longrightarrow>
     json_loop s i start dst = dst @ slice s start i @ escape (drop i s) @ [CHR 0x22]"
proof (induction s i start dst rule: json_loop.induct)
  case (1 s i start dst)
  let ?r = "decode_rune (drop i s)"
  show ?case
  proof (cases "i < length s")
    case True
    have size: "1 \<le> snd ?r" "i + snd ?r \<le> length s" using decode_rune_size[of "drop i s"] True by auto
    have hd: "hd (drop i s) = s ! i" "tl (drop i s) = drop (i + 1) s" "drop i s \<noteq> []"
      using True by (simp_all add: hd_drop_conv_nth tl_drop drop_Suc)
    have none: "slice s k k = []" for k by (simp add: slice_def)
    have one: "slice s start (Suc i) = slice s start i @ [s ! i]"
      using slice_grows[OF 1(6), of s 1] hd(1,3) by (simp add: take_Suc)
    have more: "slice s start (i + snd ?r) = slice s start i @ take (snd ?r) (drop i s)"
      by (rule slice_grows[OF 1(6)])
    show ?thesis
      using 1(1-5)[OF _] 1(6) True size
      by (subst json_loop.simps, subst escape.simps) (simp add: hd none one more drop_drop add.commute)
  next
    case False
    with 1(7) show ?thesis by (subst json_loop.simps, subst escape.simps) simp
  qed
qed

lemma append_json_string_escape: "append_json_string dst s = dst @ [CHR 0x22] @ escape s @ [CHR 0x22]"
  by (simp add: append_json_string_def json_loop_escape slice_def)

section \<open>The text is UTF-8\<close>

function valid_utf8 :: "string \<Rightarrow> bool" where
  "valid_utf8 s =
     (if s = [] then True
      else if bad_rune (decode_rune s) then False
      else valid_utf8 (drop (snd (decode_rune s)) s))"
  by auto

termination
  by (relation "measure length") (auto dest: decode_rune_size)

declare valid_utf8.simps [simp del]

lemma valid_utf8_Nil [simp]: "valid_utf8 []"
  by (simp add: valid_utf8.simps)

lemma valid_utf8_ascii: "code c < 128 \<Longrightarrow> valid_utf8 (c # s) = valid_utf8 s"
  by (subst valid_utf8.simps) (simp add: bad_rune_def rune_error_def)

lemma valid_utf8_ascii_append: "\<forall>c \<in> set xs. code c < 128 \<Longrightarrow> valid_utf8 (xs @ s) = valid_utf8 s"
  by (induction xs) (simp_all add: valid_utf8_ascii)

lemma decode_rune_append:
  "s \<noteq> [] \<Longrightarrow> \<not> bad_rune (decode_rune s) \<Longrightarrow> decode_rune (s @ t) = decode_rune s"
  by (auto simp: decode_rune_def bad_rune_def split: list.splits if_splits)

lemma decode_rune_take:
  "s \<noteq> [] \<Longrightarrow> \<not> bad_rune (decode_rune s) \<Longrightarrow> decode_rune (take (snd (decode_rune s)) s) = decode_rune s"
  by (auto simp: decode_rune_def bad_rune_def split: list.splits if_splits)

lemma valid_utf8_append: "valid_utf8 s \<Longrightarrow> valid_utf8 (s @ t) = valid_utf8 t"
proof (induction s rule: valid_utf8.induct)
  case (1 s)
  show ?case
  proof (cases "s = []")
    case False
    then have good: "\<not> bad_rune (decode_rune s)" "valid_utf8 (drop (snd (decode_rune s)) s)"
      using 1(2) False valid_utf8.simps[of s] by (simp_all split: if_splits)
    have "valid_utf8 (s @ t) = valid_utf8 (drop (snd (decode_rune s)) s @ t)"
      using False good(1) decode_rune_append[OF False good(1)] decode_rune_size[OF False]
      by (subst valid_utf8.simps) simp
    with 1(1)[OF False good] show ?thesis by simp
  qed simp
qed

lemma valid_utf8_rune:
  assumes "s \<noteq> []" "\<not> bad_rune (decode_rune s)"
  shows "valid_utf8 (take (snd (decode_rune s)) s)"
  using decode_rune_take[OF assms] assms(2) by (subst valid_utf8.simps) simp

lemma valid_replacement: "valid_utf8 replacement"
  by code_simp

lemma code_range: "0 \<le> code c" "code c < 256"
  unfolding code_def by (metis of_char_mod_256 pos_mod_sign zero_less_numeral, metis of_char_mod_256 pos_mod_bound zero_less_numeral)

lemma hex_digits_ascii: "list_all (\<lambda>n. code (hex_digit n) < 128) [0..15]"
  by code_simp

lemma hex_digit_ascii: "code (hex_digit (n mod 16)) < 128"
proof -
  have "n mod 16 \<in> set [0..15]" using pos_mod_bound[of 16 n] pos_mod_sign[of 16 n] by simp
  with hex_digits_ascii show ?thesis unfolding list_all_iff by (rule bspec)
qed

lemma escape_byte_ascii: "code c < 128 \<Longrightarrow> \<forall>x \<in> set (escape_byte c). code x < 128"
  using hex_digit_ascii[of "code c div 16"] hex_digit_ascii[of "code c"] code_range[of c]
  by (auto simp: escape_byte_def code_def)

lemma escape_rune_ascii: "\<forall>x \<in> set (escape_rune r). code x < 128"
  using hex_digit_ascii[of r] by (auto simp: escape_rune_def code_def)

lemma valid_escape_append: "valid_utf8 (escape s @ t) = valid_utf8 t"
proof (induction s rule: escape.induct)
  case (1 s)
  let ?r = "decode_rune s"
  show ?case
  proof (cases "s = []")
    case False
    note steps = 1(1)[OF False] 1(2)[OF False]
    show ?thesis
    proof (cases "code (hd s) < 128")
      case True
      then show ?thesis
        using steps(1)[OF True] False escape_byte_ascii[OF True] valid_utf8_ascii_append[of "escape_byte (hd s)"]
        by (subst escape.simps) (simp add: valid_utf8_ascii)
    next
      case high: False
      then show ?thesis
        using steps(2)[OF high] False escape_rune_ascii[of "fst ?r"] valid_utf8_rune[OF False]
          valid_utf8_ascii_append[of "escape_rune (fst ?r)"] valid_utf8_append[OF valid_replacement]
          valid_utf8_append[of "take (snd ?r) s"]
        by (subst escape.simps) simp
    qed
  qed (simp add: escape.simps)
qed

lemma valid_append_json_string: "valid_utf8 dst \<Longrightarrow> valid_utf8 (append_json_string dst s @ t) = valid_utf8 t"
  by (simp add: append_json_string_escape valid_utf8_append valid_escape_append valid_utf8_ascii code_def)

section \<open>Reading it back\<close>

text \<open>A JSON string (RFC 8259) read from after its opening quote: the text, as UTF-8, and what follows the
  closing one. Surrogates, which nothing here writes, are not read.\<close>

definition utf8_encode :: "int \<Rightarrow> string" where
  "utf8_encode r =
     (if r < 128 then [octet r]
      else if r < 2048 then [octet (192 + r div 64), octet (128 + r mod 64)]
      else if r < 65536 then [octet (224 + r div 4096), octet (128 + r div 64 mod 64), octet (128 + r mod 64)]
      else [octet (240 + r div 262144), octet (128 + r div 4096 mod 64), octet (128 + r div 64 mod 64),
            octet (128 + r mod 64)])"

definition hex_value :: "char \<Rightarrow> int option" where
  "hex_value c =
     (if 48 \<le> code c \<and> code c \<le> 57 then Some (code c - 48)
      else if 97 \<le> code c \<and> code c \<le> 102 then Some (code c - 87)
      else if 65 \<le> code c \<and> code c \<le> 70 then Some (code c - 55)
      else None)"

definition hex4 :: "string \<Rightarrow> int option" where
  "hex4 ds =
     fold (\<lambda>c n. case (n, hex_value c) of (Some n, Some v) \<Rightarrow> Some (16 * n + v) | _ \<Rightarrow> None) ds (Some 0)"

definition simple_escape :: "char \<Rightarrow> char option" where
  "simple_escape c = map_of [(CHR 0x22, CHR 0x22), (CHR 0x5C, CHR 0x5C), (CHR ''/'', CHR ''/''),
     (CHR ''b'', CHR 0x08), (CHR ''f'', CHR 0x0C), (CHR ''n'', CHR 0x0A), (CHR ''r'', CHR 0x0D),
     (CHR ''t'', CHR 0x09)] c"

definition ahead :: "string \<Rightarrow> (string \<times> string) option \<Rightarrow> (string \<times> string) option" where
  "ahead xs = map_option (\<lambda>(t, rest). (xs @ t, rest))"

fun json_read :: "string \<Rightarrow> (string \<times> string) option" where
  "json_read [] = None"
| "json_read (c # cs) =
     (if c = CHR 0x22 then Some ([], cs)
      else if c \<noteq> CHR 0x5C then (if code c < 32 then None else ahead [c] (json_read cs))
      else (case cs of
          [] \<Rightarrow> None
        | e # ds \<Rightarrow>
            if e \<noteq> CHR ''u'' then
              (case simple_escape e of None \<Rightarrow> None | Some x \<Rightarrow> ahead [x] (json_read ds))
            else if length ds < 4 then None
            else (case hex4 (take 4 ds) of
                None \<Rightarrow> None
              | Some r \<Rightarrow>
                  if 55296 \<le> r \<and> r \<le> 57343 then None else ahead (utf8_encode r) (json_read (drop 4 ds)))))"

text \<open>The text with U+FFFD for every byte that is not part of an UTF-8 encoding.\<close>

function to_valid :: "string \<Rightarrow> string" where
  "to_valid s =
     (if s = [] then []
      else (if bad_rune (decode_rune s) then replacement else take (snd (decode_rune s)) s)
        @ to_valid (drop (snd (decode_rune s)) s))"
  by auto

termination
  by (relation "measure length") (auto dest: decode_rune_size)

declare to_valid.simps [simp del]

lemma to_valid_Nil [simp]: "to_valid [] = []"
  by (simp add: to_valid.simps)

lemma to_valid_id: "valid_utf8 s \<Longrightarrow> to_valid s = s"
proof (induction s rule: to_valid.induct)
  case (1 s)
  then show ?case
    using valid_utf8.simps[of s] by (cases "s = []") (simp_all add: to_valid.simps[of s] split: if_splits)
qed

lemma valid_to_valid: "valid_utf8 (to_valid s)"
proof (induction s rule: to_valid.induct)
  case (1 s)
  then show ?case
    using valid_utf8_rune[of s] valid_replacement
    by (subst to_valid.simps) (simp add: valid_utf8_append)
qed

lemma ahead_simps [simp]: "ahead [] r = r" "ahead xs None = None" "ahead xs (Some (t, u)) = Some (xs @ t, u)"
  by (cases r; auto simp: ahead_def)+

lemma json_read_high: "\<forall>c \<in> set xs. 128 \<le> code c \<Longrightarrow> json_read (xs @ t) = ahead xs (json_read t)"
proof (induction xs)
  case (Cons c xs)
  then have "c \<noteq> CHR 0x22" "c \<noteq> CHR 0x5C" by (auto simp: code_def)
  with Cons show ?case by (cases "json_read t") auto
qed simp

lemma json_read_plain: "plain_byte c \<Longrightarrow> json_read (c # t) = ahead [c] (json_read t)"
  by (simp add: plain_byte_def)

text \<open>Every byte below 0x80 that is escaped is read back: checked for each of them.\<close>

definition control_bytes :: string where
  "control_bytes = map (\<lambda>n. octet n) [0..31]"

lemma controls: "code c < 32 \<Longrightarrow> c \<in> set control_bytes"
proof -
  assume "code c < 32"
  then have "code c \<in> set [0..31]" using code_range[of c] by simp
  moreover have "c = octet (code c)" by (simp add: octet_def code_def)
  ultimately show ?thesis unfolding control_bytes_def set_map by blast
qed

lemma controls_hex:
  "list_all (\<lambda>c. hex4 [CHR ''0'', CHR ''0'', hex_digit (code c div 16), hex_digit (code c mod 16)] = Some (code c)
     \<and> utf8_encode (code c) = [c]) control_bytes"
  by code_simp

lemma json_read_escaped: "\<not> plain_byte c \<Longrightarrow> json_read (escape_byte c @ t) = ahead [c] (json_read t)"
proof -
  assume n: "\<not> plain_byte c"
  show ?thesis
  proof (cases "c \<in> {CHR 0x22, CHR 0x5C, CHR 0x0A, CHR 0x0D, CHR 0x09}")
    case True
    then show ?thesis by (auto simp: escape_byte_def simple_escape_def)
  next
    case False
    then have c: "code c < 32" using n by (auto simp: plain_byte_def)
    have "hex4 [CHR ''0'', CHR ''0'', hex_digit (code c div 16), hex_digit (code c mod 16)] = Some (code c)
        \<and> utf8_encode (code c) = [c]"
      using controls_hex controls[OF c] unfolding list_all_iff by blast
    then show ?thesis using False c by (simp add: escape_byte_def)
  qed
qed

lemma decode_high:
  assumes "s \<noteq> []" "\<not> code (hd s) < 128" "\<not> bad_rune (decode_rune s)"
  shows "\<forall>x \<in> set (take (snd (decode_rune s)) s). 128 \<le> code x"
  using assms
  by (auto simp: decode_rune_def bad_rune_def continues_def second_low_def split: list.splits if_splits)

lemma separator_digits:
  fixes a b c r :: int
  assumes r: "r = (a - 224) * 4096 + (b - 128) * 64 + (c - 128)"
    and "128 \<le> b" "b \<le> 191" "128 \<le> c" "c \<le> 191" "8232 \<le> r" "r \<le> 8233"
  shows "a = 226 \<and> b = 128 \<and> c = r - 8064"
proof -
  have "(a - 224) * 4096 < 3 * 4096" "1 * 4096 < (a - 224) * 4096" using assms by simp_all
  then have a: "a = 226" by (simp only: mult_less_cancel_right) simp
  then have "(b - 128) * 64 < 1 * 64" using assms by simp
  then have "b = 128" using \<open>128 \<le> b\<close> by (simp only: mult_less_cancel_right) simp
  with a r show ?thesis by simp
qed

lemma separator_bytes:
  assumes "s \<noteq> []" "\<not> code (hd s) < 128" "\<not> bad_rune (decode_rune s)" "line_separator (fst (decode_rune s))"
  shows "take (snd (decode_rune s)) s = utf8_encode (fst (decode_rune s))"
proof -
  obtain a b c t where s: "s = a # b # c # t" "snd (decode_rune s) = 3"
    "fst (decode_rune s) = (code a - 224) * 4096 + (code b - 128) * 64 + (code c - 128)"
    "224 \<le> code a" "128 \<le> code b" "code b \<le> 191" "128 \<le> code c" "code c \<le> 191"
    using assms
    by (auto simp: decode_rune_def bad_rune_def line_separator_def continues_def second_low_def second_high_def
        split: list.splits if_splits)
  let ?x = "fst (decode_rune s)"
  have r: "8232 \<le> ?x" "?x \<le> 8233" using assms(4) by (auto simp: line_separator_def)
  from separator_digits[OF s(3,5-8) r] have "code a = 226" "code b = 128" "code c = ?x - 8064" by blast+
  then have "a = octet 226" "b = octet 128" "c = octet (fst (decode_rune s) - 8064)"
    unfolding octet_def by (metis code_def char_of_char)+
  then show ?thesis
    using assms(4) unfolding s(1)[symmetric] s(2) line_separator_def
    by (auto simp: s(1) utf8_encode_def)
qed

lemma json_read_separator: "line_separator r \<Longrightarrow> json_read (escape_rune r @ t) = ahead (utf8_encode r) (json_read t)"
  by (auto simp: line_separator_def escape_rune_def hex_digit_def hex4_def hex_value_def code_def)

lemma json_read_escape: "json_read (escape s @ CHR 0x22 # rest) = Some (to_valid s, rest)"
proof (induction s rule: escape.induct)
  case (1 s)
  let ?r = "decode_rune s"
  show ?case
  proof (cases "s = []")
    case False
    note steps = 1(1)[OF False] 1(2)[OF False]
    obtain c cs where s: "s = c # cs" using False by (cases s) auto
    show ?thesis
    proof (cases "code (hd s) < 128")
      case True
      define t where "t = escape cs @ CHR 0x22 # rest"
      have t: "json_read t = Some (to_valid cs, rest)"
        using steps(1)[OF True] unfolding t_def s by simp
      have e: "escape s @ CHR 0x22 # rest = (if plain_byte c then c # t else escape_byte c @ t)"
        using True by (subst escape.simps) (simp add: s t_def)
      have v: "to_valid s = [c] @ to_valid cs"
        using True by (subst to_valid.simps) (simp add: s bad_rune_def rune_error_def)
      show ?thesis
        unfolding e v by (cases "plain_byte c") (simp_all only: if_True if_False json_read_plain json_read_escaped t ahead_simps simp_thms)
    next
      case high: False
      have r: "\<forall>x \<in> set replacement. 128 \<le> code x" by code_simp
      define t where "t = escape (drop (snd ?r) s) @ CHR 0x22 # rest"
      have t: "json_read t = Some (to_valid (drop (snd ?r) s), rest)"
        unfolding t_def by (rule steps(2)[OF high])
      have e: "escape s @ CHR 0x22 # rest =
          (if bad_rune ?r then replacement else if line_separator (fst ?r) then escape_rune (fst ?r)
           else take (snd ?r) s) @ t"
        using False high by (subst escape.simps) (simp add: t_def)
      have v: "to_valid s = (if bad_rune ?r then replacement else take (snd ?r) s) @ to_valid (drop (snd ?r) s)"
        using False by (subst to_valid.simps) simp
      consider "bad_rune ?r" | "\<not> bad_rune ?r" "line_separator (fst ?r)" | "\<not> bad_rune ?r" "\<not> line_separator (fst ?r)"
        by blast
      then show ?thesis
      proof cases
        case 1 then show ?thesis unfolding e v by (simp only: if_True json_read_high[OF r] t ahead_simps)
      next
        case 2
        then show ?thesis unfolding e v separator_bytes[OF False high 2]
          by (simp only: if_True if_False json_read_separator t ahead_simps)
      next
        case 3 then show ?thesis
          unfolding e v by (simp only: if_False json_read_high[OF decode_high[OF False high 3(1)]] t ahead_simps)
      qed
    qed
  qed (simp add: escape.simps)
qed

text \<open>What is pushed comes back. Reading the JSON string written for a text gives the text again,
  ending where it was written to end; a text that is not UTF-8 (an SSID may be any bytes) comes back
  with U+FFFD for each offending byte, and is UTF-8 then.\<close>

theorem json_string_roundtrip:
  "\<exists>body. append_json_string dst s = dst @ CHR 0x22 # body
     \<and> json_read (body @ rest) = Some (to_valid s, rest)
     \<and> valid_utf8 (to_valid s)
     \<and> (valid_utf8 s \<longrightarrow> to_valid s = s)"
  by (intro exI[of _ "escape s @ [CHR 0x22]"])
     (simp add: append_json_string_escape json_read_escape valid_to_valid to_valid_id)

theorem json_string_roundtrip_witness:
  "to_valid [CHR ''a'', CHR 0x22, CHR 0xC3, CHR 0xA9] = [CHR ''a'', CHR 0x22, CHR 0xC3, CHR 0xA9]"
proof -
  have "valid_utf8 [CHR ''a'', CHR 0x22, CHR 0xC3, CHR 0xA9]" by code_simp
  with json_string_roundtrip[of "[]" "[CHR ''a'', CHR 0x22, CHR 0xC3, CHR 0xA9]" "[]"] show ?thesis by blast
qed

lemma is_digit_code: "is_digit c \<Longrightarrow> code c < 128"
  using of_nat_of_char[where 'a = int, of c] by (simp add: is_digit_iff code_def)

text \<open>C26: A push never ends its session. Its params are valid UTF-8 whatever bytes the metrics hold (the
  controller closes the session on a text frame that is not), if the time and the ports are; and their
  last member is the text, which a reader gets as above.\<close>

theorem push_frame_utf8:
  assumes "valid_utf8 stamp" and "\<And>ps j. ports = Some ps \<Longrightarrow> enc ps = Some j \<Longrightarrow> valid_utf8 j"
  shows "valid_utf8 (push_params enc metrics stamp took seqno ports)
    \<and> (\<exists>before body. push_params enc metrics stamp took seqno ports = before @ member ''text'' @ CHR 0x22 # body
        \<and> json_read body = Some (to_valid metrics, [CHR ''}'']))"
proof -
  define b2 where "b2 = CHR ''{'' # member ''format'' @ CHR 0x22 # ''prometheus-text'' @ [CHR 0x22, CHR '','']
      @ member ''collectedAt'' @ [CHR 0x22] @ stamp @ [CHR 0x22, CHR '',''] @ member ''durationMs'' @ itoa_int took
      @ CHR '','' # member ''seq'' @ itoa seqno"
  define b3 where "b3 = (case ports of None \<Rightarrow> b2 | Some ps \<Rightarrow> append_ports enc b2 ps)"
  have p: "push_params enc metrics stamp took seqno ports =
      append_json_string (b3 @ CHR '','' # member ''text'') metrics @ [CHR ''}'']"
    by (cases ports) (simp_all add: push_params_def Let_def b3_def b2_def)
  have ascii: "\<forall>x \<in> set (itoa_int took). code x < 128" "\<forall>x \<in> set (itoa seqno). code x < 128"
    "\<forall>x \<in> set (member ''format''). code x < 128" "\<forall>x \<in> set (member ''collectedAt''). code x < 128"
    "\<forall>x \<in> set (member ''durationMs''). code x < 128" "\<forall>x \<in> set (member ''seq''). code x < 128"
    "\<forall>x \<in> set (member ''text''). code x < 128" "\<forall>x \<in> set ''prometheus-text''. code x < 128"
    using itoa_digits[THEN is_digit_code] by (auto simp: itoa_int_def member_def code_def)
  note va = valid_utf8_ascii_append[OF ascii(1)] valid_utf8_ascii_append[OF ascii(2), of "[]"]
    valid_utf8_ascii_append[OF ascii(3)] valid_utf8_ascii_append[OF ascii(4)] valid_utf8_ascii_append[OF ascii(5)]
    valid_utf8_ascii_append[OF ascii(6)] valid_utf8_ascii_append[OF ascii(8)]
  have "valid_utf8 (itoa seqno)" using valid_utf8_ascii_append[OF ascii(2), of "[]"] by simp
  then have v2: "valid_utf8 b2"
    unfolding b2_def by (simp add: valid_utf8_ascii code_def va valid_utf8_append[OF assms(1)])
  have v3: "valid_utf8 b3"
  proof (cases ports)
    case (Some ps)
    have "valid_utf8 (CHR '','' # CHR 0x22 # ''ports'' @ [CHR 0x22, CHR '':''] @ j)" if "enc ps = Some j" for j
      using assms(2)[OF Some that] by (simp add: valid_utf8_ascii code_def)
    then show ?thesis using v2 Some
      by (auto simp: b3_def append_ports_def valid_utf8_append split: option.split)
  qed (simp add: b3_def v2)
  have "valid_utf8 (b3 @ CHR '','' # member ''text'')"
    using v3 valid_utf8_ascii_append[OF ascii(7), of "[]"] by (simp add: valid_utf8_append valid_utf8_ascii code_def)
  then have "valid_utf8 (push_params enc metrics stamp took seqno ports)"
    unfolding p by (simp add: valid_append_json_string valid_utf8_ascii code_def)
  moreover have "push_params enc metrics stamp took seqno ports =
      (b3 @ [CHR '','']) @ member ''text'' @ CHR 0x22 # escape metrics @ CHR 0x22 # [CHR ''}'']"
    unfolding p by (simp add: append_json_string_escape)
  ultimately show ?thesis using json_read_escape[of metrics "[CHR ''}'']"] by blast
qed

theorem push_frame_utf8_witness:
  "valid_utf8 (push_params (\<lambda>_. Some ''[]'') [CHR 0xFF, CHR 0x0A] ''2024-01-01T00:00:00Z'' 12 1 (Some ([] :: unit list)))"
proof -
  have "valid_utf8 ''2024-01-01T00:00:00Z''" "valid_utf8 ''[]''" by code_simp+
  then show ?thesis by (intro push_frame_utf8[THEN conjunct1]) auto
qed

end
