(* ===== verification/Session.thy ===== *)
theory Session
  imports Config "HOL-Library.Word"
begin

text \<open>
  The session loop, \<open>internal/agent/agent.go\<close> and \<open>redial.go\<close>: the agent joins with its token, holds one
  session at a time and dials again. One round of \<open>Run\<close> is \<open>run_round\<close>, whose environment says what the
  network, the controller and the clock did; it returns what the loop does next (wait so many
  milliseconds, go round at once, stop). The link (dialing, the WebSocket, its backoff ladder) is a
  module: the ladder is a parameter, a session is the events it had and the error it ended with.
\<close>

section \<open>Errors\<close>

record status_error =
  se_status :: int
  se_code :: string
  se_retry_after :: int
  se_text :: string

text \<open>What \<open>errors.As\<close> finds in an error: a refusal of the controller, the code and reason it closed with,
  an unknown certificate authority, a name that does not resolve.\<close>

record session_error =
  er_text :: string
  er_status :: "status_error option"
  er_close :: "(int \<times> string) option"
  er_unknown_ca :: bool
  er_dns :: "(bool \<times> string) option"

text \<open>\<open>websocket.CloseStatus\<close>; a session may also end without an error.\<close>

definition close_code :: "session_error option \<Rightarrow> int" where
  "close_code e = (case e of None \<Rightarrow> -1 | Some x \<Rightarrow> (case er_close x of None \<Rightarrow> -1 | Some (c, _) \<Rightarrow> c))"

definition status_of :: "session_error option \<Rightarrow> status_error option" where
  "status_of e = (case e of None \<Rightarrow> None | Some x \<Rightarrow> er_status x)"

definition dns_hint :: "session_error \<Rightarrow> string" where
  "dns_hint e =
     (case er_dns e of
        None \<Rightarrow> []
      | Some (not_found, name) \<Rightarrow>
          if \<not> not_found \<or> name = [] then []
          else ''if the name points at a LAN address, OpenWrt'' @ CHR 0x27 # ''s DNS rebind protection may be dropping the answer ''
             @ ''(logread: possible DNS-rebind attack); allow it with: uci add_list dhcp.@dnsmasq[0].rebind_domain=''
             @ CHR 0x27 # name @ CHR 0x27 # ''; uci commit dhcp; service dnsmasq reload'')"

definition describe :: "session_error option \<Rightarrow> string" where
  "describe e =
     (case e of
        None \<Rightarrow> ''closed''
      | Some x \<Rightarrow>
          (case er_status x of
             Some se \<Rightarrow>
               if se_status se = 404 then se_text se
                 @ '' (the controller has no AP daemon support: update Perch Network Controller, or check the URL)''
               else if se_status se = 401 \<and> se_code se = ''invalid_join_token'' then se_text se
                 @ '' (create a new join token in Settings '' @ [CHR 0xE2, CHR 0x86, CHR 0x92] @ '' Wi-Fi sources)''
               else if se_status se = 400 \<and> se_code se = ''unsupported_protocol'' then se_text se
                 @ '' (the daemon and the controller speak different protocol versions: update the older one)''
               else se_text se
           | None \<Rightarrow>
               (case er_close x of
                  Some (c, reason) \<Rightarrow> ''closed by the controller: '' @ itoa_int c @ '' '' @ reason
                | None \<Rightarrow>
                    if er_unknown_ca x then er_text x
                      @ '' (install ca-bundle, set ca_file, or tls_insecure '' @ CHR 0x27 # ''1'' @ CHR 0x27 # '' for a self-signed certificate)''
                    else if dns_hint x \<noteq> [] then er_text x @ '' ('' @ dns_hint x @ '')''
                    else er_text x)))"

section \<open>What the agent sends\<close>

definition truncate_bytes :: "string \<Rightarrow> nat \<Rightarrow> string" where
  "truncate_bytes s n = (if length s > n then take n s else s)"

record board =
  bd_hostname :: string
  bd_model :: string
  bd_name :: string
  bd_release :: string
  bd_revision :: string
  bd_target :: string
  bd_kernel :: string

record join_request =
  jr_token :: string
  jr_hostname :: string
  jr_model :: string
  jr_board_name :: string
  jr_release :: string
  jr_revision :: string
  jr_target :: string
  jr_arch :: string
  jr_kernel :: string
  jr_version :: string
  jr_macs :: "string list"

definition build_join_request ::
  "board \<Rightarrow> string list option \<Rightarrow> string \<Rightarrow> string \<Rightarrow> string \<Rightarrow> string \<Rightarrow> join_request" where
  "build_join_request b macs os_hostname arch version token =
     \<lparr>jr_token = token,
      jr_hostname = truncate_bytes (if bd_hostname b = [] then os_hostname else bd_hostname b) 120,
      jr_model = truncate_bytes (bd_model b) 120,
      jr_board_name = truncate_bytes (bd_name b) 120,
      jr_release = truncate_bytes (bd_release b) 50,
      jr_revision = truncate_bytes (bd_revision b) 64,
      jr_target = truncate_bytes (bd_target b) 64,
      jr_arch = arch,
      jr_kernel = truncate_bytes (bd_kernel b) 64,
      jr_version = truncate_bytes version 32,
      jr_macs = (case macs of None \<Rightarrow> [] | Some ms \<Rightarrow> ms)\<rparr>"

text \<open>The controller's answer to a join: its status, the refusal a bad status is read as, and the
  credentials its body decodes to.\<close>

record join_answer =
  ja_status :: int
  ja_refusal :: session_error
  ja_body :: "session_error + (string \<times> string)"

definition plain_error :: "string \<Rightarrow> session_error" where
  "plain_error t = \<lparr>er_text = t, er_status = None, er_close = None, er_unknown_ca = False, er_dns = None\<rparr>"

definition join_controller :: "session_error + join_answer \<Rightarrow> session_error + (string \<times> string)" where
  "join_controller r =
     (case r of
        Inl e \<Rightarrow> Inl e
      | Inr a \<Rightarrow>
          if ja_status a \<noteq> 201 \<and> ja_status a \<noteq> 200 then Inl (ja_refusal a)
          else (case ja_body a of
              Inl e \<Rightarrow> Inl (e\<lparr>er_text := ''join: bad response: '' @ er_text e\<rparr>)
            | Inr (aid, secret) \<Rightarrow>
                if aid = [] \<or> secret = [] then Inl (plain_error ''join: response without credentials'')
                else Inr (aid, secret)))"

record 'i push_config =
  pc_interval :: 'i
  pc_collectors :: "string list"

definition default_collectors :: "string list" where
  "default_collectors = [''openwrt'', ''uname'', ''stat'', ''loadavg'', ''meminfo'', ''conntrack'', ''netdev'',
     ''wifi'', ''wifi_stations'']"

text \<open>\<open>ParseConfigure\<close>: \<open>dec\<close> decodes the params, \<open>secs\<close> and \<open>dflt\<close> are the interval of a number of seconds
  and the default one.\<close>

definition parse_configure ::
  "(string \<Rightarrow> 'e + ('f option \<times> string list)) \<Rightarrow> ('f \<Rightarrow> 'i) \<Rightarrow> 'i \<Rightarrow> string \<Rightarrow> 'e + 'i push_config" where
  "parse_configure dec secs dflt rw =
     (case dec rw of
        Inl e \<Rightarrow> Inl e
      | Inr (interval, names) \<Rightarrow>
          Inr \<lparr>pc_interval = (case interval of None \<Rightarrow> dflt | Some f \<Rightarrow> secs f),
               pc_collectors = (if names = [] then default_collectors else names)\<rparr>)"

section \<open>The session's number and challenge\<close>

type_synonym session_info = "64 word \<times> string"

record agent =
  a_gen :: "64 word"
  a_cur :: session_info
  a_redial_now :: bool
  a_sess :: "nat option"

definition no_session :: session_info where
  "no_session = (0, [])"

definition begin_session :: "string \<Rightarrow> agent \<Rightarrow> agent" where
  "begin_session challenge a =
     a\<lparr>a_gen := a_gen a + 1, a_cur := (a_gen a + 1, challenge), a_redial_now := False\<rparr>"

definition end_session :: "agent \<Rightarrow> agent" where
  "end_session a = a\<lparr>a_cur := no_session\<rparr>"

text \<open>\<open>ended\<close>: the request's context is its session's, and that has ended.\<close>

definition session_ref :: "bool \<Rightarrow> agent \<Rightarrow> session_info" where
  "session_ref ended a = (if ended then no_session else a_cur a)"

definition set_session :: "nat \<Rightarrow> agent \<Rightarrow> agent" where
  "set_session p a = a\<lparr>a_sess := Some p\<rparr>"

definition clear_session :: "nat \<Rightarrow> agent \<Rightarrow> agent" where
  "clear_session p a = (if a_sess a = Some p then a\<lparr>a_sess := None\<rparr> else a)"

definition connected :: "agent \<Rightarrow> bool" where
  "connected a \<longleftrightarrow> a_sess a \<noteq> None"

text \<open>\<open>Send\<close>; \<open>written\<close>: the session took the notification.\<close>

definition send :: "bool \<Rightarrow> agent \<Rightarrow> bool" where
  "send written a = (case a_sess a of None \<Rightarrow> False | Some _ \<Rightarrow> written)"

text \<open>\<open>Reconnect\<close>, and the close it sends on the session.\<close>

definition reconnect :: "string \<Rightarrow> agent \<Rightarrow> (nat \<times> string) option \<times> agent" where
  "reconnect reason a =
     (let reason' = (if length reason > 120 then take 120 reason else reason)
      in case a_sess a of
           None \<Rightarrow> (None, a)
         | Some p \<Rightarrow> (Some (p, reason'), a\<lparr>a_redial_now := True\<rparr>))"

section \<open>Delays, in milliseconds\<close>

definition slow_retry :: int where "slow_retry = 300000"
definition replaced_retry :: int where "replaced_retry = 60000"
definition reconnect_max :: int where "reconnect_max = 30000"
definition fast_redial :: int where "fast_redial = 2000"

text \<open>The link's ladder and close codes.\<close>

record 'b link =
  lk_next :: "'b \<Rightarrow> int \<times> 'b"
  lk_reset :: "'b \<Rightarrow> 'b"
  lk_revoked :: int
  lk_replaced :: int
  lk_going_away :: int

definition retry_delay :: "'b link \<Rightarrow> session_error option \<Rightarrow> 'b \<Rightarrow> int \<times> 'b" where
  "retry_delay L e bo =
     (case status_of e of
        None \<Rightarrow> lk_next L bo
      | Some se \<Rightarrow>
          if se_status se = 429 \<and> se_retry_after se > 0 then (se_retry_after se, bo)
          else if se_status se \<ge> 500 \<and> se_retry_after se > 0 \<and> se_retry_after se < reconnect_max
          then (se_retry_after se, bo)
          else if se_status se \<in> {401, 422, 404, 403, 400} then (slow_retry, bo)
          else lk_next L bo)"

text \<open>\<open>redialDelay\<close>; \<open>fast\<close>: the plane wants a session.\<close>

definition redial_delay :: "session_error option \<Rightarrow> bool \<Rightarrow> int \<Rightarrow> agent \<Rightarrow> int \<times> agent" where
  "redial_delay e fast wait a =
     (let now = a_redial_now a;
          a' = a\<lparr>a_redial_now := False\<rparr>;
          refused = (case status_of e of None \<Rightarrow> False | Some se \<Rightarrow> se_status se < 500 \<or> se_retry_after se > 0)
      in (if refused then wait
          else if now then 0
          else if fast \<and> wait > fast_redial then fast_redial
          else wait, a'))"

section \<open>The loop\<close>

datatype session_event = Opened nat | Closed nat | Reconnected string

datatype session_run = NoAddress session_error | Session "session_event list" "session_error option"

record round_env =
  re_join :: "session_error + join_answer"
  re_default :: string
  re_write :: bool
  re_challenge :: string
  re_session :: session_run
  re_stopped :: bool
  re_long :: bool
  re_jitter :: int
  re_fast :: bool

record 'b loop =
  lp_cfg :: config
  lp_disk :: disk
  lp_backoff :: 'b
  lp_agent :: agent
  lp_warned :: bool

datatype next_round = Wait int | Again | Idle | Stopped

fun on_event :: "session_event \<Rightarrow> agent \<Rightarrow> agent" where
  "on_event (Opened p) a = set_session p a"
| "on_event (Closed p) a = clear_session p a"
| "on_event (Reconnected reason) a = snd (reconnect reason a)"

fun run_session :: "string \<Rightarrow> session_run \<Rightarrow> agent \<Rightarrow> session_error option \<times> agent" where
  "run_session challenge (NoAddress e) a = (Some e, a)"
| "run_session challenge (Session evs e) a = (e, end_session (fold on_event evs (begin_session challenge a)))"

text \<open>The join of a round without credentials: a wait, or the state with them.\<close>

definition join_round :: "'b link \<Rightarrow> round_env \<Rightarrow> 'b loop \<Rightarrow> (int \<times> 'b loop) + 'b loop" where
  "join_round L x s =
     (case join_controller (re_join x) of
        Inl e \<Rightarrow>
          (let (wait, bo) = retry_delay L (Some e) (lp_backoff s) in Inl (wait, s\<lparr>lp_backoff := bo\<rparr>))
      | Inr (aid, secret) \<Rightarrow>
          (let (err, d, c) = save_credentials (re_default x) (re_write x) (lp_disk s) (lp_cfg s) aid secret;
               c' = (if err = None then c else c\<lparr>c_agent_id := aid, c_agent_secret := secret, c_join_token := []\<rparr>)
           in Inr (s\<lparr>lp_cfg := c', lp_disk := d, lp_backoff := lk_reset L (lp_backoff s)\<rparr>)))"

definition session_round :: "'b link \<Rightarrow> round_env \<Rightarrow> 'b loop \<Rightarrow> next_round \<times> 'b loop" where
  "session_round L x s =
     (let (e, a) = run_session (re_challenge x) (re_session x) (lp_agent s);
          s1 = s\<lparr>lp_agent := a\<rparr>
      in if re_stopped x then (Stopped, s1)
         else
           (let s2 = (if re_long x then s1\<lparr>lp_backoff := lk_reset L (lp_backoff s1)\<rparr> else s1);
                unauthorized = (case status_of e of None \<Rightarrow> False | Some se \<Rightarrow> se_status se = 401)
            in if close_code e = lk_revoked L \<or> unauthorized then
                 (if c_join_token (lp_cfg s2) \<noteq> []
                  then (Again, s2\<lparr>lp_cfg := (lp_cfg s2)\<lparr>c_agent_id := [], c_agent_secret := []\<rparr>\<rparr>)
                  else (Wait slow_retry, s2))
               else if close_code e = lk_replaced L then (Wait replaced_retry, s2)
               else if close_code e = lk_going_away L then (Wait (2000 + re_jitter x), s2)
               else
                 (let (w, bo) = retry_delay L e (lp_backoff s2);
                      (wait, a') = redial_delay e (re_fast x) w (lp_agent s2)
                  in (Wait wait, s2\<lparr>lp_backoff := bo, lp_agent := a'\<rparr>))))"

definition run_round :: "'b link \<Rightarrow> round_env \<Rightarrow> 'b loop \<Rightarrow> next_round \<times> 'b loop" where
  "run_round L x s =
     (if c_controller (lp_cfg s) = [] then (Idle, s)
      else if \<not> has_credentials (lp_cfg s) then
        (if c_join_token (lp_cfg s) = [] then (Wait slow_retry, s\<lparr>lp_warned := True\<rparr>)
         else (case join_round L x s of
             Inl (wait, s') \<Rightarrow> (Wait wait, s')
           | Inr s' \<Rightarrow> session_round L x s'))
      else session_round L x s)"

section \<open>What the loop promises\<close>

lemma session_events_gen:
  "a_gen (fold on_event evs a) = a_gen a \<and> a_cur (fold on_event evs a) = a_cur a"
proof (induction evs arbitrary: a)
  case (Cons ev evs)
  have "a_gen (on_event ev a) = a_gen a" "a_cur (on_event ev a) = a_cur a"
    by (cases ev; simp add: set_session_def clear_session_def reconnect_def Let_def split: option.split)+
  with Cons show ?case by simp
qed simp

lemma join_controller_Inr: "join_controller r = Inr (aid, secret) \<Longrightarrow> aid \<noteq> [] \<and> secret \<noteq> []"
  by (auto simp: join_controller_def split: sum.splits if_splits prod.splits)

text \<open>After a join that worked the agent has its credentials and no token.\<close>

lemma join_round_Inr:
  assumes "join_round L x s = Inr s'"
  shows "has_credentials (lp_cfg s') \<and> c_join_token (lp_cfg s') = [] \<and> c_controller (lp_cfg s') = c_controller (lp_cfg s)"
proof -
  obtain aid secret where j: "join_controller (re_join x) = Inr (aid, secret)"
    using assms by (auto simp: join_round_def split: sum.splits prod.splits)
  obtain err d c where sv: "save_credentials (re_default x) (re_write x) (lp_disk s) (lp_cfg s) aid secret = (err, d, c)"
    by (metis prod_cases3)
  have "c = (if err = None then (lp_cfg s)\<lparr>c_agent_id := aid, c_agent_secret := secret, c_join_token := []\<rparr>
      else lp_cfg s)"
    using sv by (auto simp: save_credentials_def split: prod.splits option.splits)
  then show ?thesis using assms join_controller_Inr[OF j]
    by (cases "err = None") (auto simp: join_round_def j sv has_credentials_def)
qed

lemma join_round_Inl: "join_round L x s = Inl (w, s') \<Longrightarrow> lp_cfg s' = lp_cfg s"
  by (auto simp: join_round_def split: sum.splits prod.splits)

lemma session_round_cfg:
  assumes "session_round L x s = (n, s')"
  shows "n = Again \<and> c_join_token (lp_cfg s) \<noteq> []
      \<and> lp_cfg s' = (lp_cfg s)\<lparr>c_agent_id := [], c_agent_secret := []\<rparr>
    \<or> n \<noteq> Again \<and> n \<noteq> Idle \<and> lp_cfg s' = lp_cfg s \<and> (n = Stopped \<longrightarrow> re_stopped x)"
  using assms by (auto simp: session_round_def Let_def split: prod.splits if_splits)

text \<open>C34: The agent never strands itself. Whatever the controller answers, an agent with credentials or a
  join token has one or the other after every round, keeps its controller, and stops only when it is
  told to (a refusal, an error or a write that fails never ends the loop).\<close>

theorem identity_kept:
  assumes "run_round L x s = (n, s')"
    and "has_credentials (lp_cfg s) \<or> c_join_token (lp_cfg s) \<noteq> []"
  shows "(has_credentials (lp_cfg s') \<or> c_join_token (lp_cfg s') \<noteq> [])
    \<and> c_controller (lp_cfg s') = c_controller (lp_cfg s)
    \<and> (n = Idle \<longleftrightarrow> c_controller (lp_cfg s) = [])
    \<and> (n = Stopped \<longrightarrow> re_stopped x)"
proof (cases "c_controller (lp_cfg s) = []")
  case True
  then show ?thesis using assms by (auto simp: run_round_def)
next
  case False
  show ?thesis
  proof (cases "has_credentials (lp_cfg s)")
    case True
    with False assms have "session_round L x s = (n, s')" by (simp add: run_round_def)
    from session_round_cfg[OF this] show ?thesis using False True by (auto simp: has_credentials_def)
  next
    case no: False
    with False assms have r: "(case join_round L x s of Inl (wait, s') \<Rightarrow> (Wait wait, s') | Inr s' \<Rightarrow> session_round L x s') = (n, s')"
      by (simp add: run_round_def)
    show ?thesis
    proof (cases "join_round L x s")
      case (Inl p)
      then show ?thesis using r no False assms(2) by (cases p) (auto dest: join_round_Inl)
    next
      case (Inr s1)
      then have "session_round L x s1 = (n, s')" using r by simp
      from session_round_cfg[OF this] join_round_Inr[OF Inr] False show ?thesis
        by (auto simp: has_credentials_def)
    qed
  qed
qed


text \<open>Where a wait comes from.\<close>

definition waits_ok :: "int \<Rightarrow> session_error option \<Rightarrow> int \<Rightarrow> bool" where
  "waits_ok M e w \<longleftrightarrow> 0 \<le> w
     \<and> (w \<le> max slow_retry M \<or> (\<exists>se. status_of e = Some se \<and> se_status se = 429 \<and> w = se_retry_after se))"

lemma retry_delay_ok:
  assumes "\<And>b. 0 \<le> fst (lk_next L b) \<and> fst (lk_next L b) \<le> M"
  shows "waits_ok M e (fst (retry_delay L e b))"
  using assms[of b]
  by (auto simp: retry_delay_def waits_ok_def slow_retry_def reconnect_max_def split: option.split)

lemma redial_delay_ok: "waits_ok M e w \<Longrightarrow> waits_ok M e (fst (redial_delay e fast w a))"
  by (auto simp: redial_delay_def waits_ok_def Let_def fast_redial_def slow_retry_def split: option.split)

text \<open>The error a round waits for: a join's or its session's.\<close>

definition round_error :: "round_env \<Rightarrow> session_error option \<Rightarrow> bool" where
  "round_error x e \<longleftrightarrow> (\<exists>j. join_controller (re_join x) = Inl j \<and> e = Some j)
     \<or> (case re_session x of NoAddress err \<Rightarrow> e = Some err | Session _ err \<Rightarrow> e = err)"

lemma session_round_wait:
  assumes M: "\<And>b. 0 \<le> fst (lk_next L b) \<and> fst (lk_next L b) \<le> M"
    and j: "0 \<le> re_jitter x" "re_jitter x < 3000" and r: "session_round L x s = (Wait w, s')"
  shows "\<exists>e. round_error x e \<and> waits_ok M e w"
proof -
  obtain e a where ea: "run_session (re_challenge x) (re_session x) (lp_agent s) = (e, a)" by fastforce
  have re: "round_error x e" using ea by (cases "re_session x") (auto simp: round_error_def)
  have "w = slow_retry \<or> w = replaced_retry \<or> w = 2000 + re_jitter x
      \<or> (\<exists>b a'. w = fst (redial_delay e (re_fast x) (fst (retry_delay L e b)) a'))"
    using r unfolding session_round_def ea Let_def prod.case
    by (simp split: prod.splits if_splits) (metis fst_conv)+
  then have "waits_ok M e w"
    using j redial_delay_ok[OF retry_delay_ok[OF M]]
    by (elim disjE exE) (auto simp: waits_ok_def slow_retry_def replaced_retry_def)
  with re show ?thesis by blast
qed

text \<open>The agent is back within five minutes. Every wait of the loop is at most five minutes (or the top
  of the link's ladder, if that were more), except one the controller asked for with a 429.\<close>

theorem waits_bounded:
  assumes "\<And>b. 0 \<le> fst (lk_next L b) \<and> fst (lk_next L b) \<le> M"
    and "0 \<le> re_jitter x" "re_jitter x < 3000" and "run_round L x s = (Wait w, s')"
  shows "\<exists>e. round_error x e \<and> 0 \<le> w
    \<and> (w \<le> max 300000 M \<or> (\<exists>se. status_of e = Some se \<and> se_status se = 429 \<and> w = se_retry_after se))"
proof -
  have unjoined: "\<exists>e. round_error x e \<and> waits_ok M e w" if "w = slow_retry"
  proof (cases "re_session x")
    case (NoAddress e)
    then have "round_error x (Some e)" by (simp add: round_error_def)
    then show ?thesis using that by (auto simp: waits_ok_def slow_retry_def)
  next
    case (Session evs e)
    then have "round_error x e" by (simp add: round_error_def)
    then show ?thesis using that by (auto simp: waits_ok_def slow_retry_def)
  qed
  have joining: "\<exists>e. round_error x e \<and> waits_ok M e w" if jr: "join_round L x s = Inl (w, s'')" for s''
  proof -
    obtain j where j: "join_controller (re_join x) = Inl j" "w = fst (retry_delay L (Some j) (lp_backoff s))"
      using jr by (fastforce simp: join_round_def split: sum.splits prod.splits)
    then show ?thesis using retry_delay_ok[OF assms(1)] by (auto simp: round_error_def)
  qed
  have "\<exists>e. round_error x e \<and> waits_ok M e w"
    using assms(4) unjoined joining session_round_wait[OF assms(1-3)]
    by (auto simp: run_round_def split: if_splits sum.splits prod.splits)
  then show ?thesis by (simp add: waits_ok_def slow_retry_def)
qed

text \<open>Whether a session's events ask for a fresh one: a \<open>Reconnect\<close> while it was open.\<close>

fun asks :: "session_event list \<Rightarrow> nat option \<Rightarrow> bool" where
  "asks [] cur = False"
| "asks (Opened p # evs) cur = asks evs (Some p)"
| "asks (Closed p # evs) cur = asks evs (if cur = Some p then None else cur)"
| "asks (Reconnected r # evs) cur = (cur \<noteq> None \<or> asks evs cur)"

lemma redial_now_asks:
  "a_redial_now (fold on_event evs a) \<longleftrightarrow> a_redial_now a \<or> asks evs (a_sess a)"
proof (induction evs arbitrary: a)
  case (Cons ev evs)
  then show ?case
    by (cases ev) (auto simp: set_session_def clear_session_def reconnect_def split: option.splits)
qed simp

text \<open>An apply's fresh session is dialed at once. A session that ends without a refusal is followed by a
  dial with no wait exactly when the plane asked to reconnect while it was open; else the wait is the
  ladder's, cut to two seconds while the plane wants a session. The wish never outlives its session.\<close>

theorem reconnect_at_once:
  assumes "re_session x = Session evs e" "\<not> re_stopped x" "status_of e = None"
    and "close_code e \<notin> {lk_revoked L, lk_replaced L, lk_going_away L}"
  shows "\<exists>w s'. session_round L x s = (Wait w, s') \<and> \<not> a_redial_now (lp_agent s')
    \<and> (let ladder = fst (lk_next L (if re_long x then lk_reset L (lp_backoff s) else lp_backoff s))
       in w = (if asks evs (a_sess (lp_agent s)) then 0
               else if re_fast x then min 2000 ladder else ladder))"
proof -
  let ?a = "end_session (fold on_event evs (begin_session (re_challenge x) (lp_agent s)))"
  have now: "a_redial_now ?a = asks evs (a_sess (lp_agent s))"
    by (simp add: end_session_def redial_now_asks) (simp add: begin_session_def)
  show ?thesis
    using assms now
    by (auto simp: session_round_def Let_def retry_delay_def redial_delay_def fast_redial_def split: prod.split)
qed

section \<open>At concrete rounds\<close>

definition sample_link :: "int link" where
  "sample_link = \<lparr>lk_next = (\<lambda>b. (if b < 0 then 0 else if b > 30000 then 30000 else b, 2 * b)),
     lk_reset = (\<lambda>_. 1000), lk_revoked = 4001, lk_replaced = 4002, lk_going_away = 1001\<rparr>"

definition sample_agent_config :: config where
  "sample_agent_config = \<lparr>c_path = ''/etc/config/perch-apd'', c_enabled = True, c_controller = ''https://c'',
     c_join_token = ''t'', c_agent_id = ''1'', c_agent_secret = ''s'', c_tls_insecure = False, c_ca_file = [],
     c_log_level = ''info'', c_ports = True, c_wifi_groups = False, c_wifi_groups_insecure = False,
     c_wifi_config = ''none'', c_wifi_config_allow = [], c_wifi_config_ignored = [],
     c_wifi_config_insecure = False, c_wifi_config_confirm_max = 900, c_self_update = False, c_update_keys = []\<rparr>"

definition sample_loop :: "int loop" where
  "sample_loop = \<lparr>lp_cfg = sample_agent_config, lp_disk = Missing, lp_backoff = 1000,
     lp_agent = \<lparr>a_gen = 0, a_cur = no_session, a_redial_now = False, a_sess = None\<rparr>, lp_warned = False\<rparr>"

definition unauthorized :: session_error where
  "unauthorized = (plain_error ''401'')\<lparr>er_status := Some \<lparr>se_status = 401, se_code = [], se_retry_after = 0,
     se_text = ''401''\<rparr>\<rparr>"

definition sample_round :: "session_run \<Rightarrow> round_env" where
  "sample_round r = \<lparr>re_join = Inl (plain_error ''timeout''), re_default = [], re_write = True, re_challenge = ''c'',
     re_session = r, re_stopped = False, re_long = False, re_jitter = 0, re_fast = False\<rparr>"

definition refused_round :: round_env where
  "refused_round = sample_round (Session [] (Some unauthorized))"

lemmas sample_round_simps = sample_loop_def sample_agent_config_def sample_link_def sample_round_def refused_round_def
  run_round_def session_round_def join_round_def join_controller_def unauthorized_def plain_error_def
  has_credentials_def status_of_def close_code_def retry_delay_def redial_delay_def Let_def

lemma refused_again: "\<exists>s1. run_round sample_link refused_round sample_loop = (Again, s1) \<and> c_agent_id (lp_cfg s1) = []"
  by (simp add: sample_round_simps)

theorem identity_kept_witness:
  "c_join_token (lp_cfg (snd (run_round sample_link refused_round sample_loop))) \<noteq> []"
proof -
  obtain s1 where r: "run_round sample_link refused_round sample_loop = (Again, s1)" "c_agent_id (lp_cfg s1) = []"
    using refused_again by blast
  have "has_credentials (lp_cfg sample_loop)" by (simp add: sample_round_simps)
  with identity_kept[OF r(1)] r show ?thesis by (simp add: has_credentials_def)
qed


definition lost_round :: round_env where
  "lost_round = sample_round (Session [Opened 1, Reconnected ''apply'', Closed 1] None)"

theorem reconnect_at_once_witness:
  "\<exists>s'. session_round sample_link lost_round sample_loop = (Wait 0, s') \<and> \<not> a_redial_now (lp_agent s')"
  using reconnect_at_once[of lost_round "[Opened 1, Reconnected ''apply'', Closed 1]" None sample_link sample_loop]
  by (simp add: lost_round_def sample_round_def status_of_def close_code_def sample_link_def sample_loop_def Let_def)

theorem waits_bounded_witness:
  "\<exists>s' e. run_round sample_link lost_round sample_loop = (Wait 0, s') \<and> round_error lost_round e"
proof -
  have r: "\<exists>s'. run_round sample_link lost_round sample_loop = (Wait 0, s')"
    by (simp add: sample_round_simps lost_round_def begin_session_def end_session_def set_session_def clear_session_def
        reconnect_def)
  then obtain s' where s': "run_round sample_link lost_round sample_loop = (Wait 0, s')" ..
  have "0 \<le> fst (lk_next sample_link b) \<and> fst (lk_next sample_link b) \<le> 30000" for b
    by (simp add: sample_link_def)
  moreover have "0 \<le> re_jitter lost_round" "re_jitter lost_round < 3000"
    by (simp_all add: lost_round_def sample_round_def)
  ultimately show ?thesis using waits_bounded[OF _ _ _ s'] s' by blast
qed

end
