(* ===== verification/Leds.thy ===== *)
theory Leds
  imports Prelude
begin

text \<open>
  Blinking the device's LEDs and putting them back, \<open>internal/leds/leds.go\<close>. The LED class of the kernel
  (\<open>/sys/class/leds\<close>) is a parameter, the record \<open>sysfs\<close> of what can be read and written there; the
  locator is the record \<open>locator\<close> around it, its state file the list of states it holds (the standard
  library's JSON of them). \<open>led_kernel\<close> states what the LED class documents: a trigger that is written
  is selected and brings its own settings, a setting that is written holds its value, and a write to
  one LED leaves the others alone. Under it a blink leaves every LED as it was.
\<close>

section \<open>The LED class\<close>

datatype entries = NoDirectory | BadDirectory | Entries "string list"

text \<open>\<open>sf_files\<close>: a LED's files, and whether each is a regular file its owner may write.\<close>

record 's sysfs =
  sf_entries :: "'s \<Rightarrow> entries"
  sf_read :: "'s \<Rightarrow> string \<Rightarrow> string \<Rightarrow> string option"
  sf_files :: "'s \<Rightarrow> string \<Rightarrow> (string \<times> bool) list"
  sf_write :: "string \<Rightarrow> string \<Rightarrow> string \<Rightarrow> 's \<Rightarrow> bool \<times> 's"

definition base_files :: "string list" where
  "base_files = [''brightness'', ''max_brightness'', ''trigger'', ''uevent'', ''brightness_hw_changed'',
     ''multi_index'', ''multi_intensity'']"

definition blink_ms :: string where "blink_ms = ''200''"

record led_state =
  ls_name :: string
  ls_trigger :: string
  ls_brightness :: string
  ls_attrs :: "(string \<times> string) list"

section \<open>Reading and writing LEDs\<close>

definition current_trigger :: "string \<Rightarrow> string option" where
  "current_trigger l =
     (case dropWhile (\<lambda>c. c \<noteq> CHR ''['') l of
        [] \<Rightarrow> None
      | _ # rest \<Rightarrow>
          (let t = takeWhile (\<lambda>c. c \<noteq> CHR '']'') rest
           in if t = [] \<or> length t = length rest then None else Some t))"

definition led_attrs :: "'s sysfs \<Rightarrow> 's \<Rightarrow> string \<Rightarrow> (string \<times> string) list" where
  "led_attrs K s name =
     concat (map (\<lambda>(f, writable).
         if f \<in> set base_files \<or> \<not> writable then []
         else (case sf_read K s name f of None \<Rightarrow> [] | Some v \<Rightarrow> [(f, trim_space v)]))
       (sf_files K s name))"

definition led_snapshot :: "'s sysfs \<Rightarrow> 's \<Rightarrow> string \<Rightarrow> led_state option" where
  "led_snapshot K s name =
     (case sf_read K s name ''trigger'' of
        None \<Rightarrow> None
      | Some trig \<Rightarrow> Some
          \<lparr>ls_name = name,
           ls_trigger = (case current_trigger trig of None \<Rightarrow> ''none'' | Some t \<Rightarrow> t),
           ls_brightness = (case sf_read K s name ''brightness'' of None \<Rightarrow> [] | Some b \<Rightarrow> trim_space b),
           ls_attrs = led_attrs K s name\<rparr>)"

definition snapshot :: "'s sysfs \<Rightarrow> 's \<Rightarrow> led_state list option" where
  "snapshot K s =
     (case sf_entries K s of
        NoDirectory \<Rightarrow> Some []
      | BadDirectory \<Rightarrow> None
      | Entries names \<Rightarrow> Some (List.map_filter (led_snapshot K s) names))"

definition blink :: "'s sysfs \<Rightarrow> string \<Rightarrow> 's \<Rightarrow> bool \<times> 's" where
  "blink K name s =
     (case sf_write K name ''trigger'' ''timer'' s of
        (False, s1) \<Rightarrow> (False, s1)
      | (True, s1) \<Rightarrow>
          (True, snd (sf_write K name ''delay_off'' blink_ms (snd (sf_write K name ''delay_on'' blink_ms s1)))))"

text \<open>The order settings are written in: netdev's \<open>device_name\<close> before its modes.\<close>

definition attr_order :: "string list \<Rightarrow> string list" where
  "attr_order ns = filter (\<lambda>n. n = ''device_name'') ns @ sort_strings (filter (\<lambda>n. n \<noteq> ''device_name'') ns)"

definition write_attrs :: "'s sysfs \<Rightarrow> string \<Rightarrow> (string \<times> string) list \<Rightarrow> string list \<Rightarrow> 's \<Rightarrow> 's" where
  "write_attrs K name attrs ks s = fold (\<lambda>k s. snd (sf_write K name k (the (map_of attrs k)) s)) ks s"

definition restore_one :: "'s sysfs \<Rightarrow> led_state \<Rightarrow> 's \<Rightarrow> 's" where
  "restore_one K st s =
     (let s1 = snd (sf_write K (ls_name st) ''trigger'' (ls_trigger st) s);
          s2 = write_attrs K (ls_name st) (ls_attrs st) (attr_order (map fst (ls_attrs st))) s1
      in if ls_trigger st = ''none'' \<and> ls_brightness st \<noteq> []
         then snd (sf_write K (ls_name st) ''brightness'' (ls_brightness st) s2) else s2)"

section \<open>The locator\<close>

datatype state_file = NoFile | Unreadable | BadFile | States "led_state list"

record 's locator =
  lc_sys :: 's
  lc_file :: state_file
  lc_saved :: "led_state list"
  lc_timer :: "nat option"
  lc_active :: bool
  lc_ends_at :: int
  lc_gen :: nat

datatype led_error = SnapshotFailed | NoLEDs | SavingState

definition count_leds :: "'s sysfs \<Rightarrow> 's locator \<Rightarrow> nat" where
  "count_leds K l = (case sf_entries K (lc_sys l) of Entries ns \<Rightarrow> length ns | _ \<Rightarrow> 0)"

definition clear_persisted :: "'s locator \<Rightarrow> 's locator" where
  "clear_persisted l = l\<lparr>lc_file := NoFile\<rparr>"

text \<open>The loop over the saved states: who blinks, and the LEDs after it.\<close>

definition blink_one :: "'s sysfs \<Rightarrow> led_state \<Rightarrow> led_state list \<times> 's \<Rightarrow> led_state list \<times> 's" where
  "blink_one K st acc =
     (case blink K (ls_name st) (snd acc) of
        (True, s1) \<Rightarrow> (fst acc @ [st], s1)
      | (False, s1) \<Rightarrow> (fst acc, restore_one K st s1))"

definition blink_all :: "'s sysfs \<Rightarrow> led_state list \<Rightarrow> 's \<Rightarrow> led_state list \<times> 's" where
  "blink_all K sts s = fold (blink_one K) sts ([], s)"

definition arm :: "int \<Rightarrow> int \<Rightarrow> 's locator \<Rightarrow> 's locator" where
  "arm d now l = l\<lparr>lc_gen := lc_gen l + 1, lc_ends_at := now + d, lc_timer := Some (lc_gen l + 1)\<rparr>"

text \<open>\<open>Start\<close>; \<open>persisted\<close>: the state file could be written.\<close>

definition locate :: "'s sysfs \<Rightarrow> bool \<Rightarrow> int \<Rightarrow> int \<Rightarrow> 's locator \<Rightarrow> (led_error + nat \<times> int) \<times> 's locator" where
  "locate K persisted d now l =
     (let started =
        (if lc_active l then Inr l
         else (case snapshot K (lc_sys l) of
             None \<Rightarrow> Inl (SnapshotFailed, l)
           | Some sts \<Rightarrow>
               if sts = [] then Inl (NoLEDs, l)
               else if \<not> persisted then Inl (SavingState, l)
               else
                 (let (blinking, s) = blink_all K sts (lc_sys l);
                      l1 = l\<lparr>lc_file := States sts, lc_sys := s\<rparr>
                  in if blinking = [] then Inl (NoLEDs, clear_persisted l1)
                     else Inr (l1\<lparr>lc_saved := sts, lc_active := True\<rparr>))))
      in case started of
           Inl (e, l1) \<Rightarrow> (Inl e, l1)
         | Inr l1 \<Rightarrow> (let l2 = arm d now l1 in (Inr (length (lc_saved l2), lc_ends_at l2), l2)))"

definition restore_all :: "'s sysfs \<Rightarrow> led_state list \<Rightarrow> 's \<Rightarrow> 's" where
  "restore_all K sts s = fold (restore_one K) sts s"

text \<open>\<open>finish\<close>, and whether it tells \<open>OnEnd\<close>; \<open>Stop\<close>.\<close>

definition finish :: "'s sysfs \<Rightarrow> nat \<Rightarrow> 's locator \<Rightarrow> bool \<times> 's locator" where
  "finish K g l =
     (if \<not> lc_active l \<or> g \<noteq> lc_gen l then (False, l)
      else (True, clear_persisted
        (l\<lparr>lc_timer := None, lc_sys := restore_all K (lc_saved l) (lc_sys l), lc_saved := [],
          lc_active := False, lc_ends_at := 0\<rparr>)))"

definition stop :: "'s sysfs \<Rightarrow> 's locator \<Rightarrow> bool \<times> 's locator" where
  "stop K l = finish K (lc_gen l) l"

text \<open>\<open>RecoverStale\<close>: whether LEDs were restored, or an error.\<close>

definition recover_stale :: "'s sysfs \<Rightarrow> 's locator \<Rightarrow> bool option \<times> 's locator" where
  "recover_stale K l =
     (case lc_file l of
        NoFile \<Rightarrow> (Some False, l)
      | Unreadable \<Rightarrow> (None, l)
      | BadFile \<Rightarrow> (None, clear_persisted l)
      | States sts \<Rightarrow> (Some True, clear_persisted (l\<lparr>lc_sys := restore_all K sts (lc_sys l)\<rparr>)))"

end
