(* ===== verification/LedsProps.thy ===== *)
theory LedsProps
  imports Leds
begin

text \<open>
  What the locator promises: under the documented behaviour of the LED class a blink, ended by its
  timer, by a stop or by the next start of a daemon that died, leaves every LED as it was; and the
  locator is the two-state machine its callers see.
\<close>

section \<open>The LED class as documented\<close>

text \<open>A LED as its user sees it: its trigger, its brightness and the settings of the trigger.\<close>

record led_view =
  lv_trigger :: string
  lv_brightness :: string
  lv_attrs :: "string \<Rightarrow> string option"

text \<open>What is read is the LED: the selected trigger in brackets (or none), the brightness, one writable
  file for each setting.\<close>

definition reads_view :: "'s sysfs \<Rightarrow> 's \<Rightarrow> string \<Rightarrow> led_view \<Rightarrow> bool" where
  "reads_view K s led v \<longleftrightarrow>
     (\<exists>l. sf_read K s led ''trigger'' = Some l
        \<and> (case current_trigger l of None \<Rightarrow> ''none'' | Some t \<Rightarrow> t) = lv_trigger v)
   \<and> (\<exists>b. sf_read K s led ''brightness'' = Some b \<and> trim_space b = lv_brightness v) \<and> lv_brightness v \<noteq> []
   \<and> distinct (map fst (sf_files K s led))
   \<and> (\<forall>f. lv_attrs v f =
        (if (f, True) \<in> set (sf_files K s led) \<and> f \<notin> set base_files
         then map_option trim_space (sf_read K s led f) else None))"

text \<open>\<open>names led t\<close> are the settings trigger \<open>t\<close> has on a LED, \<open>fits led f x\<close> the values file \<open>f\<close> takes. A
  value that was read fits; a write that fits is done; one that does not, or to a file that is not
  there, may fail but never changes the trigger.\<close>

definition led_kernel ::
  "'s sysfs \<Rightarrow> ('s \<Rightarrow> string \<Rightarrow> led_view option) \<Rightarrow> (string \<Rightarrow> string \<Rightarrow> string set)
     \<Rightarrow> (string \<Rightarrow> string \<Rightarrow> string \<Rightarrow> bool) \<Rightarrow> bool" where
  "led_kernel K view names fits \<longleftrightarrow>
     (\<forall>s led v. view s led = Some v \<longrightarrow>
        reads_view K s led v
      \<and> dom (lv_attrs v) = names led (lv_trigger v)
      \<and> fits led ''trigger'' (lv_trigger v)
      \<and> (lv_trigger v = ''none'' \<longrightarrow> fits led ''brightness'' (lv_brightness v))
      \<and> (\<forall>f x. lv_attrs v f = Some x \<longrightarrow> fits led f x)
      \<and> (\<forall>t. fits led ''trigger'' t \<longrightarrow>
           (\<exists>v'. view (snd (sf_write K led ''trigger'' t s)) led = Some v' \<and> lv_trigger v' = t))
      \<and> (\<forall>t. \<not> fits led ''trigger'' t \<longrightarrow> view (snd (sf_write K led ''trigger'' t s)) led \<noteq> None)
      \<and> (\<forall>f x. f \<noteq> ''trigger'' \<longrightarrow>
           (\<exists>v'. view (snd (sf_write K led f x s)) led = Some v' \<and> lv_trigger v' = lv_trigger v))
      \<and> (\<forall>f x. f \<in> names led (lv_trigger v) \<and> fits led f x \<longrightarrow>
           view (snd (sf_write K led f x s)) led = Some (v\<lparr>lv_attrs := (lv_attrs v)(f \<mapsto> x)\<rparr>))
      \<and> (\<forall>x. lv_trigger v = ''none'' \<and> fits led ''brightness'' x \<longrightarrow>
           view (snd (sf_write K led ''brightness'' x s)) led = Some (v\<lparr>lv_brightness := x\<rparr>)))
   \<and> (\<forall>s led f x m. m \<noteq> led \<longrightarrow> view (snd (sf_write K led f x s)) m = view s m)"

lemma led_kernel_led:
  assumes "led_kernel K view names fits" "view s led = Some v"
  shows "reads_view K s led v" "dom (lv_attrs v) = names led (lv_trigger v)" "fits led ''trigger'' (lv_trigger v)"
    "lv_trigger v = ''none'' \<longrightarrow> fits led ''brightness'' (lv_brightness v)"
    "\<forall>f x. lv_attrs v f = Some x \<longrightarrow> fits led f x"
    "\<forall>t. fits led ''trigger'' t \<longrightarrow>
       (\<exists>v'. view (snd (sf_write K led ''trigger'' t s)) led = Some v' \<and> lv_trigger v' = t)"
    "\<forall>t. \<not> fits led ''trigger'' t \<longrightarrow> view (snd (sf_write K led ''trigger'' t s)) led \<noteq> None"
    "\<forall>f x. f \<noteq> ''trigger'' \<longrightarrow>
       (\<exists>v'. view (snd (sf_write K led f x s)) led = Some v' \<and> lv_trigger v' = lv_trigger v)"
    "\<forall>f x. f \<in> names led (lv_trigger v) \<and> fits led f x \<longrightarrow>
       view (snd (sf_write K led f x s)) led = Some (v\<lparr>lv_attrs := (lv_attrs v)(f \<mapsto> x)\<rparr>)"
    "\<forall>x. lv_trigger v = ''none'' \<and> fits led ''brightness'' x \<longrightarrow>
       view (snd (sf_write K led ''brightness'' x s)) led = Some (v\<lparr>lv_brightness := x\<rparr>)"
  by (insert assms(1)[unfolded led_kernel_def, THEN conjunct1, THEN spec, THEN spec, THEN spec, THEN mp, OF assms(2)])
    (elim conjE, assumption)+

text \<open>A LED as it was: the brightness counts when no trigger drives it.\<close>

definition same_led :: "led_view \<Rightarrow> led_view \<Rightarrow> bool" where
  "same_led v v' \<longleftrightarrow> lv_trigger v' = lv_trigger v \<and> lv_attrs v' = lv_attrs v
     \<and> (lv_trigger v = ''none'' \<longrightarrow> lv_brightness v' = lv_brightness v)"

section \<open>Saving a LED\<close>

definition saved_as :: "led_state \<Rightarrow> led_view \<Rightarrow> bool" where
  "saved_as st v \<longleftrightarrow> ls_trigger st = lv_trigger v \<and> ls_brightness st = lv_brightness v
     \<and> lv_brightness v \<noteq> [] \<and> map_of (ls_attrs st) = lv_attrs v"

lemma map_of_led_attrs:
  "distinct (map fst (fs :: (string \<times> bool) list)) \<Longrightarrow>
   map_of (concat (map (\<lambda>(f, w). if f \<in> B \<or> \<not> w then []
       else (case r f of None \<Rightarrow> [] | Some v \<Rightarrow> [(f, h v)])) fs)) k
     = (if (k, True) \<in> set fs \<and> k \<notin> B then map_option h (r k) else None)"
proof (induction fs)
  case (Cons p fs)
  obtain f w where p: "p = (f, w)" by fastforce
  have out: "f = k \<Longrightarrow> (k, b) \<notin> set fs" for b
    using Cons.prems p by (force simp: image_iff)
  show ?case
  proof (cases "f = k")
    case True
    then show ?thesis using Cons out[of True] by (cases w; cases "r k") (auto simp: p map_add_def split: option.split)
  next
    case False
    then show ?thesis using Cons by (auto simp: p map_add_def split: option.split)
  qed
qed simp

lemma snapshot_saves:
  assumes "reads_view K s led v"
  shows "\<exists>st. led_snapshot K s led = Some st \<and> ls_name st = led \<and> saved_as st v"
proof -
  have "map_of (led_attrs K s led) = lv_attrs v"
  proof
    fix f
    show "map_of (led_attrs K s led) f = lv_attrs v f"
      unfolding led_attrs_def
      using assms map_of_led_attrs[where fs = "sf_files K s led" and B = "set base_files" and r = "sf_read K s led"
          and h = trim_space and k = f]
      by (simp add: reads_view_def)
  qed
  then show ?thesis using assms
    by (auto simp: led_snapshot_def reads_view_def saved_as_def)
qed

section \<open>Putting a LED back\<close>

lemma set_attr_order: "set (attr_order ns) = set ns"
  by (auto simp: attr_order_def)

lemma write_attrs_view:
  assumes K: "led_kernel K view names fits"
  shows "view s led = Some v \<Longrightarrow>
    (\<And>k. k \<in> set ks \<Longrightarrow> k \<in> names led (lv_trigger v) \<and> (\<exists>x. map_of attrs k = Some x \<and> fits led k x)) \<Longrightarrow>
    view (write_attrs K led attrs ks s) led
      = Some (v\<lparr>lv_attrs := \<lambda>k. if k \<in> set ks then map_of attrs k else lv_attrs v k\<rparr>)"
proof (induction ks arbitrary: s v)
  case (Cons k ks)
  obtain x where x: "map_of attrs k = Some x" "fits led k x" "k \<in> names led (lv_trigger v)"
    using Cons.prems(2)[of k] by auto
  let ?s = "snd (sf_write K led k x s)" and ?v = "v\<lparr>lv_attrs := (lv_attrs v)(k \<mapsto> x)\<rparr>"
  have "view ?s led = Some ?v" using led_kernel_led(9)[OF K, OF Cons.prems(1)] x by simp
  then have "view (write_attrs K led attrs ks ?s) led
      = Some (?v\<lparr>lv_attrs := \<lambda>k. if k \<in> set ks then map_of attrs k else lv_attrs ?v k\<rparr>)"
    by (rule Cons.IH) (use Cons.prems(2) in simp)
  moreover have "write_attrs K led attrs (k # ks) s = write_attrs K led attrs ks ?s"
    by (simp add: write_attrs_def x)
  ultimately show ?case using x(1) by (auto simp: fun_upd_def intro!: led_view.equality)
qed (simp add: write_attrs_def)

lemma write_other:
  assumes "led_kernel K view names fits" "m \<noteq> led"
  shows "view (snd (sf_write K led f x s)) m = view s m"
  by (insert assms(1)[unfolded led_kernel_def, THEN conjunct2]) (use assms(2) in simp)

lemma write_attrs_other:
  assumes "led_kernel K view names fits" "m \<noteq> led"
  shows "view (write_attrs K led attrs ks s) m = view s m"
  unfolding write_attrs_def
  by (rule fold_keeps[where I = "\<lambda>t. view t m = view s m"]) (simp_all add: write_other[OF assms])

lemma restore_one_other:
  assumes "led_kernel K view names fits" "m \<noteq> ls_name st"
  shows "view (restore_one K st s) m = view s m"
  using write_attrs_other[OF assms] write_other[OF assms] by (simp add: restore_one_def Let_def)

text \<open>A LED is put back from its saved state whatever its state is.\<close>

lemma restore_one_view:
  assumes K: "led_kernel K view names fits" and was: "view s0 (ls_name st) = Some v0" and st: "saved_as st v0"
    and now: "view s (ls_name st) \<noteq> None"
  shows "\<exists>v. view (restore_one K st s) (ls_name st) = Some v \<and> same_led v0 v"
proof -
  let ?n = "ls_name st" and ?t = "lv_trigger v0"
  have fits: "fits ?n ''trigger'' ?t" "?t = ''none'' \<Longrightarrow> fits ?n ''brightness'' (lv_brightness v0)"
    "\<And>f x. lv_attrs v0 f = Some x \<Longrightarrow> fits ?n f x" and dom0: "dom (lv_attrs v0) = names ?n ?t"
    using led_kernel_led(2-5)[OF K, OF was] by simp_all
  let ?s1 = "snd (sf_write K ?n ''trigger'' (ls_trigger st) s)"
  obtain v1 where v1: "view ?s1 ?n = Some v1" "lv_trigger v1 = ?t"
    using led_kernel_led(6)[OF K, of s ?n] now fits(1) st unfolding saved_as_def by auto
  have dom1: "dom (lv_attrs v1) = names ?n ?t"
    using led_kernel_led(2)[OF K, OF v1(1)] v1(2) by simp
  let ?ks = "attr_order (map fst (ls_attrs st))"
  have keys: "set ?ks = names ?n ?t" unfolding set_attr_order
    using dom_map_of_conv_image_fst[of "ls_attrs st"] st dom0 by (simp add: saved_as_def)
  define s2 where "s2 = write_attrs K ?n (ls_attrs st) ?ks ?s1"
  let ?v2 = "v1\<lparr>lv_attrs := lv_attrs v0\<rparr>"
  have "view s2 ?n = Some (v1\<lparr>lv_attrs := \<lambda>k. if k \<in> set ?ks then map_of (ls_attrs st) k else lv_attrs v1 k\<rparr>)"
    unfolding s2_def
  proof (rule write_attrs_view[OF K, OF v1(1)])
    fix k assume "k \<in> set ?ks"
    then have k: "k \<in> names ?n ?t" using keys by simp
    then obtain x where "lv_attrs v0 k = Some x" using dom0 by blast
    then show "k \<in> names ?n (lv_trigger v1) \<and> (\<exists>x. map_of (ls_attrs st) k = Some x \<and> fits ?n k x)"
      using k v1(2) fits(3) st by (auto simp: saved_as_def)
  qed
  moreover have "(\<lambda>k. if k \<in> set ?ks then map_of (ls_attrs st) k else lv_attrs v1 k) = lv_attrs v0"
  proof
    fix k
    show "(if k \<in> set ?ks then map_of (ls_attrs st) k else lv_attrs v1 k) = lv_attrs v0 k"
      using keys st domIff[of k "lv_attrs v0"] domIff[of k "lv_attrs v1"] unfolding dom0 dom1
      by (cases "lv_attrs v0 k"; cases "lv_attrs v1 k") (simp_all add: saved_as_def)
  qed
  ultimately have v2: "view s2 ?n = Some ?v2" by simp
  have ro: "restore_one K st s = (if ?t = ''none'' then snd (sf_write K ?n ''brightness'' (lv_brightness v0) s2) else s2)"
    using st by (simp add: restore_one_def Let_def s2_def saved_as_def)
  show ?thesis
  proof (cases "?t = ''none''")
    case True
    have "view (snd (sf_write K ?n ''brightness'' (lv_brightness v0) s2)) ?n
        = Some (?v2\<lparr>lv_brightness := lv_brightness v0\<rparr>)"
      using led_kernel_led(10)[OF K, OF v2] v1(2) True fits(2)[OF True] by simp
    then show ?thesis using True v1(2) by (simp add: ro same_led_def)
  next
    case False
    then show ?thesis using v2 v1(2) by (simp add: ro same_led_def)
  qed
qed

section \<open>Putting all back\<close>

definition led_there :: "('s \<Rightarrow> string \<Rightarrow> led_view option) \<Rightarrow> string \<Rightarrow> 's \<Rightarrow> bool" where
  "led_there view n s \<longleftrightarrow> view s n \<noteq> None"

definition all_led :: "('s \<Rightarrow> string \<Rightarrow> led_view option) \<Rightarrow> string list \<Rightarrow> 's \<Rightarrow> bool" where
  "all_led view ns s \<longleftrightarrow> (\<forall>n \<in> set ns. led_there view n s)"

lemma write_keeps_led:
  assumes K: "led_kernel K view names fits" and n: "led_there view n s"
  shows "led_there view n (snd (sf_write K led f x s))"
proof (cases "n = led")
  case True
  obtain v where v: "view s led = Some v" using n True by (auto simp: led_there_def)
  have "view (snd (sf_write K led f x s)) led \<noteq> None"
  proof (cases "f = ''trigger''")
    case True
    then show ?thesis using led_kernel_led(6,7)[OF K, OF v] by (cases "fits led ''trigger'' x") auto
  next
    case False
    then show ?thesis using led_kernel_led(8)[OF K, OF v] by auto
  qed
  then show ?thesis using True by (simp add: led_there_def)
next
  case False
  then show ?thesis using write_other[OF K False] n by (simp add: led_there_def)
qed

lemma write_attrs_keeps_led:
  assumes "led_kernel K view names fits" "led_there view n s"
  shows "led_there view n (write_attrs K led attrs ks s)"
  unfolding write_attrs_def
  by (rule fold_keeps[where I = "led_there view n", OF assms(2)]) (rule write_keeps_led[OF assms(1)])

lemma restore_one_keeps_led:
  "led_kernel K view names fits \<Longrightarrow> led_there view n s \<Longrightarrow> led_there view n (restore_one K st s)"
  by (simp add: restore_one_def Let_def write_keeps_led write_attrs_keeps_led)

lemma blink_keeps_led:
  "led_kernel K view names fits \<Longrightarrow> led_there view n s \<Longrightarrow> led_there view n (snd (blink K led s))"
  using write_keeps_led[of K view names fits n s led "''trigger''" "''timer''"]
  by (cases "sf_write K led ''trigger'' ''timer'' s") (simp add: blink_def write_keeps_led split: bool.split)

text \<open>The saved states of the LEDs \<open>ns\<close>, as they were in \<open>s0\<close>.\<close>

definition saved_all :: "('s \<Rightarrow> string \<Rightarrow> led_view option) \<Rightarrow> string list \<Rightarrow> 's \<Rightarrow> led_state list \<Rightarrow> bool" where
  "saved_all view ns s0 sts \<longleftrightarrow> map ls_name sts = ns
     \<and> (\<forall>st \<in> set sts. \<exists>v. view s0 (ls_name st) = Some v \<and> saved_as st v)"

text \<open>A LED of \<open>ns\<close> is as in \<open>s0\<close>.\<close>

definition led_back :: "('s \<Rightarrow> string \<Rightarrow> led_view option) \<Rightarrow> 's \<Rightarrow> 's \<Rightarrow> string \<Rightarrow> bool" where
  "led_back view s0 s n \<longleftrightarrow>
     (case (view s0 n, view s n) of (Some v0, Some v) \<Rightarrow> same_led v0 v | _ \<Rightarrow> False)"

lemma snapshot_saved_all:
  assumes K: "led_kernel K view names fits" and e: "sf_entries K s = Entries ns" and all: "all_led view ns s"
  shows "\<exists>sts. snapshot K s = Some sts \<and> saved_all view ns s sts"
proof -
  have "saved_all view ms s (List.map_filter (led_snapshot K s) ms)" if "all_led view ms s" for ms
    using that
  proof (induction ms)
    case (Cons m ms)
    then obtain v where v: "view s m = Some v" by (auto simp: all_led_def led_there_def)
    obtain st where "led_snapshot K s m = Some st" "ls_name st = m" "saved_as st v"
      using snapshot_saves[OF led_kernel_led(1)[OF K, OF v]] by blast
    with Cons v show ?case by (simp add: saved_all_def all_led_def map_filter_simps)
  qed (simp add: saved_all_def map_filter_simps)
  then show ?thesis using all e by (simp add: snapshot_def)
qed

lemma restore_all_led:
  assumes K: "led_kernel K view names fits"
  shows "distinct ns \<Longrightarrow> saved_all view ns s0 sts \<Longrightarrow> all_led view ns s \<Longrightarrow>
    (\<forall>n \<in> set ns. led_back view s0 (restore_all K sts s) n)
    \<and> (\<forall>m. m \<notin> set ns \<longrightarrow> view (restore_all K sts s) m = view s m)"
proof (induction sts arbitrary: ns s)
  case (Cons st sts)
  obtain v0 where v0: "view s0 (ls_name st) = Some v0" "saved_as st v0"
    using Cons.prems(2) by (auto simp: saved_all_def)
  obtain ms where ns: "ns = ls_name st # ms" "ls_name st \<notin> set ms" "distinct ms" "saved_all view ms s0 sts"
    using Cons.prems(1,2) by (cases ns) (auto simp: saved_all_def)
  let ?s = "restore_one K st s"
  have now: "view s (ls_name st) \<noteq> None" using Cons.prems(3) ns(1) by (simp add: all_led_def led_there_def)
  have "all_led view ms ?s"
    using Cons.prems(3) ns(1) restore_one_keeps_led[OF K] unfolding all_led_def by (metis list.set_intros(2))
  note ih = Cons.IH[OF ns(3,4) this]
  have r: "restore_all K (st # sts) s = restore_all K sts ?s" by (simp add: restore_all_def)
  obtain v where v: "view ?s (ls_name st) = Some v" "same_led v0 v"
    using restore_one_view[OF K, OF v0 now] by blast
  have "view (restore_all K sts ?s) (ls_name st) = Some v" using ih ns(2) v(1) by simp
  then have "led_back view s0 (restore_all K (st # sts) s) (ls_name st)"
    unfolding led_back_def r using v0(1) v(2) by simp
  then show ?case using ih restore_one_other[OF K] unfolding r ns(1) by auto
qed (simp add: saved_all_def restore_all_def)

lemma blink_all_keeps_led:
  assumes K: "led_kernel K view names fits" and all: "all_led view ns s"
  shows "all_led view ns (snd (blink_all K sts s))"
proof -
  have one: "all_led view ns (snd (blink_one K st p))" if "all_led view ns (snd p)" for st p
    using that blink_keeps_led[OF K, of _ "snd p" "ls_name st"] restore_one_keeps_led[OF K]
    unfolding blink_one_def all_led_def
    by (cases "blink K (ls_name st) (snd p)") (auto split: bool.split)
  show ?thesis unfolding blink_all_def
    by (rule fold_keeps[where I = "\<lambda>p. all_led view ns (snd p)"]) (simp_all add: all one)
qed

text \<open>A write leaves the LEDs outside \<open>ns\<close> alone.\<close>

lemma blink_all_other:
  assumes K: "led_kernel K view names fits" and m: "m \<notin> set (map ls_name sts)"
  shows "view (snd (blink_all K sts s)) m = view s m"
proof -
  have one: "view (snd (blink_one K st p)) m = view (snd p) m" if "st \<in> set sts" for st p
  proof -
    have n: "m \<noteq> ls_name st" using m that by auto
    note w = write_other[OF K n]
    show ?thesis using w[of "''trigger''" "''timer''" "snd p"] restore_one_other[OF K n]
      by (cases "sf_write K (ls_name st) ''trigger'' ''timer'' (snd p)")
         (simp add: blink_one_def blink_def w split: bool.split)
  qed
  show ?thesis unfolding blink_all_def
    by (rule fold_keeps[where I = "\<lambda>p. view (snd p) m = view s m"]) (simp_all add: one)
qed

section \<open>A blink and its end\<close>

text \<open>What a start of the locator on idle LEDs does, up to the timer.\<close>

text \<open>When no LED takes the blink, each was put back at once.\<close>

lemma blink_one_grows: "fst p \<noteq> [] \<Longrightarrow> fst (fold (blink_one K) sts p) \<noteq> []"
  by (rule fold_keeps[where I = "\<lambda>p. fst p \<noteq> []"]) (auto simp: blink_one_def split: prod.split bool.split)

lemma none_blinks:
  assumes K: "led_kernel K view names fits"
  shows "distinct ns \<Longrightarrow> saved_all view ns s0 sts \<Longrightarrow> all_led view ns s \<Longrightarrow>
    fst (fold (blink_one K) sts ([], s)) = [] \<Longrightarrow>
    (\<forall>n \<in> set ns. led_back view s0 (snd (fold (blink_one K) sts ([], s))) n)"
proof (induction sts arbitrary: ns s)
  case (Cons st sts)
  obtain v0 where v0: "view s0 (ls_name st) = Some v0" "saved_as st v0"
    using Cons.prems(2) by (auto simp: saved_all_def)
  obtain ms where ns: "ns = ls_name st # ms" "ls_name st \<notin> set ms" "distinct ms" "saved_all view ms s0 sts"
    using Cons.prems(1,2) by (cases ns) (auto simp: saved_all_def)
  obtain ok t where b: "blink K (ls_name st) s = (ok, t)" by fastforce
  have "ok \<Longrightarrow> blink_one K st ([], s) = ([st], t)" by (simp add: blink_one_def b)
  then have "\<not> ok" using Cons.prems(4) blink_one_grows[of "([st], t)" K sts] by auto
  then have o: "blink_one K st ([], s) = ([], restore_one K st t)" by (simp add: blink_one_def b)
  let ?s = "restore_one K st t"
  have there: "led_there view n ?s" "n = ls_name st \<Longrightarrow> led_there view n t" if "n \<in> set ns" for n
    using that Cons.prems(3) blink_keeps_led[OF K, of n s "ls_name st"] restore_one_keeps_led[OF K, of n t st] b
    by (auto simp: all_led_def)
  have "all_led view ms ?s" using there(1) ns(1) by (simp add: all_led_def)
  note ih = Cons.IH[OF ns(3,4) this]
  have rest: "fst (fold (blink_one K) sts ([], ?s)) = []" using Cons.prems(4) by (simp add: o)
  obtain v where v: "view ?s (ls_name st) = Some v" "same_led v0 v"
    using restore_one_view[OF K, OF v0, of t] there(2) ns(1) by (auto simp: led_there_def)
  have "ls_name st \<notin> set (map ls_name sts)" using ns(2,4) by (simp add: saved_all_def)
  from blink_all_other[OF K, OF this, of ?s] have "view (snd (fold (blink_one K) sts ([], ?s))) (ls_name st) = Some v"
    using v(1) by (simp add: blink_all_def)
  then show ?case using ih[OF rest] v0(1) v(2) unfolding ns(1) by (simp add: o led_back_def)
qed (simp add: saved_all_def)

lemma locate_cases:
  assumes K: "led_kernel K view names fits" and e: "sf_entries K (lc_sys l) = Entries ns"
    and all: "all_led view ns (lc_sys l)" and idle: "\<not> lc_active l"
    and r: "locate K persisted d now l = (res, l1)"
  shows "(\<exists>sts. saved_all view ns (lc_sys l) sts \<and> res = Inr (length sts, now + d)
      \<and> lc_file l1 = States sts \<and> lc_saved l1 = sts \<and> lc_active l1 \<and> all_led view ns (lc_sys l1)
      \<and> (\<forall>m. m \<notin> set ns \<longrightarrow> view (lc_sys l1) m = view (lc_sys l) m))
    \<or> (\<exists>e. res = Inl e) \<and> \<not> lc_active l1
      \<and> (lc_sys l1 = lc_sys l \<or> (distinct ns \<longrightarrow> (\<forall>n \<in> set ns. led_back view (lc_sys l) (lc_sys l1) n)))"
proof -
  obtain sts where sts: "snapshot K (lc_sys l) = Some sts" "saved_all view ns (lc_sys l) sts"
    using snapshot_saved_all[OF K, OF e all] by blast
  obtain bl s where b: "blink_all K sts (lc_sys l) = (bl, s)" by fastforce
  have "all_led view ns s" using blink_all_keeps_led[OF K, OF all, of sts] b by simp
  moreover have "view s m = view (lc_sys l) m" if "m \<notin> set ns" for m
    using blink_all_other[OF K, of m sts "lc_sys l"] that sts(2) b by (auto simp: saved_all_def)
  moreover have "\<forall>n \<in> set ns. led_back view (lc_sys l) s n" if "distinct ns" "bl = []"
    using none_blinks[OF K, OF that(1) sts(2) all] that(2) b by (simp add: blink_all_def)
  ultimately show ?thesis
    using r idle sts b by (auto simp: locate_def arm_def clear_persisted_def Let_def split: if_splits)
qed

text \<open>C27: A blink leaves no trace. Whatever ends it, every LED of the device has the trigger, the trigger's
  settings and (where no trigger drives it) the brightness it had before: its timer or a stop, and also
  the next start of a daemon that died in the middle, whatever became of the LEDs meanwhile. A locate
  that fails leaves the LEDs as they were too.\<close>

theorem leds_restored:
  assumes K: "led_kernel K view names fits" and "sf_entries K (lc_sys l) = Entries ns" "distinct ns"
    and "all_led view ns (lc_sys l)" and "\<not> lc_active l"
    and r: "locate K persisted d now l = (res, l1)"
  shows "case res of
      Inr _ \<Rightarrow>
        (\<exists>l2. finish K (lc_gen l1) l1 = (True, l2) \<and> lc_file l2 = NoFile
          \<and> (\<forall>n \<in> set ns. led_back view (lc_sys l) (lc_sys l2) n))
        \<and> (\<forall>l3. lc_file l3 = lc_file l1 \<and> all_led view ns (lc_sys l3) \<longrightarrow>
            (\<exists>l4. recover_stale K l3 = (Some True, l4)
              \<and> (\<forall>n \<in> set ns. led_back view (lc_sys l) (lc_sys l4) n)))
    | Inl _ \<Rightarrow> lc_sys l1 = lc_sys l \<or> (\<forall>n \<in> set ns. led_back view (lc_sys l) (lc_sys l1) n)"
proof (cases res)
  case (Inl e)
  then show ?thesis using locate_cases[OF K, OF assms(2,4,5) r] assms(3) by auto
next
  case (Inr p)
  then obtain sts where sts: "saved_all view ns (lc_sys l) sts" "lc_file l1 = States sts" "lc_saved l1 = sts"
    "lc_active l1" "all_led view ns (lc_sys l1)"
    using locate_cases[OF K, OF assms(2,4,5) r] by auto
  note restored = restore_all_led[OF K, OF assms(3) sts(1)]
  have "\<exists>l2. finish K (lc_gen l1) l1 = (True, l2) \<and> lc_file l2 = NoFile
      \<and> (\<forall>n \<in> set ns. led_back view (lc_sys l) (lc_sys l2) n)"
    using sts(3,4) restored[OF sts(5)] by (simp add: finish_def clear_persisted_def)
  moreover have "\<exists>l4. recover_stale K l3 = (Some True, l4)
      \<and> (\<forall>n \<in> set ns. led_back view (lc_sys l) (lc_sys l4) n)"
    if "lc_file l3 = lc_file l1" "all_led view ns (lc_sys l3)" for l3 :: "'a locator"
    using that(1) sts(2) restored[OF that(2)] by (simp add: recover_stale_def clear_persisted_def)
  ultimately show ?thesis using Inr by simp
qed


section \<open>The locator as its callers see it\<close>

datatype led_event = Locate bool int int | StopBlink | Fires nat

datatype led_outcome = Located "led_error + nat \<times> int" | Ended bool

definition led_do :: "'s sysfs \<Rightarrow> led_event \<Rightarrow> 's locator \<Rightarrow> led_outcome \<times> 's locator" where
  "led_do K ev l =
     (case ev of
        Locate persisted d now \<Rightarrow> (let (r, l') = locate K persisted d now l in (Located r, l'))
      | StopBlink \<Rightarrow> (let (told, l') = stop K l in (Ended told, l'))
      | Fires g \<Rightarrow> (let (told, l') = finish K g l in (Ended told, l')))"

text \<open>The machine: how often the timer was set, and when the blink ends, if there is one. A locate that
  works starts or prolongs it; it fails only when there is none. Only the newest timer ends it.\<close>

inductive blink_step :: "led_event \<Rightarrow> led_outcome \<Rightarrow> nat \<times> int option \<Rightarrow> nat \<times> int option \<Rightarrow> bool" where
  starts: "blink_step (Locate persisted d now) (Located (Inr (n, now + d))) (g, u) (g + 1, Some (now + d))"
| refuses: "blink_step (Locate persisted d now) (Located (Inl e)) (g, None) (g, None)"
| stops: "blink_step StopBlink (Ended (u \<noteq> None)) (g, u) (g, None)"
| expires: "blink_step (Fires g) (Ended (u \<noteq> None)) (g, u) (g, None)"
| stale: "k \<noteq> g \<Longrightarrow> blink_step (Fires k) (Ended False) (g, u) (g, u)"

definition blink_view :: "'s locator \<Rightarrow> nat \<times> int option" where
  "blink_view l = (lc_gen l, if lc_active l then Some (lc_ends_at l) else None)"

definition locator_ok :: "'s locator \<Rightarrow> bool" where
  "locator_ok l \<longleftrightarrow> lc_timer l = (if lc_active l then Some (lc_gen l) else None)
     \<and> (lc_active l \<longrightarrow> lc_saved l \<noteq> []) \<and> (\<not> lc_active l \<longrightarrow> lc_saved l = [])"

lemma finish_step:
  assumes "finish K g l = (told, l')"
  shows "told = (lc_active l \<and> g = lc_gen l)
    \<and> (told \<longrightarrow> blink_view l' = (lc_gen l, None) \<and> locator_ok l') \<and> (\<not> told \<longrightarrow> l' = l)"
  using assms by (auto simp: finish_def clear_persisted_def blink_view_def locator_ok_def split: if_splits)

text \<open>C28: The locator is the machine its callers see, under any interleaving of locates, stops and timers:
  a timer that was replaced or stopped and fires late does nothing, a blink that is prolonged ends at the
  new time, the end is told once, and while it blinks exactly one timer, the newest, is set.\<close>

theorem locator_refines:
  assumes ok: "locator_ok l" and r: "led_do K ev l = (out, l')"
  shows "blink_step ev out (blink_view l) (blink_view l') \<and> locator_ok l'"
proof (cases ev)
  case (Locate persisted d now)
  obtain res where res: "locate K persisted d now l = (res, l')" "out = Located res"
    using r Locate by (auto simp: led_do_def split: prod.splits)
  show ?thesis
  proof (cases res)
    case (Inl e)
    then have "\<not> lc_active l \<and> lc_gen l' = lc_gen l \<and> \<not> lc_active l' \<and> locator_ok l'"
      using res(1) ok
      by (auto simp: locate_def arm_def Let_def clear_persisted_def locator_ok_def split: if_splits option.splits sum.splits prod.splits)
    then show ?thesis using res(2) Locate Inl by (simp add: blink_view_def blink_step.refuses)
  next
    case (Inr p)
    then have "p = (fst p, now + d) \<and> blink_view l' = (lc_gen l + 1, Some (now + d)) \<and> locator_ok l'"
      using res(1) ok
      by (auto simp: locate_def arm_def Let_def clear_persisted_def locator_ok_def blink_view_def split: if_splits option.splits sum.splits prod.splits)
    then show ?thesis using res(2) Locate Inr blink_step.starts unfolding blink_view_def by (metis)
  qed
next
  case StopBlink
  then obtain told where t: "finish K (lc_gen l) l = (told, l')" "out = Ended told"
    using r by (auto simp: led_do_def stop_def split: prod.splits)
  from finish_step[OF t(1)] show ?thesis
    using blink_step.stops[of "snd (blink_view l)" "lc_gen l"] ok StopBlink t(2)
    by (cases "lc_active l") (auto simp: blink_view_def)
next
  case (Fires g)
  then obtain told where t: "finish K g l = (told, l')" "out = Ended told"
    using r by (auto simp: led_do_def split: prod.splits)
  from finish_step[OF t(1)] show ?thesis
    using blink_step.expires[of "lc_gen l" "snd (blink_view l)"] blink_step.stale[of g "lc_gen l"] ok Fires t(2)
    by (cases "lc_active l"; cases "g = lc_gen l") (auto simp: blink_view_def)
qed

section \<open>At a concrete LED class\<close>

text \<open>Two LEDs, \<open>netdev\<close> and \<open>timer\<close> triggers with two settings each.\<close>

definition sample_settings :: "string \<Rightarrow> string list" where
  "sample_settings t = (if t = ''timer'' then [''delay_on'', ''delay_off'']
     else if t = ''netdev'' then [''device_name'', ''link''] else [])"

definition sample_triggers :: "string list" where
  "sample_triggers = [''none'', ''timer'', ''netdev'']"

type_synonym sample_state = "string \<Rightarrow> led_view"

definition fresh_view :: "string \<Rightarrow> string \<Rightarrow> led_view" where
  "fresh_view t b = \<lparr>lv_trigger = t, lv_brightness = b,
     lv_attrs = (\<lambda>f. if f \<in> set (sample_settings t) then Some ''0'' else None)\<rparr>"

definition sample_fits :: "string \<Rightarrow> string \<Rightarrow> string \<Rightarrow> bool" where
  "sample_fits led f x \<longleftrightarrow>
     (if f = ''trigger'' then x \<in> set sample_triggers
      else trim_space x = x \<and> (f = ''brightness'' \<longrightarrow> x \<noteq> []))"

definition sample_write :: "string \<Rightarrow> string \<Rightarrow> string \<Rightarrow> sample_state \<Rightarrow> bool \<times> sample_state" where
  "sample_write led f x s =
     (if \<not> sample_fits led f x then (False, s)
      else if f = ''trigger'' then (True, s(led := fresh_view x (lv_brightness (s led))))
      else if f = ''brightness'' then (True, s(led := (s led)\<lparr>lv_brightness := x\<rparr>))
      else if f \<in> set (sample_settings (lv_trigger (s led)))
      then (True, s(led := (s led)\<lparr>lv_attrs := (lv_attrs (s led))(f \<mapsto> x)\<rparr>))
      else (False, s))"

definition sample_class :: "sample_state sysfs" where
  "sample_class = \<lparr>sf_entries = (\<lambda>_. Entries [''red'', ''blue'']),
     sf_read = (\<lambda>s led f. if f = ''trigger'' then Some (CHR ''['' # lv_trigger (s led) @ '']'')
        else if f = ''brightness'' then Some (lv_brightness (s led)) else lv_attrs (s led) f),
     sf_files = (\<lambda>s led. map (\<lambda>f. (f, True)) ([''brightness'', ''trigger''] @ sample_settings (lv_trigger (s led)))),
     sf_write = sample_write\<rparr>"

definition sample_ok :: "led_view \<Rightarrow> bool" where
  "sample_ok v \<longleftrightarrow> lv_trigger v \<in> set sample_triggers \<and> lv_brightness v \<noteq> []
     \<and> trim_space (lv_brightness v) = lv_brightness v
     \<and> dom (lv_attrs v) = set (sample_settings (lv_trigger v))
     \<and> (\<forall>f x. lv_attrs v f = Some x \<longrightarrow> trim_space x = x)"

definition sample_view :: "sample_state \<Rightarrow> string \<Rightarrow> led_view option" where
  "sample_view s led = (if sample_ok (s led) then Some (s led) else None)"

lemma trim_zero: "trim_space ''0'' = ''0''"
  by code_simp

lemma sample_fresh: "t \<in> set sample_triggers \<Longrightarrow> b \<noteq> [] \<Longrightarrow> trim_space b = b \<Longrightarrow> sample_ok (fresh_view t b)"
  by (auto simp: sample_ok_def fresh_view_def dom_def trim_zero split: if_splits)

lemma sample_setting: "f \<in> set (sample_settings t) \<Longrightarrow> f \<noteq> ''trigger'' \<and> f \<noteq> ''brightness'' \<and> f \<notin> set base_files"
  by (auto simp: sample_settings_def base_files_def split: if_splits)

lemma sample_reads:
  assumes "sample_ok (s led)"
  shows "reads_view sample_class s led (s led)"
proof -
  have t: "current_trigger (CHR ''['' # lv_trigger (s led) @ '']'') = Some (lv_trigger (s led))"
  proof -
    have "lv_trigger (s led) \<in> set sample_triggers" using assms by (simp add: sample_ok_def)
    then show ?thesis by (auto simp: sample_triggers_def current_trigger_def)
  qed
  have d: "distinct (''brightness'' # ''trigger'' # sample_settings (lv_trigger (s led)))"
    using sample_setting[of _ "lv_trigger (s led)"] by (auto simp: sample_settings_def)
  have base: "''brightness'' \<in> set base_files" "''trigger'' \<in> set base_files"
    by (simp_all add: base_files_def)
  have files: "(f, True) \<in> set (sf_files sample_class s led) \<and> f \<notin> set base_files
      \<longleftrightarrow> f \<in> set (sample_settings (lv_trigger (s led)))" for f
    using sample_setting[of f "lv_trigger (s led)"] base by (auto simp: sample_class_def)
  have read: "f \<in> set (sample_settings (lv_trigger (s led))) \<Longrightarrow> sf_read sample_class s led f = lv_attrs (s led) f" for f
    using sample_setting[of f "lv_trigger (s led)"] by (simp add: sample_class_def)
  show ?thesis
    unfolding reads_view_def
  proof (intro conjI allI)
    show "\<exists>l. sf_read sample_class s led ''trigger'' = Some l
        \<and> (case current_trigger l of None \<Rightarrow> ''none'' | Some t \<Rightarrow> t) = lv_trigger (s led)"
      using t by (simp add: sample_class_def)
    show "\<exists>b. sf_read sample_class s led ''brightness'' = Some b \<and> trim_space b = lv_brightness (s led)"
      using assms by (simp add: sample_class_def sample_ok_def)
    show "lv_brightness (s led) \<noteq> []" using assms by (simp add: sample_ok_def)
    show "distinct (map fst (sf_files sample_class s led))"
      using d by (simp add: sample_class_def comp_def)
    fix f
    show "lv_attrs (s led) f = (if (f, True) \<in> set (sf_files sample_class s led) \<and> f \<notin> set base_files
        then map_option trim_space (sf_read sample_class s led f) else None)"
      unfolding files
    proof (cases "f \<in> set (sample_settings (lv_trigger (s led)))")
      case True
      then obtain x where "lv_attrs (s led) f = Some x" "trim_space x = x"
        using assms domIff[of f "lv_attrs (s led)"] by (auto simp: sample_ok_def)
      then show "lv_attrs (s led) f = (if f \<in> set (sample_settings (lv_trigger (s led)))
          then map_option trim_space (sf_read sample_class s led f) else None)"
        using read[OF True] True by simp
    next
      case False
      then show "lv_attrs (s led) f = (if f \<in> set (sample_settings (lv_trigger (s led)))
          then map_option trim_space (sf_read sample_class s led f) else None)"
        using assms domIff[of f "lv_attrs (s led)"] by (simp add: sample_ok_def)
    qed
  qed
qed

lemma sample_write_ok:
  assumes "sample_ok (s led)"
  shows "sample_ok (snd (sample_write led f x s) led)"
    and "f \<noteq> ''trigger'' \<Longrightarrow> lv_trigger (snd (sample_write led f x s) led) = lv_trigger (s led)"
    and "sample_fits led ''trigger'' t \<Longrightarrow> lv_trigger (snd (sample_write led ''trigger'' t s) led) = t"
    and "f \<in> set (sample_settings (lv_trigger (s led))) \<Longrightarrow> sample_fits led f x \<Longrightarrow>
      snd (sample_write led f x s) led = (s led)\<lparr>lv_attrs := (lv_attrs (s led))(f \<mapsto> x)\<rparr>"
    and "sample_fits led ''brightness'' x \<Longrightarrow>
      snd (sample_write led ''brightness'' x s) led = (s led)\<lparr>lv_brightness := x\<rparr>"
proof -
  have a: "sample_ok ((s led)\<lparr>lv_attrs := (lv_attrs (s led))(f \<mapsto> x)\<rparr>)"
    if "f \<in> set (sample_settings (lv_trigger (s led)))" "trim_space x = x"
    using assms that by (auto simp: sample_ok_def)
  have b: "sample_ok ((s led)\<lparr>lv_brightness := x\<rparr>)" if "x \<noteq> []" "trim_space x = x"
    using assms that by (simp add: sample_ok_def)
  have c: "sample_ok (fresh_view x (lv_brightness (s led)))" if "x \<in> set sample_triggers"
    by (rule sample_fresh[OF that]) (use assms in \<open>simp_all add: sample_ok_def\<close>)
  show "sample_ok (snd (sample_write led f x s) led)"
    using a b c assms by (simp add: sample_write_def sample_fits_def)
  show "f \<noteq> ''trigger'' \<Longrightarrow> lv_trigger (snd (sample_write led f x s) led) = lv_trigger (s led)"
    by (simp add: sample_write_def)
  show "sample_fits led ''trigger'' t \<Longrightarrow> lv_trigger (snd (sample_write led ''trigger'' t s) led) = t"
    by (simp add: sample_write_def fresh_view_def)
  show "f \<in> set (sample_settings (lv_trigger (s led))) \<Longrightarrow> sample_fits led f x \<Longrightarrow>
      snd (sample_write led f x s) led = (s led)\<lparr>lv_attrs := (lv_attrs (s led))(f \<mapsto> x)\<rparr>"
    using sample_setting[of f "lv_trigger (s led)"] by (simp add: sample_write_def)
  show "sample_fits led ''brightness'' x \<Longrightarrow>
      snd (sample_write led ''brightness'' x s) led = (s led)\<lparr>lv_brightness := x\<rparr>"
    by (simp add: sample_write_def)
qed

lemma sample_updates_ok:
  assumes "sample_ok (s led)"
  shows "f \<in> set (sample_settings (lv_trigger (s led))) \<Longrightarrow> sample_fits led f x \<Longrightarrow>
      sample_ok ((s led)\<lparr>lv_attrs := (lv_attrs (s led))(f \<mapsto> x)\<rparr>)"
    and "sample_fits led ''brightness'' x \<Longrightarrow> sample_ok ((s led)\<lparr>lv_brightness := x\<rparr>)"
  using sample_write_ok(1)[of s led f x, OF assms] sample_write_ok(1)[of s led "''brightness''" x, OF assms]
  by (simp_all add: sample_write_ok(4,5)[where s = s and led = led, OF assms])

lemma sample_write_other: "m \<noteq> led \<Longrightarrow> snd (sample_write led f x s) m = s m"
  by (simp add: sample_write_def)

lemma sample_kernel: "led_kernel sample_class sample_view (\<lambda>_ t. set (sample_settings t)) sample_fits"
proof -
  have w: "sf_write sample_class = sample_write" by (simp add: sample_class_def)
  have "reads_view sample_class s led (s led) \<and> dom (lv_attrs (s led)) = set (sample_settings (lv_trigger (s led)))
      \<and> sample_fits led ''trigger'' (lv_trigger (s led))
      \<and> sample_fits led ''brightness'' (lv_brightness (s led))
      \<and> (\<forall>f x. lv_attrs (s led) f = Some x \<longrightarrow> sample_fits led f x)"
    if ok: "sample_ok (s led)" for s led
  proof -
    have "sample_fits led f x" if "lv_attrs (s led) f = Some x" for f x
    proof -
      have "f \<in> set (sample_settings (lv_trigger (s led)))" using ok that by (auto simp: sample_ok_def)
      then show ?thesis using ok that sample_setting[of f] by (auto simp: sample_ok_def sample_fits_def)
    qed
    then show ?thesis using ok sample_reads[of s led, OF ok] by (simp add: sample_ok_def sample_fits_def)
  qed
  then show ?thesis
    unfolding led_kernel_def w
    by (simp add: sample_view_def sample_write_ok sample_updates_ok sample_write_other)
qed

definition sample_leds :: sample_state where
  "sample_leds led = fresh_view (if led = ''red'' then ''netdev'' else ''none'') ''1''"

definition sample_locator :: "sample_state locator" where
  "sample_locator = \<lparr>lc_sys = sample_leds, lc_file = NoFile, lc_saved = [], lc_timer = None, lc_active = False,
     lc_ends_at = 0, lc_gen = 0\<rparr>"

theorem leds_restored_witness:
  "\<exists>l1 l2. locate sample_class True 60 1000 sample_locator = (Inr (2, 1060), l1)
     \<and> finish sample_class (lc_gen l1) l1 = (True, l2)
     \<and> led_back sample_view sample_leds (lc_sys l2) ''red''"
proof -
  let ?r = "locate sample_class True 60 1000 sample_locator"
  have r: "fst ?r = Inr (2, 1060)" by code_simp
  have "sample_ok (sample_leds n)" for n
    unfolding sample_leds_def by (rule sample_fresh) (simp_all add: sample_triggers_def trim_space_def trim_id is_space_def)
  then have all: "all_led sample_view [''red'', ''blue''] (lc_sys sample_locator)"
    by (simp add: all_led_def led_there_def sample_view_def sample_locator_def)
  have e: "sf_entries sample_class (lc_sys sample_locator) = Entries [''red'', ''blue'']"
    by (simp add: sample_class_def)
  obtain l1 where l1: "?r = (Inr (2, 1060), l1)" using r by (metis prod.collapse)
  have "\<not> lc_active sample_locator" by (simp add: sample_locator_def)
  from leds_restored[OF sample_kernel, OF e _ all this l1] l1 show ?thesis
    by (auto simp: sample_locator_def)
qed

theorem locator_refines_witness:
  "blink_step (Locate True 60 1000) (fst (led_do sample_class (Locate True 60 1000) sample_locator))
     (blink_view sample_locator) (blink_view (snd (led_do sample_class (Locate True 60 1000) sample_locator)))"
  by (rule locator_refines[THEN conjunct1]) (simp_all add: locator_ok_def sample_locator_def)

text \<open>The number \<open>Start\<close> returns is the number of LEDs whose state was saved, not of those that blink (as its
  comment says): a LED that refuses the timer trigger counts.\<close>

definition stubborn_class :: "sample_state sysfs" where
  "stubborn_class = sample_class\<lparr>sf_write := (\<lambda>led f x s.
     if led = ''blue'' \<and> x = ''timer'' then (False, s) else sample_write led f x s)\<rparr>"

theorem locate_counts_refused:
  "fst (locate stubborn_class True 60 1000 sample_locator) = Inr (2, 1060)
   \<and> map ls_name (fst (blink_all stubborn_class (lc_saved (snd (locate stubborn_class True 60 1000 sample_locator)))
       sample_leds)) = [''red'']"
  by code_simp

end
