(* ===== verification/Uplink.thy ===== *)
theory Uplink
  imports Radios
begin

text \<open>
  Which radios carry the access point's own uplink, \<open>internal/wificaps/mgmt.go\<close>: from the route's device
  down through bridges, VLANs and mesh devices to the wireless netdevs, level by level, at most six. The
  walk is \<open>uplink_levels\<close>; \<open>reach_in\<close> says what it must visit.
\<close>

section \<open>The walk\<close>

text \<open>\<open>filepath.Base\<close>.\<close>

definition base_name :: "string \<Rightarrow> string" where
  "base_name s =
     (if s = [] then ''.''
      else (let t = trim_right (\<lambda>c. c = CHR ''/'') s
            in if t = [] then ''/'' else last (split_at (CHR ''/'') t)))"

text \<open>What the walk looks at: the kernel's interfaces, netifd's status, the radios' sections by phy in the
  order Go's range over a map happens to visit them, and the files.\<close>

record uplink_env =
  ue_probe :: probe
  ue_nl :: "interface list"
  ue_status :: netifd_status
  ue_phys :: "(string \<times> string) list"

definition nl_named :: "uplink_env \<Rightarrow> string \<Rightarrow> interface option" where
  "nl_named E n = List.find (\<lambda>i. if_name i = n) (List.rev (ue_nl E))"

definition status_ifaces :: "uplink_env \<Rightarrow> (string \<times> string \<times> string) list" where
  "status_ifaces E =
     concat (map (\<lambda>(radio, r). List.map_filter (\<lambda>(n, mode). if n = [] then None else Some (n, radio, mode)) (nr_ifaces r))
       (ue_status E))"

text \<open>The last entry of an interface counts.\<close>

definition status_of_iface :: "uplink_env \<Rightarrow> string \<Rightarrow> (string \<times> string) option" where
  "status_of_iface E n = map_of (List.rev (status_ifaces E)) n"

definition radio_of :: "uplink_env \<Rightarrow> string \<Rightarrow> string" where
  "radio_of E n =
     (let r = (case status_of_iface E n of None \<Rightarrow> [] | Some (radio, _) \<Rightarrow> radio)
      in if r \<noteq> [] then r
         else
           (let phy = base_name (case pb_resolve (ue_probe E) (''/sys/class/net/'' @ n @ ''/phy80211'') of
                  None \<Rightarrow> [] | Some t \<Rightarrow> t)
            in if phy = ''.'' \<or> phy = [] then []
               else lookup_default []
                 (List.rev (map (\<lambda>(section, p). (p, section)) (filter (\<lambda>(_, p). p \<noteq> []) (ue_phys E)))) phy))"

definition wireless_dev :: "uplink_env \<Rightarrow> string \<Rightarrow> bool" where
  "wireless_dev E n \<longleftrightarrow> nl_named E n \<noteq> None \<or> pb_exists (ue_probe E) (''/sys/class/net/'' @ n @ ''/phy80211'')"

definition uplink_dev :: "uplink_env \<Rightarrow> string \<Rightarrow> bool" where
  "uplink_dev E n =
     (case nl_named E n of
        Some i \<Rightarrow> if_type i = 2 \<or> if_type i = 7 \<or> if_type i = 5
      | None \<Rightarrow> (case status_of_iface E n of
          None \<Rightarrow> False
        | Some (_, mode) \<Rightarrow> mode = ''sta'' \<or> mode = ''mesh'' \<or> mode = ''wds''))"

text \<open>The devices below a device.\<close>

definition below :: "uplink_env \<Rightarrow> string \<Rightarrow> string list" where
  "below E d =
     List.map_filter (cut_prefix ''lower_'') (probe_list (ue_probe E) (''/sys/class/net/'' @ d))
     @ probe_list (ue_probe E) (''/sys/class/net/'' @ d @ ''/brif'')"

record walk =
  wk_seen :: "string list"
  wk_found :: "string list"
  wk_next :: "string list"

definition visit :: "uplink_env \<Rightarrow> string \<Rightarrow> string \<Rightarrow> walk \<Rightarrow> walk" where
  "visit E dev d k =
     (if d \<in> set (wk_seen k) then k
      else
        (let k1 = k\<lparr>wk_seen := d # wk_seen k\<rparr>
         in if wireless_dev E d then
              (if (d = dev \<or> uplink_dev E d) \<and> radio_of E d \<noteq> []
               then k1\<lparr>wk_found := radio_of E d # wk_found k1\<rparr> else k1)
            else k1\<lparr>wk_next := wk_next k1 @ below E d\<rparr>))"

fun uplink_levels :: "uplink_env \<Rightarrow> string \<Rightarrow> nat \<Rightarrow> string list \<Rightarrow> walk \<Rightarrow> walk" where
  "uplink_levels E dev 0 queue k = k"
| "uplink_levels E dev (Suc n) queue k =
     (if queue = [] then k
      else (let k' = fold (visit E dev) queue (k\<lparr>wk_next := []\<rparr>) in uplink_levels E dev n (wk_next k') k'))"

definition management_radios :: "uplink_env \<Rightarrow> string \<Rightarrow> string list" where
  "management_radios E dev =
     (if dev = [] then []
      else sort (remdups (wk_found (uplink_levels E dev 6 [dev] \<lparr>wk_seen = [], wk_found = [], wk_next = []\<rparr>))))"

section \<open>What it finds\<close>

text \<open>The devices within so many steps below; a wireless netdev ends the way down.\<close>

definition steps :: "uplink_env \<Rightarrow> string \<Rightarrow> string set" where
  "steps E d = (if wireless_dev E d then {} else set (below E d))"

primrec reach_in :: "uplink_env \<Rightarrow> string \<Rightarrow> nat \<Rightarrow> string set" where
  "reach_in E dev 0 = {dev}"
| "reach_in E dev (Suc k) = reach_in E dev k \<union> (\<Union>d \<in> reach_in E dev k. steps E d)"

definition carried :: "uplink_env \<Rightarrow> string \<Rightarrow> string set \<Rightarrow> string set" where
  "carried E dev ds =
     {r. r \<noteq> [] \<and> (\<exists>d \<in> ds. wireless_dev E d \<and> (d = dev \<or> uplink_dev E d) \<and> radio_of E d = r)}"

lemma visit_all:
  "set (wk_seen (fold (visit E dev) q k)) = set (wk_seen k) \<union> set q
   \<and> (set (wk_found k) = carried E dev (set (wk_seen k)) \<longrightarrow>
       set (wk_found (fold (visit E dev) q k)) = carried E dev (set (wk_seen k) \<union> set q))
   \<and> set (wk_next (fold (visit E dev) q k)) = set (wk_next k) \<union> (\<Union>d \<in> set q - set (wk_seen k). steps E d)"
proof (induction q arbitrary: k)
  case (Cons d q)
  have s: "set (wk_seen (visit E dev d k)) = insert d (set (wk_seen k))"
    by (auto simp: visit_def Let_def)
  have f: "set (wk_found (visit E dev d k)) = carried E dev (insert d (set (wk_seen k)))"
    if "set (wk_found k) = carried E dev (set (wk_seen k))"
    using that by (auto simp: visit_def Let_def carried_def)
  have n: "set (wk_next (visit E dev d k)) = set (wk_next k) \<union> (if d \<in> set (wk_seen k) then {} else steps E d)"
    by (auto simp: visit_def Let_def steps_def)
  have c: "(\<Union>e \<in> set (d # q) - set (wk_seen k). steps E e)
      = (if d \<in> set (wk_seen k) then {} else steps E d) \<union> (\<Union>e \<in> set q - insert d (set (wk_seen k)). steps E e)"
    by auto
  show ?case
    using Cons.IH[of "visit E dev d k"] f unfolding s n c by (auto simp: insert_commute)
qed simp

lemma reach_in_mono: "i \<le> j \<Longrightarrow> reach_in E dev i \<subseteq> reach_in E dev j"
  by (induction j) (auto simp: le_Suc_eq)

text \<open>Before the level of the devices \<open>k\<close> steps away: what was seen, and what is queued.\<close>

definition walk_at :: "uplink_env \<Rightarrow> string \<Rightarrow> nat \<Rightarrow> string list \<Rightarrow> walk \<Rightarrow> bool" where
  "walk_at E dev k q w \<longleftrightarrow>
     set (wk_seen w) = (case k of 0 \<Rightarrow> {} | Suc j \<Rightarrow> reach_in E dev j)
   \<and> reach_in E dev k = set (wk_seen w) \<union> set q
   \<and> set (wk_found w) = carried E dev (set (wk_seen w))"

lemma walk_at_step:
  assumes "walk_at E dev k q w"
  shows "walk_at E dev (Suc k) (wk_next (fold (visit E dev) q (w\<lparr>wk_next := []\<rparr>)))
    (fold (visit E dev) q (w\<lparr>wk_next := []\<rparr>))"
proof -
  let ?w = "fold (visit E dev) q (w\<lparr>wk_next := []\<rparr>)"
  note v = visit_all[of E dev q "w\<lparr>wk_next := []\<rparr>"]
  have seen: "set (wk_seen ?w) = reach_in E dev k" using v assms by (simp add: walk_at_def)
  have found: "set (wk_found ?w) = carried E dev (set (wk_seen ?w))" using v assms by (simp add: walk_at_def)
  have old: "steps E d \<subseteq> reach_in E dev k" if "d \<in> set (wk_seen w)" for d
    using that assms by (cases k) (auto simp: walk_at_def)
  have "(\<Union>d \<in> reach_in E dev k. steps E d)
      = (\<Union>d \<in> set (wk_seen w). steps E d) \<union> (\<Union>d \<in> set q - set (wk_seen w). steps E d)"
    using assms by (auto simp: walk_at_def)
  then have "reach_in E dev (Suc k) = reach_in E dev k \<union> set (wk_next ?w)"
    using v old by auto
  then show ?thesis using seen found by (simp add: walk_at_def)
qed

lemma walk_at_end:
  assumes "walk_at E dev k [] w"
  shows "reach_in E dev (k + n) = set (wk_seen w)"
proof (induction n)
  case (Suc n)
  have "steps E d \<subseteq> set (wk_seen w)" if "d \<in> set (wk_seen w)" for d
    using that assms by (cases k) (auto simp: walk_at_def)
  then show ?case using Suc by auto
qed (use assms in \<open>simp add: walk_at_def\<close>)

lemma uplink_levels_found:
  "walk_at E dev k q w \<Longrightarrow> 0 < n \<Longrightarrow> set (wk_found (uplink_levels E dev n q w)) = carried E dev (reach_in E dev (k + n - 1))"
proof (induction n arbitrary: k q w)
  case (Suc n)
  show ?case
  proof (cases "q = []")
    case True
    then show ?thesis using Suc.prems(1) walk_at_end[of E dev k w n] by (simp add: walk_at_def)
  next
    case False
    note st = walk_at_step[OF Suc.prems(1)]
    show ?thesis
    proof (cases n)
      case 0
      then show ?thesis using False st by (simp add: walk_at_def Let_def)
    next
      case (Suc m)
      then show ?thesis using Suc.IH[OF st] False by (simp add: Let_def)
    qed
  qed
qed simp

text \<open>C29: The radios protected are exactly those the uplink runs over: a radio is returned, once, when its
  netdev is the route's own device, or a station, mesh or WDS netdev at most five steps below it (through
  bridge ports, VLAN parents and mesh members, and never through another wireless netdev); whatever loops
  the links of sysfs have, the walk ends.\<close>

theorem management_radios_exact:
  "set (management_radios E dev) = (if dev = [] then {} else carried E dev (reach_in E dev 5))
   \<and> sorted (management_radios E dev) \<and> distinct (management_radios E dev)"
proof -
  have "walk_at E dev 0 [dev] \<lparr>wk_seen = [], wk_found = [], wk_next = []\<rparr>"
    by (simp add: walk_at_def carried_def)
  from uplink_levels_found[OF this, of 6] show ?thesis
    by (simp add: management_radios_def)
qed

end
