(* ===== verification/Caps.thy ===== *)
theory Caps
  imports Uplink GroupsTrunk
begin

text \<open>
  The device facts of \<open>wifi.capabilities\<close>, \<open>internal/wificaps/wificaps.go\<close> and \<open>trunk.go\<close>, with the hostapd
  binary of \<open>hostapd.go\<close>: the release, the watched packages, the scripts, the hostapd build, the radios, the
  trunk port and netifd's networks. What other packages answer (the package database, nl80211, ubus, the
  configuration's loader) is the record \<open>answers\<close>: an answer or a failure, whose message is not modelled.
\<close>

section \<open>The release and the packages\<close>

record openwrt =
  ow_release :: string
  ow_revision :: string
  ow_target :: string
  ow_arch :: string
  ow_board :: string

definition release_line :: "string \<Rightarrow> openwrt \<Rightarrow> openwrt" where
  "release_line line ow =
     (let (k, v, ok) = cut_at (CHR ''='') line;
          v = trim (\<lambda>c. c = CHR 0x27 \<or> c = CHR 0x22) (trim_space v);
          k = trim_space k
      in if \<not> ok then ow
         else if k = ''DISTRIB_RELEASE'' then ow\<lparr>ow_release := v\<rparr>
         else if k = ''DISTRIB_REVISION'' then ow\<lparr>ow_revision := v\<rparr>
         else if k = ''DISTRIB_TARGET'' then ow\<lparr>ow_target := v\<rparr>
         else if k = ''DISTRIB_ARCH'' then ow\<lparr>ow_arch := v\<rparr>
         else ow)"

definition openwrt_of :: "probe \<Rightarrow> openwrt option" where
  "openwrt_of P =
     (let raw = probe_read P ''/etc/openwrt_release''
      in if raw = [] then None
         else Some ((fold release_line (split_at (CHR 0x0A) raw)
             \<lparr>ow_release = [], ow_revision = [], ow_target = [], ow_arch = [], ow_board = []\<rparr>)
           \<lparr>ow_board := probe_read P ''/tmp/sysinfo/board_name''\<rparr>))"

definition watch_packages :: "string list" where
  "watch_packages = [''wpad*'', ''hostapd*'', ''wifi-scripts'', ''iw'', ''iw-full'', ''iwinfo'', ''usteer'', ''dawn'',
     ''umdns'', ''luci-base'']"

definition watches :: "string \<Rightarrow> string \<Rightarrow> bool" where
  "watches name w \<longleftrightarrow> (suffix ''*'' w \<and> prefix (butlast w) name) \<or> name = w"

definition watched :: "(string \<times> string) list \<Rightarrow> (string \<times> string) list" where
  "watched installed = filter (\<lambda>(name, _). list_ex (watches name) watch_packages) installed"

section \<open>The hostapd build\<close>

record hostapd =
  ha_binary :: string
  ha_variant :: string
  ha_ubus :: bool
  ha_features :: "(string \<times> bool) list"

text \<open>\<open>hostapd\<close>: \<open>lstat\<close> is whether a path exists (a link counts, whatever it points at), \<open>key\<close> the size and
  time of a binary, \<open>run\<close> its exit status for a feature, \<open>names\<close> what ubus lists.\<close>

definition hostapd_of ::
  "probe \<Rightarrow> (string \<Rightarrow> bool) \<Rightarrow> (string \<Rightarrow> string option) \<Rightarrow> (string \<Rightarrow> string \<Rightarrow> int option)
     \<Rightarrow> string list option \<Rightarrow> string list \<Rightarrow> feature_cache \<Rightarrow> hostapd option \<times> feature_cache" where
  "hostapd_of P lstat key run names installed c =
     (case List.find lstat [''/usr/sbin/hostapd'', ''/usr/sbin/wpad''] of
        None \<Rightarrow> (None, c)
      | Some bin \<Rightarrow>
          (let (fs, c') = hostapd_features (key bin) (run bin) c
           in (Some \<lparr>ha_binary = (case pb_resolve P bin of None \<Rightarrow> bin | Some r \<Rightarrow> r),
                 ha_variant = hostapd_variant installed,
                 ha_ubus = (case names of None \<Rightarrow> False | Some ns \<Rightarrow> ns \<noteq> []),
                 ha_features = fs\<rparr>, c')))"

section \<open>The trunk\<close>

record trunk_facts =
  tk_port :: string
  tk_bridge :: string
  tk_filtering :: bool
  tk_swconfig :: bool
  tk_error :: "trunk_error option"

definition bridge_facts :: "probe \<Rightarrow> string \<Rightarrow> trunk_facts \<Rightarrow> trunk_facts" where
  "bridge_facts P br t =
     t\<lparr>tk_bridge := br,
       tk_filtering := (probe_read P (''/sys/class/net/'' @ br @ ''/bridge/vlan_filtering'') = ''1'')\<rparr>"

definition trunk_of :: "nat \<Rightarrow> kit \<Rightarrow> probe \<Rightarrow> fs \<Rightarrow> uconfig option \<Rightarrow> trunk_facts" where
  "trunk_of w K P F network =
     (let t = \<lparr>tk_port = [], tk_bridge = [], tk_filtering = False,
               tk_swconfig = (case network of None \<Rightarrow> False | Some c \<Rightarrow> k_of_type K c ''switch'' \<noteq> []),
               tk_error = None\<rparr>;
          is_bridge = (\<lambda>d. pb_exists P (''/sys/class/net/'' @ d @ ''/bridge''))
      in case detect_trunk w F of
           Inl e \<Rightarrow> t\<lparr>tk_error := Some e\<rparr>
         | Inr port \<Rightarrow>
             (let t = t\<lparr>tk_port := port\<rparr>
              in case pb_resolve P (''/sys/class/net/'' @ port @ ''/master'') of
                   Some master \<Rightarrow> if is_bridge (base_name master) then bridge_facts P (base_name master) t else t
                 | None \<Rightarrow> if is_bridge port then bridge_facts P port t else t))"

section \<open>The networks\<close>

record dump_iface =
  di_interface :: string
  di_up :: bool
  di_proto :: string
  di_device :: string
  di_l3_device :: string

record network =
  nw_name :: string
  nw_device :: string
  nw_proto :: string
  nw_up :: bool

definition network_of :: "dump_iface \<Rightarrow> network" where
  "network_of i =
     \<lparr>nw_name = di_interface i, nw_device = (if di_l3_device i = [] then di_device i else di_l3_device i),
      nw_proto = di_proto i, nw_up = di_up i\<rparr>"

definition networks_of :: "dump_iface list \<Rightarrow> network list" where
  "networks_of dump =
     sort_key nw_name (map network_of (filter (\<lambda>i. di_interface i \<noteq> [] \<and> di_interface i \<noteq> ''loopback'') dump))"

section \<open>The facts\<close>

datatype failure = NoDatabase | NoConfig | Failed

record nl_answers =
  na_wiphys :: "failure + wiphy list"
  na_ifaces :: "failure + interface list"
  na_regs :: "failure + reg_domain list"

record ubus_answers =
  ua_status :: "failure + netifd_status"
  ua_dump :: "failure + dump_iface list"
  ua_hostapd :: "failure + string list"

record answers =
  an_manager :: string
  an_packages :: "failure + (string \<times> string) list"
  an_nl :: "nl_answers option"
  an_ubus :: "ubus_answers option"
  an_wireless :: "failure + uconfig"
  an_network :: "failure + uconfig"

record facts =
  fa_openwrt :: "openwrt option"
  fa_manager :: string
  fa_packages :: "(string \<times> string) list"
  fa_scripts :: string
  fa_schema :: bool
  fa_hostapd :: "hostapd option"
  fa_regulatory :: regulatory
  fa_radios :: "radio_facts list"
  fa_trunk :: trunk_facts
  fa_networks :: "network list"
  fa_problems :: "string list"

definition answer :: "failure + 'a list \<Rightarrow> 'a list" where
  "answer r = (case r of Inl _ \<Rightarrow> [] | Inr xs \<Rightarrow> xs)"

definition loaded :: "failure + 'a \<Rightarrow> 'a option" where
  "loaded r = (case r of Inl _ \<Rightarrow> None | Inr x \<Rightarrow> Some x)"

definition problem :: "failure list \<Rightarrow> string \<Rightarrow> failure + 'a \<Rightarrow> string list" where
  "problem known what r = (case r of Inr _ \<Rightarrow> [] | Inl e \<Rightarrow> if e \<in> set known then [] else [what])"

definition nl_part :: "answers \<Rightarrow> (nl_answers \<Rightarrow> failure + 'a list) \<Rightarrow> failure + 'a list" where
  "nl_part A f = (case an_nl A of None \<Rightarrow> Inr [] | Some x \<Rightarrow> f x)"

definition ubus_part :: "answers \<Rightarrow> (ubus_answers \<Rightarrow> failure + 'a list) \<Rightarrow> failure + 'a list" where
  "ubus_part A f = (case an_ubus A of None \<Rightarrow> Inr [] | Some x \<Rightarrow> f x)"

definition wifi_scripts :: "probe \<Rightarrow> string" where
  "wifi_scripts P =
     (if pb_exists P ''/usr/share/ucode/wifi'' then ''ucode''
      else if pb_exists P ''/lib/netifd/wireless/mac80211.uc'' then ''ucode''
      else if pb_exists P ''/lib/netifd/wireless/mac80211.sh'' then ''shell'' else [])"

definition facts_of ::
  "nat \<Rightarrow> kit \<Rightarrow> probe \<Rightarrow> fs \<Rightarrow> (string \<Rightarrow> bool) \<Rightarrow> (string \<Rightarrow> string option)
     \<Rightarrow> (string \<Rightarrow> string \<Rightarrow> int option) \<Rightarrow> answers \<Rightarrow> feature_cache \<Rightarrow> facts \<times> feature_cache" where
  "facts_of w K P F lstat key run A c =
     (let installed = answer (an_packages A);
          (h, c') = hostapd_of P lstat key run (map_option (\<lambda>u. answer (ua_hostapd u)) (an_ubus A))
            (map fst installed) c;
          ws = answer (nl_part A na_wiphys); is = answer (nl_part A na_ifaces); regs = answer (nl_part A na_regs);
          rg = regulatory_of P (an_nl A \<noteq> None) ws regs;
          st = answer (ubus_part A ua_status)
      in (\<lparr>fa_openwrt = openwrt_of P, fa_manager = an_manager A, fa_packages = watched installed,
            fa_scripts = wifi_scripts P,
            fa_schema = pb_exists P ''/usr/share/schema/wireless.wifi-iface.json'',
            fa_hostapd = h, fa_regulatory = rg,
            fa_radios = all_radios w K P (loaded (an_wireless A)) st ws is rg regs,
            fa_trunk = trunk_of w K P F (loaded (an_network A)),
            fa_networks = networks_of (answer (ubus_part A ua_dump)),
            fa_problems =
              problem [NoDatabase] ''packages'' (an_packages A)
              @ problem [] ''nl80211 wiphy'' (nl_part A na_wiphys)
              @ problem [] ''nl80211 interfaces'' (nl_part A na_ifaces)
              @ problem [] ''nl80211 regulatory'' (nl_part A na_regs)
              @ problem [] ''network.wireless status'' (ubus_part A ua_status)
              @ problem [NoConfig] ''wireless config'' (an_wireless A)
              @ problem [] ''network.interface dump'' (ubus_part A ua_dump)\<rparr>, c'))"

end
