(* ===== verification/Prom.thy ===== *)
theory Prom
  imports Prelude Complex_Main
begin

text \<open>
  The Prometheus text of a push, \<open>internal/prom/prom.go\<close>: a builder collects samples by family and
  renders every family once, in first-seen order. What is rendered can be read back: the reader of the
  text format below finds each family once, with its samples in the order they were added, whatever
  bytes the label values hold. \<open>FormatFloat\<close> of the standard library is the parameter \<open>short\<close>.
\<close>

section \<open>The builder\<close>

type_synonym label = "string \<times> string"

record family =
  fam_name :: string
  fam_typ :: string
  fam_samples :: string

type_synonym builder = "family list"

definition new_builder :: builder where
  "new_builder = []"

fun label_list :: "string list \<Rightarrow> label list" where
  "label_list (n # v # rest) = (n, v) # label_list rest"
| "label_list _ = []"

text \<open>\<open>family\<close>: the family of a name, made with this type when it is new.\<close>

definition ensure_family :: "string \<Rightarrow> string \<Rightarrow> builder \<Rightarrow> builder" where
  "ensure_family name typ b =
     (if name \<in> fam_name ` set b then b else b @ [\<lparr>fam_name = name, fam_typ = typ, fam_samples = []\<rparr>])"

definition escape_char :: "char \<Rightarrow> string" where
  "escape_char c =
     (if c = CHR 0x5C then [CHR 0x5C, CHR 0x5C]
      else if c = CHR 0x22 then [CHR 0x5C, CHR 0x22]
      else if c = CHR 0x0A then [CHR 0x5C, CHR ''n''] else [c])"

definition escape_label :: "string \<Rightarrow> string" where
  "escape_label s =
     (if \<not> list_ex (\<lambda>c. c = CHR 0x5C \<or> c = CHR 0x22 \<or> c = CHR 0x0A) s then s
      else concat (map escape_char s))"

definition label_text :: "label \<Rightarrow> string" where
  "label_text l = fst l @ CHR ''='' # CHR 0x22 # escape_label (snd l) @ [CHR 0x22]"

definition labels_text :: "label list \<Rightarrow> string" where
  "labels_text ls = (if ls = [] then [] else CHR ''{'' # join '','' (map label_text ls) @ ''}'')"

definition sample_line :: "string \<Rightarrow> label list \<Rightarrow> string \<Rightarrow> string" where
  "sample_line name ls v = name @ labels_text ls @ CHR '' '' # v @ [CHR 0x0A]"

definition add_text :: "string \<Rightarrow> string \<Rightarrow> builder \<Rightarrow> builder" where
  "add_text name t b =
     map (\<lambda>f. if fam_name f = name then f\<lparr>fam_samples := fam_samples f @ t\<rparr> else f) b"

definition write_sample :: "string \<Rightarrow> string \<Rightarrow> label list \<Rightarrow> string \<Rightarrow> builder \<Rightarrow> builder" where
  "write_sample name typ ls v b = add_text name (sample_line name ls v) (ensure_family name typ b)"

datatype float_value = NaN | PosInf | NegInf | Finite rat

definition format_float :: "(rat \<Rightarrow> string) \<Rightarrow> float_value \<Rightarrow> string" where
  "format_float short v =
     (case v of
        NaN \<Rightarrow> ''NaN''
      | PosInf \<Rightarrow> ''+Inf''
      | NegInf \<Rightarrow> ''-Inf''
      | Finite q \<Rightarrow> if q = of_int (floor q) \<and> \<bar>q\<bar> < 1000000000000000 then itoa_int (floor q) else short q)"

definition add_float :: "(rat \<Rightarrow> string) \<Rightarrow> string \<Rightarrow> string \<Rightarrow> label list \<Rightarrow> float_value \<Rightarrow> builder \<Rightarrow> builder" where
  "add_float short name typ ls v = write_sample name typ ls (format_float short v)"

definition add_int :: "string \<Rightarrow> string \<Rightarrow> label list \<Rightarrow> int \<Rightarrow> builder \<Rightarrow> builder" where
  "add_int name typ ls v = write_sample name typ ls (itoa_int v)"

definition add_uint :: "string \<Rightarrow> string \<Rightarrow> label list \<Rightarrow> nat \<Rightarrow> builder \<Rightarrow> builder" where
  "add_uint name typ ls v = write_sample name typ ls (itoa v)"

definition declare_family :: "string \<Rightarrow> string \<Rightarrow> builder \<Rightarrow> builder" where
  "declare_family name typ = ensure_family name typ"

definition family_count :: "builder \<Rightarrow> nat" where
  "family_count b = length b"

definition render_family :: "family \<Rightarrow> string" where
  "render_family f = ''# TYPE '' @ fam_name f @ CHR '' '' # fam_typ f @ CHR 0x0A # fam_samples f"

definition render :: "builder \<Rightarrow> string" where
  "render b = concat (map render_family b)"

section \<open>Reading the text format\<close>

definition name_char :: "char \<Rightarrow> bool" where
  "name_char c \<longleftrightarrow> is_word_char c \<or> c = CHR '':''"

definition metric_name :: "string \<Rightarrow> bool" where
  "metric_name n \<longleftrightarrow> n \<noteq> [] \<and> list_all name_char n"

datatype text_line = TypeLine string string | SampleLine string "label list" string

text \<open>A label's value, from after its opening quote.\<close>

fun unquote :: "string \<Rightarrow> (string \<times> string) option" where
  "unquote [] = None"
| "unquote (c # cs) =
     (if c = CHR 0x22 then Some ([], cs)
      else if c = CHR 0x5C then
        (case cs of
           [] \<Rightarrow> None
         | e # ds \<Rightarrow> map_option (\<lambda>(v, r). ((if e = CHR ''n'' then CHR 0x0A else e) # v, r)) (unquote ds))
      else map_option (\<lambda>(v, r). (c # v, r)) (unquote cs))"

lemma unquote_shorter: "unquote s = Some (v, r) \<Longrightarrow> length r < length s"
  by (induction s arbitrary: v r rule: unquote.induct) (fastforce split: if_splits list.splits)+

text \<open>The labels, from after the brace or a comma.\<close>

function read_labels :: "string \<Rightarrow> (label list \<times> string) option" where
  "read_labels s =
     (let n = takeWhile name_char s
      in if n = [] \<or> take 2 (drop (length n) s) \<noteq> [CHR ''='', CHR 0x22] then None
         else (case unquote (drop (length n + 2) s) of
             None \<Rightarrow> None
           | Some (v, r) \<Rightarrow>
               (case r of
                  [] \<Rightarrow> None
                | c # r' \<Rightarrow>
                    if c = CHR ''}'' then Some ([(n, v)], r')
                    else if c = CHR '','' then map_option (\<lambda>(ls, q). ((n, v) # ls, q)) (read_labels r')
                    else None)))"
  by auto

termination
proof (relation "measure length", simp, goal_cases)
  case (1 s n p v r c r')
  have "length (c # r') < length (drop (length n + 2) s)"
    using unquote_shorter[of "drop (length n + 2) s" v "c # r'"] 1 by simp
  then show ?case by simp
qed

declare read_labels.simps [simp del]

definition read_sample :: "string \<Rightarrow> text_line option" where
  "read_sample s =
     (let n = takeWhile name_char s; r = drop (length n) s
      in if n = [] then None
         else (case r of
             [] \<Rightarrow> None
           | c # r' \<Rightarrow>
               if c = CHR '' '' then Some (SampleLine n [] r')
               else if c = CHR ''{'' then
                 (case read_labels r' of
                    Some (ls, d # v) \<Rightarrow> if d = CHR '' '' then Some (SampleLine n ls v) else None
                  | _ \<Rightarrow> None)
               else None))"

definition read_line :: "string \<Rightarrow> text_line option" where
  "read_line s =
     (case cut_prefix ''# TYPE '' s of
        Some t \<Rightarrow> (let (n, typ, found) = cut_at (CHR '' '') t in if found then Some (TypeLine n typ) else None)
      | None \<Rightarrow> read_sample s)"

definition read_text :: "string \<Rightarrow> text_line option list" where
  "read_text s = map read_line (butlast (split_at (CHR 0x0A) s))"

section \<open>Round trip\<close>

datatype prom_op = Declare string string | Sample string string "label list" string

fun prom_do :: "prom_op \<Rightarrow> builder \<Rightarrow> builder" where
  "prom_do (Declare n t) = declare_family n t"
| "prom_do (Sample n t ls v) = write_sample n t ls v"

fun op_family :: "prom_op \<Rightarrow> string \<times> string" where
  "op_family (Declare n t) = (n, t)"
| "op_family (Sample n t ls v) = (n, t)"

text \<open>The families in first-seen order, with the type of their first use, and a family's samples.\<close>

definition first_seen :: "prom_op list \<Rightarrow> (string \<times> string) list" where
  "first_seen ops = fold (\<lambda>op fs. if fst (op_family op) \<in> fst ` set fs then fs else fs @ [op_family op]) ops []"

fun samples_of :: "string \<Rightarrow> prom_op list \<Rightarrow> (label list \<times> string) list" where
  "samples_of n [] = []"
| "samples_of n (Declare m t # ops) = samples_of n ops"
| "samples_of n (Sample m t ls v # ops) = (if m = n then [(ls, v)] else []) @ samples_of n ops"

definition expected_lines :: "prom_op list \<Rightarrow> text_line list" where
  "expected_lines ops =
     concat (map (\<lambda>(n, t). TypeLine n t # map (\<lambda>(ls, v). SampleLine n ls v) (samples_of n ops)) (first_seen ops))"

fun prom_ok :: "prom_op \<Rightarrow> bool" where
  "prom_ok (Declare n t) \<longleftrightarrow> metric_name n \<and> CHR 0x0A \<notin> set t"
| "prom_ok (Sample n t ls v) \<longleftrightarrow> metric_name n \<and> CHR 0x0A \<notin> set t \<and> CHR 0x0A \<notin> set v
     \<and> list_all (\<lambda>l. metric_name (fst l)) ls"

lemma unquote_escape: "unquote (escape_label v @ CHR 0x22 # r) = Some (v, r)"
proof -
  have e: "escape_label v = concat (map escape_char v)"
  proof -
    have "concat (map escape_char v) = v" if "\<not> list_ex (\<lambda>c. c = CHR 0x5C \<or> c = CHR 0x22 \<or> c = CHR 0x0A) v"
      using that by (induction v) (simp_all add: escape_char_def)
    then show ?thesis by (simp add: escape_label_def)
  qed
  show ?thesis unfolding e by (induction v) (simp_all add: escape_char_def)
qed

lemma name_char_simps [simp]:
  "\<not> name_char (CHR ''='')" "\<not> name_char (CHR '' '')" "\<not> name_char (CHR ''{'')" "\<not> name_char (CHR ''#'')"
  "\<not> name_char (CHR 0x0A)"
  by (simp_all add: name_char_def is_word_char_def is_lower_def is_upper_def is_digit_def less_eq_char_def)

lemma metric_no_newline: "metric_name n \<Longrightarrow> CHR 0x0A \<notin> set n"
  using name_char_simps(5) unfolding metric_name_def list_all_iff by blast

lemma take_name: "list_all name_char n \<Longrightarrow> \<not> name_char c \<Longrightarrow> takeWhile name_char (n @ c # r) = n"
  by (induction n) auto

lemma read_labels_text:
  "ls \<noteq> [] \<Longrightarrow> list_all (\<lambda>l. metric_name (fst l)) ls \<Longrightarrow>
    read_labels (join '','' (map label_text ls) @ CHR ''}'' # r) = Some (ls, r)"
proof (induction ls)
  case (Cons l ls)
  obtain n v where l: "l = (n, v)" by fastforce
  have n: "list_all name_char n" "n \<noteq> []" using Cons.prems(2) by (simp_all add: l metric_name_def)
  have one: "read_labels (label_text l @ q) = (case q of
       [] \<Rightarrow> None
     | c # q' \<Rightarrow> if c = CHR ''}'' then Some ([l], q')
         else if c = CHR '','' then map_option (\<lambda>(ls, x). (l # ls, x)) (read_labels q') else None)" for q
  proof -
    have t: "label_text l @ q = n @ CHR ''='' # CHR 0x22 # escape_label v @ CHR 0x22 # q"
      by (simp add: label_text_def l)
    have k: "takeWhile name_char (label_text l @ q) = n" unfolding t by (rule take_name) (simp_all add: n)
    have d: "take 2 (drop (length n) (label_text l @ q)) = [CHR ''='', CHR 0x22]"
      "drop (length n + 2) (label_text l @ q) = escape_label v @ CHR 0x22 # q"
      unfolding t by (simp_all add: numeral_2_eq_2)
    show ?thesis
      by (subst read_labels.simps, unfold Let_def k d unquote_escape) (simp add: n l split: list.split)
  qed
  show ?case
  proof (cases ls)
    case Nil
    then show ?thesis by (simp add: one)
  next
    case (Cons m ms)
    have "read_labels (join '','' (map label_text ls) @ CHR ''}'' # r) = Some (ls, r)"
      using Cons.IH[OF _ _] Cons.prems local.Cons by simp
    then show ?thesis by (simp add: one local.Cons)
  qed
qed simp

lemma read_sample_line:
  assumes "metric_name n" "list_all (\<lambda>l. metric_name (fst l)) ls"
  shows "read_line (n @ labels_text ls @ CHR '' '' # v) = Some (SampleLine n ls v)"
proof -
  have n: "list_all name_char n" "n \<noteq> []" using assms(1) by (simp_all add: metric_name_def)
  have "hd n \<noteq> CHR ''#''" using n by (cases n) auto
  then have c: "cut_prefix ''# TYPE '' (n @ q) = None" for q
    using n(2) by (cases n) (auto simp: cut_prefix_def)
  have s: "read_sample (n @ c # q) = (if c = CHR '' '' then Some (SampleLine n [] q)
      else if c = CHR ''{'' then (case read_labels q of
          Some (ls, d # v) \<Rightarrow> if d = CHR '' '' then Some (SampleLine n ls v) else None | _ \<Rightarrow> None)
      else None)" if "\<not> name_char c" for c q
    using n(2) by (simp add: read_sample_def take_name[OF n(1) that])
  show ?thesis
  proof (cases "ls = []")
    case True
    then show ?thesis by (simp add: read_line_def c labels_text_def s)
  next
    case False
    then show ?thesis using read_labels_text[OF False assms(2), of "CHR '' '' # v"]
      by (simp add: read_line_def c labels_text_def s)
  qed
qed

lemma read_type_line: "metric_name n \<Longrightarrow> read_line (''# TYPE '' @ n @ CHR '' '' # t) = Some (TypeLine n t)"
proof -
  assume "metric_name n"
  then have "CHR '' '' \<notin> set n" by (auto simp: metric_name_def list_all_iff)
  from cut_at_found[OF this] show ?thesis
    using cut_prefix_append[of "''# TYPE ''" "n @ CHR '' '' # t"] by (simp add: read_line_def)
qed

lemma escape_no_newline: "CHR 0x0A \<notin> set (escape_label v)"
  by (auto simp: escape_label_def escape_char_def list_ex_iff split: if_splits)

lemma labels_no_newline: "list_all (\<lambda>l. metric_name (fst l)) ls \<Longrightarrow> CHR 0x0A \<notin> set (labels_text ls)"
proof -
  assume "list_all (\<lambda>l. metric_name (fst l)) ls"
  then have "CHR 0x0A \<notin> set (label_text l)" if "l \<in> set ls" for l
    using that escape_no_newline[of "snd l"] metric_no_newline[of "fst l"] by (simp add: label_text_def list_all_iff)
  then have "CHR 0x0A \<notin> set (join '','' (map label_text ls))"
    by (induction ls rule: induct_list012) auto
  then show ?thesis by (simp add: labels_text_def)
qed

text \<open>The lines of a family, and of the whole text.\<close>

definition family_lines :: "string \<times> string \<Rightarrow> (label list \<times> string) list \<Rightarrow> string list" where
  "family_lines f ss = (''# TYPE '' @ fst f @ CHR '' '' # snd f) # map (\<lambda>(ls, v). fst f @ labels_text ls @ CHR '' '' # v) ss"

lemma read_text_lines:
  "\<forall>l \<in> set ls. CHR 0x0A \<notin> set l \<Longrightarrow> read_text (concat (map (\<lambda>l. l @ [CHR 0x0A]) ls)) = map read_line ls"
proof -
  assume a: "\<forall>l \<in> set ls. CHR 0x0A \<notin> set l"
  then have "split_at (CHR 0x0A) (concat (map (\<lambda>l. l @ [CHR 0x0A]) ls)) = ls @ [[]]"
    by (induction ls) (simp_all add: split_at_append_sep)
  then show ?thesis by (simp add: read_text_def)
qed

text \<open>What the builder holds after a run of operations.\<close>

definition builder_of :: "prom_op list \<Rightarrow> builder" where
  "builder_of ops = map (\<lambda>(n, t). \<lparr>fam_name = n, fam_typ = t,
     fam_samples = concat (map (\<lambda>(ls, v). sample_line n ls v) (samples_of n ops))\<rparr>) (first_seen ops)"

lemma samples_append: "samples_of n (ops @ ops') = samples_of n ops @ samples_of n ops'"
proof (induction ops)
  case (Cons op ops)
  then show ?case by (cases op) simp_all
qed simp

lemma first_seen_snoc:
  "first_seen (ops @ [op]) =
     (if fst (op_family op) \<in> fst ` set (first_seen ops) then first_seen ops else first_seen ops @ [op_family op])"
  by (simp add: first_seen_def)

lemma names_builder_of: "fam_name ` set (builder_of ops) = fst ` set (first_seen ops)"
  by (force simp: builder_of_def)

lemma unseen_samples: "n \<notin> fst ` set (first_seen ops) \<Longrightarrow> samples_of n ops = []"
proof (induction ops rule: rev_induct)
  case (snoc op ops)
  then show ?case
    by (cases op) (auto simp: first_seen_snoc samples_append split: if_splits)
qed simp

lemma prom_run: "fold prom_do ops new_builder = builder_of ops"
proof (induction ops rule: rev_induct)
  case (snoc op ops)
  let ?n = "fst (op_family op)"
  have ens: "ensure_family ?n (snd (op_family op)) (builder_of ops) = map (\<lambda>(n, t). \<lparr>fam_name = n, fam_typ = t,
      fam_samples = concat (map (\<lambda>(ls, v). sample_line n ls v) (samples_of n ops))\<rparr>) (first_seen (ops @ [op]))"
  proof (cases "?n \<in> fst ` set (first_seen ops)")
    case True
    then show ?thesis using names_builder_of[of ops]
      by (simp add: ensure_family_def first_seen_snoc) (simp add: builder_of_def)
  next
    case False
    then show ?thesis using names_builder_of[of ops] unseen_samples[OF False]
      by (simp add: ensure_family_def first_seen_snoc case_prod_unfold) (simp add: builder_of_def case_prod_unfold)
  qed
  show ?case
  proof (cases op)
    case (Declare n t)
    then show ?thesis using snoc ens
      by (auto simp: declare_family_def builder_of_def samples_append)
  next
    case (Sample n t ls v)
    then show ?thesis using snoc ens
      by (auto simp: write_sample_def add_text_def builder_of_def samples_append)
  qed
qed (simp add: builder_of_def first_seen_def new_builder_def)

lemma first_seen_ok:
  assumes "(n, t) \<in> set (first_seen ops)" and "list_all prom_ok ops"
  shows "metric_name n \<and> CHR 0x0A \<notin> set t"
  using assms
proof (induction ops rule: rev_induct)
  case (snoc op ops)
  then show ?case by (cases op) (auto simp: first_seen_snoc split: if_splits)
qed (simp add: first_seen_def)

lemma samples_ok:
  assumes "(ls, v) \<in> set (samples_of n ops)" and "list_all prom_ok ops"
  shows "CHR 0x0A \<notin> set v \<and> list_all (\<lambda>l. metric_name (fst l)) ls"
  using assms
proof (induction ops)
  case (Cons op ops)
  then show ?case by (cases op) (auto split: if_splits)
qed simp

text \<open>The text is its lines, each family's after the other.\<close>

lemma render_lines:
  "render (builder_of ops) = concat (map (\<lambda>l. l @ [CHR 0x0A])
     (concat (map (\<lambda>f. family_lines f (samples_of (fst f) ops)) (first_seen ops))))"
proof -
  have one: "concat (map (\<lambda>(ls, v). sample_line n ls v) ss)
      = concat (map (\<lambda>l. l @ [CHR 0x0A]) (map (\<lambda>(ls, v). n @ labels_text ls @ CHR '' '' # v) ss))" for n ss
    by (induction ss) (auto simp: sample_line_def)
  have "render (map (\<lambda>(n, t). \<lparr>fam_name = n, fam_typ = t,
          fam_samples = concat (map (\<lambda>(ls, v). sample_line n ls v) (samples_of n ops))\<rparr>) fs)
      = concat (map (\<lambda>l. l @ [CHR 0x0A]) (concat (map (\<lambda>f. family_lines f (samples_of (fst f) ops)) fs)))" for fs
    by (induction fs) (auto simp: render_def render_family_def family_lines_def one simp del: map_map)
  then show ?thesis by (simp add: builder_of_def)
qed

text \<open>A family's lines hold no line feed, and each is read as what it was made of.\<close>

lemma family_lines_read:
  assumes "f \<in> set (first_seen ops)" and "list_all prom_ok ops"
  shows "\<forall>l \<in> set (family_lines f (samples_of (fst f) ops)). CHR 0x0A \<notin> set l"
    and "map read_line (family_lines f (samples_of (fst f) ops))
      = map Some (TypeLine (fst f) (snd f) # map (\<lambda>(ls, v). SampleLine (fst f) ls v) (samples_of (fst f) ops))"
proof -
  have m: "metric_name (fst f)" and n: "CHR 0x0A \<notin> set (fst f)" "CHR 0x0A \<notin> set (snd f)"
    using first_seen_ok[of "fst f" "snd f"] assms metric_no_newline by simp_all
  have lf: "CHR 0x0A \<notin> set (fst f @ labels_text ls @ CHR '' '' # v)" if "(ls, v) \<in> set (samples_of (fst f) ops)" for ls v
    using samples_ok[OF that assms(2)] n(1) labels_no_newline[of ls] by simp
  then show "\<forall>l \<in> set (family_lines f (samples_of (fst f) ops)). CHR 0x0A \<notin> set l"
    using n by (auto simp: family_lines_def)
  have rd: "read_line (fst f @ labels_text ls @ CHR '' '' # v) = Some (SampleLine (fst f) ls v)"
    if "(ls, v) \<in> set (samples_of (fst f) ops)" for ls v
    using read_sample_line[OF m] samples_ok[OF that assms(2)] by blast
  then show "map read_line (family_lines f (samples_of (fst f) ops))
      = map Some (TypeLine (fst f) (snd f) # map (\<lambda>(ls, v). SampleLine (fst f) ls v) (samples_of (fst f) ops))"
    using read_type_line[OF m] by (auto simp: family_lines_def)
qed

text \<open>The metrics that are pushed can be read. However samples of different families are mixed when they
  are added, the text has each family once, in the order of their first use and with its first type,
  followed by exactly its samples in the order they were added; and whatever bytes a label's value has (an
  SSID with quotes, backslashes or line feeds), it is read back as it was and adds no line of its own.\<close>

theorem exposition_roundtrip:
  assumes "list_all prom_ok ops"
  shows "read_text (render (fold prom_do ops new_builder)) = map Some (expected_lines ops)"
proof -
  let ?lines = "concat (map (\<lambda>f. family_lines f (samples_of (fst f) ops)) (first_seen ops))"
  have "\<forall>l \<in> set ?lines. CHR 0x0A \<notin> set l"
    using family_lines_read(1)[OF _ assms] by auto
  then have "read_text (render (builder_of ops)) = map read_line ?lines"
    unfolding render_lines by (rule read_text_lines)
  also have "\<dots> = map Some (expected_lines ops)"
    using family_lines_read(2)[OF _ assms]
    by (simp add: expected_lines_def map_concat comp_def case_prod_unfold cong: map_cong)
  finally show ?thesis by (simp add: prom_run)
qed

theorem exposition_roundtrip_witness:
  "read_text (render (fold prom_do
     [Sample ''up'' ''gauge'' [(''ssid'', [CHR 0x22, CHR 0x0A])] ''1'', Declare ''down'' ''gauge'',
      Sample ''up'' ''gauge'' [] ''2''] new_builder))
   = map Some [TypeLine ''up'' ''gauge'', SampleLine ''up'' [(''ssid'', [CHR 0x22, CHR 0x0A])] ''1'',
       SampleLine ''up'' [] ''2'', TypeLine ''down'' ''gauge'']"
proof -
  let ?ops = "[Sample ''up'' ''gauge'' [(''ssid'', [CHR 0x22, CHR 0x0A])] ''1'', Declare ''down'' ''gauge'',
      Sample ''up'' ''gauge'' [] ''2'']"
  have "list_all prom_ok ?ops" by code_simp
  from exposition_roundtrip[OF this] show ?thesis
    by (simp add: expected_lines_def first_seen_def del: fold_Cons fold.simps(2) cong del: map_cong) (simp add: first_seen_def)
qed

end
