(* ===== verification/Wireless.thy ===== *)
theory Wireless
  imports Nl80211
begin

text \<open>
  The picture of the access point's Wi-Fi, \<open>internal/wireless/wireless.go\<close>: netifd's status (kept for a
  while, since reading it forks a process) merged with the kernel's interfaces, the associated stations
  as clients, and where a client is. The kernel's and netifd's answers are the environment; the JSON
  of an answer is the standard library's, decoded into \<open>radio_status\<close>.
\<close>

section \<open>Data\<close>

record w_radio =
  wr_name :: string
  wr_band :: string
  wr_channel :: int
  wr_htmode :: string
  wr_country :: string
  wr_up :: bool

record w_iface =
  wi_ifname :: string
  wi_radio :: string
  wi_mode :: string
  wi_ssid :: string
  wi_bssid :: string
  wi_freq :: int
  wi_channel :: int
  wi_band :: string
  wi_index :: int
  wi_type :: "32 word"
  wi_country :: string

record inventory =
  in_radios :: "w_radio list"
  in_ifaces :: "w_iface list"

record radio_iface =
  ri_section :: string
  ri_ifname :: string
  ri_mode :: string
  ri_ssid :: string

record radio_config =
  rc_band :: string
  rc_hwmode :: string
  rc_channel :: int
  rc_htmode :: string
  rc_country :: string

record radio_status =
  rs_up :: bool
  rs_disabled :: bool
  rs_config :: radio_config
  rs_ifaces :: "radio_iface list"

text \<open>\<open>stringOrInt\<close>: "6", 6 and anything else; \<open>w\<close> is the width of the device's \<open>int\<close>.\<close>

definition string_or_int :: "nat \<Rightarrow> string \<Rightarrow> int" where
  "string_or_int w b = (case atoi w (trim (\<lambda>c. c = CHR 0x22) b) of None \<Rightarrow> 0 | Some n \<Rightarrow> n)"

datatype wireless_error = NoWifi | NlFailed | UbusUnavailable | UbusFailed

type_synonym status_answer = "wireless_error + (string \<times> radio_status) list option"

record source =
  so_status :: status_answer
  so_status_at :: "int option"
  so_reg :: string
  so_reg_at :: "int option"

record wireless_env =
  we_nl :: "(wireless_error + interface list) option"
  we_ubus :: "(nat \<Rightarrow> status_answer) option"
  we_now :: int
  we_status_ttl :: int
  we_reg_ttl :: int
  we_reg :: "string option"
  we_stations :: "int \<Rightarrow> station_info list option"
  we_survey :: "int \<Rightarrow> survey_entry list option"

section \<open>The cached answers\<close>

definition fresh :: "int \<Rightarrow> int \<Rightarrow> int option \<Rightarrow> bool" where
  "fresh now ttl at = (case at of None \<Rightarrow> False | Some t \<Rightarrow> now - t < ttl)"

definition status_ttl :: "wireless_env \<Rightarrow> int" where
  "status_ttl x = (if we_status_ttl x \<le> 0 then 30 else we_status_ttl x)"

definition invalidate :: "source \<Rightarrow> source" where
  "invalidate s = s\<lparr>so_status_at := None\<rparr>"

text \<open>\<open>radioStatus\<close>; \<open>k\<close>: how often netifd was asked before, in this call.\<close>

definition radio_status_of :: "wireless_env \<Rightarrow> nat \<Rightarrow> source \<Rightarrow> status_answer \<times> source" where
  "radio_status_of x k s =
     (if fresh (we_now x) (status_ttl x) (so_status_at s) then (so_status s, s)
      else
        (let a = (case we_ubus x of None \<Rightarrow> Inl UbusUnavailable | Some call \<Rightarrow> call k)
         in (a, s\<lparr>so_status := a, so_status_at := Some (we_now x)\<rparr>)))"

definition reg_domain_of :: "wireless_env \<Rightarrow> source \<Rightarrow> string \<times> source" where
  "reg_domain_of x s =
     (if we_nl x = None then ([], s)
      else if fresh (we_now x) (if we_reg_ttl x \<le> 0 then 300 else we_reg_ttl x) (so_reg_at s) then (so_reg s, s)
      else
        (let r = (case we_reg x of None \<Rightarrow> [] | Some r \<Rightarrow> r)
         in (r, s\<lparr>so_reg := r, so_reg_at := Some (we_now x)\<rparr>)))"

section \<open>The inventory\<close>

definition hex_octet :: "8 word \<Rightarrow> string" where
  "hex_octet b = [''0123456789abcdef'' ! (unat b div 16), ''0123456789abcdef'' ! (unat b mod 16)]"

text \<open>\<open>HardwareAddr.String\<close>, in lower case already; the empty address is the empty string.\<close>

definition mac_text :: "octets option \<Rightarrow> string" where
  "mac_text m = (case m of None \<Rightarrow> [] | Some bs \<Rightarrow> join '':'' (map hex_octet bs))"

definition uci_mode :: "32 word \<Rightarrow> string" where
  "uci_mode t =
     (if t = 3 then ''ap'' else if t = 2 then ''sta'' else if t = 7 then ''mesh'' else if t = 1 then ''adhoc''
      else if t = 6 then ''monitor'' else ''unknown'')"

definition uci_band :: "radio_config \<Rightarrow> string" where
  "uci_band c =
     (if rc_band c \<noteq> [] then rc_band c
      else if rc_hwmode c = ''11a'' then ''5g''
      else if rc_hwmode c = ''11b'' \<or> rc_hwmode c = ''11g'' then ''2g''
      else [])"

definition make_iface :: "interface \<Rightarrow> string \<Rightarrow> string \<Rightarrow> string \<Rightarrow> string \<Rightarrow> w_iface" where
  "make_iface i radio mode cfg_ssid country =
     \<lparr>wi_ifname = if_name i, wi_radio = radio,
      wi_mode = (if mode = [] then uci_mode (if_type i) else mode),
      wi_ssid = (if if_ssid i = [] then cfg_ssid else if_ssid i),
      wi_bssid = to_lower (mac_text (if_mac i)), wi_freq = if_freq i,
      wi_channel = freq_to_channel (if_freq i), wi_band = band (if_freq i), wi_index = if_index i,
      wi_type = if_type i, wi_country = country\<rparr>"

definition by_name :: "interface list \<Rightarrow> string \<Rightarrow> interface option" where
  "by_name is n = List.find (\<lambda>i. if_name i = n) (List.rev is)"

definition carries :: "32 word \<Rightarrow> bool" where
  "carries t \<longleftrightarrow> t = 3 \<or> t = 2 \<or> t = 7"

text \<open>An interface the cached status does not know.\<close>

definition unknown_iface :: "(string \<times> radio_status) list \<Rightarrow> interface \<Rightarrow> bool" where
  "unknown_iface st i \<longleftrightarrow> carries (if_type i)
     \<and> if_name i \<notin> set (concat (map (\<lambda>(_, r). map ri_ifname (rs_ifaces r)) st))"

text \<open>The status an inventory works with: read again once when it does not know an interface.\<close>

definition inventory_status :: "wireless_env \<Rightarrow> interface list \<Rightarrow> source \<Rightarrow> status_answer \<times> source" where
  "inventory_status x is s =
     (case radio_status_of x 0 s of
        (Inl e, s1) \<Rightarrow> (Inl e, s1)
      | (Inr st, s1) \<Rightarrow>
          if list_ex (unknown_iface (case st of None \<Rightarrow> [] | Some m \<Rightarrow> m)) is
          then radio_status_of x 1 (invalidate s1) else (Inr st, s1))"

definition netifd_radio :: "string \<times> radio_status \<Rightarrow> w_radio" where
  "netifd_radio p =
     \<lparr>wr_name = fst p, wr_band = uci_band (rs_config (snd p)), wr_channel = rc_channel (rs_config (snd p)),
      wr_htmode = rc_htmode (rs_config (snd p)), wr_country = rc_country (rs_config (snd p)),
      wr_up = rs_up (snd p)\<rparr>"

definition netifd_ifaces :: "interface list \<Rightarrow> string \<times> radio_status \<Rightarrow> w_iface list" where
  "netifd_ifaces is p =
     List.map_filter (\<lambda>ri.
       if ri_ifname ri = [] then None
       else map_option (\<lambda>i. make_iface i (fst p) (ri_mode ri) (ri_ssid ri) (rc_country (rs_config (snd p))))
              (by_name is (ri_ifname ri))) (rs_ifaces (snd p))"

definition netifd_inventory :: "interface list \<Rightarrow> (string \<times> radio_status) list \<Rightarrow> inventory" where
  "netifd_inventory is st =
     (let ps = sort_key fst st
      in \<lparr>in_radios = map netifd_radio ps, in_ifaces = concat (map (netifd_ifaces is) ps)\<rparr>)"

text \<open>Without netifd: every interface of the kernel that carries traffic, radios named by their phy.\<close>

definition kernel_radio :: "interface \<Rightarrow> string" where
  "kernel_radio i = ''phy'' @ itoa_int (if_wiphy i)"

definition kernel_iface :: "interface \<Rightarrow> inventory \<Rightarrow> inventory" where
  "kernel_iface i acc =
     (if carries (if_type i) \<or> if_type i = 1 then
        (let name = kernel_radio i;
             radios = (if name \<in> wr_name ` set (in_radios acc) then in_radios acc
               else in_radios acc @ [\<lparr>wr_name = name, wr_band = [], wr_channel = freq_to_channel (if_freq i),
                 wr_htmode = [], wr_country = [], wr_up = True\<rparr>])
         in \<lparr>in_radios = radios,
             in_ifaces = in_ifaces acc @ [make_iface i name (uci_mode (if_type i)) [] []]\<rparr>)
      else acc)"

definition kernel_inventory :: "interface list \<Rightarrow> inventory" where
  "kernel_inventory is = fold kernel_iface (sort_key if_name is) \<lparr>in_radios = [], in_ifaces = []\<rparr>"

definition take_inventory :: "wireless_env \<Rightarrow> source \<Rightarrow> (wireless_error + inventory) \<times> source" where
  "take_inventory x s =
     (case we_nl x of
        None \<Rightarrow> (Inl NoWifi, s)
      | Some (Inl e) \<Rightarrow> (Inl e, s)
      | Some (Inr is) \<Rightarrow>
          (case inventory_status x is s of
             (Inr (Some st), s1) \<Rightarrow> (Inr (netifd_inventory is st), s1)
           | (_, s1) \<Rightarrow> (Inr (kernel_inventory is), s1)))"

section \<open>Stations and clients\<close>

definition stations_of :: "wireless_env \<Rightarrow> w_iface \<Rightarrow> wireless_error + station_info list" where
  "stations_of x i =
     (if we_nl x = None then Inl NoWifi
      else (case we_stations x (wi_index i) of None \<Rightarrow> Inl NlFailed | Some ss \<Rightarrow> Inr ss))"

definition noise_of :: "wireless_env \<Rightarrow> w_iface \<Rightarrow> int" where
  "noise_of x i =
     (if we_nl x = None then 0
      else (case we_survey x (wi_index i) of
          None \<Rightarrow> 0
        | Some es \<Rightarrow>
            fold (\<lambda>e noise. case sv_noise e of
                None \<Rightarrow> noise
              | Some n \<Rightarrow> if noise = 0 \<or> sv_in_use e then n else noise) es 0))"

record client =
  cl_mac :: string
  cl_ifname :: string
  cl_ssid :: string
  cl_radio :: string
  cl_band :: string
  cl_freq :: int
  cl_signal :: "int option"
  cl_inactive :: "32 word"
  cl_connected :: "32 word option"
  cl_rx_rate :: "64 word option"
  cl_tx_rate :: "64 word option"
  cl_throughput :: "32 word option"
  cl_bytes :: "(64 word \<times> 64 word) option"
  cl_packets :: "(32 word \<times> 32 word) option"
  cl_authorized :: "bool option"

definition station_signal :: "station_info \<Rightarrow> int option" where
  "station_signal st =
     (case sn_signal st of
        Some v \<Rightarrow> if v \<noteq> 0 then Some v
          else (case sn_signal_avg st of Some a \<Rightarrow> if a \<noteq> 0 then Some a else None | None \<Rightarrow> None)
      | None \<Rightarrow> (case sn_signal_avg st of Some a \<Rightarrow> if a \<noteq> 0 then Some a else None | None \<Rightarrow> None))"

definition rate_kbps :: "32 word option \<Rightarrow> 64 word option" where
  "rate_kbps r = (case r of None \<Rightarrow> None | Some v \<Rightarrow> if v > 0 then Some (ucast v * 100) else None)"

definition client_from :: "w_iface \<Rightarrow> station_info \<Rightarrow> client" where
  "client_from i st =
     \<lparr>cl_mac = to_lower (mac_text (sn_mac st)), cl_ifname = wi_ifname i, cl_ssid = wi_ssid i,
      cl_radio = wi_radio i, cl_band = wi_band i, cl_freq = wi_freq i, cl_signal = station_signal st,
      cl_inactive = sn_inactive st, cl_connected = sn_connected st, cl_rx_rate = rate_kbps (sn_rx_rate st),
      cl_tx_rate = rate_kbps (sn_tx_rate st),
      cl_throughput = (case sn_throughput st of Some v \<Rightarrow> if v > 0 then Some v else None | None \<Rightarrow> None),
      cl_bytes = (if sn_has_bytes st then Some (sn_rx_bytes st, sn_tx_bytes st) else None),
      cl_packets = (if sn_has_packets st then Some (sn_rx_packets st, sn_tx_packets st) else None),
      cl_authorized = map_option fst (sn_flags st)\<rparr>"

definition list_clients :: "wireless_env \<Rightarrow> string \<Rightarrow> source \<Rightarrow> (wireless_error + client list) \<times> source" where
  "list_clients x only s =
     (case take_inventory x s of
        (Inl e, s1) \<Rightarrow> (Inl e, s1)
      | (Inr found, s1) \<Rightarrow>
          (Inr (concat (map (\<lambda>i.
              if only \<noteq> [] \<and> wi_ifname i \<noteq> only then []
              else (case stations_of x i of Inl _ \<Rightarrow> [] | Inr ss \<Rightarrow> map (client_from i) ss))
            (in_ifaces found))), s1))"

definition has_client :: "wireless_env \<Rightarrow> octets \<Rightarrow> w_iface \<Rightarrow> bool" where
  "has_client x mac i =
     (case stations_of x i of
        Inl _ \<Rightarrow> False
      | Inr ss \<Rightarrow> list_ex (\<lambda>st. to_lower (mac_text (sn_mac st)) = to_lower (mac_text (Some mac))) ss)"

definition hint_first :: "string \<Rightarrow> w_iface list \<Rightarrow> w_iface list" where
  "hint_first hint is = filter (\<lambda>i. wi_ifname i = hint) is @ filter (\<lambda>i. wi_ifname i \<noteq> hint) is"

definition find_client ::
  "wireless_env \<Rightarrow> octets \<Rightarrow> string \<Rightarrow> source \<Rightarrow> (wireless_error + w_iface option) \<times> source" where
  "find_client x mac hint s =
     (case take_inventory x s of
        (Inl e, s1) \<Rightarrow> (Inl e, s1)
      | (Inr found, s1) \<Rightarrow> (Inr (List.find (has_client x mac) (hint_first hint (in_ifaces found))), s1))"

section \<open>How recent the picture is\<close>

text \<open>The status in the cache is the one netifd gave at the time it carries; a status the source was asked
  for at \<open>t\<close>.\<close>

definition used_status :: "wireless_env \<Rightarrow> interface list \<Rightarrow> source \<Rightarrow> status_answer" where
  "used_status x is s = fst (inventory_status x is s)"

text \<open>The picture is never stale. The status an inventory works with was read within the cache's time;
  and when the kernel has an access point, a station or a mesh interface that status does not know (a
  network just created), it was read in this very call. Reading it costs at most two forks.\<close>

theorem inventory_recent:
  assumes "inventory_status x is s = (a, s')"
  shows "so_status s' = a
    \<and> (\<exists>t. so_status_at s' = Some t \<and> we_now x - t < status_ttl x)
    \<and> (\<forall>st i. a = Inr st \<and> i \<in> set is \<and> unknown_iface (case st of None \<Rightarrow> [] | Some m \<Rightarrow> m) i
        \<longrightarrow> so_status_at s' = Some (we_now x))
    \<and> (a = so_status s \<and> s' = s \<or> a = Inl UbusUnavailable \<or> (\<exists>call k. we_ubus x = Some call \<and> k < 2 \<and> a = call k))"
proof -
  have ttl: "0 < status_ttl x" by (simp add: status_ttl_def)
  have one: "so_status s2 = b \<and> (\<exists>t. so_status_at s2 = Some t \<and> we_now x - t < status_ttl x)
      \<and> (b = so_status s1 \<and> s2 = s1 \<and> so_status_at s1 \<noteq> None
         \<or> so_status_at s2 = Some (we_now x) \<and> (b = Inl UbusUnavailable \<or> (\<exists>call. we_ubus x = Some call \<and> b = call k)))"
    if "radio_status_of x k s1 = (b, s2)" for k s1 b s2
    using that ttl by (auto simp: radio_status_of_def fresh_def Let_def split: if_splits option.splits)
  obtain a0 s0 where r0: "radio_status_of x 0 s = (a0, s0)" by fastforce
  note o0 = one[OF r0]
  show ?thesis
  proof (cases "\<exists>st. a0 = Inr st \<and> list_ex (unknown_iface (case st of None \<Rightarrow> [] | Some m \<Rightarrow> m)) is")
    case True
    then have r1: "radio_status_of x 1 (invalidate s0) = (a, s')"
      using assms r0 by (auto simp: inventory_status_def)
    have "so_status_at (invalidate s0) = None" by (simp add: invalidate_def)
    with one[OF r1] have n: "so_status s' = a" "so_status_at s' = Some (we_now x)"
      "a = Inl UbusUnavailable \<or> (\<exists>call. we_ubus x = Some call \<and> a = call 1)"
      by auto
    have "a = Inl UbusUnavailable \<or> (\<exists>call k. we_ubus x = Some call \<and> k < 2 \<and> a = call k)"
      using n(3) one_less_numeral_iff[of "Num.Bit0 num.One"] by (metis semiring_norm(76))
    then show ?thesis using n(1,2) ttl by simp
  next
    case False
    then have e: "a = a0" "s' = s0"
      using assms r0 by (auto simp: inventory_status_def split: sum.splits if_splits)
    have "\<forall>st i. a = Inr st \<and> i \<in> set is \<longrightarrow> \<not> unknown_iface (case st of None \<Rightarrow> [] | Some m \<Rightarrow> m) i"
      using False e(1) by (auto simp: list_ex_iff)
    then show ?thesis using o0 e by (fastforce intro: exI[of _ "0::nat"])
  qed
qed

section \<open>Finding a client\<close>

lemma find_hint:
  assumes "List.find P (hint_first h is) = Some i"
  shows "i \<in> set is \<and> P i \<and> (\<forall>j \<in> set is. wi_ifname j = h \<and> P j \<longrightarrow> wi_ifname i = h)"
proof -
  have f: "List.find P (xs @ ys) = (case List.find P xs of None \<Rightarrow> List.find P ys | r \<Rightarrow> r)" for xs ys :: "w_iface list"
    by (induction xs) auto
  have some: "List.find P xs = Some j \<Longrightarrow> j \<in> set xs \<and> P j" for xs j
    by (auto simp: find_Some_iff)
  show ?thesis
  proof (cases "List.find P (filter (\<lambda>i. wi_ifname i = h) is)")
    case None
    then have "\<forall>j \<in> set is. wi_ifname j = h \<longrightarrow> \<not> P j" by (auto simp: find_None_iff)
    moreover have "List.find P (filter (\<lambda>i. wi_ifname i \<noteq> h) is) = Some i"
      using assms None by (simp add: hint_first_def f)
    from some[OF this] have "i \<in> set is \<and> P i" by simp
    ultimately show ?thesis by blast
  next
    case (Some j)
    then have "j = i" using assms by (simp add: hint_first_def f)
    with some[OF Some] show ?thesis by simp
  qed
qed

text \<open>A client is found where it is. The interface returned has the station associated, and it is the one
  the caller hinted at whenever that one has it; nothing is returned only if no interface whose stations
  could be read has it.\<close>

theorem find_client_exact:
  assumes "find_client x mac hint s = (Inr r, s')"
  shows "\<exists>found. take_inventory x s = (Inr found, s')
    \<and> (case r of
         Some i \<Rightarrow> i \<in> set (in_ifaces found) \<and> has_client x mac i
           \<and> (\<forall>j \<in> set (in_ifaces found). wi_ifname j = hint \<and> has_client x mac j \<longrightarrow> wi_ifname i = hint)
       | None \<Rightarrow> \<forall>i \<in> set (in_ifaces found). \<not> has_client x mac i)"
proof -
  obtain found where f: "take_inventory x s = (Inr found, s')"
    "r = List.find (has_client x mac) (hint_first hint (in_ifaces found))"
    using assms by (auto simp: find_client_def split: sum.splits prod.splits)
  show ?thesis
  proof (cases r)
    case None
    then have "\<forall>i \<in> set (in_ifaces found). \<not> has_client x mac i"
      using f(2) by (auto simp: find_None_iff hint_first_def)
    then show ?thesis using f(1) None by simp
  next
    case (Some i)
    have "List.find (has_client x mac) (hint_first hint (in_ifaces found)) = Some i" using f(2) Some by simp
    from find_hint[OF this] f(1) Some show ?thesis by simp
  qed
qed

section \<open>At a concrete access point\<close>

definition sample_interface :: interface where
  "sample_interface = empty_interface\<lparr>if_index := 5, if_name := ''phy0-ap0'', if_type := 3, if_freq := 2412\<rparr>"

definition sample_wireless_env :: wireless_env where
  "sample_wireless_env = \<lparr>we_nl = Some (Inr [sample_interface]), we_ubus = None, we_now = 100, we_status_ttl = 0,
     we_reg_ttl = 0, we_reg = None,
     we_stations = (\<lambda>_. Some [empty_station\<lparr>sn_mac := Some [2, 0, 0, 0, 0, 1]\<rparr>]), we_survey = (\<lambda>_. None)\<rparr>"

definition sample_source :: source where
  "sample_source = \<lparr>so_status = Inr (Some []), so_status_at = Some 90, so_reg = [], so_reg_at = None\<rparr>"

theorem inventory_recent_witness:
  "\<exists>a s'. inventory_status sample_wireless_env [sample_interface] sample_source = (a, s') \<and> so_status s' = a
     \<and> so_status_at s' = Some 100"
proof -
  obtain a s' where r: "inventory_status sample_wireless_env [sample_interface] sample_source = (a, s')" by fastforce
  have "so_status_at (snd (inventory_status sample_wireless_env [sample_interface] sample_source)) = Some 100"
    by code_simp
  with inventory_recent[OF r] r show ?thesis by auto
qed

theorem find_client_exact_witness:
  "\<exists>i s'. find_client sample_wireless_env [2, 0, 0, 0, 0, 1] ''phy0-ap0'' sample_source = (Inr (Some i), s')
     \<and> has_client sample_wireless_env [2, 0, 0, 0, 0, 1] i"
proof -
  let ?f = "find_client sample_wireless_env [2, 0, 0, 0, 0, 1] ''phy0-ap0'' sample_source"
  have "inventory_status sample_wireless_env [sample_interface] sample_source
      = (Inl UbusUnavailable, sample_source\<lparr>so_status := Inl UbusUnavailable, so_status_at := Some 100\<rparr>)"
    by (simp add: inventory_status_def radio_status_of_def sample_wireless_env_def sample_source_def fresh_def
        status_ttl_def invalidate_def unknown_iface_def carries_def sample_interface_def Let_def)
  then have "\<exists>found s'. take_inventory sample_wireless_env sample_source = (Inr found, s')
      \<and> in_ifaces found = [make_iface sample_interface (kernel_radio sample_interface) ''ap'' [] []]"
    by (simp add: take_inventory_def sample_wireless_env_def kernel_inventory_def kernel_iface_def carries_def Let_def)
       (simp add: sample_interface_def uci_mode_def)
  then obtain found s' where t: "take_inventory sample_wireless_env sample_source = (Inr found, s')"
    "in_ifaces found = [make_iface sample_interface (kernel_radio sample_interface) ''ap'' [] []]" by blast
  let ?i = "make_iface sample_interface (kernel_radio sample_interface) ''ap'' [] []"
  have "has_client sample_wireless_env [2, 0, 0, 0, 0, 1] ?i"
    by (simp add: has_client_def stations_of_def sample_wireless_env_def)
  moreover have "wi_ifname ?i = ''phy0-ap0''" by (simp add: make_iface_def sample_interface_def)
  ultimately have r: "?f = (Inr (Some ?i), s')"
    by (simp add: find_client_def t hint_first_def)
  from find_client_exact[OF r] r show ?thesis by auto
qed

end
