(* ===== verification/Sysinfo.thy ===== *)
theory Sysinfo
  imports GoText Wireless Complex_Main
begin

text \<open>
  What device this is, \<open>internal/sysinfo/sysinfo.go\<close>: the board from ubus with the gaps filled from files,
  kept for a while, the addresses of the interfaces, the variables of a shell file. The files, ubus'
  answer, the kernel's name and the clock are the environment; \<open>ParseFloat\<close> of the standard library is the
  parameter of \<open>uptime\<close>.
\<close>

section \<open>Shell variables\<close>

definition shell_quoted :: "char \<Rightarrow> string \<Rightarrow> bool" where
  "shell_quoted q v \<longleftrightarrow> hd v = q \<and> last v = q"

definition shell_value :: "string \<Rightarrow> string" where
  "shell_value v =
     (if 2 \<le> length v \<and> (shell_quoted (CHR 0x27) v \<or> shell_quoted (CHR 0x22) v) then butlast (tl v) else v)"

definition shell_line :: "string \<Rightarrow> (string \<times> string) list \<Rightarrow> (string \<times> string) list" where
  "shell_line l out =
     (let line = trim_space l
      in if line = [] \<or> prefix ''#'' line then out
         else (let (k, v, ok) = cut_at (CHR ''='') line
               in if \<not> ok then out else put (trim_space k) (shell_value (trim_space v)) out))"

definition parse_shell_vars :: "string \<Rightarrow> (string \<times> string) list" where
  "parse_shell_vars s = fold shell_line (scan_lines s) []"

definition shell_var :: "(string \<times> string) list \<Rightarrow> string \<Rightarrow> string" where
  "shell_var m k = lookup_default [] m k"

section \<open>The board\<close>

record board_facts =
  bd_hostname :: string
  bd_model :: string
  bd_board_name :: string
  bd_system :: string
  bd_kernel :: string
  bd_distribution :: string
  bd_release :: string
  bd_revision :: string
  bd_target :: string
  bd_description :: string

definition no_board :: board_facts where
  "no_board = \<lparr>bd_hostname = [], bd_model = [], bd_board_name = [], bd_system = [], bd_kernel = [],
     bd_distribution = [], bd_release = [], bd_revision = [], bd_target = [], bd_description = []\<rparr>"

record sys_env =
  se_file :: "string \<Rightarrow> string option"
  se_exists :: "string \<Rightarrow> bool"
  se_ubus :: "board_facts option"
  se_uname :: "(string \<times> string) option"
  se_now :: int
  se_ttl :: int

definition sys_read :: "sys_env \<Rightarrow> string \<Rightarrow> string" where
  "sys_read E p = (case se_file E p of None \<Rightarrow> [] | Some b \<Rightarrow> b)"

definition first_line :: "string \<Rightarrow> string" where
  "first_line s = trim_space (trim_right (\<lambda>c. c = CHR 0x00) (fst (cut_at (CHR 0x0A) s)))"

definition cpu_line :: "string \<Rightarrow> (string \<times> string) list \<Rightarrow> (string \<times> string) list" where
  "cpu_line l found =
     (let (k, v, ok) = cut_at (CHR '':'') l; k = trim_space k
      in if \<not> ok \<or> k \<in> fst ` set found then found else put k (trim_space v) found)"

definition cpu_system :: "string \<Rightarrow> string" where
  "cpu_system info =
     (let found = fold cpu_line (split_at (CHR 0x0A) info) [];
          vs = map (shell_var found) [''system type'', ''Hardware'', ''model name'', ''Processor'', ''cpu model'']
      in case List.find (\<lambda>v. v \<noteq> []) vs of None \<Rightarrow> [] | Some v \<Rightarrow> v)"

definition fill :: "string \<Rightarrow> string list \<Rightarrow> string" where
  "fill dst vals =
     (if dst \<noteq> [] then dst else case List.find (\<lambda>v. v \<noteq> []) vals of None \<Rightarrow> [] | Some v \<Rightarrow> v)"

definition read_board :: "sys_env \<Rightarrow> board_facts" where
  "read_board E =
     (let b = (case se_ubus E of None \<Rightarrow> no_board | Some b \<Rightarrow> b);
          rel = shell_var (parse_shell_vars (sys_read E ''/etc/openwrt_release''));
          osrel = shell_var (parse_shell_vars (sys_read E ''/etc/os-release''));
          uname = (case se_uname E of None \<Rightarrow> ([], []) | Some u \<Rightarrow> u)
      in \<lparr>bd_hostname = fill (bd_hostname b) [fst uname],
          bd_model = fill (bd_model b) [first_line (sys_read E ''/tmp/sysinfo/model''),
            first_line (sys_read E ''/sys/firmware/devicetree/base/model''),
            first_line (sys_read E ''/sys/class/dmi/id/product_name'')],
          bd_board_name = fill (bd_board_name b) [first_line (sys_read E ''/tmp/sysinfo/board_name'')],
          bd_system = fill (bd_system b) [cpu_system (sys_read E ''/proc/cpuinfo'')],
          bd_kernel = fill (bd_kernel b) [snd uname],
          bd_distribution = fill (bd_distribution b) [rel ''DISTRIB_ID'', osrel ''NAME''],
          bd_release = fill (bd_release b) [rel ''DISTRIB_RELEASE'', osrel ''VERSION_ID''],
          bd_revision = fill (bd_revision b) [rel ''DISTRIB_REVISION''],
          bd_target = fill (bd_target b) [rel ''DISTRIB_TARGET''],
          bd_description = fill (bd_description b) [rel ''DISTRIB_DESCRIPTION'', osrel ''PRETTY_NAME'']\<rparr>)"

text \<open>The board kept with the time it was read, in nanoseconds.\<close>

type_synonym board_cache = "(board_facts \<times> int) option"

definition board_of :: "sys_env \<Rightarrow> board_cache \<Rightarrow> board_facts \<times> board_cache" where
  "board_of E c =
     (let ttl = (if se_ttl E \<le> 0 then 60000000000 else se_ttl E)
      in case c of
           Some (b, t) \<Rightarrow>
             if se_now E - t < ttl then (b, c) else (read_board E, Some (read_board E, se_now E))
         | None \<Rightarrow> (read_board E, Some (read_board E, se_now E)))"

definition device_arch :: "sys_env \<Rightarrow> string" where
  "device_arch E = shell_var (parse_shell_vars (sys_read E ''/etc/openwrt_release'')) ''DISTRIB_ARCH''"

definition is_openwrt :: "sys_env \<Rightarrow> bool" where
  "is_openwrt E = se_exists E ''/etc/openwrt_release''"

definition uptime :: "(string \<Rightarrow> rat option) \<Rightarrow> sys_env \<Rightarrow> rat option" where
  "uptime parse_float E =
     (case se_file E ''/proc/uptime'' of
        None \<Rightarrow> None
      | Some b \<Rightarrow> (case go_fields b of [] \<Rightarrow> None | f # _ \<Rightarrow> parse_float f))"

section \<open>The addresses\<close>

record net_iface =
  ni_loopback :: bool
  ni_mac :: octets

definition macs_of :: "net_iface list option \<Rightarrow> string list" where
  "macs_of ifaces =
     (case ifaces of
        None \<Rightarrow> []
      | Some is \<Rightarrow>
          take 64 (sort_strings (fold (\<lambda>i out.
            (let mac = to_lower (mac_text (Some (ni_mac i)))
             in if ni_loopback i \<or> length (ni_mac i) \<noteq> 6 \<or> mac = ''00:00:00:00:00:00'' \<or> mac \<in> set out
                then out else out @ [mac])) is [])))"

section \<open>Reading variables back\<close>

text \<open>A variable as shell files have it: the value in quotes of one kind, on a line of its own.\<close>

definition shell_text :: "char \<Rightarrow> string \<times> string \<Rightarrow> string" where
  "shell_text q kv = fst kv @ CHR ''='' # q # snd kv @ [q, CHR 0x0A]"

definition shell_key :: "string \<Rightarrow> bool" where
  "shell_key k \<longleftrightarrow> k \<noteq> [] \<and> list_all is_word_char k"

lemma word_char_shell:
  "is_word_char c \<Longrightarrow> \<not> is_space c \<and> c \<noteq> CHR ''='' \<and> c \<noteq> CHR ''#'' \<and> c \<noteq> CHR 0x0A"
  by (auto simp: is_word_char_def is_space_def is_lower_def is_upper_def is_digit_def less_eq_char_def)

lemma trim_space_closed: "\<not> is_space c \<Longrightarrow> \<not> is_space d \<Longrightarrow> trim_space (c # s @ [d]) = c # s @ [d]"
  by (simp add: trim_space_def trim_def trim_left_def trim_right_def)

lemma shell_key_chars: "shell_key k \<Longrightarrow> c \<in> set k \<Longrightarrow> \<not> is_space c \<and> c \<noteq> CHR ''='' \<and> c \<noteq> CHR ''#'' \<and> c \<noteq> CHR 0x0A"
  unfolding shell_key_def list_all_iff using word_char_shell by blast

lemma trim_space_key: "shell_key k \<Longrightarrow> trim_space k = k"
  unfolding trim_space_def by (rule trim_id) (simp_all add: shell_key_chars shell_key_def)

lemma shell_line_text:
  assumes k: "shell_key k" and q: "q = CHR 0x27 \<or> q = CHR 0x22"
  shows "shell_line (k @ CHR ''='' # q # v @ [q]) out = put k v out"
proof -
  obtain c ks where c: "k = c # ks" using k by (cases k) (auto simp: shell_key_def)
  have w: "\<not> is_space c" "c \<noteq> CHR ''#''" "CHR ''='' \<notin> set k"
    using shell_key_chars[OF k, of c] shell_key_chars[OF k, of "CHR ''=''"] by (auto simp: c)
  have nq: "\<not> is_space q" using q by (auto simp: is_space_def)
  have "trim_space (c # (ks @ CHR ''='' # q # v) @ [q]) = c # (ks @ CHR ''='' # q # v) @ [q]"
    by (rule trim_space_closed) (fact w nq)+
  then have t: "trim_space (k @ CHR ''='' # q # v @ [q]) = k @ CHR ''='' # q # v @ [q]" by (simp add: c)
  have v: "trim_space (q # v @ [q]) = q # v @ [q]" by (rule trim_space_closed) (fact nq)+
  have "shell_value (q # v @ [q]) = v" using q by (auto simp: shell_value_def shell_quoted_def)
  moreover have "k @ CHR ''='' # q # v @ [q] \<noteq> [] \<and> \<not> prefix ''#'' (k @ CHR ''='' # q # v @ [q])"
    using w(2) by (simp add: c)
  ultimately show ?thesis
    unfolding shell_line_def Let_def t cut_at_found[OF w(3)] by (simp add: v trim_space_key[OF k])
qed

lemma scan_lines_concat:
  "\<forall>l \<in> set ls. CHR 0x0A \<notin> set l \<and> (l = [] \<or> last l \<noteq> CHR 0x0D) \<Longrightarrow>
    scan_lines (concat (map (\<lambda>l. l @ [CHR 0x0A]) ls)) = ls"
proof -
  assume a: "\<forall>l \<in> set ls. CHR 0x0A \<notin> set l \<and> (l = [] \<or> last l \<noteq> CHR 0x0D)"
  then have "split_at (CHR 0x0A) (concat (map (\<lambda>l. l @ [CHR 0x0A]) ls)) = ls @ [[]]"
    by (induction ls) (simp_all add: split_at_append_sep)
  moreover have "map drop_cr ls = ls" by (rule map_idI) (use a in \<open>auto simp: drop_cr_def\<close>)
  ultimately show ?thesis by (simp add: scan_lines_def)
qed

lemma map_of_fold_put: "map_of (fold (\<lambda>(k, v). put k v) kvs m) k = map_of (rev kvs @ m) k"
  by (induction kvs arbitrary: m) (auto simp: map_of_put map_add_def split: option.split)

theorem shell_vars_roundtrip:
  assumes "\<forall>(k, v) \<in> set kvs. shell_key k \<and> CHR 0x0A \<notin> set v" and q: "q = CHR 0x27 \<or> q = CHR 0x22"
  shows "map_of (parse_shell_vars (concat (map (shell_text q) kvs))) = map_of (rev kvs)"
proof -
  let ?l = "\<lambda>kv. fst kv @ CHR ''='' # q # snd kv @ [q]"
  have nl: "CHR 0x0A \<notin> set (?l kv)" if "kv \<in> set kvs" for kv
    using that assms(1) q shell_key_chars[of "fst kv" "CHR 0x0A"] by (cases kv) auto
  have "shell_text q = (\<lambda>kv. ?l kv @ [CHR 0x0A])" by (simp add: fun_eq_iff shell_text_def)
  then have t: "concat (map (shell_text q) kvs) = concat (map (\<lambda>l. l @ [CHR 0x0A]) (map ?l kvs))"
    by (simp add: comp_def)
  have s: "scan_lines (concat (map (\<lambda>l. l @ [CHR 0x0A]) (map ?l kvs))) = map ?l kvs"
    using nl q by (intro scan_lines_concat) auto
  have "shell_line (?l kv) = (\<lambda>(k, v). put k v) kv" if "kv \<in> set kvs" for kv
    using that assms by (intro ext) (auto simp: shell_line_text)
  then have f: "fold (shell_line \<circ> ?l) kvs [] = fold (\<lambda>(k, v). put k v) kvs []"
    by (intro fold_cong) simp_all
  show ?thesis
    unfolding parse_shell_vars_def t s fold_map f by (simp add: fun_eq_iff map_of_fold_put)
qed

section \<open>What the addresses are\<close>


definition reported :: "net_iface \<Rightarrow> bool" where
  "reported i \<longleftrightarrow> \<not> ni_loopback i \<and> length (ni_mac i) = 6
     \<and> to_lower (mac_text (Some (ni_mac i))) \<noteq> ''00:00:00:00:00:00''"

lemma macs_folded:
  "distinct out \<Longrightarrow>
    (let r = fold (\<lambda>i out.
            (let mac = to_lower (mac_text (Some (ni_mac i)))
             in if ni_loopback i \<or> length (ni_mac i) \<noteq> 6 \<or> mac = ''00:00:00:00:00:00'' \<or> mac \<in> set out
                then out else out @ [mac])) is out
     in distinct r \<and> set r = set out \<union> (\<lambda>i. to_lower (mac_text (Some (ni_mac i)))) ` set (filter reported is))"
proof (induction "is" arbitrary: out)
  case (Cons i "is")
  let ?mac = "to_lower (mac_text (Some (ni_mac i)))"
  let ?out = "if \<not> reported i \<or> ?mac \<in> set out then out else out @ [?mac]"
  have "distinct ?out" "set ?out = set out \<union> (if reported i then {?mac} else {})" using Cons.prems by auto
  moreover have e: "(if ni_loopback i \<or> length (ni_mac i) \<noteq> 6 \<or> ?mac = ''00:00:00:00:00:00'' \<or> ?mac \<in> set out
      then out else out @ [?mac]) = ?out" by (auto simp: reported_def)
  ultimately show ?case using Cons.IH[of ?out] unfolding fold_Cons comp_def Let_def e by auto
qed simp

text \<open>The addresses a device reports are in order, each once, at most 64; every one is the address of an
  interface that is no loopback, and none of theirs is missing when there are no more than that.\<close>

theorem macs_exact:
  "sorted_wrt (<) (macs_of (Some is)) \<and> length (macs_of (Some is)) \<le> 64
   \<and> (let all = (\<lambda>i. to_lower (mac_text (Some (ni_mac i)))) ` set (filter reported is)
      in set (macs_of (Some is)) \<subseteq> all \<and> (card all \<le> 64 \<longrightarrow> set (macs_of (Some is)) = all))"
proof -
  define r where "r = fold (\<lambda>i out.
            (let mac = to_lower (mac_text (Some (ni_mac i)))
             in if ni_loopback i \<or> length (ni_mac i) \<noteq> 6 \<or> mac = ''00:00:00:00:00:00'' \<or> mac \<in> set out
                then out else out @ [mac])) is []"
  have r: "distinct r" "set r = (\<lambda>i. to_lower (mac_text (Some (ni_mac i)))) ` set (filter reported is)"
    using macs_folded[of "[]" "is"] unfolding r_def Let_def by auto
  have m: "macs_of (Some is) = take 64 (sort r)" by (simp add: macs_of_def r_def sort_strings_def)
  have "sorted_wrt (<) (sort r)" using r(1) by (simp add: strict_sorted_iff)
  then have "sorted_wrt (<) (take 64 (sort r))" by (rule sorted_wrt_take)
  moreover have "set (take 64 (sort r)) \<subseteq> set r" using set_take_subset[of 64 "sort r"] by simp
  moreover have "take 64 (sort r) = sort r" if "card (set r) \<le> 64"
    using that distinct_card[OF r(1)] by simp
  ultimately show ?thesis unfolding m r(2)[symmetric] Let_def by auto
qed

end
