(* ===== verification/Collect.thy ===== *)
theory Collect
  imports Prom Sysinfo
begin

text \<open>
  The collectors of a metrics push, \<open>internal/collect\<close>: the node's numbers from \<open>/proc\<close> and \<open>/sys\<close>, the Wi-Fi
  interfaces and stations, and the registry that runs them. A collector gives what it asks of the
  Prometheus builder, in order, and whether it succeeded. The parser of the shared kit (\<open>hoststat\<close>) is the
  record \<open>host\<close>; a float is the rational it stands for, \<open>fl_round\<close> the rounding of an operation's exact
  result, \<open>fl_short\<close> its shortest text. A scanner's limit of 1 MiB per line is not modelled.
\<close>

section \<open>What a collector asks of the builder\<close>

record floats =
  fl_round :: "rat \<Rightarrow> rat"
  fl_short :: "rat \<Rightarrow> string"

definition uint_op :: "string \<Rightarrow> string \<Rightarrow> label list \<Rightarrow> nat \<Rightarrow> prom_op" where
  "uint_op n typ ls v = Sample n typ ls (itoa v)"

definition int_op :: "string \<Rightarrow> string \<Rightarrow> label list \<Rightarrow> int \<Rightarrow> prom_op" where
  "int_op n typ ls v = Sample n typ ls (itoa_int v)"

definition float_op :: "floats \<Rightarrow> string \<Rightarrow> string \<Rightarrow> label list \<Rightarrow> float_value \<Rightarrow> prom_op" where
  "float_op F n typ ls v = Sample n typ ls (format_float (fl_short F) v)"

lemma builder_ops:
  "prom_do (uint_op n typ ls v) = add_uint n typ ls v"
  "prom_do (int_op n typ ls i) = add_int n typ ls i"
  "prom_do (float_op F n typ ls x) = add_float (fl_short F) n typ ls x"
  by (simp_all add: uint_op_def int_op_def float_op_def add_uint_def add_int_def add_float_def fun_eq_iff)

abbreviation gauge :: string where
  "gauge \<equiv> ''gauge''"

abbreviation counter :: string where
  "counter \<equiv> ''counter''"

type_synonym collected = "prom_op list \<times> bool"

text \<open>The kit's readers of the host.\<close>

record host =
  hs_read :: "string \<Rightarrow> string option"
  hs_trim :: "string \<Rightarrow> string option"
  hs_dir :: "string \<Rightarrow> string list option"
  hs_loadavg :: "(float_value \<times> float_value \<times> float_value) option"
  hs_meminfo :: "(string \<times> nat) list option"
  hs_netdev_fields :: "string list"
  hs_netdev :: "(string \<times> nat list) list option"
  hs_conntrack :: "nat option \<times> nat option"

definition parse_uint64 :: "string \<Rightarrow> nat option" where
  "parse_uint64 s = map_option nat (parse_uint 10 64 s)"

section \<open>The node\<close>

definition cpu_modes :: "string list" where
  "cpu_modes = [''user'', ''nice'', ''system'', ''idle'', ''iowait'', ''irq'', ''softirq'', ''steal'', ''guest'',
     ''guest_nice'']"

fun cpu_ops :: "floats \<Rightarrow> string \<Rightarrow> (string \<times> string) list \<Rightarrow> prom_op list" where
  "cpu_ops F key [] = []"
| "cpu_ops F key ((mode, s) # rest) =
     (case parse_uint64 s of
        None \<Rightarrow> []
      | Some v \<Rightarrow>
          float_op F ''node_cpu_seconds_total'' counter [(''cpu'', key), (''mode'', mode)]
            (Finite (fl_round F (fl_round F (of_nat v) / 100))) # cpu_ops F key rest)"

definition stat_scalars :: "(string \<times> string \<times> string) list" where
  "stat_scalars =
     [(''btime'', ''node_boot_time_seconds'', gauge), (''ctxt'', ''node_context_switches_total'', counter),
      (''intr'', ''node_intr_total'', counter), (''processes'', ''node_forks_total'', counter),
      (''procs_running'', ''node_procs_running_total'', gauge), (''procs_blocked'', ''node_procs_blocked_total'', gauge)]"

definition stat_line ::
  "floats \<Rightarrow> string \<Rightarrow> prom_op list \<times> (string \<times> nat) list \<Rightarrow> prom_op list \<times> (string \<times> nat) list" where
  "stat_line F l acc =
     (let fields = go_fields l
      in if length fields < 2 then acc
         else if prefix ''cpu'' (hd fields) \<and> hd fields \<noteq> ''cpu''
         then (fst acc @ cpu_ops F (hd fields) (zip cpu_modes (tl fields)), snd acc)
         else if hd fields \<in> fst ` set stat_scalars
         then (case parse_uint64 (fields ! 1) of
             None \<Rightarrow> acc | Some v \<Rightarrow> (fst acc, put (hd fields) v (snd acc)))
         else acc)"

definition stat_ops :: "floats \<Rightarrow> host \<Rightarrow> collected" where
  "stat_ops F H =
     (case hs_read H ''/proc/stat'' of
        None \<Rightarrow> ([], False)
      | Some b \<Rightarrow>
          (let (cpus, values) = fold (stat_line F) (scan_lines b) ([], [])
           in (cpus @ List.map_filter (\<lambda>(key, name, typ). map_option (uint_op name typ []) (map_of values key))
                 stat_scalars, True)))"

definition loadavg_ops :: "floats \<Rightarrow> host \<Rightarrow> collected" where
  "loadavg_ops F H =
     (case hs_loadavg H of
        None \<Rightarrow> ([], False)
      | Some (l1, l5, l15) \<Rightarrow>
          ([float_op F ''node_load1'' gauge [] l1, float_op F ''node_load5'' gauge [] l5,
            float_op F ''node_load15'' gauge [] l15], True))"

definition meminfo_name :: "string \<Rightarrow> string" where
  "meminfo_name key =
     concat (map (\<lambda>c. if c = CHR ''('' then ''_'' else if c = CHR '')'' then [] else [c]) key)"

definition meminfo_ops :: "host \<Rightarrow> collected" where
  "meminfo_ops H =
     (case hs_meminfo H of
        None \<Rightarrow> ([], False)
      | Some es \<Rightarrow>
          (map (\<lambda>(key, v). uint_op (''node_memory_'' @ meminfo_name key @ ''_bytes'') gauge [] v) es, True))"

text \<open>\<open>d.Counters[i]\<close>: a device has a counter for every field.\<close>

definition netdev_ops :: "host \<Rightarrow> collected" where
  "netdev_ops H =
     (case hs_netdev H of
        None \<Rightarrow> ([], False)
      | Some ds \<Rightarrow>
          (concat (map (\<lambda>(i, f). map (\<lambda>(dev, cs).
              uint_op (''node_network_'' @ f @ ''_total'') counter [(''device'', dev)] (cs ! i)) ds)
            (zip [0..<length (hs_netdev_fields H)] (hs_netdev_fields H))), True))"

record class_num =
  cn_file :: string
  cn_metric :: string
  cn_typ :: string
  cn_hex :: bool
  cn_scale :: rat

definition class_num_of :: "string \<Rightarrow> string \<Rightarrow> string \<Rightarrow> bool \<Rightarrow> rat \<Rightarrow> class_num" where
  "class_num_of f m t h s = \<lparr>cn_file = f, cn_metric = m, cn_typ = t, cn_hex = h, cn_scale = s\<rparr>"

definition class_nums :: "class_num list" where
  "class_nums =
     [class_num_of ''addr_assign_type'' ''node_network_address_assign_type'' gauge False 1,
      class_num_of ''carrier'' ''node_network_carrier'' gauge False 1,
      class_num_of ''carrier_changes'' ''node_network_carrier_changes_total'' counter False 1,
      class_num_of ''carrier_down_count'' ''node_network_carrier_down_changes_total'' counter False 1,
      class_num_of ''carrier_up_count'' ''node_network_carrier_up_changes_total'' counter False 1,
      class_num_of ''dev_id'' ''node_network_device_id'' gauge True 1,
      class_num_of ''dormant'' ''node_network_dormant'' gauge False 1,
      class_num_of ''flags'' ''node_network_flags'' gauge True 1,
      class_num_of ''ifindex'' ''node_network_iface_id'' gauge False 1,
      class_num_of ''iflink'' ''node_network_iface_link'' gauge False 1,
      class_num_of ''link_mode'' ''node_network_iface_link_mode'' gauge False 1,
      class_num_of ''mtu'' ''node_network_mtu_bytes'' gauge False 1,
      class_num_of ''name_assign_type'' ''node_network_name_assign_type'' gauge False 1,
      class_num_of ''netdev_group'' ''node_network_net_dev_group'' gauge False 1,
      class_num_of ''type'' ''node_network_protocol_type'' gauge False 1,
      class_num_of ''speed'' ''node_network_speed_bytes'' gauge False 125000,
      class_num_of ''tx_queue_len'' ''node_network_transmit_queue_length'' gauge False 1]"

definition class_value :: "class_num \<Rightarrow> string \<Rightarrow> int option" where
  "class_value n s =
     (if s = [] then None
      else if cn_hex n then parse_uint 16 64 (case cut_prefix ''0x'' s of None \<Rightarrow> s | Some r \<Rightarrow> r)
      else (case parse_int10 64 s of
          None \<Rightarrow> None
        | Some i \<Rightarrow> if cn_file n = ''speed'' \<and> i < 0 then None else Some i))"

definition class_op :: "floats \<Rightarrow> host \<Rightarrow> class_num \<Rightarrow> string \<Rightarrow> prom_op option" where
  "class_op F H n dev =
     (case hs_trim H (''/sys/class/net/'' @ dev @ ''/'' @ cn_file n) of
        None \<Rightarrow> None
      | Some s \<Rightarrow>
          map_option (\<lambda>v. float_op F (cn_metric n) (cn_typ n) [(''device'', dev)]
              (Finite (fl_round F (fl_round F (of_int v) * cn_scale n)))) (class_value n s))"

definition class_info :: "floats \<Rightarrow> host \<Rightarrow> string \<Rightarrow> prom_op" where
  "class_info F H dev =
     (let read = (\<lambda>f. case hs_trim H (''/sys/class/net/'' @ dev @ ''/'' @ f) of None \<Rightarrow> [] | Some s \<Rightarrow> s)
      in float_op F ''node_network_info'' gauge
           [(''device'', dev), (''address'', read ''address''), (''broadcast'', read ''broadcast''),
            (''duplex'', read ''duplex''), (''operstate'', read ''operstate''), (''ifalias'', read ''ifalias'')]
           (Finite 1))"

definition netclass_ops :: "floats \<Rightarrow> host \<Rightarrow> collected" where
  "netclass_ops F H =
     (case hs_dir H ''/sys/class/net'' of
        None \<Rightarrow> ([], False)
      | Some devs \<Rightarrow>
          (concat (map (\<lambda>n. List.map_filter (class_op F H n) devs) class_nums) @ map (class_info F H) devs, True))"

definition conntrack_ops :: "host \<Rightarrow> collected" where
  "conntrack_ops H =
     ((case fst (hs_conntrack H) of None \<Rightarrow> [] | Some v \<Rightarrow> [uint_op ''node_nf_conntrack_entries'' gauge [] v])
      @ (case snd (hs_conntrack H) of None \<Rightarrow> [] | Some v \<Rightarrow> [uint_op ''node_nf_conntrack_entries_limit'' gauge [] v]),
      True)"

text \<open>\<open>ParseUint\<close> with its error dropped: 0 for what is no number, the greatest value for one too large.\<close>

definition uint_or_limit :: "string \<Rightarrow> nat" where
  "uint_or_limit s =
     (case parse_uint64 s of
        Some v \<Rightarrow> v
      | None \<Rightarrow> if s \<noteq> [] \<and> list_all is_digit s then 2 ^ 64 - 1 else 0)"

definition filefd_ops :: "host \<Rightarrow> collected" where
  "filefd_ops H =
     (case hs_trim H ''/proc/sys/fs/file-nr'' of
        None \<Rightarrow> ([], False)
      | Some s \<Rightarrow>
          (let f = go_fields s
           in if length f < 3 then ([], False)
              else ([uint_op ''node_filefd_allocated'' gauge [] (uint_or_limit (f ! 0)),
                     uint_op ''node_filefd_maximum'' gauge [] (uint_or_limit (f ! 2))], True)))"

definition entropy_ops :: "host \<Rightarrow> collected" where
  "entropy_ops H =
     (let bits = (\<lambda>name s. case parse_uint64 s of None \<Rightarrow> [] | Some v \<Rightarrow> [uint_op name gauge [] v])
      in case hs_trim H ''/proc/sys/kernel/random/entropy_avail'' of
           None \<Rightarrow> ([], False)
         | Some avail \<Rightarrow>
             (bits ''node_entropy_available_bits'' avail
              @ (case hs_trim H ''/proc/sys/kernel/random/poolsize'' of
                   None \<Rightarrow> [] | Some pool \<Rightarrow> bits ''node_entropy_pool_size_bits'' pool), True))"

definition time_ops :: "int \<Rightarrow> collected" where
  "time_ops now = ([int_op ''node_time_seconds'' counter [] now], True)"

record utsname =
  un_domain :: string
  un_machine :: string
  un_node :: string
  un_release :: string
  un_sysname :: string
  un_version :: string

definition uname_ops :: "floats \<Rightarrow> utsname option \<Rightarrow> collected" where
  "uname_ops F u =
     (case u of
        None \<Rightarrow> ([], False)
      | Some n \<Rightarrow>
          ([float_op F ''node_uname_info'' gauge
             [(''domainname'', un_domain n), (''machine'', un_machine n), (''nodename'', un_node n),
              (''release'', un_release n), (''sysname'', un_sysname n), (''version'', un_version n)] (Finite 1)], True))"

definition openwrt_ops :: "floats \<Rightarrow> board_facts \<Rightarrow> collected" where
  "openwrt_ops F b =
     (if bd_distribution b = [] \<and> bd_release b = [] then ([], False)
      else ([float_op F ''node_openwrt_info'' gauge
             [(''board_name'', bd_board_name b), (''id'', bd_distribution b), (''model'', bd_model b),
              (''release'', bd_release b), (''revision'', bd_revision b), (''system'', bd_system b),
              (''target'', bd_target b)] (Finite 1)], True))"

section \<open>The Wi-Fi\<close>

record averages =
  av_rssi :: int
  av_rssi_n :: int
  av_rate :: int
  av_rate_n :: int

definition average_in :: "int \<Rightarrow> int \<Rightarrow> int \<Rightarrow> int" where
  "average_in avg n v = (avg * n + v) sdiv (n + 1)"

definition average_station :: "station_info \<Rightarrow> averages \<Rightarrow> averages" where
  "average_station st a =
     (let a1 = (case sn_signal st of
                  None \<Rightarrow> a
                | Some v \<Rightarrow> a\<lparr>av_rssi := average_in (av_rssi a) (av_rssi_n a) v, av_rssi_n := av_rssi_n a + 1\<rparr>)
      in if sn_has_tx_rate16 st
         then a1\<lparr>av_rate := average_in (av_rate a1) (av_rate_n a1) (uint (sn_tx_rate16 st)),
                 av_rate_n := av_rate_n a1 + 1\<rparr>
         else a1)"

definition iwinfo_averages :: "station_info list \<Rightarrow> int \<times> bool \<times> int" where
  "iwinfo_averages ss =
     (let a = fold average_station ss \<lparr>av_rssi = 0, av_rssi_n = 0, av_rate = 0, av_rate_n = 0\<rparr>
      in (av_rssi a, av_rssi_n a > 0, if av_rate_n a > 0 then av_rate a * 100 else 0))"

text \<open>The product of the constant 10/7 with a small integer truncates to the exact quotient.\<close>

definition iwinfo_quality :: "int \<Rightarrow> int" where
  "iwinfo_quality signal =
     (let q = (if signal < 0 then if signal < -110 then 0 else if signal > -40 then 70 else signal + 110
               else signal)
      in if q \<le> 0 then 0 else 10 * q div 7)"

definition wifi_labels :: "string \<Rightarrow> w_iface \<Rightarrow> label list" where
  "wifi_labels country i =
     (let cc = (if country = [] then wi_country i else country)
      in [(''mode'', iwinfo_mode (wi_type i)), (''ifname'', wi_ifname i), (''ssid'', wi_ssid i)]
       @ (if wi_channel i > 0 then [(''channel'', itoa_int (wi_channel i))] else [])
       @ [(''device'', wi_radio i), (''bssid'', wi_bssid i)]
       @ (if cc \<noteq> [] then [(''country'', cc)] else [])
       @ (if wi_freq i > 0 then [(''frequency'', itoa_int (wi_freq i))] else []))"

definition iface_ops :: "wireless_env \<Rightarrow> string \<Rightarrow> w_iface \<Rightarrow> prom_op list" where
  "iface_ops x country i =
     (let labels = wifi_labels country i;
          stations = (case stations_of x i of Inl _ \<Rightarrow> [] | Inr ss \<Rightarrow> ss);
          (signal, has_signal, bitrate) = iwinfo_averages stations
      in [int_op ''wifi_network_quality'' gauge labels (if has_signal then iwinfo_quality signal else 0),
          int_op ''wifi_network_noise_dbm'' gauge labels (noise_of x i),
          int_op ''wifi_network_bitrate'' gauge labels bitrate,
          int_op ''wifi_network_signal_dbm'' gauge labels (if has_signal then signal else -255)])"

definition wifi_ops :: "wireless_env \<Rightarrow> source \<Rightarrow> collected \<times> source" where
  "wifi_ops x s =
     (case take_inventory x s of
        (Inl e, s1) \<Rightarrow> (([], False), s1)
      | (Inr found, s1) \<Rightarrow>
          (let (country, s2) = reg_domain_of x s1
           in ((concat (map (iface_ops x country) (in_ifaces found)), True), s2)))"

definition station_families :: "prom_op list" where
  "station_families = map (\<lambda>(n, t). Declare n t)
     [(''wifi_stations'', gauge), (''wifi_station_signal_dbm'', gauge),
      (''wifi_station_inactive_milliseconds'', gauge),
      (''wifi_station_expected_throughput_kilobits_per_second'', gauge),
      (''wifi_station_transmit_kilobits_per_second'', gauge), (''wifi_station_receive_kilobits_per_second'', gauge),
      (''wifi_station_transmit_bytes_total'', counter), (''wifi_station_receive_bytes_total'', counter),
      (''wifi_station_transmit_packets_total'', counter), (''wifi_station_receive_packets_total'', counter)]"

definition upper_char :: "char \<Rightarrow> char" where
  "upper_char c = (if is_lower c then char_of (of_char c - 32 :: nat) else c)"

definition rate_ops :: "string \<Rightarrow> label list \<Rightarrow> 32 word option \<Rightarrow> prom_op list" where
  "rate_ops name labels r =
     (case rate_kbps r of None \<Rightarrow> [] | Some v \<Rightarrow> [uint_op name gauge labels (unat v)])"

definition station_ops :: "w_iface \<Rightarrow> station_info \<Rightarrow> prom_op list" where
  "station_ops i st =
     (let labels = [(''ifname'', wi_ifname i), (''mac'', map upper_char (mac_text (sn_mac st)))]
      in (case station_signal st of None \<Rightarrow> [] | Some v \<Rightarrow> [int_op ''wifi_station_signal_dbm'' gauge labels v])
       @ [uint_op ''wifi_station_inactive_milliseconds'' gauge labels (unat (sn_inactive st))]
       @ (case sn_throughput st of
            None \<Rightarrow> []
          | Some v \<Rightarrow> if v = 0 then []
              else [uint_op ''wifi_station_expected_throughput_kilobits_per_second'' gauge labels (unat v)])
       @ rate_ops ''wifi_station_transmit_kilobits_per_second'' labels (sn_tx_rate st)
       @ rate_ops ''wifi_station_receive_kilobits_per_second'' labels (sn_rx_rate st)
       @ (if sn_has_bytes st
          then [uint_op ''wifi_station_transmit_bytes_total'' counter labels (unat (sn_tx_bytes st)),
                uint_op ''wifi_station_receive_bytes_total'' counter labels (unat (sn_rx_bytes st))] else [])
       @ (if sn_has_packets st
          then [uint_op ''wifi_station_transmit_packets_total'' counter labels (unat (sn_tx_packets st)),
                uint_op ''wifi_station_receive_packets_total'' counter labels (unat (sn_rx_packets st))] else []))"

definition wifi_stations_ops :: "wireless_env \<Rightarrow> source \<Rightarrow> collected \<times> source" where
  "wifi_stations_ops x s =
     (case take_inventory x s of
        (Inl e, s1) \<Rightarrow> (([], False), s1)
      | (Inr found, s1) \<Rightarrow>
          ((station_families @ concat (map (\<lambda>i.
              (case stations_of x i of
                 Inl _ \<Rightarrow> []
               | Inr ss \<Rightarrow> concat (map (station_ops i) ss)
                   @ [int_op ''wifi_stations'' gauge [(''ifname'', wi_ifname i)] (int (length ss))]))
            (in_ifaces found)), True), s1))"

section \<open>The registry\<close>

text \<open>What a push reads: the host, the clocks, the device and the Wi-Fi, and the caches kept between pushes.\<close>

record push_env =
  pe_floats :: floats
  pe_host :: host
  pe_now :: int
  pe_uname :: "utsname option"
  pe_sys :: sys_env
  pe_wireless :: wireless_env
  pe_took :: "string \<Rightarrow> rat"

type_synonym push_state = "board_cache \<times> source"

text \<open>\<open>NewRegistry\<close> in \<open>main.go\<close>: the collectors and their order.\<close>

definition collectors :: "string list" where
  "collectors = [''openwrt'', ''uname'', ''time'', ''stat'', ''loadavg'', ''meminfo'', ''netdev'', ''netclass'',
     ''conntrack'', ''filefd'', ''entropy'', ''wifi'', ''wifi_stations'']"

definition collect_one :: "push_env \<Rightarrow> string \<Rightarrow> push_state \<Rightarrow> collected \<times> push_state" where
  "collect_one E name s =
     (let F = pe_floats E; H = pe_host E
      in if name = ''openwrt'' then (let (b, c) = board_of (pe_sys E) (fst s) in (openwrt_ops F b, (c, snd s)))
         else if name = ''uname'' then (uname_ops F (pe_uname E), s)
         else if name = ''time'' then (time_ops (pe_now E), s)
         else if name = ''stat'' then (stat_ops F H, s)
         else if name = ''loadavg'' then (loadavg_ops F H, s)
         else if name = ''meminfo'' then (meminfo_ops H, s)
         else if name = ''netdev'' then (netdev_ops H, s)
         else if name = ''netclass'' then (netclass_ops F H, s)
         else if name = ''conntrack'' then (conntrack_ops H, s)
         else if name = ''filefd'' then (filefd_ops H, s)
         else if name = ''entropy'' then (entropy_ops H, s)
         else if name = ''wifi'' then (let (r, w) = wifi_ops (pe_wireless E) (snd s) in (r, (fst s, w)))
         else (let (r, w) = wifi_stations_ops (pe_wireless E) (snd s) in (r, (fst s, w))))"

fun collect_all ::
  "push_env \<Rightarrow> string list \<Rightarrow> push_state \<Rightarrow> prom_op list \<times> (string \<times> bool) list \<times> push_state" where
  "collect_all E [] s = ([], [], s)"
| "collect_all E (n # ns) s =
     (let ((ops, ok), s1) = collect_one E n s; (rest, results, s2) = collect_all E ns s1
      in (ops @ rest, (n, ok) # results, s2))"

definition wanted :: "string list \<Rightarrow> string list" where
  "wanted names = filter (\<lambda>c. names = [] \<or> c \<in> set names) collectors"

definition gather_ops :: "push_env \<Rightarrow> string list \<Rightarrow> push_state \<Rightarrow> prom_op list" where
  "gather_ops E names s =
     (let (ops, results, _) = collect_all E (wanted names) s; F = pe_floats E
      in ops
       @ map (\<lambda>(n, _). float_op F ''node_scrape_collector_duration_seconds'' gauge [(''collector'', n)]
           (Finite (pe_took E n))) results
       @ map (\<lambda>(n, ok). float_op F ''node_scrape_collector_success'' gauge [(''collector'', n)]
           (Finite (if ok then 1 else 0))) results)"

definition gather :: "push_env \<Rightarrow> string list \<Rightarrow> push_state \<Rightarrow> string" where
  "gather E names s = render (fold prom_do (gather_ops E names s) new_builder)"

end
