(* ===== verification/CollectProps.thy ===== *)
theory CollectProps
  imports Collect
begin

text \<open>
  What a push holds: whatever the collectors find, the text can be read back, and the Wi-Fi averages stay
  within what the stations report.
\<close>

section \<open>Every push can be read\<close>

abbreviation text_ok :: "string \<Rightarrow> bool" where
  "text_ok s \<equiv> CHR 0x0A \<notin> set s"

abbreviation names_ok :: "label list \<Rightarrow> bool" where
  "names_ok ls \<equiv> list_all (\<lambda>l. metric_name (fst l)) ls"

abbreviation ops_ok :: "prom_op list \<Rightarrow> bool" where
  "ops_ok \<equiv> list_all prom_ok"

definition floats_ok :: "floats \<Rightarrow> bool" where
  "floats_ok F \<longleftrightarrow> (\<forall>q. text_ok (fl_short F q))"

definition host_ok :: "host \<Rightarrow> bool" where
  "host_ok H \<longleftrightarrow>
     list_all (\<lambda>(key, _). list_all (\<lambda>c. is_word_char c \<or> c = CHR ''('' \<or> c = CHR '')'') key)
       (case hs_meminfo H of None \<Rightarrow> [] | Some es \<Rightarrow> es)
   \<and> list_all (list_all is_word_char) (hs_netdev_fields H)"

lemma itoa_text: "text_ok (itoa n)"
  using itoa_digits[of "CHR 0x0A" n] by (auto simp: is_digit_def)

lemma itoa_int_text: "text_ok (itoa_int i)"
  by (simp add: itoa_int_def itoa_text)

lemma format_float_text: "floats_ok F \<Longrightarrow> text_ok (format_float (fl_short F) v)"
  by (cases v) (auto simp: format_float_def floats_ok_def itoa_int_text)

lemma uint_op_ok: "prom_ok (uint_op n t ls v) \<longleftrightarrow> metric_name n \<and> text_ok t \<and> names_ok ls"
  by (simp add: uint_op_def itoa_text)

lemma int_op_ok: "prom_ok (int_op n t ls v) \<longleftrightarrow> metric_name n \<and> text_ok t \<and> names_ok ls"
  by (simp add: int_op_def itoa_int_text)

lemma float_op_ok: "floats_ok F \<Longrightarrow> prom_ok (float_op F n t ls v) \<longleftrightarrow> metric_name n \<and> text_ok t \<and> names_ok ls"
  by (simp add: float_op_def format_float_text)

lemmas op_ok = uint_op_ok int_op_ok float_op_ok

lemma metric_names:
  "list_all metric_name
     [''node_cpu_seconds_total'', ''cpu'', ''mode'', ''node_load1'', ''node_load5'', ''node_load15'', ''device'',
      ''node_network_info'', ''address'', ''broadcast'', ''duplex'', ''operstate'', ''ifalias'',
      ''node_nf_conntrack_entries'', ''node_nf_conntrack_entries_limit'', ''node_filefd_allocated'',
      ''node_filefd_maximum'', ''node_entropy_available_bits'', ''node_entropy_pool_size_bits'',
      ''node_time_seconds'', ''node_uname_info'', ''domainname'', ''machine'', ''nodename'', ''release'', ''sysname'',
      ''version'', ''node_openwrt_info'', ''board_name'', ''id'', ''model'', ''revision'', ''system'', ''target'',
      ''ifname'', ''ssid'', ''channel'', ''bssid'', ''country'', ''frequency'', ''mac'', ''wifi_network_quality'',
      ''wifi_network_noise_dbm'', ''wifi_network_bitrate'', ''wifi_network_signal_dbm'', ''wifi_stations'',
      ''wifi_station_signal_dbm'', ''wifi_station_inactive_milliseconds'',
      ''wifi_station_expected_throughput_kilobits_per_second'', ''wifi_station_transmit_kilobits_per_second'',
      ''wifi_station_receive_kilobits_per_second'', ''wifi_station_transmit_bytes_total'',
      ''wifi_station_receive_bytes_total'', ''wifi_station_transmit_packets_total'',
      ''wifi_station_receive_packets_total'', ''node_scrape_collector_duration_seconds'', ''collector'',
      ''node_scrape_collector_success'']"
  by code_simp

lemmas known_names = metric_names[unfolded list.pred_inject]

lemma scalar_names: "list_all (\<lambda>(_, name, typ). metric_name name \<and> text_ok typ) stat_scalars"
  by code_simp

lemma class_names: "list_all (\<lambda>n. metric_name (cn_metric n) \<and> text_ok (cn_typ n)) class_nums"
  by code_simp

lemma station_families_ok: "ops_ok station_families"
  by code_simp

lemma cpu_ops_ok: "floats_ok F \<Longrightarrow> ops_ok (cpu_ops F key ps)"
  by (induction F key ps rule: cpu_ops.induct) (simp_all add: op_ok known_names split: option.split)

lemma stat_ops_ok: assumes F: "floats_ok F" shows "ops_ok (fst (stat_ops F H))"
proof -
  have "ops_ok (fst (fold (stat_line F) ls acc))" if "ops_ok (fst acc)" for ls acc
    using that
  proof (induction ls arbitrary: acc)
    case (Cons l ls)
    have "ops_ok (fst (stat_line F l acc))"
      using Cons.prems cpu_ops_ok[OF F] by (simp add: stat_line_def Let_def split: option.split)
    then show ?case using Cons.IH by simp
  qed simp
  then have cpus: "ops_ok (fst (fold (stat_line F) ls ([], [])))" for ls by simp
  have "ops_ok (List.map_filter (\<lambda>(key, name, typ). map_option (uint_op name typ []) (map_of vs key)) stat_scalars)"
    for vs :: "(string \<times> nat) list"
    using scalar_names by (auto simp: list_all_iff map_filter_def op_ok)
  with cpus show ?thesis
    by (simp add: stat_ops_def split_beta split: option.split)
qed

lemma meminfo_name_ok:
  assumes "list_all (\<lambda>c. is_word_char c \<or> c = CHR ''('' \<or> c = CHR '')'') key"
  shows "metric_name (''node_memory_'' @ meminfo_name key @ ''_bytes'')"
proof -
  have "list_all name_char (meminfo_name key)"
    using assms by (induction key) (auto simp: meminfo_name_def name_char_def is_word_char_def)
  moreover have "list_all name_char ''node_memory_''" "list_all name_char ''_bytes''" by code_simp+
  ultimately show ?thesis by (simp add: metric_name_def)
qed

lemma meminfo_ops_ok: assumes "host_ok H" shows "ops_ok (fst (meminfo_ops H))"
proof (cases "hs_meminfo H")
  case (Some es)
  have "prom_ok (uint_op (''node_memory_'' @ meminfo_name (fst p) @ ''_bytes'') gauge [] (snd p))" if "p \<in> set es" for p
    using assms Some that unfolding op_ok
    by (intro conjI meminfo_name_ok) (auto simp: host_ok_def list_all_iff split_beta)
  then show ?thesis by (simp add: meminfo_ops_def Some list_all_iff split_beta del: append.simps)
qed (simp add: meminfo_ops_def)

lemma netdev_ops_ok:
  assumes "host_ok H" shows "ops_ok (fst (netdev_ops H))"
proof -
  have "metric_name (''node_network_'' @ f @ ''_total'')" if "f \<in> set (hs_netdev_fields H)" for f
  proof -
    have "list_all name_char f" using that assms by (auto simp: host_ok_def list_all_iff name_char_def)
    moreover have "list_all name_char ''node_network_''" "list_all name_char ''_total''" by code_simp+
    ultimately show ?thesis by (simp add: metric_name_def)
  qed
  then show ?thesis
    using known_names by (auto simp: netdev_ops_def list_all_iff op_ok split: option.splits dest: set_zip_rightD)
qed

lemma netclass_ops_ok: "floats_ok F \<Longrightarrow> ops_ok (fst (netclass_ops F H))"
  using class_names
  by (auto simp: netclass_ops_def class_op_def class_info_def list_all_iff map_filter_def op_ok known_names Let_def
      split: option.splits)

lemma small_ops_ok:
  "ops_ok (fst (conntrack_ops H))" "ops_ok (fst (filefd_ops H))" "ops_ok (fst (entropy_ops H))"
  "ops_ok (fst (time_ops now))"
  by (auto simp: conntrack_ops_def filefd_ops_def entropy_ops_def time_ops_def op_ok known_names Let_def
      split: option.splits)

lemma info_ops_ok:
  assumes "floats_ok F"
  shows "ops_ok (fst (loadavg_ops F H))" "ops_ok (fst (uname_ops F u))" "ops_ok (fst (openwrt_ops F b))"
  using assms
  by (auto simp: loadavg_ops_def uname_ops_def openwrt_ops_def op_ok known_names split: option.splits)

lemma wifi_ops_ok: "ops_ok (fst (fst (wifi_ops x s)))"
proof -
  have "names_ok (wifi_labels c i)" for c i by (simp add: wifi_labels_def known_names Let_def)
  then have "ops_ok (iface_ops x c i)" for c i
    by (simp add: iface_ops_def op_ok known_names Let_def split: prod.split)
  then show ?thesis
    by (auto simp: wifi_ops_def list_all_iff split: prod.splits sum.splits)
qed

lemma station_ops_ok: "ops_ok (station_ops i st)"
  by (simp add: station_ops_def rate_ops_def op_ok known_names Let_def split: option.split)

lemma wifi_stations_ops_ok: "ops_ok (fst (fst (wifi_stations_ops x s)))"
  using station_families_ok station_ops_ok
  by (auto simp: wifi_stations_ops_def list_all_iff op_ok known_names split: prod.splits sum.splits)

lemma collect_one_ok:
  assumes "floats_ok (pe_floats E)" "host_ok (pe_host E)"
  shows "ops_ok (fst (fst (collect_one E n s)))"
proof -
  note parts = stat_ops_ok[OF assms(1)] meminfo_ops_ok[OF assms(2)] netdev_ops_ok[OF assms(2)]
    netclass_ops_ok[OF assms(1)] small_ops_ok info_ops_ok[OF assms(1)]
  show ?thesis
    using wifi_ops_ok[of "pe_wireless E" "snd s"] wifi_stations_ops_ok[of "pe_wireless E" "snd s"]
    by (simp add: collect_one_def Let_def parts split_beta)
qed

lemma collect_all_ok:
  assumes "floats_ok (pe_floats E)" "host_ok (pe_host E)"
  shows "ops_ok (fst (collect_all E ns s))"
proof (induction ns arbitrary: s)
  case (Cons n ns)
  obtain ops ok s1 where one: "collect_one E n s = ((ops, ok), s1)" by (metis prod.exhaust)
  obtain rest results s2 where all: "collect_all E ns s1 = (rest, results, s2)" by (metis prod.exhaust)
  show ?case using collect_one_ok[OF assms, of n s] Cons[of s1] by (simp add: one all)
qed simp

lemma gather_ops_ok:
  assumes "floats_ok (pe_floats E)" "host_ok (pe_host E)"
  shows "ops_ok (gather_ops E names s)"
  using collect_all_ok[OF assms, of "wanted names" s] assms(1)
  by (auto simp: gather_ops_def op_ok known_names list_all_iff Let_def split_beta)

text \<open>C33: A push can be read: whatever the files, the kernel and netifd hold (any bytes in an SSID, an alias or
  a model name), the text gathered reads back as each metric once, under the type of its first sample, with
  every sample a selected collector added, in order, its labels and its value.\<close>

theorem gather_readable:
  assumes "floats_ok (pe_floats E)" "host_ok (pe_host E)"
  shows "read_text (gather E names s) = map Some (expected_lines (gather_ops E names s))"
  unfolding gather_def by (rule exposition_roundtrip[OF gather_ops_ok[OF assms]])

text \<open>The same text from a device with a quote in its alias and a line feed in its release.\<close>

definition plain_floats :: floats where
  "plain_floats = \<lparr>fl_round = id, fl_short = (\<lambda>q. itoa_int (floor (q * 1000)) @ ''e-3'')\<rparr>"

definition sample_host :: host where
  "sample_host = \<lparr>hs_read = (\<lambda>_. None), hs_trim = (\<lambda>_. None), hs_dir = (\<lambda>_. None), hs_loadavg = None,
     hs_meminfo = Some [(''Active(anon)'', 4096)], hs_netdev_fields = [''receive_bytes''],
     hs_netdev = Some [([CHR 0x22, CHR 0x5C], [7])], hs_conntrack = (Some 3, None)\<rparr>"

definition sample_push :: push_env where
  "sample_push = \<lparr>pe_floats = plain_floats, pe_host = sample_host, pe_now = 1700000000,
     pe_uname = None,
     pe_sys = \<lparr>se_file = (\<lambda>_. None), se_exists = (\<lambda>_. False), se_ubus = None, se_uname = None, se_now = 0, se_ttl = 0\<rparr>,
     pe_wireless = \<lparr>we_nl = None, we_ubus = None, we_now = 0, we_status_ttl = 0, we_reg_ttl = 0, we_reg = None,
       we_stations = (\<lambda>_. None), we_survey = (\<lambda>_. None)\<rparr>,
     pe_took = (\<lambda>_. 1 / 8)\<rparr>"

definition sample_caches :: push_state where
  "sample_caches = (None, \<lparr>so_status = Inl UbusUnavailable, so_status_at = None, so_reg = [], so_reg_at = None\<rparr>)"

theorem gather_readable_witness:
  "read_text (gather sample_push [''meminfo'', ''netdev''] sample_caches)
     = map Some
        [TypeLine ''node_memory_Active_anon_bytes'' gauge, SampleLine ''node_memory_Active_anon_bytes'' [] ''4096'',
         TypeLine ''node_network_receive_bytes_total'' counter,
         SampleLine ''node_network_receive_bytes_total'' [(''device'', [CHR 0x22, CHR 0x5C])] ''7'',
         TypeLine ''node_scrape_collector_duration_seconds'' gauge,
         SampleLine ''node_scrape_collector_duration_seconds'' [(''collector'', ''meminfo'')] ''125e-3'',
         SampleLine ''node_scrape_collector_duration_seconds'' [(''collector'', ''netdev'')] ''125e-3'',
         TypeLine ''node_scrape_collector_success'' gauge,
         SampleLine ''node_scrape_collector_success'' [(''collector'', ''meminfo'')] ''1'',
         SampleLine ''node_scrape_collector_success'' [(''collector'', ''netdev'')] ''1'']"
proof -
  have f: "floats_ok (pe_floats sample_push)"
    using itoa_int_text by (simp add: floats_ok_def sample_push_def plain_floats_def)
  have "list_all (\<lambda>c. is_word_char c \<or> c = CHR ''('' \<or> c = CHR '')'') ''Active(anon)''"
    "list_all is_word_char ''receive_bytes''" by code_simp+
  then have h: "host_ok (pe_host sample_push)" by (simp add: host_ok_def sample_push_def sample_host_def)
  have "expected_lines (gather_ops sample_push [''meminfo'', ''netdev''] sample_caches) = 
        [TypeLine ''node_memory_Active_anon_bytes'' gauge, SampleLine ''node_memory_Active_anon_bytes'' [] ''4096'',
         TypeLine ''node_network_receive_bytes_total'' counter,
         SampleLine ''node_network_receive_bytes_total'' [(''device'', [CHR 0x22, CHR 0x5C])] ''7'',
         TypeLine ''node_scrape_collector_duration_seconds'' gauge,
         SampleLine ''node_scrape_collector_duration_seconds'' [(''collector'', ''meminfo'')] ''125e-3'',
         SampleLine ''node_scrape_collector_duration_seconds'' [(''collector'', ''netdev'')] ''125e-3'',
         TypeLine ''node_scrape_collector_success'' gauge,
         SampleLine ''node_scrape_collector_success'' [(''collector'', ''meminfo'')] ''1'',
         SampleLine ''node_scrape_collector_success'' [(''collector'', ''netdev'')] ''1'']"
    by code_simp
  then show ?thesis using gather_readable[OF f h, of "[''meminfo'', ''netdev'']" sample_caches] by (simp only:)
qed

section \<open>The Wi-Fi averages\<close>

lemma sdiv_within:
  assumes d: "0 < d" and lo: "lo * d \<le> x" and hi: "x \<le> hi * (d::int)"
  shows "lo \<le> x sdiv d \<and> x sdiv d \<le> hi"
proof (cases "0 \<le> x")
  case True
  then have e: "x sdiv d = x div d" using d by (cases "x = 0") (simp_all add: signed_divide_int_def)
  have "lo * d div d \<le> x div d" "x div d \<le> hi * d div d" using zdiv_mono1 lo hi d by blast+
  then show ?thesis using d by (simp add: e)
next
  case False
  then have e: "x sdiv d = - ((- x) div d)" using d by (simp add: signed_divide_int_def)
  have "(- hi) * d div d \<le> (- x) div d" "(- x) div d \<le> (- lo) * d div d"
    by (rule zdiv_mono1[OF _ d], use lo hi in simp)+
  then show ?thesis using d by (simp only: e nonzero_mult_div_cancel_right) linarith
qed

text \<open>The average of values as they come.\<close>

definition running :: "int \<Rightarrow> int \<times> int \<Rightarrow> int \<times> int" where
  "running v p = (average_in (fst p) (snd p) v, snd p + 1)"

lemma running_within:
  assumes "\<forall>v \<in> set vs. lo \<le> v \<and> v \<le> hi" "0 \<le> n" "0 < n \<Longrightarrow> lo \<le> a \<and> a \<le> hi"
  shows "snd (fold running vs (a, n)) = n + int (length vs)
    \<and> (0 < n + int (length vs) \<longrightarrow> lo \<le> fst (fold running vs (a, n)) \<and> fst (fold running vs (a, n)) \<le> hi)"
  using assms
proof (induction vs arbitrary: a n)
  case (Cons v vs)
  have v: "lo \<le> v" "v \<le> hi" using Cons.prems by auto
  have "lo * (n + 1) \<le> a * n + v" "a * n + v \<le> hi * (n + 1)"
  proof -
    have "lo * n \<le> a * n \<and> a * n \<le> hi * n"
      using Cons.prems(2,3) by (cases "n = 0") (simp_all add: mult_right_mono)
    then show "lo * (n + 1) \<le> a * n + v" "a * n + v \<le> hi * (n + 1)" using v by (simp_all add: distrib_left)
  qed
  with sdiv_within[of "n + 1" lo "a * n + v" hi] Cons.prems(2)
  have "lo \<le> average_in a n v \<and> average_in a n v \<le> hi" by (simp add: average_in_def)
  with Cons.IH[of "n + 1" "average_in a n v"] Cons.prems show ?case by (simp add: running_def add.assoc)
qed simp

definition signals :: "station_info list \<Rightarrow> int list" where
  "signals = List.map_filter sn_signal"

definition rates16 :: "station_info list \<Rightarrow> int list" where
  "rates16 ss = map (\<lambda>st. uint (sn_tx_rate16 st)) (filter sn_has_tx_rate16 ss)"

lemma average_stations:
  "(av_rssi (fold average_station ss a), av_rssi_n (fold average_station ss a))
     = fold running (signals ss) (av_rssi a, av_rssi_n a)"
  "(av_rate (fold average_station ss a), av_rate_n (fold average_station ss a))
     = fold running (rates16 ss) (av_rate a, av_rate_n a)"
  by (induction ss arbitrary: a)
    (simp_all add: signals_def rates16_def map_filter_simps average_station_def running_def Let_def split: option.split)

text \<open>The interface's signal is the average iwinfo would give: there is one exactly when a station reports a
  signal, it lies between the weakest and the strongest of them, the bit rate between the slowest and the
  fastest; and the quality of a signal in dBm is a percentage.\<close>

theorem averages_within:
  assumes "iwinfo_averages ss = (signal, has_signal, bitrate)"
  shows "(has_signal \<longleftrightarrow> signals ss \<noteq> [])
    \<and> (has_signal \<longrightarrow> Min (set (signals ss)) \<le> signal \<and> signal \<le> Max (set (signals ss)))
    \<and> (if rates16 ss = [] then bitrate = 0
       else 100 * Min (set (rates16 ss)) \<le> bitrate \<and> bitrate \<le> 100 * Max (set (rates16 ss)))
    \<and> 0 \<le> iwinfo_quality signal \<and> (signal < 0 \<longrightarrow> iwinfo_quality signal \<le> 100)"
proof -
  let ?z = "\<lparr>av_rssi = 0, av_rssi_n = 0, av_rate = 0, av_rate_n = 0\<rparr>"
  let ?a = "fold average_station ss ?z"
  have r: "signal = av_rssi ?a" "has_signal = (av_rssi_n ?a > 0)"
    "bitrate = (if av_rate_n ?a > 0 then av_rate ?a * 100 else 0)"
    using assms by (simp_all add: iwinfo_averages_def Let_def)
  have w: "snd (fold running vs (0, 0)) = int (length vs)
      \<and> (vs \<noteq> [] \<longrightarrow> Min (set vs) \<le> fst (fold running vs (0, 0)) \<and> fst (fold running vs (0, 0)) \<le> Max (set vs))" for vs
    using running_within[of vs "Min (set vs)" "Max (set vs)" 0 0] by simp
  have p: "av_rssi ?a = fst (fold running (signals ss) (0, 0))" "av_rssi_n ?a = snd (fold running (signals ss) (0, 0))"
    "av_rate ?a = fst (fold running (rates16 ss) (0, 0))" "av_rate_n ?a = snd (fold running (rates16 ss) (0, 0))"
    using average_stations[of ss ?z] by (auto simp: prod_eq_iff)
  have "0 \<le> iwinfo_quality signal \<and> (signal < 0 \<longrightarrow> iwinfo_quality signal \<le> 100)"
    by (auto simp: iwinfo_quality_def Let_def)
  then show ?thesis unfolding r p using w[of "signals ss"] w[of "rates16 ss"] by (auto simp: mult.commute)
qed

theorem averages_within_witness:
  "\<exists>signal. iwinfo_averages [empty_station\<lparr>sn_signal := Some (-70)\<rparr>, empty_station\<lparr>sn_signal := Some (-51)\<rparr>]
      = (signal, True, 0) \<and> signal = -60 \<and> iwinfo_quality signal = 71 \<and> -70 \<le> signal"
proof -
  let ?ss = "[empty_station\<lparr>sn_signal := Some (-70)\<rparr>, empty_station\<lparr>sn_signal := Some (-51)\<rparr>]"
  have e: "iwinfo_averages ?ss = (-60, True, 0)" "iwinfo_quality (-60) = 71" by code_simp+
  have "Min (set (signals ?ss)) \<le> -60" using averages_within[OF e(1)] by blast
  then have "-70 \<le> (-60 :: int)" by (simp add: signals_def map_filter_simps)
  with e show ?thesis by simp
qed

end
