(* ===== verification/Handlers.thy ===== *)
theory Handlers
  imports GroupsEngine Leds Sysinfo
begin

text \<open>
  What the controller can ask of the device, \<open>internal/handlers/handlers.go\<close>: the fixed list of methods, each
  over the engine, the locator, the Wi-Fi picture and the board. Parameters come decoded (\<open>None\<close>: they do
  not decode; an absent field is \<open>None\<close>); an error is its code with the \<open>error\<close> and \<open>reason\<close> of its data,
  its message is not modelled. The methods of the Wi-Fi plane and of the updater are theirs. The clock
  and deadlines are in nanoseconds.
\<close>

section \<open>Errors\<close>

datatype rpc_code = InvalidParams | Unsupported | NotFound | CommandFailed

datatype rpc_error = RpcError rpc_code string string | PlainError

definition rpc_error :: "rpc_code \<Rightarrow> rpc_error" where
  "rpc_error c = RpcError c [] []"

text \<open>\<open>groupsError\<close>: a refusal of the engine; any other error stays as it is.\<close>

definition groups_error :: "plan_error \<Rightarrow> rpc_error" where
  "groups_error e =
     (case e of
        Refused r \<Rightarrow>
          RpcError (if r_code r = ''bad_params'' then InvalidParams else CommandFailed) (r_code r) (r_reason r)
      | NilDereference \<Rightarrow> PlainError)"

section \<open>The device as the handlers see it\<close>

datatype call_result = CallOk | CallNotFound | CallFailed

record hostapd_call =
  hc_object :: string
  hc_addr :: string
  hc_reason :: int
  hc_deauth :: bool
  hc_ban :: int

text \<open>ubus, if there is one: whether it is available, what it lists, and what a \<open>del_client\<close> answers.\<close>

record ubus_env =
  ub_available :: bool
  ub_hostapd :: "string list option"
  ub_call :: "hostapd_call \<Rightarrow> call_result"

record 's deps =
  dp_version :: string
  dp_arch :: string
  dp_wireless :: "wireless_env option"
  dp_ubus :: "ubus_env option"
  dp_sysfs :: "'s sysfs"
  dp_saves :: bool
  dp_sys :: sys_env
  dp_float :: "string \<Rightarrow> rat option"
  dp_macs :: "net_iface list option"
  dp_ports :: "nat option"
  dp_now :: int
  dp_site :: site
  dp_groups_env :: env
  dp_refusal :: string
  dp_wifi :: "string list option"
  dp_update :: "(string \<times> string list) option"
  dp_test_reboot :: bool

record 's device =
  dv_engine :: "gsys option"
  dv_source :: source
  dv_board :: board_cache
  dv_locator :: "'s locator option"
  dv_calls :: "hostapd_call list"
  dv_reboots :: "int list"

section \<open>The groups\<close>

definition groups_enabled :: "'s deps \<Rightarrow> 's device \<Rightarrow> rpc_error + gsys" where
  "groups_enabled D s =
     (case dv_engine s of
        None \<Rightarrow> Inl (rpc_error Unsupported)
      | Some g \<Rightarrow> if dp_refusal D \<noteq> [] then Inl (RpcError Unsupported ''insecure_transport'' []) else Inr g)"

definition groups_apply :: "'s deps \<Rightarrow> desired option \<Rightarrow> 's device \<Rightarrow> (rpc_error + apply_result) \<times> 's device" where
  "groups_apply D p s =
     (case groups_enabled D s of
        Inl e \<Rightarrow> (Inl e, s)
      | Inr g \<Rightarrow>
          (case p of
             None \<Rightarrow> (Inl (rpc_error InvalidParams), s)
           | Some d \<Rightarrow>
               (case apply_desired (dp_site D) (dp_groups_env D) d g of
                  (Inl e, g1) \<Rightarrow> (Inl (groups_error e), s\<lparr>dv_engine := Some g1\<rparr>)
                | (Inr r, g1) \<Rightarrow> (Inr r, s\<lparr>dv_engine := Some g1\<rparr>))))"

definition groups_confirm :: "'s deps \<Rightarrow> int option \<Rightarrow> 's device \<Rightarrow> (rpc_error + int) \<times> 's device" where
  "groups_confirm D p s =
     (case groups_enabled D s of
        Inl e \<Rightarrow> (Inl e, s)
      | Inr g \<Rightarrow>
          (case p of
             None \<Rightarrow> (Inl (rpc_error InvalidParams), s)
           | Some rv \<Rightarrow>
               (case confirm (dp_site D) (dp_groups_env D) rv g of
                  (Some e, g1) \<Rightarrow> (Inl (groups_error e), s\<lparr>dv_engine := Some g1\<rparr>)
                | (None, g1) \<Rightarrow> (Inr rv, s\<lparr>dv_engine := Some g1\<rparr>))))"

definition groups_state :: "'s deps \<Rightarrow> 's device \<Rightarrow> rpc_error + state_view" where
  "groups_state D s =
     (case dv_engine s of
        None \<Rightarrow> Inl (rpc_error Unsupported)
      | Some g \<Rightarrow> Inr (state_of (dp_site D) (dp_groups_env D) g))"

section \<open>What the device can do\<close>

text \<open>The inventory, if the kernel's Wi-Fi is there and answers.\<close>

definition inventory_of :: "'s deps \<Rightarrow> 's device \<Rightarrow> inventory option \<times> 's device" where
  "inventory_of D s =
     (case dp_wireless D of
        None \<Rightarrow> (None, s)
      | Some x \<Rightarrow>
          (case take_inventory x (dv_source s) of
             (Inl _, s1) \<Rightarrow> (None, s\<lparr>dv_source := s1\<rparr>)
           | (Inr found, s1) \<Rightarrow> (Some found, s\<lparr>dv_source := s1\<rparr>)))"

definition has_nl :: "'s deps \<Rightarrow> bool" where
  "has_nl D = (case dp_wireless D of None \<Rightarrow> False | Some x \<Rightarrow> we_nl x \<noteq> None)"

definition capabilities :: "'s deps \<Rightarrow> 's device \<Rightarrow> string list \<times> 's device" where
  "capabilities D s =
     (let (has_wifi, s1) =
        (if has_nl D
         then (let (found, s1) = inventory_of D s
               in (case found of None \<Rightarrow> False | Some i \<Rightarrow> in_ifaces i \<noteq> [], s1))
         else (False, s));
          kick = (case dp_ubus D of
             None \<Rightarrow> False
           | Some u \<Rightarrow> ub_available u \<and> (case ub_hostapd u of None \<Rightarrow> False | Some ns \<Rightarrow> ns \<noteq> []))
      in ([''metrics'']
        @ (if has_wifi then ''clients'' # (if kick then [''kick''] else []) else [])
        @ (case dv_locator s1 of
             None \<Rightarrow> [] | Some l \<Rightarrow> if count_leds (dp_sysfs D) l > 0 then [''locate''] else [])
        @ (if is_openwrt (dp_sys D) then [''reboot''] else [])
        @ (case dp_ports D of None \<Rightarrow> [] | Some n \<Rightarrow> if n > 0 then [''ports''] else [])
        @ (if dv_engine s1 \<noteq> None \<and> dp_refusal D = [] then [''wifi_groups''] else [])
        @ (if dp_wifi D \<noteq> None then [''wifi_config''] else [])
        @ (case dp_update D of None \<Rightarrow> [] | Some (c, _) \<Rightarrow> if c \<noteq> [] then [c] else []), s1))"

text \<open>Of the plane's and the updater's blocks (\<open>Hello\<close>, \<open>Status\<close>), whether they are there.\<close>

record system_info =
  sf_version :: string
  sf_protocol :: int
  sf_board :: board_facts
  sf_arch :: string
  sf_uptime :: int
  sf_macs :: "string list"
  sf_capabilities :: "string list"
  sf_radios :: "w_radio list"
  sf_ifaces :: "(w_iface \<times> nat) list"
  sf_wifi_config :: bool
  sf_update :: bool

definition protocol_version :: int where "protocol_version = 1"

definition system_info_of :: "'s deps \<Rightarrow> 's device \<Rightarrow> system_info \<times> 's device" where
  "system_info_of D s =
     (let (b, c) = board_of (dp_sys D) (dv_board s);
          (found, s1) = inventory_of D (s\<lparr>dv_board := c\<rparr>);
          (caps, s2) = capabilities D s1;
          stations = (\<lambda>i. case dp_wireless D of
             None \<Rightarrow> 0 | Some x \<Rightarrow> (case stations_of x i of Inl _ \<Rightarrow> 0 | Inr ss \<Rightarrow> length ss))
      in (\<lparr>sf_version = dp_version D, sf_protocol = protocol_version, sf_board = b, sf_arch = dp_arch D,
           sf_uptime = (case uptime (dp_float D) (dp_sys D) of None \<Rightarrow> 0 | Some q \<Rightarrow> if 0 \<le> q then floor q else ceiling q),
           sf_macs = macs_of (dp_macs D), sf_capabilities = caps,
           sf_radios = (case found of None \<Rightarrow> [] | Some i \<Rightarrow> in_radios i),
           sf_ifaces = (case found of None \<Rightarrow> [] | Some i \<Rightarrow> map (\<lambda>i. (i, stations i)) (in_ifaces i)),
           sf_wifi_config = (dp_wifi D \<noteq> None), sf_update = (dp_update D \<noteq> None)\<rparr>, s2))"

section \<open>The clients\<close>

definition clients_list :: "'s deps \<Rightarrow> string option \<Rightarrow> 's device \<Rightarrow> (rpc_error + client list) \<times> 's device" where
  "clients_list D p s =
     (case p of
        None \<Rightarrow> (Inl (rpc_error InvalidParams), s)
      | Some only \<Rightarrow>
          (case dp_wireless D of
             None \<Rightarrow> (Inl (rpc_error Unsupported), s)
           | Some x \<Rightarrow>
               if we_nl x = None then (Inl (rpc_error Unsupported), s)
               else (case list_clients x only (dv_source s) of
                   (Inl e, s1) \<Rightarrow> (Inl PlainError, s\<lparr>dv_source := s1\<rparr>)
                 | (Inr cs, s1) \<Rightarrow> (Inr cs, s\<lparr>dv_source := s1\<rparr>))))"

definition hex_digit :: "char \<Rightarrow> bool" where
  "hex_digit c \<longleftrightarrow> is_digit c \<or> CHR ''a'' \<le> c \<and> c \<le> CHR ''f'' \<or> CHR ''A'' \<le> c \<and> c \<le> CHR ''F''"

definition valid_mac :: "string \<Rightarrow> bool" where
  "valid_mac s \<longleftrightarrow> length s = 17
     \<and> list_all (\<lambda>i. if i mod 3 = 2 then s ! i = CHR '':'' \<or> s ! i = CHR ''-'' else hex_digit (s ! i)) [0..<17]"

record kick_params =
  kp_mac :: string
  kp_ifname :: string
  kp_ban :: "int option"
  kp_reason :: "int option"
  kp_deauth :: "bool option"

record kick_result =
  kr_mac :: string
  kr_ifname :: string
  kr_ban :: int

text \<open>The address parsed; the error of \<open>ParseMAC\<close> is dropped.\<close>

definition kick_mac :: "string \<Rightarrow> octets" where
  "kick_mac m =
     (case parse_mac (map (\<lambda>c. if c = CHR ''-'' then CHR '':'' else c) m) of
        None \<Rightarrow> [] | Some bs \<Rightarrow> map word_of_int bs)"

definition or_default :: "'a \<Rightarrow> 'a option \<Rightarrow> 'a" where
  "or_default d v = (case v of None \<Rightarrow> d | Some x \<Rightarrow> x)"

definition call_of :: "kick_params \<Rightarrow> w_iface \<Rightarrow> hostapd_call" where
  "call_of p i =
     \<lparr>hc_object = ''hostapd.'' @ wi_ifname i, hc_addr = to_lower (mac_text (Some (kick_mac (kp_mac p)))),
      hc_reason = or_default 5 (kp_reason p), hc_deauth = or_default True (kp_deauth p),
      hc_ban = or_default 0 (kp_ban p)\<rparr>"

definition call_hostapd ::
  "ubus_env \<Rightarrow> hostapd_call \<Rightarrow> w_iface \<Rightarrow> 's device \<Rightarrow> (rpc_error + kick_result) \<times> 's device" where
  "call_hostapd u c i s =
     (case ub_call u c of
        CallOk \<Rightarrow> Inr \<lparr>kr_mac = hc_addr c, kr_ifname = wi_ifname i, kr_ban = hc_ban c\<rparr>
      | CallNotFound \<Rightarrow> Inl (rpc_error Unsupported)
      | CallFailed \<Rightarrow> Inl (rpc_error CommandFailed), s\<lparr>dv_calls := dv_calls s @ [c]\<rparr>)"

definition client_kick :: "'s deps \<Rightarrow> kick_params option \<Rightarrow> 's device \<Rightarrow> (rpc_error + kick_result) \<times> 's device" where
  "client_kick D p s =
     (case p of
        None \<Rightarrow> (Inl (rpc_error InvalidParams), s)
      | Some p \<Rightarrow>
          (let mac = kick_mac (kp_mac p); ban = or_default 0 (kp_ban p); reason = or_default 5 (kp_reason p)
           in if \<not> valid_mac (kp_mac p) then (Inl (rpc_error InvalidParams), s)
              else if ban < 0 \<or> ban > 3600000 then (Inl (rpc_error InvalidParams), s)
              else if reason < 1 \<or> reason > 65535 then (Inl (rpc_error InvalidParams), s)
              else
                (case (dp_wireless D, dp_ubus D) of
                   (Some x, Some u) \<Rightarrow>
                     if we_nl x = None \<or> \<not> ub_available u then (Inl (rpc_error Unsupported), s)
                     else
                       (case find_client x mac (kp_ifname p) (dv_source s) of
                          (Inl e, s1) \<Rightarrow> (Inl PlainError, s\<lparr>dv_source := s1\<rparr>)
                        | (Inr None, s1) \<Rightarrow> (Inl (rpc_error NotFound), s\<lparr>dv_source := s1\<rparr>)
                        | (Inr (Some i), s1) \<Rightarrow> call_hostapd u (call_of p i) i (s\<lparr>dv_source := s1\<rparr>))
                 | _ \<Rightarrow> (Inl (rpc_error Unsupported), s))))"

section \<open>The LEDs and the reboot\<close>

definition locate_start :: "'s deps \<Rightarrow> int option option \<Rightarrow> 's device \<Rightarrow> (rpc_error + int \<times> nat \<times> int) \<times> 's device" where
  "locate_start D p s =
     (case p of
        None \<Rightarrow> (Inl (rpc_error InvalidParams), s)
      | Some d \<Rightarrow>
          (let secs = or_default 30 d
           in if secs < 1 \<or> secs > 600 then (Inl (rpc_error InvalidParams), s)
              else (case dv_locator s of
                  None \<Rightarrow> (Inl (rpc_error Unsupported), s)
                | Some l \<Rightarrow>
                    (case locate (dp_sysfs D) (dp_saves D) (secs * 1000000000) (dp_now D) l of
                       (Inl e, l1) \<Rightarrow>
                         (Inl (rpc_error (if e = NoLEDs then Unsupported else CommandFailed)), s\<lparr>dv_locator := Some l1\<rparr>)
                     | (Inr (n, ends), l1) \<Rightarrow> (Inr (secs, n, ends), s\<lparr>dv_locator := Some l1\<rparr>)))))"

definition locate_stop :: "'s deps \<Rightarrow> 's device \<Rightarrow> 's device" where
  "locate_stop D s =
     (case dv_locator s of None \<Rightarrow> s | Some l \<Rightarrow> s\<lparr>dv_locator := Some (snd (stop (dp_sysfs D) l))\<rparr>)"

text \<open>A reboot scheduled: the delay it is put off by.\<close>

definition system_reboot :: "'s deps \<Rightarrow> int option option \<Rightarrow> 's device \<Rightarrow> (rpc_error + int) \<times> 's device" where
  "system_reboot D p s =
     (case p of
        None \<Rightarrow> (Inl (rpc_error InvalidParams), s)
      | Some d \<Rightarrow>
          (let delay = or_default 2 d
           in if delay < 0 \<or> delay > 60 then (Inl (rpc_error InvalidParams), s)
              else if \<not> is_openwrt (dp_sys D) \<and> \<not> dp_test_reboot D then (Inl (rpc_error Unsupported), s)
              else (Inr delay, s\<lparr>dv_reboots := dv_reboots s @ [delay * 1000000000 + 200000000]\<rparr>)))"

section \<open>The methods\<close>

definition methods_of :: "'s deps \<Rightarrow> string list" where
  "methods_of D =
     [''system.info'', ''clients.list'', ''client.kick'', ''locate.start'', ''locate.stop'', ''system.reboot'', ''ping'',
      ''groups.apply'', ''groups.confirm'', ''groups.state'']
     @ (case dp_wifi D of None \<Rightarrow> [] | Some ms \<Rightarrow> ms)
     @ (case dp_update D of None \<Rightarrow> [] | Some (_, ms) \<Rightarrow> ms)"

text \<open>The requests this package serves itself, and the device after each.\<close>

datatype request =
    SystemInfo
  | ClientsList "string option"
  | ClientKick "kick_params option"
  | LocateStart "int option option"
  | LocateStop
  | SystemReboot "int option option"
  | Ping
  | GroupsApply "desired option"
  | GroupsConfirm "int option"
  | GroupsState

fun served_after :: "'s deps \<Rightarrow> request \<Rightarrow> 's device \<Rightarrow> 's device" where
  "served_after D SystemInfo s = snd (system_info_of D s)"
| "served_after D (ClientsList p) s = snd (clients_list D p s)"
| "served_after D (ClientKick p) s = snd (client_kick D p s)"
| "served_after D (LocateStart p) s = snd (locate_start D p s)"
| "served_after D LocateStop s = locate_stop D s"
| "served_after D (SystemReboot p) s = snd (system_reboot D p s)"
| "served_after D Ping s = s"
| "served_after D (GroupsApply p) s = snd (groups_apply D p s)"
| "served_after D (GroupsConfirm p) s = snd (groups_confirm D p s)"
| "served_after D GroupsState s = s"

fun request_method :: "request \<Rightarrow> string" where
  "request_method SystemInfo = ''system.info''"
| "request_method (ClientsList _) = ''clients.list''"
| "request_method (ClientKick _) = ''client.kick''"
| "request_method (LocateStart _) = ''locate.start''"
| "request_method LocateStop = ''locate.stop''"
| "request_method (SystemReboot _) = ''system.reboot''"
| "request_method Ping = ''ping''"
| "request_method (GroupsApply _) = ''groups.apply''"
| "request_method (GroupsConfirm _) = ''groups.confirm''"
| "request_method GroupsState = ''groups.state''"

end
