(* ===== verification/HandlersProps.thy ===== *)
theory HandlersProps
  imports Handlers
begin

text \<open>
  What the controller's requests can do: a kick reaches hostapd only for a client that is there, by its
  address, within the bounds; and every method changes only the part of the device that is its own.
\<close>

section \<open>The address of a kick\<close>

definition colons :: "string \<Rightarrow> string" where
  "colons m = map (\<lambda>c. if c = CHR ''-'' then CHR '':'' else c) m"

definition hex_char :: "nat \<Rightarrow> char" where
  "hex_char n = ''0123456789abcdef'' ! n"

lemma hex_octet_chars: "hex_octet b = [hex_char (unat b div 16), hex_char (unat b mod 16)]"
  by (simp only: hex_octet_def hex_char_def)

definition hex_digits :: string where
  "hex_digits = ''0123456789abcdefABCDEF''"

lemma hex_digit_in: "hex_digit c \<Longrightarrow> c \<in> set hex_digits"
proof -
  assume h: "hex_digit c"
  have codes: "map of_char hex_digits = [48..<58] @ [97..<103] @ [65..<71::nat]" by code_simp
  have "48 \<le> (of_char c :: nat) \<and> of_char c < (58 :: nat) \<or> 97 \<le> (of_char c :: nat) \<and> of_char c < (103 :: nat)
      \<or> 65 \<le> (of_char c :: nat) \<and> of_char c < (71 :: nat)"
    using h by (auto simp: hex_digit_def is_digit_iff less_eq_char_def)
  then have "of_char c \<in> set (map of_char hex_digits :: nat list)"
    unfolding codes set_append set_upt Un_iff atLeastLessThan_iff by blast
  then show ?thesis by auto
qed

definition hex_digit_fine :: "char \<Rightarrow> bool" where
  "hex_digit_fine c \<longleftrightarrow>
     (case hex_val c of None \<Rightarrow> False
      | Some d \<Rightarrow> 0 \<le> d \<and> d < 16 \<and> hex_char (nat d) = lower_char c
          \<and> c \<noteq> CHR '':'' \<and> c \<noteq> CHR ''-'' \<and> lower_char (lower_char c) = lower_char c)"

lemma hex_digits_fine: "list_all hex_digit_fine hex_digits"
  by code_simp

lemma hex_digit_val:
  assumes "hex_digit c"
  obtains d where "hex_val c = Some d" "0 \<le> d" "d < 16" "hex_char (nat d) = lower_char c"
    "c \<noteq> CHR '':''" "c \<noteq> CHR ''-''" "lower_char (lower_char c) = lower_char c"
proof -
  have f: "hex_digit_fine c" using hex_digits_fine hex_digit_in[OF assms] unfolding list_all_iff by blast
  obtain d where d: "hex_val c = Some d" using f by (cases "hex_val c") (simp_all add: hex_digit_fine_def)
  show thesis using f that[OF d] unfolding hex_digit_fine_def d by simp
qed

lemma hex_byte_octet:
  assumes "hex_digit a" "hex_digit b"
  obtains v where "hex_byte [a, b] = Some v" "hex_octet (word_of_int v) = [lower_char a, lower_char b]"
proof -
  obtain x where x: "hex_val a = Some x" "0 \<le> x" "x < 16" "hex_char (nat x) = lower_char a"
    by (rule hex_digit_val[OF assms(1)])
  obtain y where y: "hex_val b = Some y" "0 \<le> y" "y < 16" "hex_char (nat y) = lower_char b"
    by (rule hex_digit_val[OF assms(2)])
  have v: "hex_byte [a, b] = Some (16 * x + y)" using x(1,3) y(1,3) by (simp add: hex_byte_def)
  have r: "0 \<le> 16 * x + y" "16 * x + y < 256" using x(2,3) y(2,3) by linarith+
  then have u: "unat (word_of_int (16 * x + y) :: 8 word) = nat (16 * x + y)"
    by (simp only: unat_eq_nat_uint uint_word_of_int) (simp add: mod_pos_pos_trivial)
  have q: "nat (16 * x + y) = 16 * nat x + nat y" "nat y < 16" using nat_add_distrib[of "16 * x" y] nat_mult_distrib[of 16 x] x(2) y(2,3) by linarith+
  have "hex_octet (word_of_int (16 * x + y)) = [lower_char a, lower_char b]"
    unfolding hex_octet_chars u q(1) using q(2) x(4) y(4) by simp
  with v show ?thesis by (rule that)
qed

lemma split_pair:
  "a \<noteq> CHR '':'' \<Longrightarrow> b \<noteq> CHR '':'' \<Longrightarrow> split_at (CHR '':'') (a # b # CHR '':'' # r) = [a, b] # split_at (CHR '':'') r"
  "a \<noteq> CHR '':'' \<Longrightarrow> b \<noteq> CHR '':'' \<Longrightarrow> split_at (CHR '':'') [a, b] = [[a, b]]"
  by simp_all

text \<open>An address that is accepted always parses, and is written back as it came.\<close>

lemma kick_mac_text:
  assumes "valid_mac m"
  shows "to_lower (mac_text (Some (kick_mac m))) = to_lower (colons m)"
proof -
  have len: "length m = 17" using assms by (simp add: valid_mac_def)
  then obtain a0 b0 s0 a1 b1 s1 a2 b2 s2 a3 b3 s3 a4 b4 s4 a5 b5 where m:
    "m = [a0, b0, s0, a1, b1, s1, a2, b2, s2, a3, b3, s3, a4, b4, s4, a5, b5]"
    by (auto simp: numeral_eq_Suc length_Suc_conv)
  have i: "[0..<17] = [0, 1, 2, 3, 4, 5, 6, 7, 8, 9, 10, 11, 12, 13, 14, 15, 16 :: nat]" by code_simp
  note h = assms[unfolded valid_mac_def m i, simplified]
  have h: "hex_digit a0" "hex_digit b0" "hex_digit a1" "hex_digit b1" "hex_digit a2" "hex_digit b2"
    "hex_digit a3" "hex_digit b3" "hex_digit a4" "hex_digit b4" "hex_digit a5" "hex_digit b5"
    and sep: "s0 = CHR '':'' \<or> s0 = CHR ''-''" "s1 = CHR '':'' \<or> s1 = CHR ''-''" "s2 = CHR '':'' \<or> s2 = CHR ''-''"
    "s3 = CHR '':'' \<or> s3 = CHR ''-''" "s4 = CHR '':'' \<or> s4 = CHR ''-''"
    using h by simp_all
  have n: "c \<noteq> CHR '':'' \<and> c \<noteq> CHR ''-'' \<and> lower_char (lower_char c) = lower_char c" if "hex_digit c" for c
    using that by (rule hex_digit_val) simp
  have c: "colons m = [a0, b0, CHR '':'', a1, b1, CHR '':'', a2, b2, CHR '':'', a3, b3, CHR '':'', a4, b4, CHR '':'', a5, b5]"
    unfolding m colons_def using n h sep by auto
  have s: "split_at (CHR '':'') (colons m) = [[a0, b0], [a1, b1], [a2, b2], [a3, b3], [a4, b4], [a5, b5]]"
    unfolding c using n h by (simp add: split_pair del: split_at.simps)
  obtain v0 where v0: "hex_byte [a0, b0] = Some v0" "hex_octet (word_of_int v0) = [lower_char a0, lower_char b0]"
    by (rule hex_byte_octet[OF h(1,2)])
  obtain v1 where v1: "hex_byte [a1, b1] = Some v1" "hex_octet (word_of_int v1) = [lower_char a1, lower_char b1]"
    by (rule hex_byte_octet[OF h(3,4)])
  obtain v2 where v2: "hex_byte [a2, b2] = Some v2" "hex_octet (word_of_int v2) = [lower_char a2, lower_char b2]"
    by (rule hex_byte_octet[OF h(5,6)])
  obtain v3 where v3: "hex_byte [a3, b3] = Some v3" "hex_octet (word_of_int v3) = [lower_char a3, lower_char b3]"
    by (rule hex_byte_octet[OF h(7,8)])
  obtain v4 where v4: "hex_byte [a4, b4] = Some v4" "hex_octet (word_of_int v4) = [lower_char a4, lower_char b4]"
    by (rule hex_byte_octet[OF h(9,10)])
  obtain v5 where v5: "hex_byte [a5, b5] = Some v5" "hex_octet (word_of_int v5) = [lower_char a5, lower_char b5]"
    by (rule hex_byte_octet[OF h(11,12)])
  have "parse_mac (colons m) = Some [v0, v1, v2, v3, v4, v5]"
    unfolding parse_mac_def Let_def using s by (simp add: c v0(1) v1(1) v2(1) v3(1) v4(1) v5(1))
  then have "kick_mac m = map word_of_int [v0, v1, v2, v3, v4, v5]" by (simp add: kick_mac_def colons_def)
  then show ?thesis
    using n h by (simp add: mac_text_def v0(2) v1(2) v2(2) v3(2) v4(2) v5(2) c to_lower_def)
qed

section \<open>A kick\<close>

definition in_bounds :: "hostapd_call \<Rightarrow> bool" where
  "in_bounds c \<longleftrightarrow> 0 \<le> hc_ban c \<and> hc_ban c \<le> 3600000 \<and> 1 \<le> hc_reason c \<and> hc_reason c \<le> 65535"

definition associated :: "wireless_env \<Rightarrow> source \<Rightarrow> string \<Rightarrow> w_iface \<Rightarrow> bool" where
  "associated x s addr i \<longleftrightarrow>
     (\<exists>found s'. take_inventory x s = (Inr found, s') \<and> i \<in> set (in_ifaces found))
     \<and> (\<exists>ss st. stations_of x i = Inr ss \<and> st \<in> set ss \<and> to_lower (mac_text (sn_mac st)) = addr)"

lemma has_client_station:
  assumes "has_client x mac i"
  shows "\<exists>ss st. stations_of x i = Inr ss \<and> st \<in> set ss \<and> to_lower (mac_text (sn_mac st)) = to_lower (mac_text (Some mac))"
  using assms by (auto simp: has_client_def list_ex_iff split: sum.splits)

lemma find_client_associated:
  assumes "find_client x mac hint s = (Inr (Some i), s')"
  shows "associated x s (to_lower (mac_text (Some mac))) i"
proof -
  obtain found where f: "take_inventory x s = (Inr found, s')"
    "List.find (has_client x mac) (hint_first hint (in_ifaces found)) = Some i"
    using assms by (auto simp: find_client_def split: sum.splits prod.splits)
  have "has_client x mac i \<and> i \<in> set (in_ifaces found)"
    using find_hint[OF f(2)] by blast
  then show ?thesis using f(1) has_client_station unfolding associated_def by blast
qed

text \<open>The calls a kick makes: none, or one that is in order.\<close>

definition kick_call :: "'s deps \<Rightarrow> kick_params \<Rightarrow> 's device \<Rightarrow> hostapd_call \<Rightarrow> bool" where
  "kick_call D p s c \<longleftrightarrow> in_bounds c \<and> hc_addr c = to_lower (colons (kp_mac p))
     \<and> (\<exists>x i. dp_wireless D = Some x \<and> associated x (dv_source s) (hc_addr c) i \<and> hc_object c = ''hostapd.'' @ wi_ifname i)"

lemma client_kick_cases:
  assumes "client_kick D (Some p) s = (r, s')"
  shows "dv_calls s' = dv_calls s \<and> (\<exists>e. r = Inl e)
    \<or> (\<exists>c. dv_calls s' = dv_calls s @ [c] \<and> kick_call D p s c \<and> valid_mac (kp_mac p)
        \<and> (\<forall>k. r = Inr k \<longrightarrow> kr_mac k = hc_addr c \<and> kr_ban k = hc_ban c \<and> hc_object c = ''hostapd.'' @ kr_ifname k))"
proof -
  let ?ban = "or_default 0 (kp_ban p)" and ?reason = "or_default 5 (kp_reason p)" and ?mac = "kick_mac (kp_mac p)"
  show ?thesis
  proof (cases "\<exists>x u i s1. valid_mac (kp_mac p) \<and> \<not> (?ban < 0 \<or> ?ban > 3600000) \<and> \<not> (?reason < 1 \<or> ?reason > 65535)
      \<and> dp_wireless D = Some x \<and> dp_ubus D = Some u \<and> \<not> (we_nl x = None \<or> \<not> ub_available u)
      \<and> find_client x ?mac (kp_ifname p) (dv_source s) = (Inr (Some i), s1)")
    case False
    then have "dv_calls s' = dv_calls s \<and> (\<exists>e. r = Inl e)"
      using assms by (auto simp: client_kick_def Let_def split: if_splits option.splits sum.splits prod.splits)
    then show ?thesis ..
  next
    case True
    then obtain x u i s1 where c: "valid_mac (kp_mac p)" "\<not> (?ban < 0 \<or> ?ban > 3600000)"
      "\<not> (?reason < 1 \<or> ?reason > 65535)" "dp_wireless D = Some x" "dp_ubus D = Some u"
      "\<not> (we_nl x = None \<or> \<not> ub_available u)"
      "find_client x ?mac (kp_ifname p) (dv_source s) = (Inr (Some i), s1)" by blast
    have r: "(r, s') = call_hostapd u (call_of p i) i (s\<lparr>dv_source := s1\<rparr>)"
      unfolding assms[symmetric] client_kick_def Let_def option.case prod.case c(4,5,7) sum.case using c(1-3,6) by auto
    have a: "hc_addr (call_of p i) = to_lower (mac_text (Some ?mac))" by (simp add: call_of_def)
    have k: "kick_call D p s (call_of p i)"
      unfolding kick_call_def in_bounds_def a using c(2-4) find_client_associated[OF c(7)]
      by (simp add: call_of_def kick_mac_text[OF c(1)]) blast
    have "dv_calls s' = dv_calls s @ [call_of p i]
      \<and> (\<forall>k. r = Inr k \<longrightarrow> kr_mac k = hc_addr (call_of p i) \<and> kr_ban k = hc_ban (call_of p i)
          \<and> hc_object (call_of p i) = ''hostapd.'' @ kr_ifname k)"
      using r by (auto simp: call_hostapd_def call_of_def split: call_result.splits)
    with k c(1) show ?thesis by blast
  qed
qed

text \<open>C32: A kick reaches hostapd at most once, and only for a well-formed address, in its own lower-case
  spelling, of a client that is associated with the interface whose hostapd is asked, with a ban of at most an
  hour and a valid reason; the answer names that call, and a kick that is answered with success made one.\<close>

theorem kick_safe:
  assumes "client_kick D (Some p) s = (r, s')"
  shows "(\<exists>e. r = Inl e) \<and> dv_calls s' = dv_calls s
    \<or> (\<exists>c x i. dv_calls s' = dv_calls s @ [c] \<and> valid_mac (kp_mac p) \<and> in_bounds c
        \<and> hc_addr c = to_lower (colons (kp_mac p)) \<and> hc_object c = ''hostapd.'' @ wi_ifname i
        \<and> dp_wireless D = Some x \<and> associated x (dv_source s) (hc_addr c) i
        \<and> (\<forall>k. r = Inr k \<longrightarrow> kr_mac k = hc_addr c \<and> kr_ifname k = wi_ifname i \<and> kr_ban k = hc_ban c))"
  using client_kick_cases[OF assms] unfolding kick_call_def by fastforce

text \<open>A device with one client, which is kicked.\<close>

definition dark_sysfs :: "unit sysfs" where
  "dark_sysfs = \<lparr>sf_entries = (\<lambda>_. NoDirectory), sf_read = (\<lambda>_ _ _. None), sf_files = (\<lambda>_ _. []),
     sf_write = (\<lambda>_ _ _ s. (False, s))\<rparr>"

definition sample_deps :: "unit deps" where
  "sample_deps = \<lparr>dp_version = ''dev'', dp_arch = ''mipsle'', dp_wireless = Some sample_wireless_env,
     dp_ubus = Some \<lparr>ub_available = True, ub_hostapd = Some [''hostapd.phy0-ap0''], ub_call = (\<lambda>_. CallOk)\<rparr>,
     dp_sysfs = dark_sysfs, dp_saves = True,
     dp_sys = \<lparr>se_file = (\<lambda>_. None), se_exists = (\<lambda>_. True), se_ubus = None, se_uname = None, se_now = 0, se_ttl = 0\<rparr>,
     dp_float = (\<lambda>_. None), dp_macs = None, dp_ports = None, dp_now = 0, dp_site = sample_site,
     dp_groups_env = sample_env, dp_refusal = [], dp_wifi = None, dp_update = None, dp_test_reboot = False\<rparr>"

definition sample_device :: "unit device" where
  "sample_device = \<lparr>dv_engine = None, dv_source = sample_source, dv_board = None, dv_locator = None, dv_calls = [],
     dv_reboots = []\<rparr>"

definition sample_kick :: kick_params where
  "sample_kick = \<lparr>kp_mac = ''02-00-00-00-00-01'', kp_ifname = [], kp_ban = Some 60000, kp_reason = None, kp_deauth = None\<rparr>"

theorem kick_safe_witness:
  "\<exists>s' c. client_kick sample_deps (Some sample_kick) sample_device
      = (Inr \<lparr>kr_mac = ''02:00:00:00:00:01'', kr_ifname = ''phy0-ap0'', kr_ban = 60000\<rparr>, s')
     \<and> dv_calls s' = [c] \<and> in_bounds c \<and> hc_addr c = ''02:00:00:00:00:01''"
proof -
  obtain r s' where k: "client_kick sample_deps (Some sample_kick) sample_device = (r, s')" by fastforce
  have r: "fst (client_kick sample_deps (Some sample_kick) sample_device)
      = Inr \<lparr>kr_mac = ''02:00:00:00:00:01'', kr_ifname = ''phy0-ap0'', kr_ban = 60000\<rparr>" by code_simp
  then have "\<exists>c. dv_calls s' = dv_calls sample_device @ [c] \<and> in_bounds c \<and> hc_addr c = ''02:00:00:00:00:01''"
    using kick_safe[OF k] k by auto
  then show ?thesis using k r by (auto simp: sample_device_def)
qed

section \<open>The whole surface\<close>

definition kicks :: "request \<Rightarrow> bool" where
  "kicks r \<longleftrightarrow> (\<exists>p. r = ClientKick p)"

definition reboots :: "request \<Rightarrow> bool" where
  "reboots r \<longleftrightarrow> (\<exists>p. r = SystemReboot p)"

definition applies :: "'s deps \<times> request \<Rightarrow> bool" where
  "applies q \<longleftrightarrow> request_method (snd q) \<in> {''groups.apply'', ''groups.confirm''} \<and> dp_refusal (fst q) = []"

definition locates :: "'s deps \<times> request \<Rightarrow> bool" where
  "locates q \<longleftrightarrow> request_method (snd q) \<in> {''locate.start'', ''locate.stop''}"

abbreviation same_rest :: "'s device \<Rightarrow> 's device \<Rightarrow> bool" where
  "same_rest s s' \<equiv> dv_engine s' = dv_engine s \<and> dv_locator s' = dv_locator s \<and> dv_calls s' = dv_calls s
     \<and> dv_reboots s' = dv_reboots s"

lemma inventory_frame: "same_rest s (snd (inventory_of D s))"
  by (auto simp: inventory_of_def split: option.split sum.split prod.split)

lemma capabilities_frame: "same_rest s (snd (capabilities D s))"
  using inventory_frame[of D s] by (simp add: capabilities_def Let_def split_beta)

lemma system_info_frame: "same_rest s (snd (system_info_of D s))"
proof -
  have "same_rest t (snd (capabilities D (snd (inventory_of D t))))" for t
    using inventory_frame[of D t] capabilities_frame[of D "snd (inventory_of D t)"] by simp
  from this[of "s\<lparr>dv_board := snd (board_of (dp_sys D) (dv_board s))\<rparr>"]
  show ?thesis by (simp add: system_info_of_def Let_def split_beta)
qed

lemma clients_frame: "same_rest s (snd (clients_list D p s))"
  by (auto simp: clients_list_def split: option.split sum.split prod.split)

lemma kick_frame:
  "dv_engine (snd (client_kick D p s)) = dv_engine s \<and> dv_locator (snd (client_kick D p s)) = dv_locator s
   \<and> dv_reboots (snd (client_kick D p s)) = dv_reboots s"
  by (auto simp: client_kick_def call_hostapd_def Let_def split: option.split sum.split prod.split)

lemma kick_calls: "\<exists>cs. dv_calls (snd (client_kick D p s)) = dv_calls s @ cs \<and> length cs \<le> 1 \<and> list_all in_bounds cs"
proof (cases p)
  case (Some q)
  obtain r s' where "client_kick D (Some q) s = (r, s')" by fastforce
  with client_kick_cases[OF this] Some show ?thesis by (auto simp: kick_call_def)
qed (simp add: client_kick_def)

lemma locate_frame:
  "dv_engine (snd (locate_start D p s)) = dv_engine s \<and> dv_calls (snd (locate_start D p s)) = dv_calls s
   \<and> dv_reboots (snd (locate_start D p s)) = dv_reboots s"
  "dv_engine (locate_stop D s) = dv_engine s \<and> dv_calls (locate_stop D s) = dv_calls s
   \<and> dv_reboots (locate_stop D s) = dv_reboots s"
  by (auto simp: locate_start_def locate_stop_def Let_def split: option.split sum.split prod.split)

lemma reboot_frame:
  "dv_engine (snd (system_reboot D p s)) = dv_engine s \<and> dv_locator (snd (system_reboot D p s)) = dv_locator s
   \<and> dv_calls (snd (system_reboot D p s)) = dv_calls s"
  by (auto simp: system_reboot_def Let_def split: option.split)

lemma reboot_delay:
  "\<exists>ds. dv_reboots (snd (system_reboot D p s)) = dv_reboots s @ ds \<and> length ds \<le> 1
     \<and> list_all (\<lambda>d. 200000000 \<le> d \<and> d \<le> 60200000000) ds"
  by (auto simp: system_reboot_def Let_def split: option.split)

lemma groups_frame:
  "dv_locator (snd (groups_apply D p s)) = dv_locator s \<and> dv_calls (snd (groups_apply D p s)) = dv_calls s
   \<and> dv_reboots (snd (groups_apply D p s)) = dv_reboots s
   \<and> (dp_refusal D \<noteq> [] \<longrightarrow> dv_engine (snd (groups_apply D p s)) = dv_engine s)"
  "dv_locator (snd (groups_confirm D rv s)) = dv_locator s \<and> dv_calls (snd (groups_confirm D rv s)) = dv_calls s
   \<and> dv_reboots (snd (groups_confirm D rv s)) = dv_reboots s
   \<and> (dp_refusal D \<noteq> [] \<longrightarrow> dv_engine (snd (groups_confirm D rv s)) = dv_engine s)"
  by (auto simp: groups_apply_def groups_confirm_def groups_enabled_def split: option.split sum.split prod.split)

lemmas frames = system_info_frame clients_frame kick_frame locate_frame reboot_frame groups_frame

lemma served_engine: "\<not> applies (D, r) \<Longrightarrow> dv_engine (served_after D r s) = dv_engine s"
  by (cases r) (simp_all add: applies_def frames)

lemma served_locator: "\<not> locates (D, r) \<Longrightarrow> dv_locator (served_after D r s) = dv_locator s"
  by (cases r) (simp_all add: locates_def frames)

lemma served_calls:
  "\<exists>cs. dv_calls (served_after D r s) = dv_calls s @ cs \<and> length cs \<le> (if kicks r then 1 else 0) \<and> list_all in_bounds cs"
  using kick_calls by (cases r) (simp_all add: kicks_def frames)

lemma served_reboots:
  "\<exists>ds. dv_reboots (served_after D r s) = dv_reboots s @ ds \<and> length ds \<le> (if reboots r then 1 else 0)
     \<and> list_all (\<lambda>d. 200000000 \<le> d \<and> d \<le> 60200000000) ds"
  using reboot_delay by (cases r) (simp_all add: reboots_def frames)

text \<open>What a run of requests appends to a log that every request extends in its own way.\<close>

lemma run_appends:
  assumes "\<And>q s. \<exists>xs. L (step q s) = L s @ xs \<and> length xs \<le> (if K q then 1 else 0) \<and> list_all P xs"
  shows "\<exists>xs. L (fold step qs s) = L s @ xs \<and> length xs \<le> length (filter K qs) \<and> list_all P xs"
proof (induction qs arbitrary: s)
  case (Cons q qs)
  obtain xs where xs: "L (step q s) = L s @ xs" "length xs \<le> (if K q then 1 else 0)" "list_all P xs"
    using assms by blast
  obtain ys where ys: "L (fold step qs (step q s)) = L (step q s) @ ys" "length ys \<le> length (filter K qs)" "list_all P ys"
    using Cons.IH by blast
  have "L (fold step (q # qs) s) = L s @ xs @ ys" using xs(1) ys(1) by simp
  moreover have "length (xs @ ys) \<le> length (filter K (q # qs))" using xs(2) ys(2) by (auto split: if_splits)
  ultimately show ?case using xs(3) ys(3) by (intro exI[of _ "xs @ ys"]) simp
qed simp

lemma run_keeps:
  assumes "\<And>q s. \<not> K q \<Longrightarrow> L (step q s) = L s"
  shows "list_ex K qs \<or> L (fold step qs s) = L s"
proof (induction qs arbitrary: s)
  case (Cons q qs)
  show ?case using Cons.IH[of "step q s"] assms[of q s] by (cases "K q") simp_all
qed simp

definition serve_all :: "('s deps \<times> request) list \<Rightarrow> 's device \<Rightarrow> 's device" where
  "serve_all qs s = fold (\<lambda>q. served_after (fst q) (snd q)) qs s"

text \<open>C31: The whole remote surface. Whatever the controller asks, in whatever order and whatever the device's
  state at each request: the groups' engine changes only with a groups.apply or groups.confirm while groups
  are not refused, the LEDs only with a locate request, hostapd is called at most once per kick and always
  within the bounds, and a reboot is scheduled at most once per system.reboot, between 0.2 and 60.2 seconds
  away.\<close>

theorem surface_bounded:
  "let s' = serve_all qs s
   in (list_ex applies qs \<or> dv_engine s' = dv_engine s)
    \<and> (list_ex locates qs \<or> dv_locator s' = dv_locator s)
    \<and> (\<exists>cs. dv_calls s' = dv_calls s @ cs \<and> length cs \<le> length (filter (kicks \<circ> snd) qs) \<and> list_all in_bounds cs)
    \<and> (\<exists>ds. dv_reboots s' = dv_reboots s @ ds \<and> length ds \<le> length (filter (reboots \<circ> snd) qs)
         \<and> list_all (\<lambda>d. 200000000 \<le> d \<and> d \<le> 60200000000) ds)"
proof -
  let ?step = "\<lambda>q. served_after (fst q) (snd q)"
  have e: "list_ex applies qs \<or> dv_engine (serve_all qs s) = dv_engine s"
    unfolding serve_all_def by (rule run_keeps) (simp add: served_engine)
  have l: "list_ex locates qs \<or> dv_locator (serve_all qs s) = dv_locator s"
    unfolding serve_all_def by (rule run_keeps) (simp add: served_locator)
  have c: "\<exists>cs. dv_calls (serve_all qs s) = dv_calls s @ cs \<and> length cs \<le> length (filter (kicks \<circ> snd) qs) \<and> list_all in_bounds cs"
    unfolding serve_all_def by (rule run_appends) (simp add: served_calls)
  have d: "\<exists>ds. dv_reboots (serve_all qs s) = dv_reboots s @ ds \<and> length ds \<le> length (filter (reboots \<circ> snd) qs)
       \<and> list_all (\<lambda>d. 200000000 \<le> d \<and> d \<le> 60200000000) ds"
    unfolding serve_all_def by (rule run_appends) (simp add: served_reboots)
  show ?thesis unfolding Let_def using e l c d by blast
qed

end
