(* ===== verification/Install.thy ===== *)
theory Install
  imports Config Screen
begin

text \<open>
  Installing, joining and uninstalling by hand, \<open>internal/install/install.go\<close>. The device is its file tree
  and what was asked of the service; a write goes to a temporary file first and either replaces the file or
  leaves it. What the run meets (the running binary, the answers to the prompts, the controller, which steps
  fail) is \<open>inst_env\<close>; what is printed is not modelled.
\<close>

section \<open>The device\<close>

datatype node = File string nat | Link string

type_synonym tree = "string \<Rightarrow> node option"

datatype service_action = Enable | Start | Stop | Disable

record machine =
  mc_tree :: tree
  mc_service :: "service_action list"

text \<open>\<open>exists\<close> is \<open>Stat\<close>, which follows a link.\<close>

definition file_exists :: "tree \<Rightarrow> string \<Rightarrow> bool" where
  "file_exists t p =
     (case t p of
        Some (File _ _) \<Rightarrow> True
      | Some (Link d) \<Rightarrow> (case t d of Some (File _ _) \<Rightarrow> True | _ \<Rightarrow> False)
      | None \<Rightarrow> False)"

text \<open>\<open>ReadFile\<close>, which follows a link too; the links of the model that are read have whole paths.\<close>

definition file_text :: "tree \<Rightarrow> string \<Rightarrow> string option" where
  "file_text t p =
     (case t p of
        Some (File b _) \<Rightarrow> Some b
      | Some (Link d) \<Rightarrow> (case t d of Some (File b _) \<Rightarrow> Some b | _ \<Rightarrow> None)
      | None \<Rightarrow> None)"

definition opt_dir :: string where "opt_dir = ''/opt/perch-apd''"
definition opt_bin :: string where "opt_bin = ''/opt/perch-apd/perch-apd''"
definition pkg_bin :: string where "pkg_bin = ''/usr/bin/perch-apd''"
definition init_path :: string where "init_path = ''/etc/init.d/perch-apd''"
definition keep_file :: string where "keep_file = ''/lib/upgrade/keep.d/perch-apd''"
definition config_path :: string where "config_path = ''/etc/config/perch-apd''"
definition openwrt_release :: string where "openwrt_release = ''/etc/openwrt_release''"
definition guard_init :: string where "guard_init = ''/etc/init.d/perch-apd-guard''"
definition guard_link :: string where "guard_link = ''/etc/rc.d/S15perch-apd-guard''"

definition keep_lines :: "string list" where
  "keep_lines =
     [''# perch-apd installed by '' @ CHR 0x27 # ''perch-apd install'' @ CHR 0x27 # '': keep it across sysupgrade.'',
      ''/lib/upgrade/keep.d/perch-apd'', ''/opt/perch-apd/'', ''/etc/init.d/perch-apd'', ''/etc/rc.d/S95perch-apd'',
      ''/etc/rc.d/K10perch-apd'', ''/etc/config/perch-apd'', ''/etc/perch-apd/'', ''/etc/init.d/perch-apd-guard'',
      ''/etc/rc.d/S15perch-apd-guard'']"

definition keep_list :: string where
  "keep_list = concat (map (\<lambda>l. l @ [line_feed]) keep_lines)"

section \<open>What a run meets\<close>

datatype inst_step =
    MakeOpt | CopyBinary | WriteInit | WriteKeep | WriteGuard | MakeRc | LinkGuard | WriteDefault | ReadConfig
  | ReadUpdate | WriteUpdate | RereadConfig | MakeClient | ReadCredentials | WriteCredentials | EnableService | StartService | RemoveInit
  | RemoveKeep | RemoveGuardLink | RemoveGuard | RemoveOpt | RemoveConfig

datatype join_reply = Joined string string | RefusedJoin nat | Unreachable

text \<open>A line read at a prompt: what was read, and the error with it (end of input, or another).\<close>

datatype read_error = NoError | EndOfInput | OtherError

record inst_env =
  ie_root :: bool
  ie_self :: string
  ie_self_bytes :: "string option"
  ie_same :: bool
  ie_ok :: "inst_step \<Rightarrow> bool"
  ie_line :: "nat \<Rightarrow> string \<times> read_error"
  ie_norm :: "string \<Rightarrow> url_error + string"
  ie_join :: "string \<Rightarrow> string \<Rightarrow> join_reply"
  ie_init :: string
  ie_guard :: string
  ie_default :: string
  ie_width :: nat

record inst_options =
  io_controller :: string
  io_token :: string
  io_yes :: bool
  io_force :: bool
  io_no_start :: bool
  io_rejoin :: bool
  io_wifi_config :: string

datatype inst_error =
    NotRoot | NotOpenWrt | NoBinary | StepFailed inst_step | NoInput | ControllerRequired | BadURL url_error
  | TokenRequired | BadWifiConfig | ConfigFailed config_error | JoinRefused | PackageInstalled

section \<open>The files\<close>

definition put_file :: "string \<Rightarrow> string \<Rightarrow> nat \<Rightarrow> machine \<Rightarrow> machine" where
  "put_file p b mode m = m\<lparr>mc_tree := (mc_tree m)(p \<mapsto> File b mode)\<rparr>"

text \<open>\<open>writeFileAtomic\<close>, and the rest of the run if it succeeds.\<close>

definition write_file ::
  "inst_env \<Rightarrow> inst_step \<Rightarrow> string \<Rightarrow> string \<Rightarrow> nat \<Rightarrow> machine \<Rightarrow> (machine \<Rightarrow> (inst_error + 'a) \<times> machine)
     \<Rightarrow> (inst_error + 'a) \<times> machine" where
  "write_file E st p b mode m rest =
     (if ie_ok E st then rest (put_file p b mode m) else (Inl (StepFailed st), m))"

definition is_self_installed :: "string \<Rightarrow> bool" where
  "is_self_installed script = contains self_installed_line script"

definition link_guard :: "inst_env \<Rightarrow> machine \<Rightarrow> (inst_error + unit) \<times> machine" where
  "link_guard E m =
     (if mc_tree m guard_link \<noteq> None then (Inr (), m)
      else if \<not> ie_ok E MakeRc then (Inl (StepFailed MakeRc), m)
      else if \<not> ie_ok E LinkGuard then (Inl (StepFailed LinkGuard), m)
      else (Inr (), m\<lparr>mc_tree := (mc_tree m)(guard_link \<mapsto> Link ''../init.d/perch-apd-guard'')\<rparr>))"

definition install_guard :: "inst_env \<Rightarrow> machine \<Rightarrow> (inst_error + unit) \<times> machine" where
  "install_guard E m =
     (if file_exists (mc_tree m) guard_init then link_guard E m
      else write_file E WriteGuard guard_init (self_installed_script (ie_guard E)) 493 m (link_guard E))"

definition install_scripts :: "inst_env \<Rightarrow> machine \<Rightarrow> (inst_error + unit) \<times> machine" where
  "install_scripts E m =
     write_file E WriteInit init_path (ie_init E) 493 m (\<lambda>m.
       write_file E WriteKeep keep_file keep_list 420 m (install_guard E))"

definition install_files :: "inst_env \<Rightarrow> machine \<Rightarrow> (inst_error + unit) \<times> machine" where
  "install_files E m =
     (if \<not> ie_ok E MakeOpt then (Inl (StepFailed MakeOpt), m)
      else if ie_self E \<noteq> [] \<and> ie_same E then install_scripts E m
      else if ie_self E = [] then (Inl NoBinary, m)
      else
        (case ie_self_bytes E of
           None \<Rightarrow> (Inl (StepFailed CopyBinary), m)
         | Some b \<Rightarrow> write_file E CopyBinary opt_bin b 493 m (install_scripts E)))"

section \<open>The prompts\<close>

text \<open>\<open>prompt\<close>: the \<open>k\<close>-th line of the input, a default for an empty one.\<close>

definition prompt :: "inst_env \<Rightarrow> nat \<Rightarrow> string \<Rightarrow> inst_error + string" where
  "prompt E k def =
     (let (line, err) = ie_line E k
      in if err \<noteq> NoError \<and> (line = [] \<or> err \<noteq> EndOfInput) then Inl NoInput
         else (let l = trim_space line in Inr (if l = [] then def else l)))"

text \<open>The controller's address, and how many prompts it took.\<close>

definition choose_controller :: "inst_env \<Rightarrow> inst_options \<Rightarrow> string \<Rightarrow> inst_error + string \<times> nat" where
  "choose_controller E o1 old =
     (let choice =
        (if io_controller o1 \<noteq> [] then Inr (io_controller o1, 0)
         else if io_yes o1 then (if old = [] then Inl ControllerRequired else Inr (old, 0))
         else (case prompt E 0 old of Inl e \<Rightarrow> Inl e | Inr c \<Rightarrow> Inr (c, 1)))
      in case choice of
           Inl e \<Rightarrow> Inl e
         | Inr (c, k) \<Rightarrow> (case ie_norm E c of Inl e \<Rightarrow> Inl (BadURL e) | Inr u \<Rightarrow> Inr (u, k)))"

definition choose_token :: "inst_env \<Rightarrow> inst_options \<Rightarrow> bool \<Rightarrow> nat \<Rightarrow> inst_error + string" where
  "choose_token E o1 keeps k =
     (let token = trim_space (io_token o1)
      in if token = [] \<and> (\<not> keeps \<or> io_rejoin o1) then
           (if io_yes o1 then (if keeps then Inr token else Inl TokenRequired)
            else (case prompt E k [] of
                    Inl e \<Rightarrow> Inl e
                  | Inr t \<Rightarrow> if t = [] \<and> \<not> keeps then Inl TokenRequired else Inr t))
         else Inr token)"

section \<open>Configuring and joining\<close>

definition config_disk :: "tree \<Rightarrow> bool \<Rightarrow> disk" where
  "config_disk t readable =
     (case file_text t config_path of
        None \<Rightarrow> Missing
      | Some b \<Rightarrow> if readable then Content b else Unreadable)"

text \<open>\<open>WriteFile\<close> keeps the mode of the file that is there.\<close>

definition put_config :: "disk \<Rightarrow> machine \<Rightarrow> machine" where
  "put_config d m =
     (case d of
        Content b \<Rightarrow>
          put_file config_path b (case mc_tree m config_path of Some (File _ md) \<Rightarrow> md | _ \<Rightarrow> 384) m
      | _ \<Rightarrow> m)"

definition empty_config :: config where
  "empty_config =
     \<lparr>c_path = config_path, c_enabled = False, c_controller = [], c_join_token = [], c_agent_id = [],
      c_agent_secret = [], c_tls_insecure = False, c_ca_file = [], c_log_level = [], c_ports = False,
      c_wifi_groups = False, c_wifi_groups_insecure = False, c_wifi_config = [], c_wifi_config_allow = [],
      c_wifi_config_ignored = [], c_wifi_config_insecure = False, c_wifi_config_confirm_max = 0,
      c_self_update = False, c_update_keys = []\<rparr>"

text \<open>The options the run writes; a change of controller or a new token empties the credentials.\<close>

definition new_values :: "inst_options \<Rightarrow> string \<Rightarrow> bool \<Rightarrow> string \<Rightarrow> inst_error + (string \<times> string option) list" where
  "new_values o1 controller changed token =
     (let vs = (''controller'', Some controller) # (if token \<noteq> [] then [(''join_token'', Some token)] else []);
          creds = (if changed \<or> token \<noteq> [] then [(''agent_id'', Some []), (''agent_secret'', Some [])] else [])
      in if io_wifi_config o1 = [] then Inr (vs @ creds)
         else if io_wifi_config o1 \<in> set [''none'', ''read'', ''write''] then
           Inr (vs @ [(''wifi_config'', Some (io_wifi_config o1))] @ creds)
         else Inl BadWifiConfig)"

text \<open>The service: enabled, stopped quietly, started.\<close>

definition start_service :: "inst_env \<Rightarrow> inst_options \<Rightarrow> bool \<Rightarrow> machine \<Rightarrow> (inst_error + unit) \<times> machine" where
  "start_service E o1 manage m =
     (if \<not> manage \<or> io_no_start o1 then (Inr (), m)
      else
        (let m1 = m\<lparr>mc_service := mc_service m @ [Enable]\<rparr>
         in if \<not> ie_ok E EnableService then (Inl (StepFailed EnableService), m1)
            else
              (let m2 = m1\<lparr>mc_service := mc_service m1 @ [Stop, Start]\<rparr>
               in if ie_ok E StartService then (Inr (), m2) else (Inl (StepFailed StartService), m2))))"

definition join_now ::
  "inst_env \<Rightarrow> inst_options \<Rightarrow> bool \<Rightarrow> config \<Rightarrow> string \<Rightarrow> string \<Rightarrow> machine \<Rightarrow> (inst_error + unit) \<times> machine" where
  "join_now E o1 manage c controller token m =
     (if token = [] then start_service E o1 manage m
      else if \<not> ie_ok E MakeClient then (Inl (StepFailed MakeClient), m)
      else
        (case ie_join E controller token of
           Joined aid secret \<Rightarrow>
             (case save_credentials (ie_default E) (ie_ok E WriteCredentials)
                     (config_disk (mc_tree m) (ie_ok E ReadCredentials)) c aid secret of
                (Some e, _, _) \<Rightarrow> (Inl (ConfigFailed e), m)
              | (None, d, _) \<Rightarrow> start_service E o1 manage (put_config d m))
         | RefusedJoin status \<Rightarrow>
             if 400 \<le> status \<and> status < 500 then (Inl JoinRefused, m) else start_service E o1 manage m
         | Unreachable \<Rightarrow> start_service E o1 manage m))"

text \<open>What the run settles before it writes: the controller, the token, and the options.\<close>

definition settle :: "inst_env \<Rightarrow> inst_options \<Rightarrow> config \<Rightarrow> inst_error + string \<times> string \<times> (string \<times> string option) list" where
  "settle E o1 c =
     (case choose_controller E o1 (c_controller c) of
        Inl e \<Rightarrow> Inl e
      | Inr (controller, k) \<Rightarrow>
          (let changed = (c_controller c \<noteq> [] \<and> c_controller c \<noteq> controller)
           in case choose_token E o1 (has_credentials c \<and> \<not> changed) k of
                Inl e \<Rightarrow> Inl e
              | Inr token \<Rightarrow>
                  (case new_values o1 controller changed token of
                     Inl e \<Rightarrow> Inl e
                   | Inr vs \<Rightarrow> Inr (controller, token, vs))))"

definition configure_loaded ::
  "inst_env \<Rightarrow> inst_options \<Rightarrow> bool \<Rightarrow> machine \<Rightarrow> (inst_error + unit) \<times> machine" where
  "configure_loaded E o1 manage m =
     (let c = (case load_disk (ie_width E) (ie_norm E) config_path (config_disk (mc_tree m) (ie_ok E ReadConfig)) of
                 Inl _ \<Rightarrow> empty_config
               | Inr c \<Rightarrow> c)
      in case settle E o1 c of
           Inl e \<Rightarrow> (Inl e, m)
         | Inr (controller, token, vs) \<Rightarrow>
             (case update (ie_default E) (ie_ok E WriteUpdate) (config_disk (mc_tree m) (ie_ok E ReadUpdate)) vs of
                (Some e, _) \<Rightarrow> (Inl (ConfigFailed e), m)
              | (None, d) \<Rightarrow>
                  (let m1 = put_config d m
                   in case load_disk (ie_width E) (ie_norm E) config_path
                             (config_disk (mc_tree m1) (ie_ok E RereadConfig)) of
                        Inl e \<Rightarrow> (Inl (ConfigFailed e), m1)
                      | Inr c1 \<Rightarrow> join_now E o1 manage c1 controller token m1)))"

definition configure_and_join ::
  "inst_env \<Rightarrow> inst_options \<Rightarrow> bool \<Rightarrow> machine \<Rightarrow> (inst_error + unit) \<times> machine" where
  "configure_and_join E o1 manage m =
     (if file_exists (mc_tree m) config_path then configure_loaded E o1 manage m
      else write_file E WriteDefault config_path (ie_default E) 384 m (configure_loaded E o1 manage))"

section \<open>The three commands\<close>

definition install_command :: "inst_env \<Rightarrow> inst_options \<Rightarrow> machine \<Rightarrow> (inst_error + unit) \<times> machine" where
  "install_command E o1 m =
     (if \<not> ie_root E then (Inl NotRoot, m)
      else if \<not> file_exists (mc_tree m) openwrt_release \<and> \<not> io_force o1 then (Inl NotOpenWrt, m)
      else if file_exists (mc_tree m) pkg_bin then configure_and_join E o1 True m
      else
        (case install_files E m of
           (Inl e, m1) \<Rightarrow> (Inl e, m1)
         | (Inr _, m1) \<Rightarrow> configure_and_join E o1 True m1))"

definition join_command :: "inst_env \<Rightarrow> inst_options \<Rightarrow> machine \<Rightarrow> (inst_error + unit) \<times> machine" where
  "join_command E o1 m =
     (if \<not> ie_root E then (Inl NotRoot, m)
      else configure_and_join E (o1\<lparr>io_rejoin := True\<rparr>) (file_exists (mc_tree m) init_path) m)"

definition outcome_text :: "string \<Rightarrow> string" where
  "outcome_text o1 =
     (if o1 = ''linked'' then ''linked to the access point the dashboard already knew (history kept)''
      else if o1 = ''rejoined'' then ''rejoined (new credentials for the same access point)''
      else if o1 = ''created'' then ''added as a new access point''
      else o1)"

text \<open>\<open>os.Remove\<close> with its error ignored.\<close>

definition remove_file :: "inst_env \<Rightarrow> inst_step \<Rightarrow> string \<Rightarrow> machine \<Rightarrow> machine" where
  "remove_file E st p m = (if ie_ok E st then m\<lparr>mc_tree := (mc_tree m)(p := None)\<rparr> else m)"

definition remove_init :: "inst_env \<Rightarrow> machine \<Rightarrow> machine" where
  "remove_init E m =
     (if \<not> file_exists (mc_tree m) init_path then m
      else
        (let m1 = m\<lparr>mc_service := mc_service m @ [Stop, Disable]\<rparr>
         in case file_text (mc_tree m1) init_path of
              None \<Rightarrow> m1
            | Some b \<Rightarrow>
                if contains ''perch-apd'' b \<and> \<not> file_exists (mc_tree m1) pkg_bin
                then remove_file E RemoveInit init_path m1 else m1))"

definition remove_guard :: "inst_env \<Rightarrow> machine \<Rightarrow> machine" where
  "remove_guard E m =
     (case file_text (mc_tree m) guard_init of
        None \<Rightarrow> m
      | Some b \<Rightarrow>
          if is_self_installed b \<and> \<not> file_exists (mc_tree m) pkg_bin
          then remove_file E RemoveGuard guard_init (remove_file E RemoveGuardLink guard_link m) else m)"

text \<open>\<open>os.RemoveAll\<close>: the directory's entries go.\<close>

definition remove_tree :: "string \<Rightarrow> machine \<Rightarrow> machine" where
  "remove_tree d m =
     m\<lparr>mc_tree := (\<lambda>p. if p = d \<or> prefix (d @ ''/'') p then None else mc_tree m p)\<rparr>"

definition uninstall :: "inst_env \<Rightarrow> bool \<Rightarrow> machine \<Rightarrow> (inst_error + unit) \<times> machine" where
  "uninstall E purge m =
     (if \<not> ie_root E then (Inl NotRoot, m)
      else if file_exists (mc_tree m) pkg_bin \<and> \<not> file_exists (mc_tree m) opt_bin then (Inl PackageInstalled, m)
      else
        (let m1 = remove_guard E (remove_file E RemoveKeep keep_file (remove_init E m))
         in if \<not> ie_ok E RemoveOpt then (Inl (StepFailed RemoveOpt), m1)
            else
              (let m2 = remove_tree opt_dir m1
               in (Inr (), if purge then remove_file E RemoveConfig config_path m2 else m2))))"

end
