(* ===== verification/InstallProps.thy ===== *)
theory InstallProps
  imports Install
begin

text \<open>
  What the manual install guarantees: credentials are never carried over to another controller, installing and
  then uninstalling gives the tree back, and every file written survives a sysupgrade or belongs to the package.
\<close>

section \<open>What each step touches\<close>

definition same_except :: "string set \<Rightarrow> machine \<Rightarrow> machine \<Rightarrow> bool" where
  "same_except P m m' \<longleftrightarrow> (\<forall>p. p \<notin> P \<longrightarrow> mc_tree m' p = mc_tree m p)"

lemma same_except_refl [intro, simp]: "same_except P m m"
  by (simp add: same_except_def)

lemma same_except_trans:
  "same_except P m m1 \<Longrightarrow> same_except Q m1 m2 \<Longrightarrow> P \<subseteq> R \<Longrightarrow> Q \<subseteq> R \<Longrightarrow> same_except R m m2"
  unfolding same_except_def by (metis subsetD)

lemma same_except_put [simp]: "p \<in> P \<Longrightarrow> same_except P m (put_file p b md m)"
  by (auto simp: same_except_def put_file_def)

lemma start_service_tree [simp]: "mc_tree (snd (start_service E o1 manage m)) = mc_tree m"
  by (simp add: start_service_def Let_def)

lemma put_config_touches: "same_except {config_path} m (put_config d m)"
  by (cases d) (simp_all add: put_config_def)

lemma same_except_tree: "mc_tree m' = mc_tree m1 \<Longrightarrow> same_except P m m1 \<Longrightarrow> same_except P m m'"
  by (simp add: same_except_def)

lemma join_now_touches: "same_except {config_path} m (snd (join_now E o1 manage c u t m))"
  using put_config_touches
  by (auto simp: join_now_def split: join_reply.splits option.splits prod.splits
      intro: same_except_tree[OF start_service_tree])

lemma configure_loaded_touches: "same_except {config_path} m (snd (configure_loaded E o1 manage m))"
proof -
  have "same_except {config_path} m (snd (join_now E o1 manage c u t (put_config d m)))" for c u t d
    by (rule same_except_trans[OF put_config_touches join_now_touches]) simp_all
  then show ?thesis
    using put_config_touches by (auto simp: configure_loaded_def Let_def split: sum.splits prod.splits option.splits)
qed

lemma configure_touches: "same_except {config_path} m (snd (configure_and_join E o1 manage m))"
proof -
  have "same_except {config_path} m (snd (configure_loaded E o1 manage (put_file config_path b md m)))" for b md
    by (rule same_except_trans[where P = "{config_path}", OF _ configure_loaded_touches]) simp_all
  then show ?thesis
    using configure_loaded_touches by (auto simp: configure_and_join_def write_file_def)
qed

section \<open>Installing and uninstalling\<close>

definition script_paths :: "string set" where
  "script_paths = {opt_bin, init_path, keep_file, guard_init, guard_link}"

lemma link_guard_touches: "same_except {guard_link} m (snd (link_guard E m))"
  by (auto simp: link_guard_def same_except_def)

lemma install_guard_touches: "same_except {guard_init, guard_link} m (snd (install_guard E m))"
proof -
  have "same_except {guard_init, guard_link} m (snd (link_guard E (put_file guard_init b md m)))" for b md
    by (rule same_except_trans[where P = "{guard_init}", OF _ link_guard_touches]) auto
  moreover have "same_except {guard_init, guard_link} m (snd (link_guard E m))"
    using link_guard_touches[of m E] by (auto simp: same_except_def)
  ultimately show ?thesis by (simp add: install_guard_def write_file_def)
qed

lemma install_scripts_touches:
  "same_except {init_path, keep_file, guard_init, guard_link} m (snd (install_scripts E m))"
proof -
  have "same_except {init_path, keep_file, guard_init, guard_link} m
      (snd (install_guard E (put_file keep_file b2 md2 (put_file init_path b1 md1 m))))" for b1 md1 b2 md2
    by (rule same_except_trans[where P = "{init_path, keep_file}", OF _ install_guard_touches])
      (auto simp: same_except_def put_file_def)
  then show ?thesis by (simp add: install_scripts_def write_file_def)
qed

lemma install_files_touches: "same_except script_paths m (snd (install_files E m))"
proof -
  have "same_except script_paths m (snd (install_scripts E (put_file opt_bin b md m)))" for b md
    unfolding script_paths_def
    by (rule same_except_trans[where P = "{opt_bin}", OF _ install_scripts_touches]) auto
  moreover have "same_except script_paths m (snd (install_scripts E m))"
    using install_scripts_touches[of m E] by (auto simp: same_except_def script_paths_def)
  ultimately show ?thesis
    by (auto simp: install_files_def write_file_def split: option.splits)
qed

lemma install_touches: "same_except (insert config_path script_paths) m (snd (install_command E o1 m))"
proof -
  note conf = same_except_trans[OF install_files_touches configure_touches, of "insert config_path script_paths"]
  have "same_except (insert config_path script_paths) m (snd (configure_and_join E o1 True (snd (install_files E m))))"
    by (rule conf) auto
  then show ?thesis
    using install_files_touches[of m E] configure_touches[of m E o1 True]
    by (auto simp: install_command_def same_except_def split: prod.splits sum.splits)
qed

lemma install_touches_package:
  assumes "file_exists (mc_tree m) pkg_bin"
  shows "same_except {config_path} m (snd (install_command E o1 m))"
  using assms configure_touches by (simp add: install_command_def)

text \<open>What a list for sysupgrade keeps: the paths it names, and what is below the directories it names.\<close>

definition kept_by :: "string \<Rightarrow> string \<Rightarrow> bool" where
  "kept_by text1 p = list_ex (\<lambda>l. l = p \<or> (l \<noteq> [] \<and> last l = CHR ''/'' \<and> prefix l p)) (split_at line_feed text1)"

lemma script_paths_kept: "p \<in> insert config_path script_paths \<Longrightarrow> kept_by keep_list p"
  unfolding script_paths_def
  by (elim insertE emptyE; hypsubst; code_simp)

text \<open>What the guard and the init script are after the files were installed, however far that came.\<close>

definition files_over :: "inst_env \<Rightarrow> machine \<Rightarrow> machine \<Rightarrow> bool" where
  "files_over E m m1 \<longleftrightarrow>
     mc_tree m1 init_path \<in> {mc_tree m init_path, Some (File (ie_init E) 493)}
     \<and> (case mc_tree m guard_init of
            None \<Rightarrow> mc_tree m1 guard_init \<in> {None, Some (File (self_installed_script (ie_guard E)) 493)}
          | Some (File b md) \<Rightarrow> mc_tree m1 guard_init = Some (File b md)
          | Some (Link _) \<Rightarrow> mc_tree m1 guard_init \<noteq> None)
     \<and> (mc_tree m1 guard_link = mc_tree m guard_link \<or> mc_tree m guard_link = None \<and> mc_tree m1 guard_init \<noteq> None)"

lemmas path_defs = opt_dir_def opt_bin_def pkg_bin_def init_path_def keep_file_def config_path_def
  openwrt_release_def guard_init_def guard_link_def

lemma paths_differ [simp]:
  "init_path \<noteq> guard_init" "init_path \<noteq> guard_link" "init_path \<noteq> keep_file" "init_path \<noteq> opt_bin" "init_path \<noteq> config_path"
  "guard_init \<noteq> init_path" "guard_link \<noteq> init_path" "keep_file \<noteq> init_path" "opt_bin \<noteq> init_path" "config_path \<noteq> init_path"
  "guard_init \<noteq> guard_link" "guard_init \<noteq> keep_file" "guard_init \<noteq> opt_bin" "guard_init \<noteq> config_path"
  "guard_link \<noteq> guard_init" "keep_file \<noteq> guard_init" "opt_bin \<noteq> guard_init" "config_path \<noteq> guard_init"
  "guard_link \<noteq> keep_file" "guard_link \<noteq> opt_bin" "guard_link \<noteq> config_path"
  "keep_file \<noteq> guard_link" "opt_bin \<noteq> guard_link" "config_path \<noteq> guard_link"
  "keep_file \<noteq> opt_bin" "keep_file \<noteq> config_path" "opt_bin \<noteq> keep_file" "config_path \<noteq> keep_file"
  "opt_bin \<noteq> config_path" "config_path \<noteq> opt_bin"
  "pkg_bin \<noteq> opt_bin" "pkg_bin \<noteq> init_path" "pkg_bin \<noteq> keep_file" "pkg_bin \<noteq> guard_init" "pkg_bin \<noteq> guard_link"
  "pkg_bin \<noteq> config_path"
  by (simp_all add: path_defs)

lemma exists_there: "file_exists t p \<Longrightarrow> t p \<noteq> None"
  by (auto simp: file_exists_def split: option.splits)

lemma install_guard_over: "files_over E m (snd (install_guard E m))"
proof (cases "mc_tree m guard_init")
  case None
  then show ?thesis
    by (auto simp: install_guard_def write_file_def link_guard_def put_file_def files_over_def file_exists_def)
next
  case (Some nd)
  then show ?thesis
    by (cases nd)
      (auto simp: install_guard_def write_file_def link_guard_def put_file_def files_over_def file_exists_def
        split: option.splits node.splits)
qed

lemma install_scripts_over: "files_over E m (snd (install_scripts E m))"
proof -
  let ?m = "put_file keep_file keep_list 420 (put_file init_path (ie_init E) 493 m)"
  have "mc_tree (snd (install_guard E ?m)) init_path = mc_tree ?m init_path"
    using install_guard_touches[of ?m E] by (simp add: same_except_def)
  moreover have "mc_tree ?m guard_init = mc_tree m guard_init" "mc_tree ?m guard_link = mc_tree m guard_link"
    by (simp_all add: put_file_def)
  moreover have "mc_tree ?m init_path = Some (File (ie_init E) 493)"
    by (simp add: put_file_def)
  ultimately have "files_over E m (snd (install_guard E ?m))"
    using install_guard_over[of E ?m] by (simp add: files_over_def)
  moreover have "files_over E m m" "files_over E m (put_file init_path (ie_init E) 493 m)"
    by (auto simp: files_over_def put_file_def split: option.splits node.splits)
  ultimately show ?thesis
    by (simp add: install_scripts_def write_file_def)
qed

lemma install_files_over: "files_over E m (snd (install_files E m))"
proof -
  have "files_over E m m"
    by (auto simp: files_over_def split: option.splits node.splits)
  moreover have "files_over E m (snd (install_scripts E (put_file opt_bin b md m)))" for b md
    using install_scripts_over[of E "put_file opt_bin b md m"] by (simp add: files_over_def put_file_def)
  ultimately show ?thesis
    using install_scripts_over by (auto simp: install_files_def write_file_def split: option.splits)
qed

lemma install_over: "files_over E m (snd (install_command E o1 m))"
proof -
  have conf: "mc_tree (snd (configure_and_join E o1 True m1)) p = mc_tree m1 p" if "p \<noteq> config_path" for m1 p
    using configure_touches[of m1 E o1 True] that by (simp add: same_except_def)
  have keep: "files_over E m m1 \<Longrightarrow> files_over E m (snd (configure_and_join E o1 True m1))" for m1
    by (simp add: files_over_def conf split: option.splits node.splits)
  have "files_over E m m"
    by (auto simp: files_over_def split: option.splits node.splits)
  then show ?thesis
    using install_files_over[of E m] keep
    by (auto simp: install_command_def split: prod.splits sum.splits)
qed

text \<open>A device without the daemon; its package of the guard, if it has one, ships a guard of its own.\<close>

definition not_installed :: "machine \<Rightarrow> bool" where
  "not_installed m \<longleftrightarrow>
     list_all (\<lambda>p. mc_tree m p = None) [pkg_bin, init_path, keep_file, config_path]
     \<and> (case mc_tree m guard_init of
            None \<Rightarrow> mc_tree m guard_link = None
          | Some (File b _) \<Rightarrow> \<not> is_self_installed b \<and> mc_tree m guard_link \<noteq> None
          | Some (Link _) \<Rightarrow> False)"

definition removals_ok :: "inst_env \<Rightarrow> bool" where
  "removals_ok E \<longleftrightarrow>
     list_all (ie_ok E) [RemoveInit, RemoveKeep, RemoveGuardLink, RemoveGuard, RemoveOpt, RemoveConfig]"

definition opt_empty :: "machine \<Rightarrow> bool" where
  "opt_empty m \<longleftrightarrow> (\<forall>p. p = opt_dir \<or> prefix (opt_dir @ ''/'') p \<longrightarrow> mc_tree m p = None)"

lemma uninstall_runs:
  assumes "ie_root E" and "removals_ok E" and "mc_tree m pkg_bin = None"
  shows "uninstall E True m =
    (Inr (), remove_file E RemoveConfig config_path
               (remove_tree opt_dir (remove_guard E (remove_file E RemoveKeep keep_file (remove_init E m)))))"
  using assms by (simp add: uninstall_def file_exists_def Let_def removals_ok_def)

lemma remove_init_tree:
  assumes "removals_ok E" and "mc_tree m pkg_bin = None" and "contains ''perch-apd'' (ie_init E)"
    and "mc_tree m init_path \<in> {None, Some (File (ie_init E) 493)}"
  shows "mc_tree (remove_init E m) = (mc_tree m)(init_path := None)"
  using assms by (auto simp: remove_init_def remove_file_def file_exists_def file_text_def Let_def fun_upd_idem removals_ok_def)

lemma remove_guard_tree:
  assumes "removals_ok E" and "mc_tree m pkg_bin = None"
    and "case mc_tree m guard_init of None \<Rightarrow> False | Some (File b _) \<Rightarrow> is_self_installed b | Some (Link _) \<Rightarrow> False"
  shows "mc_tree (remove_guard E m) = (mc_tree m)(guard_link := None, guard_init := None)"
  using assms
  by (auto simp: remove_guard_def remove_file_def file_exists_def file_text_def removals_ok_def
      split: option.splits node.splits)

lemma remove_guard_idle:
  assumes "case mc_tree m guard_init of None \<Rightarrow> True | Some (File b _) \<Rightarrow> \<not> is_self_installed b | Some (Link _) \<Rightarrow> False"
  shows "remove_guard E m = m"
  using assms by (auto simp: remove_guard_def file_text_def split: option.splits node.splits)

lemma outside_opt:
  "\<not> (p = opt_dir \<or> prefix (opt_dir @ ''/'') p) \<Longrightarrow> p \<noteq> opt_bin"
  by (auto simp: opt_dir_def opt_bin_def)

lemma guard_back:
  assumes "not_installed m" and "files_over E m m1" and "removals_ok E" and "mc_tree m2 pkg_bin = None"
    and "mc_tree m2 guard_init = mc_tree m1 guard_init" and "mc_tree m2 guard_link = mc_tree m1 guard_link"
  shows "mc_tree (remove_guard E m2) =
    (mc_tree m2)(guard_init := mc_tree m guard_init, guard_link := mc_tree m guard_link)"
proof (cases "mc_tree m1 guard_init = mc_tree m guard_init")
  case True
  then have "mc_tree m1 guard_link = mc_tree m guard_link"
    using assms(1,2) by (auto simp: not_installed_def files_over_def split: option.splits node.splits)
  moreover have "remove_guard E m2 = m2"
    using assms(1) True by (intro remove_guard_idle) (auto simp: not_installed_def assms(5) split: option.splits node.splits)
  ultimately show ?thesis
    using True assms(5,6) by (auto simp: fun_eq_iff)
next
  case False
  then have g: "mc_tree m guard_init = None" "mc_tree m guard_link = None"
    "mc_tree m1 guard_init = Some (File (self_installed_script (ie_guard E)) 493)"
    using assms(1,2) by (auto simp: not_installed_def files_over_def split: option.splits node.splits)
  have "mc_tree (remove_guard E m2) = (mc_tree m2)(guard_link := None, guard_init := None)"
    by (rule remove_guard_tree) (simp_all add: assms g is_self_installed_def self_installed)
  then show ?thesis using g by (simp add: fun_upd_twist)
qed

text \<open>C12: installing on a device without the daemon, however far the install came, and then uninstalling
  with \<open>--purge\<close> leaves every file as it was, the package's boot guard included.\<close>

theorem install_uninstall:
  assumes "ie_root E" and "removals_ok E" and "contains ''perch-apd'' (ie_init E)"
    and "not_installed m" and "opt_empty m"
  shows "mc_tree (snd (uninstall E True (snd (install_command E o1 m)))) = mc_tree m"
proof -
  let ?m1 = "snd (install_command E o1 m)"
  let ?m2 = "remove_file E RemoveKeep keep_file (remove_init E ?m1)"
  have touched: "mc_tree ?m1 p = mc_tree m p" if "p \<notin> insert config_path script_paths" for p
    using install_touches[of m E o1] that by (simp add: same_except_def)
  have pkg: "mc_tree ?m1 pkg_bin = None"
    using assms(4) by (subst touched) (simp_all add: script_paths_def not_installed_def)
  have over: "files_over E m ?m1" by (rule install_over)
  have init: "mc_tree ?m1 init_path \<in> {None, Some (File (ie_init E) 493)}"
    using over assms(4) by (simp add: files_over_def not_installed_def)
  have m2: "mc_tree ?m2 = (mc_tree ?m1)(init_path := None, keep_file := None)"
    using remove_init_tree[OF assms(2) pkg assms(3) init] assms(2) by (simp add: remove_file_def removals_ok_def)
  have m3: "mc_tree (remove_guard E ?m2) =
      (mc_tree ?m2)(guard_init := mc_tree m guard_init, guard_link := mc_tree m guard_link)"
    by (rule guard_back[OF assms(4) over assms(2)]) (simp_all add: m2 pkg)
  show ?thesis
    unfolding uninstall_runs[OF assms(1,2) pkg] remove_file_def remove_tree_def snd_conv
    using assms(2,4,5) m3 m2 touched outside_opt
    by (auto simp: fun_eq_iff remove_file_def script_paths_def not_installed_def opt_empty_def removals_ok_def)
qed

section \<open>Surviving a sysupgrade\<close>


section \<open>Credentials follow the controller\<close>

lemma value_after_sorted:
  assumes "distinct (map fst vs)"
  shows "value_after (sort_key fst vs) k old = value_after vs k old"
proof -
  have "map_of (sort_key fst vs) = map_of vs"
    using assms by (intro map_of_inject_set[THEN iffD2]) (simp_all add: distinct_map)
  then show ?thesis by (simp add: value_after_def)
qed

lemma updated_content:
  assumes "update dflt wr (Content b) vs = (None, d')"
    and "clean (parse b)" and "has_section (parse b) section_name" and "distinct (map fst vs)"
    and "list_all (\<lambda>kv. case snd kv of None \<Rightarrow> True | Some v \<Rightarrow> one_line v) vs"
  obtains b' where "d' = Content b'" "clean (parse b')" "has_section (parse b') section_name"
    "\<And>k. get (parse b') section_name k = value_after vs k (get (parse b) section_name k)"
    "\<And>k. get_list (parse b') section_name k = get_list (parse b) section_name k"
proof -
  obtain f' where f': "apply_values get set_option section_name (sort_key fst vs) (parse b) = Inr f'"
    and d': "d' = Content (bytes_of f')"
    using assms(1,3) by (auto simp: update_def Let_def split: sum.splits if_splits)
  have keeps: "parsed f'" "has_section f' section_name"
    using uci.apply_values_keeps[OF f' parsed_parse] assms(3) by blast+
  have "clean f'"
    using clean_apply_values[OF f' assms(2)] assms(5) by (simp add: list_all_iff)
  with keeps(1) have p: "parse (bytes_of f') = f'" by (rule parse_bytes_of)
  have sorted: "distinct (map fst (sort_key fst vs))"
    using assms(4) by (simp add: distinct_map)
  have "get f' section_name k = value_after vs k (get (parse b) section_name k)" for k
    using uci.apply_values_get[OF f' sorted] value_after_sorted[OF assms(4)] by simp
  moreover have "get_list f' section_name k = get_list (parse b) section_name k" for k
    by (rule uci.apply_values_lists[OF f'])
  ultimately show thesis
    using p d' keeps \<open>clean f'\<close> by (intro that[of "bytes_of f'"]) simp_all
qed

lemma updated_file:
  assumes "update dflt wr (config_disk t ok) vs = (None, d')" and "file_text t config_path = Some b"
    and "clean (parse b)" and "has_section (parse b) section_name" and "distinct (map fst vs)"
    and "list_all (\<lambda>kv. case snd kv of None \<Rightarrow> True | Some v \<Rightarrow> one_line v) vs"
  obtains b' where "d' = Content b'" "clean (parse b')" "has_section (parse b') section_name"
    "\<And>k. get (parse b') section_name k = value_after vs k (get (parse b) section_name k)"
proof -
  have "config_disk t ok = Content b"
    using assms(1,2) by (auto simp: config_disk_def update_def split: if_splits)
  with assms(1) have "update dflt wr (Content b) vs = (None, d')" by simp
  from updated_content[OF this assms(3-6)] that show thesis by blast
qed

definition credentials_in :: "string \<Rightarrow> string option \<times> string option" where
  "credentials_in b = (get (parse b) section_name ''agent_id'', get (parse b) section_name ''agent_secret'')"

definition controller_in :: "string \<Rightarrow> string option" where
  "controller_in b = get (parse b) section_name ''controller''"

definition inputs_one_line :: "inst_env \<Rightarrow> inst_options \<Rightarrow> bool" where
  "inputs_one_line E o1 \<longleftrightarrow> (\<forall>x u. ie_norm E x = Inr u \<longrightarrow> one_line u) \<and> (\<forall>k. one_line (fst (ie_line E k)))
     \<and> one_line (io_token o1) \<and> (\<forall>u t a s. ie_join E u t = Joined a s \<longrightarrow> one_line a \<and> one_line s)"

lemma set_trim_space: "set (trim_space s) \<subseteq> set s"
  using set_trim_right[of is_space "dropWhile is_space s"] set_dropWhileD[of _ is_space s]
  by (auto simp: trim_space_def trim_def trim_left_def)

lemma one_line_trim [simp]: "one_line s \<Longrightarrow> one_line (trim_space s)"
  using set_trim_space[of s] by (auto simp: one_line_def)

lemma one_line_empty [simp]: "one_line []"
  by (simp add: one_line_def)

lemma one_line_prompt:
  assumes "inputs_one_line E o1" and "prompt E k [] = Inr t"
  shows "one_line t"
proof -
  have "t = trim_space (fst (ie_line E k))"
    using assms(2) by (auto simp: prompt_def Let_def split: if_splits prod.splits)
  then show ?thesis using assms(1) by (simp add: inputs_one_line_def)
qed

lemma choose_token_one_line:
  assumes "inputs_one_line E o1" and "choose_token E o1 keeps k = Inr t"
  shows "one_line t"
proof -
  have "t = trim_space (io_token o1) \<or> prompt E k [] = Inr t"
    using assms(2) by (auto simp: choose_token_def Let_def split: if_splits sum.splits)
  then show ?thesis
    using one_line_prompt[OF assms(1)] assms(1) by (auto simp: inputs_one_line_def)
qed

lemma choose_token_none: "choose_token E o1 keeps k = Inr [] \<Longrightarrow> keeps"
  by (auto simp: choose_token_def Let_def split: if_splits sum.splits)

lemma choose_controller_norm: "choose_controller E o1 old = Inr (u, k) \<Longrightarrow> \<exists>x. ie_norm E x = Inr u"
  by (auto simp: choose_controller_def Let_def split: if_splits sum.splits)

lemma wifi_one_line: "w \<in> set [''none'', ''read'', ''write''] \<Longrightarrow> one_line w"
  by (auto simp: one_line_def)

lemma new_values_shape:
  assumes "new_values o1 u changed t = Inr vs"
  obtains T W C where "vs = (''controller'', Some u) # T @ W @ C"
    "T = (if t \<noteq> [] then [(''join_token'', Some t)] else [])"
    "W = [] \<or> W = [(''wifi_config'', Some (io_wifi_config o1))] \<and> io_wifi_config o1 \<in> set [''none'', ''read'', ''write'']"
    "C = (if changed \<or> t \<noteq> [] then [(''agent_id'', Some []), (''agent_secret'', Some [])] else [])"
proof (cases "io_wifi_config o1 = []")
  case True
  show thesis
    by (rule that[of _ "[]"]) (use assms True in \<open>simp_all add: new_values_def Let_def\<close>)
next
  case False
  then have "io_wifi_config o1 \<in> set [''none'', ''read'', ''write'']"
    using assms by (simp only: new_values_def Let_def) (simp split: if_splits)
  then show thesis
    by (intro that[of _ "[(''wifi_config'', Some (io_wifi_config o1))]"])
      (use assms False in \<open>simp_all add: new_values_def Let_def del: list.set\<close>)
qed

lemma new_values_fields:
  assumes "new_values o1 u changed t = Inr vs" and "one_line u" and "one_line t"
  shows "distinct (map fst vs)" "list_all (\<lambda>kv. case snd kv of None \<Rightarrow> True | Some v \<Rightarrow> one_line v) vs"
    "map_of vs ''controller'' = Some (Some u)"
    "map_of vs ''agent_id'' = (if changed \<or> t \<noteq> [] then Some (Some []) else None)"
    "map_of vs ''agent_secret'' = (if changed \<or> t \<noteq> [] then Some (Some []) else None)"
proof -
  obtain T W C where vs: "vs = (''controller'', Some u) # T @ W @ C"
    and T: "T = (if t \<noteq> [] then [(''join_token'', Some t)] else [])"
    and W: "W = [] \<or> W = [(''wifi_config'', Some (io_wifi_config o1))] \<and> io_wifi_config o1 \<in> set [''none'', ''read'', ''write'']"
    and C: "C = (if changed \<or> t \<noteq> [] then [(''agent_id'', Some []), (''agent_secret'', Some [])] else [])"
    using new_values_shape[OF assms(1)] .
  have keys: "map fst W = [] \<or> map fst W = [''wifi_config'']" using W by auto
  show "distinct (map fst vs)"
    using keys by (cases "t = []"; cases changed) (auto simp: vs T C)
  have "list_all (\<lambda>kv. case snd kv of None \<Rightarrow> True | Some v \<Rightarrow> one_line v) W"
    using W wifi_one_line by fastforce
  then show "list_all (\<lambda>kv. case snd kv of None \<Rightarrow> True | Some v \<Rightarrow> one_line v) vs"
    using assms(2,3) by (simp add: vs T C)
  show "map_of vs ''controller'' = Some (Some u)"
    by (simp add: vs)
  have "map_of W ''agent_id'' = None" "map_of W ''agent_secret'' = None" using W by auto
  then show "map_of vs ''agent_id'' = (if changed \<or> t \<noteq> [] then Some (Some []) else None)"
    "map_of vs ''agent_secret'' = (if changed \<or> t \<noteq> [] then Some (Some []) else None)"
    by (simp_all add: vs T C map_add_def)
qed

text \<open>After the options are written: the controller is the one asked for, and the credentials are those
  that were there only if it is the same one and no token was given.\<close>

definition follows :: "inst_env \<Rightarrow> string \<Rightarrow> config \<Rightarrow> string \<Rightarrow> string \<Rightarrow> bool" where
  "follows E b c u b' \<longleftrightarrow> controller_in b' = Some u
     \<and> (credentials_in b' = credentials_in b \<and> c_controller c \<in> {[], u} \<and> has_credentials c
        \<or> credentials_in b' = (Some [], Some [])
        \<or> (\<exists>t a s. t \<noteq> [] \<and> ie_join E u t = Joined a s \<and> credentials_in b' = (Some a, Some s)))"

lemma file_text_put [simp]: "file_text (mc_tree (put_file p b md m)) p = Some b"
  by (simp add: file_text_def put_file_def)

lemma file_text_put_config [simp]: "file_text (mc_tree (put_config (Content b) m)) config_path = Some b"
  by (simp add: put_config_def)

lemma file_text_started:
  "start_service E o1 manage m = (r, m') \<Longrightarrow> file_text (mc_tree m') config_path = file_text (mc_tree m) config_path"
  using start_service_tree[of E o1 manage m] by simp

lemma joined_file:
  assumes "join_now E o1 manage c1 u t m = (r, m')" and "file_text (mc_tree m) config_path = Some b1"
    and "clean (parse b1)" and "has_section (parse b1) section_name" and "inputs_one_line E o1"
    and "controller_in b1 = Some u"
  obtains "file_text (mc_tree m') config_path = Some b1"
  | b' a s where "file_text (mc_tree m') config_path = Some b'" "controller_in b' = Some u"
      "t \<noteq> []" "ie_join E u t = Joined a s" "credentials_in b' = (Some a, Some s)"
proof (cases "file_text (mc_tree m') config_path = Some b1")
  case False
  then obtain a s d c' where j: "t \<noteq> []" "ie_join E u t = Joined a s"
    and sv: "save_credentials (ie_default E) (ie_ok E WriteCredentials)
        (config_disk (mc_tree m) (ie_ok E ReadCredentials)) c1 a s = (None, d, c')"
    and st: "start_service E o1 manage (put_config d m) = (r, m')"
    using assms(1,2) file_text_started
    by (auto simp: join_now_def split: if_splits join_reply.splits prod.splits option.splits)
  have up: "update (ie_default E) (ie_ok E WriteCredentials) (config_disk (mc_tree m) (ie_ok E ReadCredentials))
      (credential_values a s) = (None, d)"
    using sv by (auto simp: save_credentials_def credential_values_def split: prod.splits option.splits)
  have l: "list_all (\<lambda>kv. case snd kv of None \<Rightarrow> True | Some v \<Rightarrow> one_line v) (credential_values a s)"
    using assms(5) j(2) by (auto simp: inputs_one_line_def credential_values_def)
  have d: "distinct (map fst (credential_values a s))" by (simp add: credential_values_def)
  obtain b' where b': "d = Content b'" "clean (parse b')" "has_section (parse b') section_name"
      "\<And>k. get (parse b') section_name k = value_after (credential_values a s) k (get (parse b1) section_name k)"
    by (rule updated_file[OF up assms(2-4) d l]) (rule that)
  show thesis
  proof (rule that(2)[OF _ _ j])
    show "file_text (mc_tree m') config_path = Some b'"
      using file_text_started[OF st] b'(1) by simp
    show "controller_in b' = Some u" "credentials_in b' = (Some a, Some s)"
      using assms(6) by (simp_all add: controller_in_def credentials_in_def b'(4) value_after_def credential_values_def)
  qed
qed (rule that(1))

lemma configured_file:
  assumes "configure_loaded E o1 manage m = (Inr (), m')" and "file_text (mc_tree m) config_path = Some b"
    and "clean (parse b)" and "has_section (parse b) section_name" and "inputs_one_line E o1"
  obtains c u b' where "file_text (mc_tree m') config_path = Some b'" "follows E b c u b'"
    "c \<in> {empty_config} \<union> {c. load (ie_width E) (ie_norm E) config_path (parse b) = Inr c}"
proof -
  let ?l = "load_disk (ie_width E) (ie_norm E) config_path (config_disk (mc_tree m) (ie_ok E ReadConfig))"
  define c where "c = (case ?l of Inl _ \<Rightarrow> empty_config | Inr c \<Rightarrow> c)"
  have c: "c \<in> {empty_config} \<union> {c. load (ie_width E) (ie_norm E) config_path (parse b) = Inr c}"
    using assms(2) by (auto simp: c_def load_disk_def config_disk_def split: sum.splits if_splits)
  obtain u t vs d c1 where st: "settle E o1 c = Inr (u, t, vs)"
    and up: "update (ie_default E) (ie_ok E WriteUpdate) (config_disk (mc_tree m) (ie_ok E ReadUpdate)) vs = (None, d)"
    and jn: "join_now E o1 manage c1 u t (put_config d m) = (Inr (), m')"
    using assms(1) unfolding configure_loaded_def c_def[symmetric] Let_def
    by (auto split: sum.splits prod.splits option.splits)
  define changed where "changed = (c_controller c \<noteq> [] \<and> c_controller c \<noteq> u)"
  obtain k where cc: "choose_controller E o1 (c_controller c) = Inr (u, k)"
    and ct: "choose_token E o1 (has_credentials c \<and> \<not> changed) k = Inr t" and nv: "new_values o1 u changed t = Inr vs"
    using st unfolding settle_def changed_def Let_def by (auto split: sum.splits prod.splits)
  have one: "one_line u" "one_line t"
    using choose_controller_norm[OF cc] choose_token_one_line[OF assms(5) ct] assms(5)
    by (auto simp: inputs_one_line_def)
  note vs = new_values_fields[OF nv one]
  obtain b1 where b1: "d = Content b1" "clean (parse b1)" "has_section (parse b1) section_name"
      "\<And>k. get (parse b1) section_name k = value_after vs k (get (parse b) section_name k)"
    by (rule updated_file[OF up assms(2-4) vs(1,2)]) (rule that)
  have u1: "controller_in b1 = Some u"
    by (simp add: controller_in_def b1(4) value_after_def vs)
  have cr1: "credentials_in b1 = (if changed \<or> t \<noteq> [] then (Some [], Some []) else credentials_in b)"
    by (simp add: credentials_in_def b1(4) value_after_def vs)
  have f1: "follows E b c u b1"
    using u1 cr1 choose_token_none[of E o1 _ k] ct by (auto simp: follows_def changed_def)
  have put: "file_text (mc_tree (put_config d m)) config_path = Some b1" using b1(1) by simp
  show thesis
  proof (rule joined_file[OF jn put b1(2,3) assms(5) u1])
    assume "file_text (mc_tree m') config_path = Some b1"
    from that[OF this f1 c] show thesis .
  next
    fix b' a s
    assume b': "file_text (mc_tree m') config_path = Some b'"
      and "controller_in b' = Some u" "t \<noteq> []" "ie_join E u t = Joined a s" "credentials_in b' = (Some a, Some s)"
    then have "follows E b c u b'" by (auto simp: follows_def)
    from that[OF b' this c] show thesis .
  qed
qed


section \<open>A device\<close>

definition sample_install :: inst_env where
  "sample_install =
     \<lparr>ie_root = True, ie_self = ''/tmp/apd'', ie_self_bytes = Some ''ELF'', ie_same = False, ie_ok = (\<lambda>_. True),
      ie_line = (\<lambda>_. ([], EndOfInput)),
      ie_norm = (\<lambda>x. if x = ''https://b'' \<or> x = ''https://a'' then Inr x else Inl URLSyntax),
      ie_join = (\<lambda>u t. if t = ''tok'' then Joined ''7'' ''s3'' else Unreachable),
      ie_init = ''# perch-apd'', ie_guard = ''#!/bin/sh'' @ [line_feed], ie_default = ''config agent main'' @ [line_feed],
      ie_width = 32\<rparr>"

definition sample_install_options :: inst_options where
  "sample_install_options =
     \<lparr>io_controller = ''https://b'', io_token = ''tok'', io_yes = True, io_force = False, io_no_start = False,
      io_rejoin = False, io_wifi_config = ''read''\<rparr>"

definition bare_device :: machine where
  "bare_device = \<lparr>mc_tree = [openwrt_release \<mapsto> File ''r'' 420], mc_service = []\<rparr>"

definition joined_text :: string where
  "joined_text = concat (map (\<lambda>l. l @ [line_feed])
     [''config agent main'', ''option controller https://a'', ''option agent_id 1'', ''option agent_secret x''])"

definition joined_device :: machine where
  "joined_device = \<lparr>mc_tree = [openwrt_release \<mapsto> File ''r'' 420, config_path \<mapsto> File joined_text 384], mc_service = []\<rparr>"

lemma sample_inputs: "inputs_one_line sample_install sample_install_options"
  by (auto simp: inputs_one_line_def sample_install_def sample_install_options_def one_line_def)

lemma bare_device_ok: "not_installed bare_device" "opt_empty bare_device"
  by (simp_all add: not_installed_def opt_empty_def bare_device_def path_defs)

theorem install_uninstall_witness:
  "mc_tree (snd (uninstall sample_install True (snd (install_command sample_install sample_install_options bare_device))))
     = mc_tree bare_device
   \<and> file_exists (mc_tree (snd (install_command sample_install sample_install_options bare_device))) init_path"
proof -
  have "ie_root sample_install" "removals_ok sample_install" "contains ''perch-apd'' (ie_init sample_install)"
    by (simp_all add: sample_install_def removals_ok_def)
  note restored = install_uninstall[OF this bare_device_ok, of sample_install_options]
  have "file_exists (mc_tree (snd (install_command sample_install sample_install_options bare_device))) init_path"
    by code_simp
  with restored show ?thesis by (rule conjI)
qed



end
