(* ===== verification/Commands.thy ===== *)
theory Commands
  imports Install Wireless GoText
begin

text \<open>
  The command line, \<open>cmd/perch-apd/main.go\<close> (\<open>run\<close>) and \<open>wifi.go\<close>, \<open>plane.go\<close> (the \<open>wifi\<close> and
  \<open>config-guard\<close> commands): which command an argument list runs and with what, and what the small commands
  do. Flags are parsed by \<open>flag.FlagSet.Parse\<close>; what a command prints is not modelled, its exit code is.
\<close>

section \<open>Flags\<close>

datatype flag_error = HelpWanted | BadFlags

text \<open>\<open>strconv.ParseBool\<close>.\<close>

definition parse_go_bool :: "string \<Rightarrow> bool option" where
  "parse_go_bool s =
     (if s \<in> set [''1'', ''t'', ''T'', ''TRUE'', ''true'', ''True''] then Some True
      else if s \<in> set [''0'', ''f'', ''F'', ''FALSE'', ''false'', ''False''] then Some False
      else None)"

text \<open>A flag's name without its one or two dashes; \<open>None\<close>: the first argument that is not a flag.\<close>

definition flag_name :: "string \<Rightarrow> string option" where
  "flag_name s =
     (case s of
        d # c # r \<Rightarrow> if d \<noteq> CHR ''-'' then None else if c = CHR ''-'' then Some r else Some (c # r)
      | _ \<Rightarrow> None)"

text \<open>\<open>name=value\<close>; an \<open>=\<close> in the first place is part of the name, which is refused.\<close>

definition flag_value :: "string \<Rightarrow> string \<times> string option" where
  "flag_value s =
     (case s of
        [] \<Rightarrow> ([], None)
      | c # r \<Rightarrow> (let (a, b, found) = cut_at (CHR ''='') r in (c # a, if found then Some b else None)))"

definition bad_name :: "string \<Rightarrow> bool" where
  "bad_name s \<longleftrightarrow> s = [] \<or> hd s = CHR ''-'' \<or> hd s = CHR ''=''"

text \<open>\<open>Parse\<close>: \<open>kinds\<close> says of each flag whether it is boolean; the values set (the last of a flag counts),
  and what follows the flags.\<close>

fun parse_flags ::
  "(string \<times> bool) list \<Rightarrow> string list \<Rightarrow> (string \<times> string) list \<Rightarrow> flag_error + (string \<times> string) list \<times> string list" where
  "parse_flags kinds [] acc = Inr (acc, [])"
| "parse_flags kinds (s # args) acc =
     (case flag_name s of
        None \<Rightarrow> Inr (acc, s # args)
      | Some [] \<Rightarrow> if s = ''--'' then Inr (acc, args) else Inl BadFlags
      | Some n \<Rightarrow>
          if bad_name n then Inl BadFlags
          else
            (let (name, v) = flag_value n
             in case map_of kinds name of
                  None \<Rightarrow> if name = ''help'' \<or> name = ''h'' then Inl HelpWanted else Inl BadFlags
                | Some True \<Rightarrow>
                    (let b = (case v of None \<Rightarrow> ''true'' | Some x \<Rightarrow> x)
                     in if parse_go_bool b = None then Inl BadFlags else parse_flags kinds args (put name b acc))
                | Some False \<Rightarrow>
                    (case (v, args) of
                       (Some x, _) \<Rightarrow> parse_flags kinds args (put name x acc)
                     | (None, x # rest) \<Rightarrow> parse_flags kinds rest (put name x acc)
                     | (None, []) \<Rightarrow> Inl BadFlags)))"

definition flag_on :: "string \<Rightarrow> (string \<times> string) list \<Rightarrow> bool" where
  "flag_on n vs = (case map_of vs n of None \<Rightarrow> False | Some b \<Rightarrow> parse_go_bool b = Some True)"

section \<open>The commands\<close>

datatype command =
    Run string
  | InstallCommand inst_options
  | JoinCommand inst_options
  | UninstallCommand bool
  | Metrics "string list"
  | Clients
  | Info string
  | Ports
  | WifiCommand string "string list"
  | ConfigGuard "string list"
  | Version
  | Help

definition run_flags :: "(string \<times> bool) list" where
  "run_flags =
     [(''config'', False), (''controller'', False), (''token'', False), (''yes'', True), (''y'', True),
      (''no-start'', True), (''force'', True), (''purge'', True), (''collect'', False), (''wifi-config'', False)]"

text \<open>The command: the first argument, or \<open>run\<close>; a few flags stand for commands.\<close>

definition command_word :: "string list \<Rightarrow> string \<times> string list" where
  "command_word args =
     (case args of
        [] \<Rightarrow> (''run'', [])
      | a # rest \<Rightarrow>
          if \<not> prefix ''-'' a then (a, rest)
          else if a \<in> set [''--install'', ''-install''] then (''install'', rest)
          else if a \<in> set [''--uninstall'', ''-uninstall''] then (''uninstall'', rest)
          else if a \<in> set [''--version'', ''-version'', ''-v''] then (''version'', rest)
          else if a \<in> set [''--help'', ''-help'', ''-h''] then (''help'', rest)
          else (''run'', args))"

text \<open>\<open>yes\<close> and \<open>y\<close> set one variable, so the later of them counts; \<open>put\<close> keeps the latest first.\<close>

definition yes_flag :: "(string \<times> string) list \<Rightarrow> bool" where
  "yes_flag vs =
     (case List.find (\<lambda>kv. fst kv = ''yes'' \<or> fst kv = ''y'') vs of
        None \<Rightarrow> False
      | Some (_, b) \<Rightarrow> parse_go_bool b = Some True)"

definition install_options_of :: "(string \<times> string) list \<Rightarrow> inst_options" where
  "install_options_of vs =
     \<lparr>io_controller = lookup_default [] vs ''controller'', io_token = lookup_default [] vs ''token'',
      io_yes = yes_flag vs, io_force = flag_on ''force'' vs, io_no_start = flag_on ''no-start'' vs,
      io_rejoin = False, io_wifi_config = lookup_default [] vs ''wifi-config''\<rparr>"

definition join_options_of :: "(string \<times> string) list \<Rightarrow> inst_options" where
  "join_options_of vs = (install_options_of vs)\<lparr>io_force := False, io_no_start := False\<rparr>"

text \<open>\<open>run\<close> up to the command: \<open>Inl\<close> is the exit code without one.\<close>

definition command_of :: "string list \<Rightarrow> nat + command" where
  "command_of args =
     (let (cmd, rest) = command_word args
      in case parse_flags run_flags rest [] of
           Inl HelpWanted \<Rightarrow> Inl 0
         | Inl BadFlags \<Rightarrow> Inl 2
         | Inr (vs, left) \<Rightarrow>
             (let cfg = lookup_default config_path vs ''config''
              in if lookup_default [] vs ''wifi-config'' \<notin> set [[], ''none'', ''read'', ''write''] then Inl 2
                 else if cmd = ''run'' then Inr (Run cfg)
                 else if cmd = ''install'' then Inr (InstallCommand (install_options_of vs))
                 else if cmd = ''join'' then Inr (JoinCommand (join_options_of vs))
                 else if cmd = ''uninstall'' then Inr (UninstallCommand (flag_on ''purge'' vs))
                 else if cmd = ''metrics'' then
                   Inr (Metrics (let c = lookup_default [] vs ''collect'' in if c = [] then [] else split_at (CHR '','') c))
                 else if cmd = ''clients'' then Inr Clients
                 else if cmd = ''info'' then Inr (Info cfg)
                 else if cmd = ''ports'' then Inr Ports
                 else if cmd = ''wifi'' then Inr (WifiCommand cfg left)
                 else if cmd = ''config-guard'' then Inr (ConfigGuard left)
                 else if cmd = ''version'' then Inr Version
                 else if cmd = ''help'' then Inr Help
                 else Inl 2))"

section \<open>What the controller may do with the Wi-Fi\<close>

text \<open>\<open>wifiAccess\<close>: the exit code, the configuration after it, and whether the service was restarted;
  \<open>service\<close>: whether the init script is there, \<open>restarts\<close>: whether it succeeds.\<close>

definition access_flags :: "string \<Rightarrow> string list \<Rightarrow> flag_error + string \<times> string list" where
  "access_flags cfg args =
     (case parse_flags [(''config'', False)] args [] of
        Inl e \<Rightarrow> Inl e
      | Inr (vs, left) \<Rightarrow> Inr (lookup_default cfg vs ''config'', left))"

definition wifi_access ::
  "nat \<Rightarrow> (string \<Rightarrow> url_error + string) \<Rightarrow> string \<Rightarrow> bool \<Rightarrow> bool \<Rightarrow> bool
     \<Rightarrow> string \<Rightarrow> string list \<Rightarrow> (string \<Rightarrow> disk) \<Rightarrow> nat \<times> (string \<Rightarrow> disk) \<times> bool" where
  "wifi_access w norm dflt wr service restarts cfg args disks =
     (case access_flags cfg args of
        Inl _ \<Rightarrow> (2, disks, False)
      | Inr (path, left) \<Rightarrow>
          (case load_disk w norm path (disks path) of
             Inl _ \<Rightarrow> (1, disks, False)
           | Inr c \<Rightarrow>
               (case left of
                  [] \<Rightarrow> (0, disks, False)
                | level # _ \<Rightarrow>
                    if level \<notin> set [''none'', ''read'', ''write''] then (2, disks, False)
                    else
                      (case update dflt wr (disks path) [(''wifi_config'', Some level)] of
                         (Some _, _) \<Rightarrow> (1, disks, False)
                       | (None, d) \<Rightarrow>
                           (if service \<and> \<not> restarts then 1 else 0, disks(path := d), service)))))"

section \<open>The boot guard's command\<close>

text \<open>\<open>configGuardCommand\<close>: its exit code; \<open>guard\<close> is what \<open>RunGuard\<close> of the kit answers, run only without
  arguments: \<open>Inl\<close> it cannot read its state, else the change it restored, if one was pending.\<close>

definition config_guard_command :: "string list \<Rightarrow> 'e + 'r option \<Rightarrow> nat \<times> bool" where
  "config_guard_command args guard =
     (case args of
        a # _ \<Rightarrow> if a \<in> set [''-h'', ''-help'', ''--help'', ''help''] then (0, False) else (2, False)
      | [] \<Rightarrow> (case guard of Inl _ \<Rightarrow> 1 | Inr _ \<Rightarrow> 0, True))"

section \<open>The device the controller is reached over\<close>

text \<open>Addresses as their bytes, four or sixteen; \<open>net.IP.Equal\<close> takes an IPv4 address and its IPv6 form for
  one. What a UDP dial to the controller picks is the environment: the local address and the remote one.\<close>

definition v4_in_v6 :: "nat list" where
  "v4_in_v6 = [0, 0, 0, 0, 0, 0, 0, 0, 0, 0, 255, 255]"

definition ip_equal :: "nat list \<Rightarrow> nat list \<Rightarrow> bool" where
  "ip_equal a b \<longleftrightarrow>
     (if length a = length b then a = b
      else if length a = 4 \<and> length b = 16 then take 12 b = v4_in_v6 \<and> a = drop 12 b
      else if length a = 16 \<and> length b = 4 then take 12 a = v4_in_v6 \<and> drop 12 a = b
      else False)"

definition default_route_dev :: "string \<Rightarrow> string option" where
  "default_route_dev l =
     (let fs = go_fields l
      in if length fs \<ge> 8 \<and> fs ! 1 = ''00000000'' \<and> fs ! 7 = ''00000000'' then Some (hd fs) else None)"

fun first_route :: "string list \<Rightarrow> string" where
  "first_route [] = []"
| "first_route (l # ls) = (case default_route_dev l of Some d \<Rightarrow> d | None \<Rightarrow> first_route ls)"

definition dial_host :: "(string \<Rightarrow> (string \<times> string) option) \<Rightarrow> string \<Rightarrow> (string \<times> string) option" where
  "dial_host url controller =
     (case url controller of
        None \<Rightarrow> None
      | Some (host, port) \<Rightarrow> if host = [] then None else Some (host, if port = [] then ''443'' else port))"

definition route_device ::
  "(string \<Rightarrow> (string \<times> string) option) \<Rightarrow> (string \<times> string \<Rightarrow> (nat list \<times> string) option)
     \<Rightarrow> (string \<times> nat list list) list \<Rightarrow> string list option \<Rightarrow> string \<Rightarrow> string \<times> string" where
  "route_device url dial ifaces routes controller =
     (let reached = (case dial_host url controller of None \<Rightarrow> None | Some hp \<Rightarrow> dial hp);
          addr = (case reached of None \<Rightarrow> [] | Some (_, remote) \<Rightarrow> remote);
          dev = (case reached of
                   None \<Rightarrow> None
                 | Some (local, _) \<Rightarrow> List.find (\<lambda>i. list_ex (\<lambda>a. ip_equal a local) (snd i)) ifaces)
      in (addr, case dev of
                  Some (name, _) \<Rightarrow> name
                | None \<Rightarrow> (case routes of None \<Rightarrow> [] | Some ls \<Rightarrow> first_route ls)))"

section \<open>The read-only Wi-Fi commands\<close>

datatype plane_command = NotHandled | PlaneExit nat | PlaneCaps config | PlaneHealth config | PlaneRead config string "string list"

text \<open>\<open>hex.DecodeString\<close> of 64 digits.\<close>

definition hex_key :: "string \<Rightarrow> bool" where
  "hex_key k \<longleftrightarrow> length k = 64 \<and> list_all (\<lambda>c. hex_val c \<noteq> None) k"

text \<open>\<open>runPlaneWifi\<close>: what it runs on the plane, with which configuration and fleet key; \<open>null\<close> is the
  configuration of an empty file, \<open>builds\<close> whether the plane can be built with one, \<open>files\<close> the key files. Local root may always read.\<close>

definition plane_wifi ::
  "(string \<Rightarrow> config option) \<Rightarrow> config \<Rightarrow> (config \<Rightarrow> bool) \<Rightarrow> (string \<Rightarrow> string option) \<Rightarrow> string \<Rightarrow> string list
     \<Rightarrow> plane_command" where
  "plane_wifi conf null builds files cfg args =
     (case args of
        [] \<Rightarrow> NotHandled
      | sub # rest \<Rightarrow>
          if sub \<notin> set [''caps'', ''read'', ''health''] then NotHandled
          else
            (case parse_flags [(''config'', False), (''fp-key-file'', False)] rest [] of
               Inl _ \<Rightarrow> PlaneExit 2
             | Inr (vs, left) \<Rightarrow>
                 (let c = (case conf (lookup_default cfg vs ''config'') of Some c \<Rightarrow> c | None \<Rightarrow> null);
                      c = (if sub = ''read'' \<and> c_wifi_config c = ''none'' then c\<lparr>c_wifi_config := ''read''\<rparr> else c);
                      key = lookup_default [] vs ''fp-key-file''
                  in if \<not> builds c then PlaneExit 1
                     else if sub = ''caps'' then PlaneCaps c
                     else if sub = ''health'' then PlaneHealth c
                     else if key = [] then PlaneRead c [] left
                     else
                       (case files key of
                          None \<Rightarrow> PlaneExit 1
                        | Some b \<Rightarrow>
                            if hex_key (trim_space b) then PlaneRead c (trim_space b) left else PlaneExit 2))))"

datatype wifi_run = OnPlane plane_command | Access "string list" | WifiHelp | WifiUsage

definition run_wifi ::
  "(string \<Rightarrow> config option) \<Rightarrow> config \<Rightarrow> (config \<Rightarrow> bool) \<Rightarrow> (string \<Rightarrow> string option) \<Rightarrow> string \<Rightarrow> string list
     \<Rightarrow> wifi_run" where
  "run_wifi conf null builds files cfg args =
     (let p = plane_wifi conf null builds files cfg args
      in if p \<noteq> NotHandled then OnPlane p
         else (case args of
             [] \<Rightarrow> WifiUsage
           | sub # rest \<Rightarrow>
               if sub = ''access'' then Access rest
               else if sub \<in> set [''-h'', ''-help'', ''--help'', ''help''] then WifiHelp
               else WifiUsage))"

section \<open>The stations on group VLANs\<close>

text \<open>\<open>strings.LastIndex\<close>.\<close>

fun last_index :: "string \<Rightarrow> string \<Rightarrow> nat option" where
  "last_index sub [] = (if sub = [] then Some 0 else None)"
| "last_index sub (c # s) =
     (case last_index sub s of
        Some i \<Rightarrow> Some (Suc i)
      | None \<Rightarrow> if prefix sub (c # s) then Some 0 else None)"

fun group_digits :: "string \<Rightarrow> nat \<Rightarrow> nat option" where
  "group_digits [] vid = Some vid"
| "group_digits (c # s) vid = (if is_digit c then group_digits s (vid * 10 + digit_val c) else None)"

definition group_vlan_id :: "string \<Rightarrow> nat option" where
  "group_vlan_id name =
     (case last_index ''-g'' name of
        None \<Rightarrow> None
      | Some i \<Rightarrow>
          (let digits = drop (i + 2) name
           in if length digits < 1 \<or> length digits > 4 then None else group_digits digits 0))"

record station_seen =
  ss_mac :: string
  ss_vid :: nat
  ss_ifname :: string



definition group_stations_on :: "wireless_env \<Rightarrow> interface \<Rightarrow> station_seen list" where
  "group_stations_on x i =
     (if if_type i \<noteq> iftype_ap_vlan then []
      else
        (case group_vlan_id (if_name i) of
           None \<Rightarrow> []
         | Some vid \<Rightarrow>
             (case we_stations x (if_index i) of
                None \<Rightarrow> []
              | Some ss \<Rightarrow> map (\<lambda>s. \<lparr>ss_mac = mac_text (sn_mac s), ss_vid = vid, ss_ifname = if_name i\<rparr>) ss)))"

definition group_stations :: "wireless_env \<Rightarrow> wireless_error + station_seen list" where
  "group_stations x =
     (case we_nl x of
        None \<Rightarrow> Inr []
      | Some (Inl e) \<Rightarrow> Inl e
      | Some (Inr ifs) \<Rightarrow> Inr (concat (map (group_stations_on x) ifs)))"

end
