(* ===== verification/CommandsProps.thy ===== *)
theory CommandsProps
  imports Commands InstallProps
begin

text \<open>
  What the commands guarantee: \<open>wifi access\<close> changes what the daemon reads at its next start and nothing else,
  the install options are always in order, and the stations of group VLANs are exactly those on the
  interfaces hostapd names after a group.
\<close>

section \<open>The names of group VLANs\<close>

lemma last_index_app:
  assumes "last_index sub s = Some i"
  shows "last_index sub (r @ s) = Some (length r + i)"
  using assms by (induction r) auto

lemma last_index_none: "last_index sub s = None \<longleftrightarrow> (\<forall>i \<le> length s. \<not> prefix sub (drop i s))"
proof (induction s)
  case (Cons c s)
  have "(\<forall>i \<le> length (c # s). \<not> prefix sub (drop i (c # s)))
      \<longleftrightarrow> \<not> prefix sub (c # s) \<and> (\<forall>i \<le> length s. \<not> prefix sub (drop i s))"
    by (metis (no_types, lifting) Suc_le_mono drop0 drop_Suc_Cons le0 length_Cons not0_implies_Suc)
  with Cons.IH show ?case by (auto split: option.splits)
qed simp

lemma last_index_prefix: "last_index sub s = Some i \<Longrightarrow> prefix sub (drop i s) \<and> i \<le> length s"
  by (induction s arbitrary: i) (auto split: option.splits if_splits)

lemma group_digits_decimal:
  "group_digits s v = (if list_all is_digit s then Some (foldl (\<lambda>a c. 10 * a + digit_val c) v s) else None)"
  by (induction s arbitrary: v) (auto simp: mult.commute)

lemma group_digits_value: "group_digits s 0 = (if list_all is_digit s then Some (decimal_value s) else None)"
  by (simp add: group_digits_decimal decimal_value_def)

lemma digits_no_mark:
  assumes "list_all is_digit ds"
  shows "last_index ''-g'' (''-g'' @ ds) = Some 0"
proof -
  have d: "c \<noteq> CHR ''-''" if "c \<in> set ds" for c
    using assms that by (auto simp: list_all_iff is_digit_def less_eq_char_def)
  have "\<not> prefix ''-g'' (drop i ds)" for i
    using d[OF in_set_dropD, of "CHR ''-''" i] by (auto simp: prefix_def)
  then have "last_index ''-g'' ds = None" by (simp add: last_index_none)
  then show ?thesis by simp
qed

definition group_name :: "string \<Rightarrow> string \<Rightarrow> string" where
  "group_name ifname digits = ifname @ ''-g'' @ digits"

lemma group_vlan_id_iff:
  "group_vlan_id name = Some vid \<longleftrightarrow>
     (\<exists>ifname digits. name = group_name ifname digits \<and> list_all is_digit digits
        \<and> 1 \<le> length digits \<and> length digits \<le> 4 \<and> vid = decimal_value digits)"
proof
  assume "group_vlan_id name = Some vid"
  then obtain i where i: "last_index ''-g'' name = Some i" "1 \<le> length (drop (i + 2) name)"
      "length (drop (i + 2) name) \<le> 4" "group_digits (drop (i + 2) name) 0 = Some vid"
    by (auto simp: group_vlan_id_def Let_def split: option.splits if_splits)
  have "prefix ''-g'' (drop i name)" using last_index_prefix[OF i(1)] by simp
  then have "drop i name = ''-g'' @ drop (i + 2) name"
    by (auto simp: prefix_def) (metis (no_types, lifting) One_nat_def Suc_1 add.commute drop_Suc_Cons drop_drop drop0)
  then have "name = group_name (take i name) (drop (i + 2) name)"
    unfolding group_name_def by (metis append_take_drop_id)
  moreover have "list_all is_digit (drop (i + 2) name) \<and> vid = decimal_value (drop (i + 2) name)"
    using i(4) unfolding group_digits_value by (auto split: if_splits)
  ultimately show "\<exists>ifname digits. name = group_name ifname digits \<and> list_all is_digit digits
        \<and> 1 \<le> length digits \<and> length digits \<le> 4 \<and> vid = decimal_value digits"
    using i(2,3) by blast
next
  assume "\<exists>ifname digits. name = group_name ifname digits \<and> list_all is_digit digits
        \<and> 1 \<le> length digits \<and> length digits \<le> 4 \<and> vid = decimal_value digits"
  then obtain ifname digits where n: "name = ifname @ ''-g'' @ digits" "list_all is_digit digits"
      "1 \<le> length digits" "length digits \<le> 4" "vid = decimal_value digits"
    by (auto simp: group_name_def)
  have "last_index ''-g'' name = Some (length ifname + 0)"
    unfolding n(1) by (rule last_index_app[OF digits_no_mark[OF n(2)]])
  then show "group_vlan_id name = Some vid"
    using n by (auto simp: group_vlan_id_def group_digits_value)
qed

definition seen_on :: "wireless_env \<Rightarrow> interface \<Rightarrow> string \<Rightarrow> bool" where
  "seen_on x i m \<longleftrightarrow>
     (case we_stations x (if_index i) of None \<Rightarrow> False | Some ss \<Rightarrow> list_ex (\<lambda>s. mac_text (sn_mac s) = m) ss)"

lemma in_group_stations_on:
  "e \<in> set (group_stations_on x i) \<longleftrightarrow> if_type i = 4 \<and> ss_ifname e = if_name i
     \<and> group_vlan_id (if_name i) = Some (ss_vid e) \<and> seen_on x i (ss_mac e)"
  by (cases e) (auto simp: seen_on_def group_stations_on_def list_ex_iff split: option.splits)

lemma itoa_length:
  "n < 10 ^ k \<Longrightarrow> 0 < k \<Longrightarrow> length (itoa n) \<le> k"
proof (induction n arbitrary: k rule: itoa.induct)
  case (1 n)
  show ?case
  proof (cases "n < 10")
    case True
    then show ?thesis using 1 by (subst itoa.simps) simp
  next
    case False
    then obtain j where k: "k = Suc j" "0 < j" using 1(2) by (cases k; cases "k - 1") auto
    then have "n div 10 < 10 ^ j" using 1(2) by (simp add: less_mult_imp_div_less)
    then show ?thesis using 1(1)[OF False _ k(2)] False k(1) by (subst itoa.simps) simp
  qed
qed


section \<open>What the controller may do\<close>

lemma access_option:
  assumes "level \<in> set [''none'', ''read'', ''write'']"
  shows "one_line level" "parse_access level = level" "trim_space level = level"
proof -
  have "list_all (\<lambda>l. one_line l \<and> parse_access l = l \<and> trim_space l = l) [''none'', ''read'', ''write'']"
    by code_simp
  then show "one_line level" "parse_access level = level" "trim_space level = level"
    using assms by (auto simp: list_all_iff)
qed

lemma load_other_access:
  assumes "load w norm path f = Inr c"
    and "\<And>k. get f' section_name k = value_after [(''wifi_config'', Some level)] k (get f section_name k)"
    and "\<And>k. get_list f' section_name k = get_list f section_name k"
    and "level \<in> set [''none'', ''read'', ''write'']"
  shows "load w norm path f' = Inr (c\<lparr>c_wifi_config := level\<rparr>)"
proof -
  have o: "opt_value f' k def = (if k = ''wifi_config'' then level else opt_value f k def)" for k def
    using access_option(3)[OF assms(4)] by (simp add: opt_value_def assms(2) value_after_def)
  have l: "wifi_allow_list f' = wifi_allow_list f"
    by (simp add: wifi_allow_list_def assms(3) o cong: if_cong)
  show ?thesis
    using assms(1) access_option(2)[OF assms(4)]
    by (auto simp: load_def Let_def o l assms(3) split: if_splits sum.splits prod.splits)
qed

text \<open>C40: \<open>wifi access\<close> with a level, when it succeeds, writes a configuration that loads as the one before
  with that level and every other setting as it was, and restarts the service if there is one.\<close>

theorem wifi_access_takes:
  assumes "wifi_access w norm dflt wr service restarts cfg args disks = (0, disks', restarted)"
    and "access_flags cfg args = Inr (path, level # rest)" and "disks path = Content d"
    and "clean (parse d)" and "has_section (parse d) ''main''" and "load w norm path (parse d) = Inr c"
  shows "level \<in> set [''none'', ''read'', ''write''] \<and> restarted = service
    \<and> (\<exists>d'. disks' = disks(path := Content d')
         \<and> load_disk w norm path (Content d') = Inr (c\<lparr>c_wifi_config := level\<rparr>))"
proof -
  let ?u = "update dflt wr (Content d) [(''wifi_config'', Some level)]"
  obtain e d1 where u: "?u = (e, d1)" by (cases ?u)
  have run: "level \<in> set [''none'', ''read'', ''write'']" "e = None" "restarted = service" "disks' = disks(path := d1)"
    using assms(1) u unfolding wifi_access_def assms(2) sum.case prod.case assms(3) load_disk_def uci_load.simps assms(6) list.case
    by (auto split: if_splits option.splits)
  have sec: "has_section (parse d) section_name" using assms(5) by (simp add: section_name_def)
  have one: "list_all (\<lambda>kv. case snd kv of None \<Rightarrow> True | Some v \<Rightarrow> one_line v) [(''wifi_config'', Some level)]"
    using access_option(1)[OF run(1)] by simp
  obtain d' where d': "d1 = Content d'"
      "\<And>k. get (parse d') section_name k = value_after [(''wifi_config'', Some level)] k (get (parse d) section_name k)"
      "\<And>k. get_list (parse d') section_name k = get_list (parse d) section_name k"
    by (rule updated_content[OF u[unfolded run(2)] assms(4) sec _ one]) (simp, rule that)
  have "load_disk w norm path (Content d') = Inr (c\<lparr>c_wifi_config := level\<rparr>)"
    using load_other_access[OF assms(6) d'(2,3) run(1)] by (simp add: load_disk_def)
  with run d'(1) show ?thesis by blast
qed

section \<open>A device\<close>

definition group_interface :: interface where
  "group_interface = sample_interface\<lparr>if_name := ''ap0'' @ ''-g'' @ itoa 20, if_type := 4\<rparr>"

definition group_env :: wireless_env where
  "group_env = sample_wireless_env\<lparr>we_nl := Some (Inr [sample_interface, group_interface])\<rparr>"


definition access_run :: "nat \<times> (string \<Rightarrow> disk) \<times> bool" where
  "access_run = wifi_access 32 Inr [] True True True ''p'' [''write''] (\<lambda>_. Content sample_config_file)"

theorem wifi_access_takes_witness:
  "\<exists>c d'. fst (snd access_run) ''p'' = Content d'
     \<and> load_disk 32 Inr ''p'' (Content d') = Inr (c\<lparr>c_wifi_config := ''write''\<rparr>) \<and> c_wifi_config c \<noteq> ''write''"
proof -
  have l: "(case load 32 Inr ''p'' (parse sample_config_file) of Inl _ \<Rightarrow> False | Inr c \<Rightarrow> c_wifi_config c \<noteq> ''write'')"
    by code_simp
  obtain c where c: "load 32 Inr ''p'' (parse sample_config_file) = Inr c" "c_wifi_config c \<noteq> ''write''"
    using l by (auto split: sum.splits)
  have f: "access_flags ''p'' [''write''] = Inr (''p'', ''write'' # [])" by code_simp
  have "fst access_run = 0" by (unfold access_run_def) code_simp
  then obtain disks r where run: "access_run = (0, disks, r)" by (metis prod.collapse)
  have "clean (parse sample_config_file)" "has_section (parse sample_config_file) ''main''" by code_simp+
  from wifi_access_takes[OF run[unfolded access_run_def] f _ this c(1)] obtain d' where
    "disks = (\<lambda>_. Content sample_config_file)(''p'' := Content d')"
    "load_disk 32 Inr ''p'' (Content d') = Inr (c\<lparr>c_wifi_config := ''write''\<rparr>)"
    by auto
  moreover have "fst (snd access_run) = disks" by (simp only: run fst_conv snd_conv)
  ultimately show ?thesis using c(2) by (intro exI[of _ c] exI[of _ d']) simp
qed

end
