(* ===== verification/PlaneService.thy ===== *)
theory PlaneService
  imports Screen GroupsEngine Config
begin

text \<open>
  The Wi-Fi plane as a service of the daemon, the rest of \<open>internal/wifiplane/wifiplane.go\<close>: what \<open>New\<close>
  hands to the kit's plane (\<open>openwrt/plane\<close>, third party), the mode the controller sets for a session, the
  session the plane sends on, and the engine's part in the hello, the capabilities and the reads. The kit's
  plane is a value of any type with the operations of the record \<open>plane_kit\<close>, an argument of every
  definition that uses them; its configuration is opaque, as is its JSON.
\<close>

section \<open>The kit's plane\<close>

record ('p, 'c) plane_kit =
  pk_configure :: "'c \<Rightarrow> 'p \<Rightarrow> 'p"
  pk_off :: 'c
  pk_mode :: "'p \<Rightarrow> string"
  pk_end_session :: "'p \<Rightarrow> 'p"
  pk_start :: "'p \<Rightarrow> 'p"
  pk_configured_access :: "'p \<Rightarrow> access"
  pk_redial_fast :: "'p \<Rightarrow> bool"
  pk_trigger :: "'p \<Rightarrow> 'p"
  pk_record_own :: "string \<Rightarrow> string \<Rightarrow> string \<Rightarrow> 'p \<Rightarrow> 'p"
  pk_methods :: plane_methods

definition mode_off :: string where "mode_off = ''off''"

section \<open>Building it\<close>

text \<open>The daemon's settings for the plane; \<open>ps_lock\<close>: it is given the write lock, \<open>ps_groups\<close>: and the engine.\<close>

record plane_settings =
  ps_access :: access
  ps_allow :: "string list"
  ps_allow_insecure :: bool
  ps_confirm_max :: int
  ps_transport_ok :: bool
  ps_server_url :: string
  ps_lock :: bool
  ps_groups :: bool
  ps_groups_enabled :: bool
  ps_settle_min :: int
  ps_settle_max :: int
  ps_monitor_interval :: int

text \<open>What the kit's plane is built with.\<close>

record kit_options =
  ko_name :: string
  ko_prefix :: string
  ko_state_dir :: string
  ko_run_dir :: string
  ko_access :: access
  ko_allow :: "string list"
  ko_apply_order :: "string list"
  ko_foreign_staged :: "string list"
  ko_allow_insecure :: bool
  ko_confirm_max :: int
  ko_max_secrets :: nat
  ko_transport_ok :: bool
  ko_server_url :: string
  ko_lock :: bool

definition prefix_name :: string where "prefix_name = ''wifi''"
definition state_dir :: string where "state_dir = ''/etc/perch-apd/plane''"
definition run_dir :: string where "run_dir = ''/var/run/perch-apd''"
definition max_secrets :: nat where "max_secrets = 64"

text \<open>Times in milliseconds.\<close>

definition default_settle_min :: int where "default_settle_min = 2000"
definition default_settle_max :: int where "default_settle_max = 30000"
definition default_monitor_interval :: int where "default_monitor_interval = 30000"

definition or_time :: "int \<Rightarrow> int \<Rightarrow> int" where
  "or_time d t = (if t = 0 then d else t)"

definition with_defaults :: "plane_settings \<Rightarrow> plane_settings" where
  "with_defaults s =
     s\<lparr>ps_settle_min := or_time default_settle_min (ps_settle_min s),
       ps_settle_max := or_time default_settle_max (ps_settle_max s),
       ps_monitor_interval := or_time default_monitor_interval (ps_monitor_interval s)\<rparr>"

definition kit_options_of :: "bool \<Rightarrow> plane_settings \<Rightarrow> kit_options" where
  "kit_options_of openwrt s =
     \<lparr>ko_name = ''perch-apd'', ko_prefix = prefix_name, ko_state_dir = state_dir, ko_run_dir = run_dir,
      ko_access = effective_access openwrt (ps_access s), ko_allow = kept_configs (ps_allow s),
      ko_apply_order = [''network'', ''wireless''], ko_foreign_staged = [''network'', ''wireless''],
      ko_allow_insecure = ps_allow_insecure s, ko_confirm_max = ps_confirm_max s, ko_max_secrets = max_secrets,
      ko_transport_ok = ps_transport_ok s, ko_server_url = ps_server_url s, ko_lock = ps_lock s\<rparr>"

text \<open>The service: \<open>sv_sessions\<close> says which session a request came on, \<open>sv_sends\<close> whether a notification can go
  out; neither is there before \<open>Session\<close>.\<close>

record ('p, 'x) service =
  sv_plane :: 'p
  sv_settings :: plane_settings
  sv_openwrt :: bool
  sv_sessions :: "('x \<Rightarrow> nat \<times> string) option"
  sv_sends :: "(string \<Rightarrow> bool) option"
  sv_last_mode :: string

text \<open>\<open>New\<close>: \<open>build\<close> is the kit's, which may refuse the options; \<open>on_openwrt\<close> the override of a test.\<close>

definition new_service ::
  "(kit_options \<Rightarrow> 'e + 'p) \<Rightarrow> bool \<Rightarrow> bool option \<Rightarrow> plane_settings \<Rightarrow> 'e + ('p, 'x) service" where
  "new_service build release on_openwrt s =
     (let openwrt = (case on_openwrt of Some b \<Rightarrow> b | None \<Rightarrow> release)
      in case build (kit_options_of openwrt s) of
           Inl e \<Rightarrow> Inl e
         | Inr p \<Rightarrow> Inr \<lparr>sv_plane = p, sv_settings = with_defaults s, sv_openwrt = openwrt,
                         sv_sessions = None, sv_sends = None, sv_last_mode = []\<rparr>)"

section \<open>Its life\<close>

text \<open>\<open>Start\<close>: with write access the boot guard is put in place, then the kit resumes what a restart
  interrupted. The guard's outcome is only logged: applies are screened for it.\<close>

definition start_service ::
  "('p, 'c) plane_kit \<Rightarrow> string \<Rightarrow> guard_env \<Rightarrow> guard_files \<Rightarrow> ('p, 'x) service \<Rightarrow> guard_files \<times> ('p, 'x) service" where
  "start_service K script v f s =
     (if pk_configured_access K (sv_plane s) = AccessWrite \<and> sv_openwrt s then fst (ensure_guard script v f) else f,
      s\<lparr>sv_plane := pk_start K (sv_plane s)\<rparr>)"

definition wire_session ::
  "('x \<Rightarrow> nat \<times> string) \<Rightarrow> (string \<Rightarrow> bool) \<Rightarrow> ('p, 'x) service \<Rightarrow> ('p, 'x) service" where
  "wire_session sessions sends s = s\<lparr>sv_sessions := Some sessions, sv_sends := Some sends\<rparr>"

definition notify :: "string \<Rightarrow> ('p, 'x) service \<Rightarrow> bool" where
  "notify meth s = (case sv_sends s of None \<Rightarrow> False | Some sends \<Rightarrow> sends meth)"

definition session_of :: "'x \<Rightarrow> ('p, 'x) service \<Rightarrow> nat \<times> string" where
  "session_of ctx s = (case sv_sessions s of None \<Rightarrow> (0, []) | Some f \<Rightarrow> f ctx)"

text \<open>\<open>Configure\<close>: \<open>json.Unmarshal\<close> of the params answers whether it failed and the \<open>wifiConfig\<close> block it has
  filled in, an error or not; no block is mode off. The first result: whether a new mode is logged.\<close>

definition configure ::
  "('p, 'c) plane_kit \<Rightarrow> (string \<Rightarrow> bool \<times> 'c option) \<Rightarrow> string \<Rightarrow> ('p, 'x) service \<Rightarrow> bool \<times> ('p, 'x) service" where
  "configure K decode params s =
     (let c = (case (if params = [] then None else snd (decode params)) of None \<Rightarrow> pk_off K | Some c \<Rightarrow> c);
          p = pk_configure K c (sv_plane s);
          mode = pk_mode K p
      in (mode \<noteq> sv_last_mode s, s\<lparr>sv_plane := p, sv_last_mode := mode\<rparr>))"

definition end_service_session :: "('p, 'c) plane_kit \<Rightarrow> ('p, 'x) service \<Rightarrow> ('p, 'x) service" where
  "end_service_session K s = s\<lparr>sv_plane := pk_end_session K (sv_plane s), sv_last_mode := mode_off\<rparr>"

definition redial_fast :: "('p, 'c) plane_kit \<Rightarrow> ('p, 'x) service \<Rightarrow> bool" where
  "redial_fast K s = pk_redial_fast K (sv_plane s)"

definition trigger :: "('p, 'c) plane_kit \<Rightarrow> ('p, 'x) service \<Rightarrow> ('p, 'x) service" where
  "trigger K s = s\<lparr>sv_plane := pk_trigger K (sv_plane s)\<rparr>"

text \<open>\<open>GroupsWrote\<close>: each configuration the engine wrote, with its hash.\<close>

definition groups_wrote ::
  "('p, 'c) plane_kit \<Rightarrow> string \<Rightarrow> (string \<times> string) list \<Rightarrow> ('p, 'x) service \<Rightarrow> ('p, 'x) service" where
  "groups_wrote K ident hashes s =
     s\<lparr>sv_plane := fold (\<lambda>(config, hash). pk_record_own K config hash ident) hashes (sv_plane s)\<rparr>"

section \<open>The engine in what it tells\<close>

definition engine_pending :: "gsys option \<Rightarrow> bool option" where
  "engine_pending g = map_option (\<lambda>g. gs_pending (g_st g) \<noteq> None) g"

record 'h hello =
  he_kit :: 'h
  he_allow_insecure :: bool
  he_groups :: groups_hello

definition hello_of :: "(string \<Rightarrow> 'h) \<Rightarrow> gsys option \<Rightarrow> 'x \<Rightarrow> ('p, 'x) service \<Rightarrow> 'h hello" where
  "hello_of kit_hello g ctx s =
     \<lparr>he_kit = kit_hello (snd (session_of ctx s)), he_allow_insecure = ps_allow_insecure (sv_settings s),
      he_groups = groups_hello_of (engine_pending g) (ps_groups_enabled (sv_settings s))\<rparr>"

record groups_caps =
  gc_hello :: groups_hello
  gc_applied :: int
  gc_owned :: "string list"

definition groups_caps_of :: "site \<Rightarrow> env \<Rightarrow> gsys option \<Rightarrow> bool \<Rightarrow> groups_caps" where
  "groups_caps_of D x g on =
     \<lparr>gc_hello = groups_hello_of (engine_pending g) on,
      gc_applied = (case g of None \<Rightarrow> 0 | Some g \<Rightarrow> sv_applied (state_of D x g)),
      gc_owned = (case g of None \<Rightarrow> [] | Some g \<Rightarrow> ov_sections (owned D x g))\<rparr>"

text \<open>\<open>Capabilities\<close>: the kit's part and the facts; the firmware and the package manager are the kit's.\<close>

record ('k, 'f) plane_caps =
  pc_kit :: 'k
  pc_facts :: 'f
  pc_guard :: guard_state
  pc_groups :: groups_caps

definition capabilities_of ::
  "(string \<Rightarrow> 'k) \<Rightarrow> 'f \<Rightarrow> guard_state \<Rightarrow> site \<Rightarrow> env \<Rightarrow> gsys option \<Rightarrow> string \<Rightarrow> ('p, 'x) service \<Rightarrow> ('k, 'f) plane_caps" where
  "capabilities_of kit_caps facts guard D x g challenge s =
     \<lparr>pc_kit = kit_caps challenge, pc_facts = facts, pc_guard = guard,
      pc_groups = groups_caps_of D x g (ps_groups_enabled (sv_settings s))\<rparr>"

text \<open>\<open>Read\<close>: the kit's answer with the sections whose \<open>dynamic_vlan\<close> is the engine's, as of before it.\<close>

definition read_configs ::
  "(string list \<Rightarrow> 'e + 'r) \<Rightarrow> site \<Rightarrow> env \<Rightarrow> gsys option \<Rightarrow> string list \<Rightarrow> 'e + 'r \<times> string list" where
  "read_configs kit_read D x g configs =
     (let dyn = (case g of None \<Rightarrow> [] | Some g \<Rightarrow> ov_dynamic (owned D x g))
      in case kit_read configs of Inl e \<Rightarrow> Inl e | Inr r \<Rightarrow> Inr (r, dyn))"

section \<open>The mode\<close>

text \<open>What the daemon relies on of the kit: the end of a session turns the plane off, and neither a reload nor
  a write of the engine changes its mode.\<close>

definition modes_ok :: "('p, 'c) plane_kit \<Rightarrow> bool" where
  "modes_ok K \<longleftrightarrow> (\<forall>p. pk_mode K (pk_end_session K p) = mode_off)
     \<and> (\<forall>p. pk_mode K (pk_trigger K p) = pk_mode K p)
     \<and> (\<forall>p c h i. pk_mode K (pk_record_own K c h i p) = pk_mode K p)"

datatype service_event = Configured string | SessionEnded | Reloaded | EngineWrote string "(string \<times> string) list"

fun service_step ::
  "('p, 'c) plane_kit \<Rightarrow> (string \<Rightarrow> bool \<times> 'c option) \<Rightarrow> service_event \<Rightarrow> ('p, 'x) service \<Rightarrow> ('p, 'x) service" where
  "service_step K dec (Configured params) s = snd (configure K dec params s)"
| "service_step K dec SessionEnded s = end_service_session K s"
| "service_step K dec Reloaded s = trigger K s"
| "service_step K dec (EngineWrote i hs) s = groups_wrote K i hs s"

definition mode_known :: "('p, 'c) plane_kit \<Rightarrow> ('p, 'x) service \<Rightarrow> bool" where
  "mode_known K s \<longleftrightarrow> sv_last_mode s = pk_mode K (sv_plane s)"

lemma recorded_mode:
  "modes_ok K \<Longrightarrow> pk_mode K (fold (\<lambda>(config, hash). pk_record_own K config hash i) hs p) = pk_mode K p"
  by (induction hs arbitrary: p) (auto simp: modes_ok_def)

lemma step_mode_known:
  "modes_ok K \<Longrightarrow> mode_known K s \<or> ev = SessionEnded \<or> (\<exists>params. ev = Configured params)
     \<Longrightarrow> mode_known K (service_step K dec ev s)"
  by (cases ev)
    (auto simp: mode_known_def configure_def Let_def end_service_session_def trigger_def groups_wrote_def
      recorded_mode modes_ok_def)

text \<open>From the first configure on, the mode the service goes by (and logs a change of) is the plane's.\<close>

theorem mode_followed:
  assumes "modes_ok K"
  shows "mode_known K (fold (service_step K dec) evs (snd (configure K dec params s)))"
proof (rule fold_keeps[where I = "mode_known K"])
  show "mode_known K (snd (configure K dec params s))"
    by (simp add: mode_known_def configure_def Let_def)
qed (use assms step_mode_known in blast)

text \<open>The log says of params that do not decode that the mode is off. Go fills in what it can of them and then
  reports the error, so a block with one field of another type still sets the mode of the rest.\<close>

definition sample_plane_kit :: "(string, string) plane_kit" where
  "sample_plane_kit =
     \<lparr>pk_configure = (\<lambda>c p. c), pk_off = mode_off, pk_mode = (\<lambda>p. p), pk_end_session = (\<lambda>p. mode_off),
      pk_start = (\<lambda>p. p), pk_configured_access = (\<lambda>p. AccessWrite), pk_redial_fast = (\<lambda>p. False),
      pk_trigger = (\<lambda>p. p), pk_record_own = (\<lambda>c h i p. p),
      pk_methods = \<lparr>pm_read = [], pm_apply = [], pm_confirm = [], pm_rollback = [], pm_ack = []\<rparr>\<rparr>"

theorem bad_block_not_off:
  "sv_last_mode (snd (configure sample_plane_kit (\<lambda>_. (True, Some ''managed'')) ''x'' s)) = ''managed''"
  by (simp add: configure_def sample_plane_kit_def Let_def)

end
