(* ===== verification/Daemon.thy ===== *)
theory Daemon
  imports PlaneService Commands Handlers Writers
begin

text \<open>
  The daemon itself, \<open>runDaemon\<close> in \<open>cmd/perch-apd/main.go\<close> with \<open>planeOptions\<close>, \<open>newWifiPlane\<close> (\<open>plane.go\<close>) and
  \<open>newUpdater\<close> (\<open>update.go\<close>): what a configuration starts and in which order, what the handlers are given,
  and what each writer may do. The order is compared with the start of the three writers in \<open>Writers\<close>,
  so what is shown there of their windows holds for the daemon as it starts.
\<close>

section \<open>Settings\<close>

text \<open>\<open>oneProc\<close>: \<open>w\<close> is the width of an int, \<open>gomaxprocs\<close> the environment's variable.\<close>

definition one_proc :: "nat \<Rightarrow> string \<Rightarrow> bool" where
  "one_proc w gomaxprocs \<longleftrightarrow> w = 32 \<and> gomaxprocs = []"

datatype log_level = LevelDebug | LevelInfo | LevelWarn | LevelError

definition log_level_of :: "string \<Rightarrow> log_level" where
  "log_level_of s =
     (let l = to_lower s
      in if l = ''debug'' then LevelDebug
         else if l = ''warn'' \<or> l = ''warning'' then LevelWarn
         else if l = ''error'' then LevelError
         else LevelInfo)"

definition port_names :: "string list option \<Rightarrow> string" where
  "port_names ports =
     (case ports of
        None \<Rightarrow> ''unreadable''
      | Some ns \<Rightarrow> if ns = [] then ''none'' else join '','' ns)"

definition access_of :: "string \<Rightarrow> access" where
  "access_of s = (if s = ''write'' then AccessWrite else if s = ''read'' then AccessRead else AccessNone)"

definition groups_refusal :: "config \<Rightarrow> string" where
  "groups_refusal c =
     (if \<not> prefix ''https://'' (c_controller c) \<and> \<not> c_wifi_groups_insecure c
      then ''device groups over a plain http:// controller need option wifi_groups_insecure '' @ CHR 0x27 # ''1'' @ [CHR 0x27]
      else [])"

text \<open>\<open>planeOptions\<close>: \<open>engine\<close>: there is an engine, \<open>refusal\<close>: why the controller may not use it.\<close>

definition plane_options :: "config \<Rightarrow> bool \<Rightarrow> string \<Rightarrow> plane_settings" where
  "plane_options c engine refusal =
     \<lparr>ps_access = access_of (c_wifi_config c), ps_allow = c_wifi_config_allow c,
      ps_allow_insecure = c_wifi_config_insecure c, ps_confirm_max = c_wifi_config_confirm_max c,
      ps_transport_ok = transport_verified c, ps_server_url = c_controller c, ps_lock = True,
      ps_groups = engine, ps_groups_enabled = (engine \<and> refusal = []),
      ps_settle_min = 0, ps_settle_max = 0, ps_monitor_interval = 0\<rparr>"

section \<open>What is wired\<close>

record ('p, 'x) wiring =
  wi_ports :: bool
  wi_engine :: "gsys option"
  wi_refusal :: string
  wi_plane :: "('p, 'x) service option"
  wi_update :: bool

text \<open>What the device answers: the engine if it starts, the kit's plane, the HTTP client and the updater, the
  session's agent, and whether it is OpenWrt.\<close>

record ('e, 'p) daemon_env =
  de_engine :: "gsys option"
  de_build :: "kit_options \<Rightarrow> 'e + 'p"
  de_release :: bool
  de_client :: bool
  de_updater :: bool
  de_agent :: bool
  de_width :: nat
  de_gomaxprocs :: string
  de_gomemlimit :: string

definition new_updater :: "('e, 'p) daemon_env \<Rightarrow> bool" where
  "new_updater v \<longleftrightarrow> de_client v \<and> de_updater v"

definition new_wifi_plane :: "('e, 'p) daemon_env \<Rightarrow> config \<Rightarrow> bool \<Rightarrow> string \<Rightarrow> ('p, 'x) service option" where
  "new_wifi_plane v c engine refusal =
     (case new_service (de_build v) (de_release v) None (plane_options c engine refusal) of
        Inl _ \<Rightarrow> None | Inr s \<Rightarrow> Some s)"

definition wire :: "('e, 'p) daemon_env \<Rightarrow> config \<Rightarrow> ('p, 'x) wiring" where
  "wire v c =
     (let engine = (if c_wifi_groups c then de_engine v else None);
          refusal = (if engine \<noteq> None then groups_refusal c else [])
      in \<lparr>wi_ports = c_ports c, wi_engine = engine, wi_refusal = refusal,
          wi_plane = new_wifi_plane v c (engine \<noteq> None) refusal, wi_update = new_updater v\<rparr>)"

text \<open>The handlers' part of it; \<open>methods\<close> are the plane's.\<close>

definition wired_deps :: "('p, 'x) wiring \<Rightarrow> string list \<Rightarrow> string \<times> string list \<Rightarrow> 's deps \<Rightarrow> 's deps" where
  "wired_deps g methods upd D =
     D\<lparr>dp_ports := (if wi_ports g then dp_ports D else None), dp_refusal := wi_refusal g,
       dp_wifi := (if wi_plane g \<noteq> None then Some methods else None),
       dp_update := (if wi_update g then Some upd else None)\<rparr>"

section \<open>The start\<close>

datatype start_step =
    LimitMemory | OneProcessor | RecoverLeds | StartUpdater | StartGroups | StartPlane | ServeMethods
  | WaitIdle | RunPlane | WaitForProbation | RunAgent

text \<open>The steps up to serving: limits, LEDs, and the writers. A writer resumes its window when it starts.\<close>

definition prepare_steps :: "('e, 'p) daemon_env \<Rightarrow> ('p, 'x) wiring \<Rightarrow> start_step list" where
  "prepare_steps v g =
     (if de_gomemlimit v = [] then [LimitMemory] else [])
     @ (if one_proc (de_width v) (de_gomaxprocs v) then [OneProcessor] else [])
     @ [RecoverLeds]
     @ (if wi_update g then [StartUpdater] else [])
     @ (if wi_engine g \<noteq> None then [StartGroups] else [])
     @ (if wi_plane g \<noteq> None then [StartPlane] else [])
     @ [ServeMethods]"

definition session_steps :: "('p, 'x) wiring \<Rightarrow> start_step list" where
  "session_steps g =
     (if wi_plane g \<noteq> None then [RunPlane] else []) @ (if wi_update g then [WaitForProbation] else []) @ [RunAgent]"

text \<open>\<open>runDaemon\<close>: the exit code once it is told to stop (or at once), what it did, and what it wired.\<close>

definition run_daemon_steps ::
  "('e, 'p) daemon_env \<Rightarrow> config_error + config \<Rightarrow> nat \<times> start_step list \<times> ('p, 'x) wiring option" where
  "run_daemon_steps v loaded =
     (case loaded of
        Inl _ \<Rightarrow> (1, [], None)
      | Inr c \<Rightarrow>
          if \<not> c_enabled c then (0, [], None)
          else
            (let g = wire v c
             in if c_controller c = [] then (0, prepare_steps v g @ [WaitIdle], Some g)
                else if \<not> de_agent v then (1, prepare_steps v g, Some g)
                else (0, prepare_steps v g @ session_steps g, Some g)))"

text \<open>What the writers' steps do to the access point.\<close>

definition fresh_process :: "ap \<Rightarrow> ap" where
  "fresh_process a = a\<lparr>ap_engine := new_engine (ap_engine a), ap_plane_hold := None, ap_update_hold := None\<rparr>"

fun do_step :: "env \<Rightarrow> string \<Rightarrow> bool \<Rightarrow> start_step \<Rightarrow> ap \<Rightarrow> ap" where
  "do_step x ident resumed StartUpdater a = put_update (startup (ap_plan a) (x_now x) (update_view a)) a"
| "do_step x ident resumed StartGroups a = a\<lparr>ap_engine := start x (ap_engine a)\<rparr>"
| "do_step x ident resumed StartPlane a = start_plane ident (x_now x) resumed a"
| "do_step x ident resumed _ a = a"

section \<open>The commands that only look\<close>

text \<open>\<open>info\<close> shows what the daemon would: with a configuration that loads, no ports if it turns them off, the
  plane and the updater if they can be built; without one, the defaults.\<close>

definition cli_wifi_plane :: "('e, 'p) daemon_env \<Rightarrow> config \<Rightarrow> bool" where
  "cli_wifi_plane v c \<longleftrightarrow> (case de_build v (kit_options_of (de_release v) (plane_options c False [])) of Inl _ \<Rightarrow> False | Inr _ \<Rightarrow> True)"

definition cli_updater :: "('e, 'p) daemon_env \<Rightarrow> bool" where
  "cli_updater v = de_updater v"

definition info_deps ::
  "('e, 'p) daemon_env \<Rightarrow> config_error + config \<Rightarrow> string list \<Rightarrow> string \<times> string list \<Rightarrow> 's deps \<Rightarrow> 's deps" where
  "info_deps v loaded methods upd D =
     (case loaded of
        Inl _ \<Rightarrow> D
      | Inr c \<Rightarrow>
          D\<lparr>dp_ports := (if c_ports c then dp_ports D else None),
            dp_wifi := (if cli_wifi_plane v c then Some methods else dp_wifi D),
            dp_update := (if cli_updater v then Some upd else dp_update D)\<rparr>)"

section \<open>A command's exit code\<close>

text \<open>What the commands of other parts end with: the daemon, the \<open>wifi\<close> and \<open>config-guard\<close> commands; whether the
  clients and the ports can be listed.\<close>

record command_env =
  ce_install :: inst_env
  ce_clients :: bool
  ce_ports :: bool
  ce_daemon :: nat
  ce_wifi :: nat
  ce_guard :: nat

definition failed :: "'e + 'a \<Rightarrow> nat" where
  "failed r = (case r of Inl _ \<Rightarrow> 1 | Inr _ \<Rightarrow> 0)"

fun run_command :: "command_env \<Rightarrow> command \<Rightarrow> machine \<Rightarrow> nat \<times> machine" where
  "run_command E (Run cfg) m = (ce_daemon E, m)"
| "run_command E (InstallCommand o1) m = (let (r, m1) = install_command (ce_install E) o1 m in (failed r, m1))"
| "run_command E (JoinCommand o1) m = (let (r, m1) = join_command (ce_install E) o1 m in (failed r, m1))"
| "run_command E (UninstallCommand purge) m = (let (r, m1) = uninstall (ce_install E) purge m in (failed r, m1))"
| "run_command E (Metrics names) m = (0, m)"
| "run_command E Clients m = (if ce_clients E then 0 else 1, m)"
| "run_command E (Info cfg) m = (0, m)"
| "run_command E Ports m = (if ce_ports E then 0 else 1, m)"
| "run_command E (WifiCommand cfg left) m = (ce_wifi E, m)"
| "run_command E (ConfigGuard left) m = (ce_guard E, m)"
| "run_command E Version m = (0, m)"
| "run_command E Help m = (0, m)"

definition run_main :: "command_env \<Rightarrow> string list \<Rightarrow> machine \<Rightarrow> nat \<times> machine" where
  "run_main E args m = (case command_of args of Inl n \<Rightarrow> (n, m) | Inr c \<Rightarrow> run_command E c m)"

end
