(* ===== verification/DaemonProps.thy ===== *)
theory DaemonProps
  imports Daemon CommandsProps HandlersProps
begin

text \<open>
  The daemon's start: its steps come in order whatever the configuration, they are the start of the writers
  that \<open>Writers\<close> reasons about, and what the configuration does not allow the controller cannot do.
\<close>

section \<open>The order\<close>

fun step_rank :: "start_step \<Rightarrow> nat" where
  "step_rank LimitMemory = 0"
| "step_rank OneProcessor = 1"
| "step_rank RecoverLeds = 2"
| "step_rank StartUpdater = 3"
| "step_rank StartGroups = 4"
| "step_rank StartPlane = 5"
| "step_rank ServeMethods = 6"
| "step_rank WaitIdle = 7"
| "step_rank RunPlane = 8"
| "step_rank WaitForProbation = 9"
| "step_rank RunAgent = 10"

lemma step_rank_inject: "step_rank a = step_rank b \<Longrightarrow> a = b"
  by (cases a; cases b) simp_all

text \<open>The steps are ordered by their rank, so that the library's facts on sorted lists apply.\<close>

instantiation start_step :: linorder
begin

definition less_eq_start_step :: "start_step \<Rightarrow> start_step \<Rightarrow> bool" where
  "less_eq_start_step a b \<longleftrightarrow> step_rank a \<le> step_rank b"

definition less_start_step :: "start_step \<Rightarrow> start_step \<Rightarrow> bool" where
  "less_start_step a b \<longleftrightarrow> step_rank a < step_rank b"

instance
  by standard (auto simp: less_eq_start_step_def less_start_step_def intro: step_rank_inject)

end

lemma prepare_steps_early: "s \<in> set (prepare_steps v g) \<Longrightarrow> s \<le> ServeMethods"
  by (auto simp: prepare_steps_def less_eq_start_step_def split: if_splits)

lemma session_steps_late: "s \<in> set (session_steps g) \<Longrightarrow> WaitIdle < s"
  by (auto simp: session_steps_def less_start_step_def split: if_splits)

lemma prepare_in_order: "sorted_wrt (<) (prepare_steps v g)"
  by (simp add: prepare_steps_def sorted_wrt_append less_start_step_def)

lemma session_in_order: "sorted_wrt (<) (session_steps g)"
  by (simp add: session_steps_def less_start_step_def)

lemma early_late: "s \<le> ServeMethods \<Longrightarrow> WaitIdle < t \<Longrightarrow> s < t" "s \<le> ServeMethods \<Longrightarrow> s < WaitIdle"
  by (simp_all add: less_eq_start_step_def less_start_step_def)

lemma whole_in_order: "sorted_wrt (<) (prepare_steps v g @ session_steps g)"
  by (auto simp: sorted_wrt_append prepare_in_order session_in_order
      intro: early_late(1)[OF prepare_steps_early session_steps_late])

lemma idle_in_order: "sorted_wrt (<) (prepare_steps v g @ [WaitIdle])"
  by (auto simp: sorted_wrt_append prepare_in_order intro: early_late(2)[OF prepare_steps_early])

lemma agent_not_prepared: "RunAgent \<notin> set (prepare_steps v g)"
  using prepare_steps_early[of RunAgent] by (auto simp: less_eq_start_step_def)

lemma agent_in_session: "RunAgent \<in> set (session_steps g)"
  by (simp add: session_steps_def)

text \<open>the daemon dials exactly when its configuration loads, is enabled and names a controller and the
  session can be built; and whatever it starts comes in order: the updater takes the write lock first, then
  the groups engine and the Wi-Fi plane resume their windows, and only then the methods are served and the
  controller is dialed.\<close>

theorem start_in_order:
  "sorted_wrt (<) (fst (snd (run_daemon_steps v loaded)))
   \<and> (RunAgent \<in> set (fst (snd (run_daemon_steps v loaded)))
      \<longleftrightarrow> (\<exists>c. loaded = Inr c \<and> c_enabled c \<and> c_controller c \<noteq> [] \<and> de_agent v))"
proof (cases loaded)
  case (Inl e)
  then show ?thesis by (simp add: run_daemon_steps_def)
next
  case (Inr c)
  show ?thesis
    by (simp add: run_daemon_steps_def Inr Let_def whole_in_order prepare_in_order idle_in_order agent_not_prepared
        agent_in_session)
qed

section \<open>The writers\<close>

lemma session_steps_idle: "fold (do_step x ident resumed) (session_steps g) a = a"
  by (simp add: session_steps_def)


section \<open>The owner decides\<close>


text \<open>The groups engine over a controller that is not https, unless the owner allows it.\<close>

lemma wired_refusal:
  assumes "\<not> prefix ''https://'' (c_controller c)" and "\<not> c_wifi_groups_insecure c"
    and "g = wire v c" and "wi_engine g \<noteq> None"
  shows "wi_refusal g \<noteq> []"
  using assms by (auto simp: wire_def Let_def groups_refusal_def)

text \<open>with a controller that is not https and without option \<open>wifi_groups_insecure\<close>, the controller can
  neither apply nor confirm device groups: both are refused, nothing of the device changes, and the
  capability is not told.\<close>

theorem insecure_groups_refused:
  assumes "\<not> prefix ''https://'' (c_controller c)" and "\<not> c_wifi_groups_insecure c"
    and "g = wire v c" and "wi_engine g = dv_engine s" and "D = wired_deps g ms upd D0"
  shows "(\<exists>e. groups_apply D p s = (Inl e, s)) \<and> (\<exists>e. groups_confirm D q s = (Inl e, s))
    \<and> (if dv_engine s \<noteq> None then dp_refusal D \<noteq> [] else dp_refusal D = [])"
proof -
  have r: "dp_refusal D = wi_refusal g" by (simp add: assms(5) wired_deps_def)
  have "dp_refusal D \<noteq> []" if "dv_engine s \<noteq> None"
    using wired_refusal[OF assms(1-3)] that assms(4) r by simp
  moreover have "dp_refusal D = []" if "dv_engine s = None"
    using that assms(3,4) r by (auto simp: wire_def Let_def split: if_splits)
  ultimately show ?thesis
    by (cases "dv_engine s") (simp_all add: groups_apply_def groups_confirm_def groups_enabled_def)
qed

section \<open>A window left open\<close>

lemma plane_keeps_engine:
  "g_st (ap_engine (start_plane i t r a)) = g_st (ap_engine a)
   \<and> g_wireless (ap_engine (start_plane i t r a)) = g_wireless (ap_engine a)
   \<and> g_network (ap_engine (start_plane i t r a)) = g_network (ap_engine a)
   \<and> g_timer (ap_engine (start_plane i t r a)) = g_timer (ap_engine a)"
  by (simp add: start_plane_def put_plane_def with_lock_def)

lemma wire_off: "\<not> c_wifi_groups c \<Longrightarrow> wi_engine (wire v c) = None"
  by (simp add: wire_def Let_def)

text \<open>With option \<open>wifi_groups\<close> off, a change of the groups that waits for its confirm when the daemon starts
  is never undone: no engine is started, so nothing rolls it back, its window passed or not.\<close>

theorem groups_off_keeps_change:
  assumes "\<not> c_wifi_groups c"
  shows "let a1 = fold (do_step x ident resumed) (prepare_steps v (wire v c)) (fresh_process a) in
    gs_pending (g_st (ap_engine a1)) = gs_pending (g_st (new_engine (ap_engine a)))
    \<and> g_wireless (ap_engine a1) = g_wireless (ap_engine a) \<and> g_network (ap_engine a1) = g_network (ap_engine a)
    \<and> g_timer (ap_engine a1) = None"
  by (simp add: wire_off[OF assms] prepare_steps_def Let_def plane_keeps_engine put_update_def with_lock_def
      fresh_process_def new_engine_def)

section \<open>A daemon\<close>

definition sample_daemon :: "(unit, string) daemon_env" where
  "sample_daemon =
     \<lparr>de_engine = Some sample_start, de_build = (\<lambda>_. Inr mode_off), de_release = True, de_client = True,
      de_updater = True, de_agent = True, de_width = 32, de_gomaxprocs = [], de_gomemlimit = []\<rparr>"

definition sample_http :: config where
  "sample_http = empty_config\<lparr>c_enabled := True, c_controller := ''http://ap'', c_wifi_groups := True\<rparr>"

definition sample_wiring :: "(string, unit) wiring" where
  "sample_wiring = wire sample_daemon sample_http"

lemma sample_wired:
  "wi_engine sample_wiring = Some sample_start" "wi_plane sample_wiring \<noteq> None" "wi_update sample_wiring"
  by (simp_all add: sample_wiring_def wire_def Let_def sample_http_def sample_daemon_def new_wifi_plane_def
      new_service_def new_updater_def)



definition sample_group_device :: "unit device" where
  "sample_group_device = sample_device\<lparr>dv_engine := Some sample_start\<rparr>"

theorem insecure_groups_refused_witness:
  "\<exists>e. groups_apply (wired_deps sample_wiring [] ([], []) sample_deps) None sample_group_device
     = (Inl e, sample_group_device)"
proof -
  have "\<not> prefix ''https://'' (c_controller sample_http)" "\<not> c_wifi_groups_insecure sample_http"
    by (simp_all add: sample_http_def empty_config_def)
  moreover have "wi_engine sample_wiring = dv_engine sample_group_device"
    by (simp add: sample_wired(1) sample_group_device_def)
  ultimately show ?thesis
    using insecure_groups_refused[OF _ _ sample_wiring_def] by blast
qed

end
