(* ===== verification/Polling.thy ===== *)
theory Polling
  imports Prelude
begin

text \<open>
  The loops that look at something until it is as they wait for, pausing between looks: a look ends the
  wait (with how it ended) or not, and the deadline is one of the ends. The bound on the number of looks
  comes from the clock going on by the pause.
\<close>

text \<open>\<open>n\<close> looks at most, from the \<open>k\<close>-th on: the look the wait ended at, and how.\<close>

fun poll :: "(nat \<Rightarrow> 'e option) \<Rightarrow> nat \<Rightarrow> nat \<Rightarrow> (nat \<times> 'e) option" where
  "poll check 0 k = None"
| "poll check (Suc n) k = (case check k of Some e \<Rightarrow> Some (k, e) | None \<Rightarrow> poll check n (Suc k))"

lemma poll_sound:
  "poll check n k = Some (j, e) \<Longrightarrow> k \<le> j \<and> j < k + n \<and> check j = Some e \<and> (\<forall>i. k \<le> i \<and> i < j \<longrightarrow> check i = None)"
proof (induction n arbitrary: k)
  case (Suc n)
  show ?case
  proof (cases "check k")
    case None
    then have "Suc k \<le> j \<and> j < Suc k + n \<and> check j = Some e \<and> (\<forall>i. Suc k \<le> i \<and> i < j \<longrightarrow> check i = None)"
      using Suc.IH[of "Suc k"] Suc.prems by simp
    then show ?thesis using None by (metis Suc_leD add_Suc_shift le_antisym not_less_eq_eq)
  next
    case (Some e')
    then show ?thesis using Suc.prems by auto
  qed
qed simp

lemma poll_returns:
  assumes "check (k + n) \<noteq> None"
  shows "poll check (Suc n) k \<noteq> None"
  using assms
proof (induction n arbitrary: k)
  case (Suc n)
  then show ?case using Suc.IH[of "Suc k"] by (simp split: option.split)
qed (simp split: option.split)

lemma clock_goes_on:
  fixes now :: "nat \<Rightarrow> int"
  assumes "\<And>k. now k + pause \<le> now (Suc k)"
  shows "now 0 + pause * int k \<le> now k"
proof (induction k)
  case (Suc k)
  then show ?case using assms[of k] by (simp add: algebra_simps)
qed simp

text \<open>What a wait relies on of a look: past the deadline, a look ends the wait. Then, the clock going on by the pause,
  it ends, with as many looks as pauses fit in it and two more.\<close>

locale timed_wait =
  fixes check :: "(nat \<Rightarrow> 'l) \<Rightarrow> int \<Rightarrow> nat \<Rightarrow> 'e option"
    and time :: "'l \<Rightarrow> int"
  assumes late: "deadline < time (ls k) \<Longrightarrow> check ls deadline k \<noteq> None"
begin

lemma ends_in_time:
  assumes "\<And>k. time (ls k) + pause \<le> time (ls (Suc k))" and "start \<le> time (ls 0)" and "0 \<le> limit" and "0 < pause"
  obtains j e where "poll (check ls (start + limit)) (nat (limit div pause) + 2) 0 = Some (j, e)"
    and "j \<le> nat (limit div pause) + 1" and "check ls (start + limit) j = Some e"
    and "\<And>i. i < j \<Longrightarrow> check ls (start + limit) i = None"
proof -
  let ?n = "nat (limit div pause) + 1" and ?c = "check ls (start + limit)"
  have "limit < pause * (limit div pause + 1)"
    using pos_mod_bound[OF assms(4), of limit] mult_div_mod_eq[of pause limit] distrib_left[of pause "limit div pause" 1]
    by linarith
  then have "limit < pause * int ?n"
    using assms(3,4) by (simp add: pos_imp_zdiv_nonneg_iff add.commute)
  then have "start + limit < time (ls (0 + ?n))"
    using clock_goes_on[of "\<lambda>k. time (ls k)" pause ?n] assms(1,2) by simp
  then have "poll ?c (Suc ?n) 0 \<noteq> None" by (intro poll_returns late)
  then obtain j e where r: "poll ?c (Suc ?n) 0 = Some (j, e)" by auto
  show thesis by (rule that[of j e]) (use r poll_sound[OF r] in auto)
qed

end

end
