(* ===== verification/UpdateTarget.thy ===== *)
theory UpdateTarget
  imports Updates Screen Config Polling
begin

text \<open>
  The rest of \<open>internal/update/update.go\<close>: what perch-apd tells the kit's updater about itself (\<open>Target\<close>, \<open>New\<close>),
  the guard it keeps in place, and the wait of a new version for its probation before it dials. The kit
  (third party) is the comparison of versions, its phases, and what it makes of a target. With
  \<open>internal/version\<close>, which names the version and the architecture.
\<close>

section \<open>The version\<close>

definition arch_of :: "string \<Rightarrow> string \<Rightarrow> string" where
  "arch_of goarch goarm = (if goarch = ''arm'' then ''arm'' @ goarm else goarch)"

definition user_agent :: "string \<Rightarrow> string \<Rightarrow> string \<Rightarrow> string" where
  "user_agent version goos arch = ''perch-apd/'' @ version @ '' ('' @ goos @ ''/'' @ arch @ '')''"

section \<open>The target\<close>

text \<open>\<open>SelfInstalledScript\<close> of this package, byte slices as the code appends them.\<close>

definition index_byte :: "char \<Rightarrow> string \<Rightarrow> int" where
  "index_byte c s = (case find_index (\<lambda>x. x = c) s of Some i \<Rightarrow> int i | None \<Rightarrow> -1)"

definition own_script :: "string \<Rightarrow> string" where
  "own_script script =
     (let i = index_byte line_feed script
      in take (nat (i + 1)) script @ (self_installed_line @ [line_feed]) @ drop (nat (i + 1)) script)"

definition keeps_own :: "string \<Rightarrow> bool" where
  "keeps_own script \<longleftrightarrow> contains self_installed_line script"

text \<open>The two writers of the guard, this package and the Wi-Fi plane, write the same file.\<close>

lemma own_script_agrees: "own_script script = self_installed_script script"
  by (simp add: own_script_def self_installed_script_def index_byte_def Let_def nat_add_distrib split: option.split)

record update_target =
  ut_product :: string
  ut_service :: string
  ut_program :: string
  ut_version :: string
  ut_arch :: string
  ut_candidates :: "string list"
  ut_packages :: "string list"
  ut_state_dir :: string
  ut_run_dir :: string
  ut_guard_init :: string
  ut_guard_link :: string
  ut_guard_content :: string
  ut_file_allow :: "string list"
  ut_stores :: "string list"
  ut_enabled :: bool
  ut_extra_keys :: "string list"
  ut_tls_insecure :: bool
  ut_ca_file :: string
  ut_root :: string

definition update_state_dir :: string where "update_state_dir = ''/etc/perch-apd/update''"
definition update_run_dir :: string where "update_run_dir = ''/tmp/perch-update/perch-apd''"
definition guard_path :: string where "guard_path = ''/etc/init.d/perch-apd-guard''"
definition guard_rc :: string where "guard_rc = ''/etc/rc.d/S15perch-apd-guard''"

text \<open>\<open>guardContent\<close> with the device's guard.\<close>

definition guard_kept :: "string \<Rightarrow> string option \<Rightarrow> string" where
  "guard_kept script installed = guard_content script (own_script script) installed"

text \<open>\<open>product\<close> and the rollback stores are the kit's names.\<close>

definition target_of ::
  "string \<Rightarrow> string list \<Rightarrow> string \<Rightarrow> string \<Rightarrow> string \<Rightarrow> string option \<Rightarrow> config \<Rightarrow> string \<Rightarrow> update_target" where
  "target_of product stores version arch script installed c root =
     \<lparr>ut_product = product, ut_service = ''perch-apd'', ut_program = ''perch-apd'', ut_version = version, ut_arch = arch,
      ut_candidates = [''/usr/bin/perch-apd'', ''/opt/perch-apd/perch-apd''], ut_packages = [''perch-apd''],
      ut_state_dir = update_state_dir, ut_run_dir = update_run_dir, ut_guard_init = guard_path, ut_guard_link = guard_rc,
      ut_guard_content = guard_kept script installed,
      ut_file_allow = [''/etc/init.d/perch-apd'', guard_path, ''/lib/upgrade/keep.d/perch-apd''],
      ut_stores = stores, ut_enabled = c_self_update c, ut_extra_keys = c_update_keys c,
      ut_tls_insecure = c_tls_insecure c, ut_ca_file = c_ca_file c, ut_root = root\<rparr>"

text \<open>\<open>New\<close>: the updater over the lock it is given, or one of its own; times in milliseconds.\<close>

record built_updater =
  bu_updater :: updater
  bu_state_dir :: string
  bu_version :: string
  bu_poll :: int

definition new_updater_of ::
  "(update_target \<Rightarrow> string \<Rightarrow> bool) \<Rightarrow> update_target \<Rightarrow> lock option \<Rightarrow> int \<Rightarrow> string \<Rightarrow> built_updater option" where
  "new_updater_of kit_new t lk every controller =
     (if kit_new t controller then
        Some \<lparr>bu_updater = \<lparr>up_lock = (case lk of None \<Rightarrow> new_lock | Some l \<Rightarrow> l), up_hold = None\<rparr>,
              bu_state_dir = ut_state_dir t, bu_version = ut_version t, bu_poll = (if every \<le> 0 then 2000 else every)\<rparr>
      else None)"

text \<open>The RPC: params that do not decode are refused before the lock is asked for.\<close>

definition rpc_install :: "string option \<Rightarrow> int \<Rightarrow> bool \<Rightarrow> updater \<Rightarrow> install_outcome option \<times> updater" where
  "rpc_install p now ok u =
     (case p of
        None \<Rightarrow> (None, u)
      | Some ident \<Rightarrow> (let (r, u1) = install ident now ok u in (Some r, u1)))"

section \<open>The wait for probation\<close>

record plan_view =
  pv_phase :: string
  pv_to :: string

text \<open>One look of \<open>WaitProbation\<close>: the plan on disk, the clock, and whether the daemon is told to stop during
  the pause after it.\<close>

record look =
  lk_plan :: "plan_view option"
  lk_now :: int
  lk_stopped :: bool

datatype probation_end = Ready | DeadlinePassed | Interrupted

text \<open>\<open>installing\<close> is the kit's name of that phase.\<close>

definition still_installing ::
  "string \<Rightarrow> (string \<Rightarrow> string \<Rightarrow> int) \<Rightarrow> (string \<Rightarrow> bool) \<Rightarrow> string \<Rightarrow> plan_view option \<Rightarrow> bool" where
  "still_installing installing compare known version p =
     (case p of
        None \<Rightarrow> False
      | Some f \<Rightarrow> pv_phase f = installing \<and> compare (pv_to f) version = 0 \<and> known version)"

definition probation_check :: "(plan_view option \<Rightarrow> bool) \<Rightarrow> (nat \<Rightarrow> look) \<Rightarrow> int \<Rightarrow> nat \<Rightarrow> probation_end option" where
  "probation_check waits ls deadline k =
     (if \<not> waits (lk_plan (ls k)) then Some Ready
      else if lk_now (ls k) > deadline then Some DeadlinePassed
      else if lk_stopped (ls k) then Some Interrupted
      else None)"

text \<open>\<open>n\<close> looks at most: the look the wait ended at, and how.\<close>

definition wait_probation ::
  "(plan_view option \<Rightarrow> bool) \<Rightarrow> (nat \<Rightarrow> look) \<Rightarrow> int \<Rightarrow> nat \<Rightarrow> (nat \<times> probation_end) option" where
  "wait_probation waits ls deadline n = poll (probation_check waits ls deadline) n 0"

interpretation probation: timed_wait "probation_check waits" lk_now for waits
  by unfold_locales (simp add: probation_check_def)

text \<open>C36: a new version always dials. Whatever the plan on disk says and however long, with a wait of at most
  \<open>limit\<close> milliseconds from \<open>start\<close> the wait ends within \<open>limit div 250 + 2\<close> looks; it ends ready exactly when the
  plan is no longer installing this version, and gives up only past the deadline.\<close>

theorem wait_probation_ends:
  assumes "\<And>k. lk_now (ls k) + 250 \<le> lk_now (ls (Suc k))" and "start \<le> lk_now (ls 0)" and "0 \<le> limit"
    and "waits = still_installing installing compare known version"
  shows "\<exists>j e. wait_probation waits ls (start + limit) (nat (limit div 250) + 2) = Some (j, e)
    \<and> j \<le> nat (limit div 250) + 1
    \<and> (\<forall>i < j. waits (lk_plan (ls i))) \<and> (e = Ready \<longleftrightarrow> \<not> waits (lk_plan (ls j)))
    \<and> (e = DeadlinePassed \<longrightarrow> start + limit < lk_now (ls j))"
proof -
  let ?c = "probation_check waits ls (start + limit)"
  obtain j e where r: "poll ?c (nat (limit div 250) + 2) 0 = Some (j, e)" "j \<le> nat (limit div 250) + 1"
      "?c j = Some e" "\<And>i. i < j \<Longrightarrow> ?c i = None"
    by (rule probation.ends_in_time[of ls 250 start limit]) (use assms(1-3) in auto)
  have "waits (lk_plan (ls i))" if "i < j" for i
    using r(4)[OF that] by (auto simp: probation_check_def split: if_splits)
  moreover have "(e = Ready \<longleftrightarrow> \<not> waits (lk_plan (ls j))) \<and> (e = DeadlinePassed \<longrightarrow> start + limit < lk_now (ls j))"
    using r(3) by (auto simp: probation_check_def split: if_splits)
  ultimately show ?thesis using r(1,2) by (auto simp: wait_probation_def)
qed

text \<open>A version whose watchdog never puts the plan in probation dials after a minute.\<close>

definition stuck_looks :: "nat \<Rightarrow> look" where
  "stuck_looks k = \<lparr>lk_plan = Some \<lparr>pv_phase = ''installing'', pv_to = ''1.2.0''\<rparr>, lk_now = 300 * int k, lk_stopped = False\<rparr>"

theorem wait_probation_ends_witness:
  "\<exists>j e. wait_probation (still_installing ''installing'' (\<lambda>a b. if a = b then 0 else 1) (\<lambda>_. True) ''1.2.0'')
       stuck_looks 60000 242 = Some (j, e) \<and> e \<noteq> Ready"
proof -
  let ?w = "still_installing ''installing'' (\<lambda>a b. if a = b then 0 else 1) (\<lambda>_. True) ''1.2.0''"
  have w: "?w (lk_plan (stuck_looks j))" for j by (simp add: still_installing_def stuck_looks_def)
  have "lk_now (stuck_looks k) + 250 \<le> lk_now (stuck_looks (Suc k))" for k by (simp add: stuck_looks_def)
  moreover have "(0 :: int) \<le> lk_now (stuck_looks 0)" by (simp add: stuck_looks_def)
  ultimately have "\<exists>j e. wait_probation ?w stuck_looks (0 + 60000) (nat (60000 div 250) + 2) = Some (j, e)
      \<and> (e = Ready \<longleftrightarrow> \<not> ?w (lk_plan (stuck_looks j)))"
    using wait_probation_ends[of stuck_looks 0 60000 ?w] by (metis zero_le_numeral)
  then show ?thesis using w by simp
qed

end
