(* ===== verification/Pushing.thy ===== *)
theory Pushing
  imports Session Push Collect
begin

text \<open>
  The pushes of a session, the rest of \<open>session\<close> in \<open>internal/agent/agent.go\<close>: what a notification of the
  controller changes, and what one push sends. When pushes happen is the link module's schedule, to which
  the intervals are offered; the frame is that of \<open>Push\<close>, the text that of \<open>Collect\<close>.
\<close>

section \<open>A session's pushes\<close>

record 'i push_session =
  qs_collectors :: "string list"
  qs_offers :: "'i list"
  qs_configured :: "string list"

definition fresh_session :: "'i push_session" where
  "fresh_session = \<lparr>qs_collectors = default_collectors, qs_offers = [], qs_configured = []\<rparr>"

text \<open>\<open>OnNotification\<close>: the Wi-Fi plane sees the params of every configure; the schedule and the collectors
  change only if they decode. \<open>listens\<close>: there is a plane.\<close>

definition on_notification ::
  "(string \<Rightarrow> 'e + ('f option \<times> string list)) \<Rightarrow> ('f \<Rightarrow> 'i) \<Rightarrow> 'i \<Rightarrow> bool \<Rightarrow> string \<times> string \<Rightarrow> 'i push_session
     \<Rightarrow> 'i push_session" where
  "on_notification dec secs dflt listens m s =
     (if fst m \<noteq> ''agent.configure'' then s
      else
        (let s1 = (if listens then s\<lparr>qs_configured := qs_configured s @ [snd m]\<rparr> else s)
         in case parse_configure dec secs dflt (snd m) of
              Inl _ \<Rightarrow> s1
            | Inr c \<Rightarrow> s1\<lparr>qs_collectors := pc_collectors c, qs_offers := qs_offers s1 @ [pc_interval c]\<rparr>))"

text \<open>One push: the text of the collectors in force, and the ports if the daemon reports them.\<close>

definition push_now ::
  "push_env \<Rightarrow> push_state \<Rightarrow> ('p list \<Rightarrow> string option) \<Rightarrow> 'p list option option \<Rightarrow> string \<Rightarrow> int \<Rightarrow> nat
     \<Rightarrow> 'i push_session \<Rightarrow> string" where
  "push_now E st enc ports stamp took seqno s =
     push_params enc (gather E (qs_collectors s) st) stamp took seqno
       (case ports of None \<Rightarrow> None | Some ps \<Rightarrow> ps)"

section \<open>What decides a push\<close>

text \<open>The last configure that decodes.\<close>

definition last_config ::
  "(string \<Rightarrow> 'e + ('f option \<times> string list)) \<Rightarrow> ('f \<Rightarrow> 'i) \<Rightarrow> 'i \<Rightarrow> (string \<times> string) list \<Rightarrow> 'i push_config option" where
  "last_config dec secs dflt ms =
     (case List.find (\<lambda>m. fst m = ''agent.configure'' \<and> (case parse_configure dec secs dflt (snd m) of Inl _ \<Rightarrow> False | Inr _ \<Rightarrow> True)) (rev ms) of
        None \<Rightarrow> None
      | Some m \<Rightarrow> (case parse_configure dec secs dflt (snd m) of Inl _ \<Rightarrow> None | Inr c \<Rightarrow> Some c))"

lemma last_config_snoc:
  "last_config dec secs dflt (ms @ [m]) =
     (case parse_configure dec secs dflt (snd m) of
        Inl _ \<Rightarrow> last_config dec secs dflt ms
      | Inr c \<Rightarrow> if fst m = ''agent.configure'' then Some c else last_config dec secs dflt ms)"
  by (simp add: last_config_def split: sum.split)

lemma on_notification_fields:
  "qs_collectors (on_notification dec secs dflt listens m s) =
     (if fst m = ''agent.configure''
      then (case parse_configure dec secs dflt (snd m) of Inl _ \<Rightarrow> qs_collectors s | Inr c \<Rightarrow> pc_collectors c)
      else qs_collectors s)"
  "qs_offers (on_notification dec secs dflt listens m s) =
     (if fst m = ''agent.configure''
      then (case parse_configure dec secs dflt (snd m) of Inl _ \<Rightarrow> qs_offers s | Inr c \<Rightarrow> qs_offers s @ [pc_interval c])
      else qs_offers s)"
  "qs_configured (on_notification dec secs dflt listens m s) =
     (if fst m = ''agent.configure'' \<and> listens then qs_configured s @ [snd m] else qs_configured s)"
  by (simp_all add: on_notification_def Let_def split: sum.split)

text \<open>After any notifications, the collectors are those of the last configure that decodes, the default ones
  before it; other notifications and broken ones change nothing, but the plane is given each configure.\<close>

theorem pushes_follow_configure:
  "let s = fold (on_notification dec secs dflt listens) ms fresh_session in
     qs_collectors s = (case last_config dec secs dflt ms of None \<Rightarrow> default_collectors | Some c \<Rightarrow> pc_collectors c)
     \<and> (if qs_offers s = [] then None else Some (last (qs_offers s))) = map_option pc_interval (last_config dec secs dflt ms)
     \<and> qs_configured s = (if listens then map snd (filter (\<lambda>m. fst m = ''agent.configure'') ms) else [])"
proof (induction ms rule: rev_induct)
  case Nil
  then show ?case by (simp add: fresh_session_def last_config_def)
next
  case (snoc m ms)
  show ?case
    using snoc.IH
    by (cases "parse_configure dec secs dflt (snd m)"; cases "fst m = ''agent.configure''"; cases listens)
      (auto simp: Let_def on_notification_fields last_config_snoc split: if_splits)
qed

end
