(* ===== verification/AtomicWrite.thy ===== *)
theory AtomicWrite
  imports Prelude
begin

text \<open>
  The files the daemon replaces whole: \<open>WriteFile\<close> of \<open>internal/uci/uci.go\<close> (its configuration),
  \<open>writeFileAtomic\<close> and \<open>copyFile\<close> of \<open>internal/install/install.go\<close>, and the \<open>writeAtomic\<close> of
  \<open>internal/groups/engine.go\<close> and of \<open>internal/wifiplane/guard.go\<close>. Each writes a temporary file beside the
  target and renames it. A directory maps names to contents and modes; each system call is one step, which
  may fail, a write after any number of bytes, and the process may be cut off after any step or within a
  write. The umask, and what of a file survives the loss of power, are not modelled.
\<close>

section \<open>Steps\<close>

type_synonym directory = "string \<Rightarrow> (string \<times> nat) option"

text \<open>\<open>Open m\<close>: the temporary file, created with mode \<open>m\<close> or emptied.\<close>

datatype fstep = MakeDir | Open nat | Write string | SetMode nat | Flush | Shut | Rename

definition mode_in :: "directory \<Rightarrow> string \<Rightarrow> nat \<Rightarrow> nat" where
  "mode_in d p m = (case d p of Some (_, m') \<Rightarrow> m' | None \<Rightarrow> m)"

definition text_in :: "directory \<Rightarrow> string \<Rightarrow> string" where
  "text_in d p = (case d p of Some (b, _) \<Rightarrow> b | None \<Rightarrow> [])"

fun effect :: "string \<Rightarrow> string \<Rightarrow> fstep \<Rightarrow> directory \<Rightarrow> directory" where
  "effect path tmp (Open m) d = d(tmp \<mapsto> ([], mode_in d tmp m))"
| "effect path tmp (Write b) d = d(tmp \<mapsto> (b, mode_in d tmp 0))"
| "effect path tmp (SetMode m) d = d(tmp \<mapsto> (text_in d tmp, m))"
| "effect path tmp Rename d = d(path := d tmp, tmp := None)"
| "effect path tmp _ d = d"

text \<open>A step that fails: a write may have written some of it.\<close>

fun failed_effect :: "string \<Rightarrow> nat \<Rightarrow> fstep \<Rightarrow> directory \<Rightarrow> directory" where
  "failed_effect tmp n (Write b) d = d(tmp \<mapsto> (take n b, mode_in d tmp 0))"
| "failed_effect tmp n _ d = d"

text \<open>The states the process can be cut off in, when the steps succeed.\<close>

fun cut_off :: "string \<Rightarrow> string \<Rightarrow> fstep list \<Rightarrow> directory \<Rightarrow> directory list" where
  "cut_off path tmp [] d = [d]"
| "cut_off path tmp (s # ss) d =
     d # (case s of Write b \<Rightarrow> map (\<lambda>n. failed_effect tmp n s d) [0..<length b] | _ \<Rightarrow> [])
     @ cut_off path tmp ss (effect path tmp s d)"

text \<open>A run: \<open>ok\<close> says which steps succeed, \<open>n\<close> how much of a failed write is written. After a failure the
  temporary file goes, if it was opened; \<open>deferred\<close>: also when the rename is what failed.\<close>

fun run_fsteps ::
  "(fstep \<Rightarrow> bool) \<Rightarrow> nat \<Rightarrow> bool \<Rightarrow> string \<Rightarrow> string \<Rightarrow> fstep list \<Rightarrow> directory \<Rightarrow> bool \<times> directory" where
  "run_fsteps ok n deferred path tmp [] d = (True, d)"
| "run_fsteps ok n deferred path tmp (s # ss) d =
     (if ok s then run_fsteps ok n deferred path tmp ss (effect path tmp s d)
      else
        (False,
         case s of
           MakeDir \<Rightarrow> d
         | Open _ \<Rightarrow> d
         | Rename \<Rightarrow> if deferred then d(tmp := None) else d
         | _ \<Rightarrow> (failed_effect tmp n s d)(tmp := None)))"

section \<open>The writers\<close>

definition temp_name :: "string \<Rightarrow> string \<Rightarrow> string \<Rightarrow> string" where
  "temp_name dir base k = dir @ ''/.'' @ base @ ''.tmp-'' @ k"

definition perch_temp :: "string \<Rightarrow> string" where
  "perch_temp path = path @ ''.perch-tmp''"

text \<open>\<open>WriteFile\<close>: the mode of the file that is there, else \<open>perm\<close>; \<open>CreateTemp\<close> makes the file with 0600.\<close>

definition uci_write_steps :: "nat \<Rightarrow> string \<Rightarrow> directory \<Rightarrow> string \<Rightarrow> fstep list" where
  "uci_write_steps perm data d path =
     [MakeDir, Open 384, Write data, SetMode (mode_in d path perm), Flush, Shut, Rename]"

definition install_write_steps :: "nat \<Rightarrow> string \<Rightarrow> fstep list" where
  "install_write_steps perm data = [MakeDir, Open 384, Write data, SetMode perm, Shut, Rename]"

definition copy_steps :: "nat \<Rightarrow> string \<Rightarrow> fstep list" where
  "copy_steps perm data = [Open 384, Write data, SetMode perm, Flush, Shut, Rename]"

definition groups_write_steps :: "nat \<Rightarrow> string \<Rightarrow> fstep list" where
  "groups_write_steps perm data = [Open perm, Write data, Flush, Shut, Rename]"

definition guard_write_steps :: "nat \<Rightarrow> string \<Rightarrow> fstep list" where
  "guard_write_steps perm data = [MakeDir, Open perm, Write data, Flush, Shut, SetMode perm, Rename]"

section \<open>Replacing a file\<close>

text \<open>Steps before the rename touch nothing but the temporary file.\<close>

definition aside :: "string \<Rightarrow> directory \<Rightarrow> directory \<Rightarrow> bool" where
  "aside tmp d d' \<longleftrightarrow> (\<forall>p. p \<noteq> tmp \<longrightarrow> d' p = d p)"

lemma aside_refl [simp]: "aside tmp d d"
  by (simp add: aside_def)

lemma aside_trans: "aside tmp d e \<Longrightarrow> aside tmp e f \<Longrightarrow> aside tmp d f"
  by (simp add: aside_def)

lemma aside_upd: "aside tmp d e \<Longrightarrow> aside tmp d (e(tmp := v))"
  by (simp add: aside_def)

lemma effect_aside: "s \<noteq> Rename \<Longrightarrow> aside tmp d (effect path tmp s d)"
  by (cases s) (auto simp: aside_def)

lemma failed_effect_aside: "aside tmp d (failed_effect tmp n s d)"
  by (cases s) (auto simp: aside_def)

definition effects :: "string \<Rightarrow> string \<Rightarrow> fstep list \<Rightarrow> directory \<Rightarrow> directory" where
  "effects path tmp ss d = fold (effect path tmp) ss d"

lemma effects_aside: "Rename \<notin> set ss \<Longrightarrow> aside tmp d (effects path tmp ss d)"
proof (induction ss arbitrary: d)
  case (Cons s ss)
  then show ?case
    using aside_trans[OF effect_aside[of s tmp d path]] by (auto simp: effects_def)
qed (simp add: effects_def)

definition whole :: "string \<Rightarrow> string \<Rightarrow> directory \<Rightarrow> string \<times> nat \<Rightarrow> directory \<Rightarrow> bool" where
  "whole path tmp d new d' \<longleftrightarrow>
     (d' path = d path \<or> d' path = Some new) \<and> (\<forall>p. p \<noteq> path \<and> p \<noteq> tmp \<longrightarrow> d' p = d p)"

lemma aside_whole: "aside tmp d d' \<Longrightarrow> tmp \<noteq> path \<Longrightarrow> whole path tmp d new d'"
  by (simp add: aside_def whole_def)

lemma renamed_whole:
  "aside tmp d e \<Longrightarrow> e tmp = Some new \<Longrightarrow> tmp \<noteq> path \<Longrightarrow> whole path tmp d new (e(path := e tmp, tmp := None))"
  by (simp add: aside_def whole_def)

lemma cut_off_whole:
  assumes "Rename \<notin> set ss" and "tmp \<noteq> path" and "effects path tmp ss e tmp = Some new" and "aside tmp d e"
  shows "list_all (whole path tmp d new) (cut_off path tmp (ss @ [Rename]) e)"
  using assms
proof (induction ss arbitrary: e)
  case Nil
  then have new: "e tmp = Some new" by (simp add: effects_def)
  then have "whole path tmp d new (e(path \<mapsto> new, tmp := None))"
    using renamed_whole[OF Nil.prems(4) new Nil.prems(2)] by simp
  then show ?case using Nil new by (simp add: aside_whole del: fun_upd_apply)
next
  case (Cons s ss)
  have "aside tmp d (effect path tmp s e)"
    using aside_trans[OF Cons.prems(4) effect_aside[of s tmp e path]] Cons.prems(1) by auto
  then have "list_all (whole path tmp d new) (cut_off path tmp (ss @ [Rename]) (effect path tmp s e))"
    using Cons by (simp add: effects_def)
  moreover have "whole path tmp d new (failed_effect tmp n s e)" for n
    using aside_whole[OF aside_trans[OF Cons.prems(4) failed_effect_aside]] Cons.prems(2) by blast
  moreover have "whole path tmp d new e" using aside_whole[OF Cons.prems(4,2)] .
  ultimately show ?case by (cases s) (auto simp: list_all_iff)
qed

lemma run_whole:
  assumes "Rename \<notin> set ss" and "tmp \<noteq> path" and "effects path tmp ss e tmp = Some new" and "aside tmp d e"
  shows "case run_fsteps ok n deferred path tmp (ss @ [Rename]) e of
    (True, d') \<Rightarrow> d' = d(path \<mapsto> new, tmp := None) | (False, d') \<Rightarrow> aside tmp d d'"
  using assms
proof (induction ss arbitrary: e)
  case Nil
  have "e(path := e tmp, tmp := None) = d(path \<mapsto> new, tmp := None)"
    using Nil by (auto simp: aside_def effects_def fun_eq_iff)
  then show ?case using Nil by (simp add: aside_upd)
next
  case (Cons s ss)
  show ?case
  proof (cases "ok s")
    case True
    have "aside tmp d (effect path tmp s e)"
      using aside_trans[OF Cons.prems(4) effect_aside[of s tmp e path]] Cons.prems(1) by auto
    then show ?thesis using Cons True by (simp add: effects_def)
  next
    case False
    have "aside tmp d (failed_effect tmp n s e)"
      using aside_trans[OF Cons.prems(4) failed_effect_aside] .
    then show ?thesis
      using False Cons.prems(1,4) by (cases s) (simp_all add: aside_upd)
  qed
qed

definition replaces :: "string \<Rightarrow> string \<Rightarrow> bool \<Rightarrow> string \<times> nat \<Rightarrow> fstep list \<Rightarrow> directory \<Rightarrow> bool" where
  "replaces path tmp deferred new ss d \<longleftrightarrow>
     list_all (whole path tmp d new) (cut_off path tmp ss d)
     \<and> (\<forall>ok n. case run_fsteps ok n deferred path tmp ss d of
           (True, d') \<Rightarrow> d' = d(path \<mapsto> new, tmp := None)
         | (False, d') \<Rightarrow> aside tmp d d')"

lemma replacesI:
  assumes "Rename \<notin> set ss" and "tmp \<noteq> path" and "effects path tmp ss d tmp = Some new"
  shows "replaces path tmp deferred new (ss @ [Rename]) d"
  unfolding replaces_def
  by (intro conjI allI cut_off_whole[OF assms aside_refl] run_whole[OF assms aside_refl])

lemma temp_names: "temp_name dir base k \<noteq> dir @ ''/'' @ base" "perch_temp path \<noteq> path"
proof -
  have "length (temp_name dir base k) > length (dir @ ''/'' @ base)" by (simp add: temp_name_def)
  then show "temp_name dir base k \<noteq> dir @ ''/'' @ base" by auto
  show "perch_temp path \<noteq> path" by (simp add: perch_temp_def)
qed

text \<open>C14: whatever step fails and wherever the process is cut off, the file a writer replaces holds its old
  content and mode or the whole new content with the new mode, and nothing but it and its temporary file
  changes; a write that says it succeeded has replaced the file and leaves no temporary file, and one
  that failed has changed nothing else.\<close>

theorem writers_replace:
  "replaces (dir @ ''/'' @ base) (temp_name dir base k) True (data, mode_in d (dir @ ''/'' @ base) perm)
     (uci_write_steps perm data d (dir @ ''/'' @ base)) d
   \<and> replaces (dir @ ''/'' @ base) (temp_name dir base k) True (data, perm) (install_write_steps perm data) d
   \<and> replaces (dir @ ''/'' @ base) (temp_name dir base k) True (data, perm) (copy_steps perm data) d
   \<and> replaces path (perch_temp path) False (data, mode_in d (perch_temp path) perm) (groups_write_steps perm data) d
   \<and> replaces path (perch_temp path) False (data, perm) (guard_write_steps perm data) d"
proof -
  let ?p = "dir @ ''/'' @ base" and ?t = "temp_name dir base k" and ?q = "perch_temp path"
  note n = temp_names(1)[of dir base k] temp_names(2)[of path]
  have "replaces ?p ?t True (data, mode_in d ?p perm)
      ([MakeDir, Open 384, Write data, SetMode (mode_in d ?p perm), Flush, Shut] @ [Rename]) d"
    by (rule replacesI) (use n in \<open>simp_all add: effects_def text_in_def\<close>)
  moreover have "replaces ?p ?t True (data, perm) ([MakeDir, Open 384, Write data, SetMode perm, Shut] @ [Rename]) d"
    by (rule replacesI) (use n in \<open>simp_all add: effects_def text_in_def\<close>)
  moreover have "replaces ?p ?t True (data, perm) ([Open 384, Write data, SetMode perm, Flush, Shut] @ [Rename]) d"
    by (rule replacesI) (use n in \<open>simp_all add: effects_def text_in_def\<close>)
  moreover have "replaces path ?q False (data, mode_in d ?q perm) ([Open perm, Write data, Flush, Shut] @ [Rename]) d"
    by (rule replacesI) (use n in \<open>simp_all add: effects_def mode_in_def\<close>)
  moreover have "replaces path ?q False (data, perm) ([MakeDir, Open perm, Write data, Flush, Shut, SetMode perm] @ [Rename]) d"
    by (rule replacesI) (use n in \<open>simp_all add: effects_def text_in_def\<close>)
  ultimately show ?thesis
    by (simp add: uci_write_steps_def install_write_steps_def copy_steps_def groups_write_steps_def guard_write_steps_def)
qed

end
