(* ===== verification/Settle.thy ===== *)
theory Settle
  imports Polling
begin

text \<open>
  The wait for netifd after a commit, \<open>settle\<close> and \<open>interfacesPending\<close> of \<open>internal/wifiplane/health.go\<close>: it
  looks every half second whether a radio or an interface is still being set up. What ubus answers at a
  look, and the clock, are the environment; times are in milliseconds.
\<close>

text \<open>The pending flags of the radios and of the interfaces; \<open>None\<close>: ubus does not answer.\<close>

record settle_look =
  sk_now :: int
  sk_radios :: "bool list option"
  sk_interfaces :: "bool list option"
  sk_stopped :: bool

datatype settle_end = Settled | SettleTimeout | SettleStopped

definition interfaces_pending :: "settle_look \<Rightarrow> bool" where
  "interfaces_pending l = (case sk_interfaces l of None \<Rightarrow> False | Some ps \<Rightarrow> list_ex (\<lambda>b. b) ps)"

definition settle_check :: "(nat \<Rightarrow> settle_look) \<Rightarrow> int \<Rightarrow> nat \<Rightarrow> settle_end option" where
  "settle_check ls deadline k =
     (if \<not> sk_now (ls k) < deadline then Some SettleTimeout
      else
        (case sk_radios (ls k) of
           None \<Rightarrow> Some Settled
         | Some rs \<Rightarrow>
             if \<not> (list_ex (\<lambda>b. b) rs \<or> interfaces_pending (ls k)) then Some Settled
             else if sk_stopped (ls k) then Some SettleStopped
             else None))"

text \<open>\<open>settle\<close>: \<open>stopped\<close> during the first wait, which gives procd the time to run its trigger; \<open>n\<close> looks at
  most, \<open>start\<close> the time after it. Only a wait that was stopped is an error.\<close>

definition settle :: "bool \<Rightarrow> (nat \<Rightarrow> settle_look) \<Rightarrow> int \<Rightarrow> int \<Rightarrow> nat \<Rightarrow> settle_end option" where
  "settle stopped ls start longest n =
     (if stopped then Some SettleStopped else map_option snd (poll (settle_check ls (start + longest)) n 0))"

definition quiet :: "settle_look \<Rightarrow> bool" where
  "quiet l \<longleftrightarrow> (case sk_radios l of None \<Rightarrow> True | Some rs \<Rightarrow> \<not> list_ex (\<lambda>b. b) rs \<and> \<not> interfaces_pending l)"

lemma settle_check_cases:
  "settle_check ls deadline k = None \<longleftrightarrow> sk_now (ls k) < deadline \<and> \<not> quiet (ls k) \<and> \<not> sk_stopped (ls k)"
  "settle_check ls deadline k = Some Settled \<longleftrightarrow> sk_now (ls k) < deadline \<and> quiet (ls k)"
  "settle_check ls deadline k = Some SettleTimeout \<longleftrightarrow> deadline \<le> sk_now (ls k)"
  by (auto simp: settle_check_def quiet_def split: option.splits if_splits)

interpretation settling: timed_wait settle_check sk_now
  by unfold_locales (auto simp: settle_check_cases)

text \<open>A health check never waits for netifd for ever. Within as many looks as half seconds fit in the
  longest wait and two more, it ends: settled at the first look where nothing is being set up, before the
  deadline; at the deadline otherwise; or stopped with the daemon.\<close>

theorem settle_ends:
  assumes "\<And>k. sk_now (ls k) + 500 \<le> sk_now (ls (Suc k))" and "start \<le> sk_now (ls 0)" and "0 \<le> longest"
  shows "\<exists>e. settle False ls start longest (nat (longest div 500) + 2) = Some e
    \<and> (e = Settled \<longrightarrow> (\<exists>j. quiet (ls j) \<and> sk_now (ls j) < start + longest \<and> (\<forall>i < j. \<not> quiet (ls i))))
    \<and> (e = SettleTimeout \<longrightarrow> (\<exists>j. start + longest \<le> sk_now (ls j) \<and> (\<forall>i < j. \<not> quiet (ls i))))
    \<and> (e = SettleStopped \<longrightarrow> (\<exists>j. sk_stopped (ls j)))"
proof -
  let ?c = "settle_check ls (start + longest)"
  obtain j e where r: "poll ?c (nat (longest div 500) + 2) 0 = Some (j, e)" "?c j = Some e"
      "\<And>i. i < j \<Longrightarrow> ?c i = None"
    by (rule settling.ends_in_time[of ls 500 start longest]) (use assms in auto)
  have busy: "\<not> quiet (ls i)" if "i < j" for i using r(3)[OF that] by (simp add: settle_check_cases)
  have "settle False ls start longest (nat (longest div 500) + 2) = Some e"
    unfolding settle_def r(1) by simp
  moreover have "e = SettleStopped \<Longrightarrow> sk_stopped (ls j)"
    using r(2) by (auto simp: settle_check_def split: if_splits option.splits)
  ultimately show ?thesis
    using r(2) busy settle_check_cases[of ls "start + longest" j] by (cases e) auto
qed

definition busy_then_quiet :: "nat \<Rightarrow> settle_look" where
  "busy_then_quiet k = \<lparr>sk_now = 600 * int k, sk_radios = Some [k < 3, False], sk_interfaces = Some [], sk_stopped = False\<rparr>"

theorem settle_ends_witness: "settle False busy_then_quiet 0 30000 62 = Some Settled"
proof -
  have "sk_now (busy_then_quiet k) + 500 \<le> sk_now (busy_then_quiet (Suc k))" for k by (simp add: busy_then_quiet_def)
  moreover have "(0 :: int) \<le> sk_now (busy_then_quiet 0)" by (simp add: busy_then_quiet_def)
  ultimately obtain e where e: "settle False busy_then_quiet 0 30000 (nat (30000 div 500) + 2) = Some e"
    "e = SettleTimeout \<longrightarrow> (\<exists>j. 0 + 30000 \<le> sk_now (busy_then_quiet j) \<and> (\<forall>i < j. \<not> quiet (busy_then_quiet i)))"
    "e = SettleStopped \<longrightarrow> (\<exists>j. sk_stopped (busy_then_quiet j))"
    using settle_ends[of busy_then_quiet 0 30000] by (metis zero_le_numeral)
  have "quiet (busy_then_quiet 3)" by (simp add: quiet_def busy_then_quiet_def interfaces_pending_def)
  then have "\<not> (0 + 30000 \<le> sk_now (busy_then_quiet j) \<and> (\<forall>i < j. \<not> quiet (busy_then_quiet i)))" for j
    by (auto simp: busy_then_quiet_def intro!: exI[of _ 3])
  moreover have "\<not> sk_stopped (busy_then_quiet j)" for j by (simp add: busy_then_quiet_def)
  ultimately have "e = Settled" using e(2,3) by (cases e) blast+
  then show ?thesis using e(1) by simp
qed

end
