(* ===== verification/Surface.thy ===== *)
theory Surface
  imports Handlers Writers UpdateTarget
begin

text \<open>
  The daemon as the controller meets it: \<open>Register\<close> of \<open>internal/handlers\<close> (\<open>handlers.go\<close>, \<open>wifi.go\<close>,
  \<open>update.go\<close>) and of \<open>internal/update\<close>, and what a request does to the three writers. The dispatcher is
  the rpc module's, a parameter with its documented behaviour (\<open>dispatcher_ok\<close>); so is what the Wi-Fi kit
  does to its window when it serves a write, through the two hooks it is given. Every request is then
  a run of the steps of \<open>Writers\<close>, so its invariants hold whatever the controller sends.
\<close>

section \<open>The method table\<close>

datatype handled = OwnMethod | WifiMethod | KitUpdateMethod | UpdateInstall

record 'd dispatcher =
  ds_empty :: 'd
  ds_register :: "string \<Rightarrow> handled \<Rightarrow> 'd \<Rightarrow> 'd"
  ds_find :: "'d \<Rightarrow> string \<Rightarrow> handled option"

definition dispatcher_ok :: "'d dispatcher \<Rightarrow> bool" where
  "dispatcher_ok R \<longleftrightarrow> (\<forall>m. ds_find R (ds_empty R) m = None)
     \<and> (\<forall>d m h k. ds_find R (ds_register R m h d) k = (if k = m then Some h else ds_find R d k))"

definition own_methods :: "string list" where
  "own_methods =
     [''system.info'', ''clients.list'', ''client.kick'', ''locate.start'', ''locate.stop'', ''system.reboot'', ''ping'',
      ''groups.apply'', ''groups.confirm'', ''groups.state'']"

definition register_list :: "'d dispatcher \<Rightarrow> handled \<Rightarrow> string list \<Rightarrow> 'd \<Rightarrow> 'd" where
  "register_list R h ms d = fold (\<lambda>m. ds_register R m h) ms d"

text \<open>\<open>registerWifi\<close> (\<open>None\<close>: a build without the plane).\<close>

definition register_wifi :: "'d dispatcher \<Rightarrow> string list option \<Rightarrow> 'd \<Rightarrow> 'd" where
  "register_wifi R w d = (case w of None \<Rightarrow> d | Some ms \<Rightarrow> register_list R WifiMethod ms d)"

text \<open>\<open>Updater.Register\<close>: the kit's methods (\<open>ms\<close>), then the install of this package.\<close>

definition updater_register :: "'d dispatcher \<Rightarrow> string list \<Rightarrow> 'd \<Rightarrow> 'd" where
  "updater_register R ms d =
     ds_register R ''agent.update.install'' UpdateInstall (register_list R KitUpdateMethod ms d)"

definition register_update :: "'d dispatcher \<Rightarrow> string list option \<Rightarrow> 'd \<Rightarrow> 'd" where
  "register_update R u d = (case u of None \<Rightarrow> d | Some ms \<Rightarrow> updater_register R ms d)"

definition register_methods :: "'d dispatcher \<Rightarrow> string list option \<Rightarrow> string list option \<Rightarrow> 'd" where
  "register_methods R w u =
     register_update R u (register_wifi R w (register_list R OwnMethod own_methods (ds_empty R)))"

lemma find_register [simp]:
  "dispatcher_ok R \<Longrightarrow> ds_find R (ds_register R m h d) k = (if k = m then Some h else ds_find R d k)"
  "dispatcher_ok R \<Longrightarrow> ds_find R (ds_empty R) k = None"
  by (simp_all add: dispatcher_ok_def)

lemma find_register_list [simp]:
  "dispatcher_ok R \<Longrightarrow> ds_find R (register_list R h ms d) k = (if k \<in> set ms then Some h else ds_find R d k)"
  unfolding register_list_def by (induction ms arbitrary: d) auto

text \<open>What a method reaches: the install first, then the last of the three lists it is in.\<close>

definition reached :: "string list option \<Rightarrow> string list option \<Rightarrow> string \<Rightarrow> handled option" where
  "reached w u k =
     (if u \<noteq> None \<and> k = ''agent.update.install'' then Some UpdateInstall
      else if u \<noteq> None \<and> k \<in> set (the u) then Some KitUpdateMethod
      else if w \<noteq> None \<and> k \<in> set (the w) then Some WifiMethod
      else if k \<in> set own_methods then Some OwnMethod
      else None)"

lemma find_methods:
  "dispatcher_ok R \<Longrightarrow> ds_find R (register_methods R w u) k = reached w u k"
  by (simp add: register_methods_def register_update_def updater_register_def register_wifi_def reached_def
      split: option.split)

section \<open>The running daemon\<close>

text \<open>The writers with the rest of the device; the engine of the device is that of the writers, if groups are on.\<close>

record 's running =
  rn_ap :: ap
  rn_groups :: bool
  rn_rest :: "'s device"

definition device_of :: "'s running \<Rightarrow> 's device" where
  "device_of s = (rn_rest s)\<lparr>dv_engine := (if rn_groups s then Some (ap_engine (rn_ap s)) else None)\<rparr>"

definition put_device :: "'s device \<Rightarrow> 's running \<Rightarrow> 's running" where
  "put_device d s =
     s\<lparr>rn_rest := d, rn_ap := (case dv_engine d of None \<Rightarrow> rn_ap s | Some g \<Rightarrow> (rn_ap s)\<lparr>ap_engine := g\<rparr>)\<rparr>"

text \<open>What the kit does to its window: it opens it if the hook gives it the lock, and gives the lock back.\<close>

datatype plane_op = OpenWindow string int | CloseWindow

fun plane_do :: "plane_op \<Rightarrow> ap \<Rightarrow> ap" where
  "plane_do (OpenWindow ident now) a =
     (let ((got, r), p) = plane_acquire ident now (plane_view a)
      in if got then (put_plane p a)\<lparr>ap_plane_open := True\<rparr> else put_plane p a)"
| "plane_do CloseWindow a =
     (if ap_plane_open a then (put_plane (plane_release (plane_view a)) a)\<lparr>ap_plane_open := False\<rparr> else a)"

text \<open>An install that starts leaves its plan on disk.\<close>

definition do_install :: "string option \<Rightarrow> int \<Rightarrow> bool \<Rightarrow> ap \<Rightarrow> install_outcome option \<times> ap" where
  "do_install p now ok a =
     (let (r, u) = rpc_install p now ok (update_view a)
      in (r, if r = Some Installing then (put_update u a)\<lparr>ap_plan := Some \<lparr>pf_id = the p, pf_terminal = False\<rparr>\<rparr>
             else put_update u a))"

text \<open>What a request meets: the dependencies, the decoding of its params (\<open>ca_own\<close>, \<open>ca_update_id\<close>, \<open>ca_read\<close>),
  the plane's access and screen, and what the two kits do.\<close>

record 's call =
  ca_deps :: "'s deps"
  ca_own :: "string \<Rightarrow> string \<Rightarrow> request"
  ca_methods :: plane_methods
  ca_access :: access
  ca_read :: "string \<Rightarrow> string list option"
  ca_screen :: "string \<Rightarrow> plane_error option"
  ca_write :: "string \<Rightarrow> string \<Rightarrow> plane_op list"
  ca_update_id :: "string \<Rightarrow> string option"
  ca_installs :: bool

definition table :: "'d dispatcher \<Rightarrow> 's call \<Rightarrow> 'd" where
  "table R c = register_methods R (dp_wifi (ca_deps c)) (map_option snd (dp_update (ca_deps c)))"

text \<open>A request with these params, and the daemon after it.\<close>

definition ask :: "'d dispatcher \<Rightarrow> 's call \<Rightarrow> string \<Rightarrow> string \<Rightarrow> 's running \<Rightarrow> 's running" where
  "ask R c meth params s =
     (case ds_find R (table R c) meth of
        None \<Rightarrow> s
      | Some OwnMethod \<Rightarrow> put_device (served_after (ca_deps c) (ca_own c meth params) (device_of s)) s
      | Some WifiMethod \<Rightarrow>
          (case serve (ca_methods c) (ca_read c) (ca_screen c) (ca_access c) meth params of
             KitWrite m r \<Rightarrow> s\<lparr>rn_ap := fold plane_do (ca_write c m r) (rn_ap s)\<rparr>
           | _ \<Rightarrow> s)
      | Some KitUpdateMethod \<Rightarrow> s
      | Some UpdateInstall \<Rightarrow>
          s\<lparr>rn_ap := snd (do_install (ca_update_id c params) (dp_now (ca_deps c)) (ca_installs c) (rn_ap s))\<rparr>)"

text \<open>What else happens: the engine's timer, the plane's own (its deadline), the end of an update and the look
  for it, an edit of the files, a restart.\<close>

datatype 's event =
    Asked "'s call" string string
  | GroupsTimer env int
  | PlaneTimer "plane_op list"
  | PlanOver
  | UpdateLook
  | Edited "string option" "string option"
  | Restarted env string bool

fun happen :: "'d dispatcher \<Rightarrow> 's event \<Rightarrow> 's running \<Rightarrow> 's running" where
  "happen R (Asked c meth params) s = ask R c meth params s"
| "happen R (GroupsTimer x rv) s = s\<lparr>rn_ap := (rn_ap s)\<lparr>ap_engine := timer_fires x rv (ap_engine (rn_ap s))\<rparr>\<rparr>"
| "happen R (PlaneTimer ops) s = s\<lparr>rn_ap := fold plane_do ops (rn_ap s)\<rparr>"
| "happen R PlanOver s = s\<lparr>rn_ap := (rn_ap s)\<lparr>ap_plan := map_option (\<lambda>f. f\<lparr>pf_terminal := True\<rparr>) (ap_plan (rn_ap s))\<rparr>\<rparr>"
| "happen R UpdateLook s =
     s\<lparr>rn_ap := put_update (snd (release_when_done (ap_update_hold (rn_ap s)) (ap_plan (rn_ap s)) (update_view (rn_ap s))))
         (rn_ap s)\<rparr>"
| "happen R (Edited w n) s =
     s\<lparr>rn_ap := (rn_ap s)\<lparr>ap_engine := (ap_engine (rn_ap s))\<lparr>g_wireless := w, g_network := n\<rparr>\<rparr>\<rparr>"
| "happen R (Restarted x ident resumed) s = s\<lparr>rn_ap := run_daemon x ident resumed (rn_ap s)\<rparr>"

text \<open>Every event is on this access point, and the engine's state file can be written.\<close>

fun event_on :: "site \<Rightarrow> 's event \<Rightarrow> bool" where
  "event_on D (Asked c meth params) \<longleftrightarrow> dp_site (ca_deps c) = D \<and> persists (dp_groups_env (ca_deps c))"
| "event_on D (GroupsTimer x rv) \<longleftrightarrow> persists x"
| "event_on D (Restarted x ident resumed) \<longleftrightarrow> persists x"
| "event_on D _ \<longleftrightarrow> True"

end
