(* ===== verification/SurfaceProps.thy ===== *)
theory SurfaceProps
  imports Surface HandlersProps
begin

text \<open>
  What holds of the daemon whatever it is asked: the method table is the one intended, every event is a run of
  the writers' steps, and a writer whose turn it is not is told whose it is.
\<close>

section \<open>Every event is a run of the writers' steps\<close>

abbreviation ap_steps :: "site \<Rightarrow> ap \<Rightarrow> ap \<Rightarrow> bool" where
  "ap_steps D \<equiv> (ap_step D)\<^sup>*\<^sup>*"

lemma reach_steps: "ap_steps D a b \<Longrightarrow> ap_reach D a \<Longrightarrow> ap_reach D b"
  by (induction rule: rtranclp_induct) (auto intro: ap_reach.steps)

lemma fold_steps:
  assumes "\<And>op a. ap_steps D a (f op a)"
  shows "ap_steps D a (fold f ops a)"
proof (induction ops arbitrary: a)
  case (Cons op ops)
  show ?case using rtranclp_trans[OF assms[of a op] Cons.IH[of "f op a"]] by simp
qed simp

lemma served_engine_op:
  assumes "dp_site Q = D" and "persists (dp_groups_env Q)"
  shows "case dv_engine s of None \<Rightarrow> dv_engine (served_after Q r s) = None
    | Some g \<Rightarrow> \<exists>g1. dv_engine (served_after Q r s) = Some g1 \<and> (g1 = g \<or> engine_op D (dp_groups_env Q) g g1)"
proof -
  have ops: "engine_op D (dp_groups_env Q) g (snd (apply_desired D (dp_groups_env Q) d g))"
    "engine_op D (dp_groups_env Q) g (snd (confirm D (dp_groups_env Q) rv g))" for g d rv
    using assms by (auto intro: op_apply op_confirm)
  show ?thesis
  proof (cases r)
    case (GroupsApply p)
    then show ?thesis using assms(1) ops(1)
      by (cases p) (auto simp: groups_apply_def groups_enabled_def split_beta split: option.split sum.split)
  next
    case (GroupsConfirm p)
    then show ?thesis using assms(1) ops(2)
      by (cases p) (auto simp: groups_confirm_def groups_enabled_def split_beta split: option.split)
  qed (simp_all add: frames split: option.split)
qed

lemma ap_engine_same [simp]: "a\<lparr>ap_engine := ap_engine a\<rparr> = a"
  by simp

lemma own_steps:
  assumes "dp_site Q = D" and "persists (dp_groups_env Q)"
  shows "ap_steps D (rn_ap s) (rn_ap (put_device (served_after Q r (device_of s)) s))"
proof (cases "rn_groups s")
  case False
  then have "dv_engine (device_of s) = None" by (simp add: device_of_def)
  then show ?thesis using served_engine_op[OF assms, where s = "device_of s" and r = r] by (simp add: put_device_def)
next
  case True
  then have "dv_engine (device_of s) = Some (ap_engine (rn_ap s))" by (simp add: device_of_def)
  then obtain g where g: "dv_engine (served_after Q r (device_of s)) = Some g"
      "g = ap_engine (rn_ap s) \<or> engine_op D (dp_groups_env Q) (ap_engine (rn_ap s)) g"
    using served_engine_op[OF assms, where s = "device_of s" and r = r] by auto
  then show ?thesis by (auto simp: put_device_def intro: ap_step.groups)
qed

lemma plane_steps: "ap_steps D a (plane_do op a)"
proof (cases op)
  case (OpenWindow ident now)
  obtain got r p where acq: "plane_acquire ident now (plane_view a) = ((got, r), p)" by (metis prod.collapse)
  then show ?thesis using OpenWindow
    by (cases got) (auto intro: ap_step.plane_opens ap_step.plane_refused)
next
  case CloseWindow
  then show ?thesis by (auto intro: ap_step.plane_closes)
qed

lemma put_update_same [simp]: "put_update (update_view a) a = a"
  by (simp add: put_update_def update_view_def with_lock_def)

lemma install_steps: "ap_steps D a (snd (do_install p now ok a))"
proof (cases p)
  case None
  then show ?thesis by (simp add: do_install_def rpc_install_def)
next
  case (Some ident)
  obtain r u where i: "install ident now ok (update_view a) = (r, u)" by force
  show ?thesis
  proof (cases "r = Installing")
    case True
    then have "ok" using i by (auto simp: install_def busy_error_def split: sum.splits prod.splits if_splits)
    with True i Some show ?thesis by (auto simp: do_install_def rpc_install_def intro: ap_step.installs)
  next
    case False
    with i Some show ?thesis by (auto simp: do_install_def rpc_install_def intro: ap_step.install_fails)
  qed
qed

lemma ask_steps:
  assumes "dp_site (ca_deps c) = D" and "persists (dp_groups_env (ca_deps c))"
  shows "ap_steps D (rn_ap s) (rn_ap (ask R c meth params s))"
  using own_steps[OF assms] install_steps fold_steps[of D plane_do] plane_steps
  by (auto simp: ask_def split: option.split handled.split served.split)

lemma happen_steps: "event_on D ev \<Longrightarrow> ap_steps D (rn_ap s) (rn_ap (happen R ev s))"
proof (cases ev)
  case (UpdateLook)
  obtain b u where "release_when_done (ap_update_hold (rn_ap s)) (ap_plan (rn_ap s)) (update_view (rn_ap s)) = (b, u)"
    by force
  with UpdateLook show ?thesis by (auto intro: ap_step.watcher)
qed (auto simp: ask_steps intro: fold_steps plane_steps ap_step.restarts ap_step.plan_ends
    ap_step.groups op_timer op_edit)

definition run_events :: "'d dispatcher \<Rightarrow> 's event list \<Rightarrow> 's running \<Rightarrow> 's running" where
  "run_events R evs s = fold (happen R) evs s"

text \<open>The states the daemon gets into: events, and a crash in the middle of an apply with the restart after it.\<close>

inductive daemon_at :: "'d dispatcher \<Rightarrow> site \<Rightarrow> 's running \<Rightarrow> bool" for R D where
  boots: "init_ap (rn_ap s) \<Longrightarrow> daemon_at R D s"
| goes_on: "daemon_at R D s \<Longrightarrow> event_on D ev \<Longrightarrow> daemon_at R D (happen R ev s)"
| dies: "daemon_at R D s \<Longrightarrow> persists x \<Longrightarrow> persists y \<Longrightarrow> mid_apply D y d (ap_engine (rn_ap s)) g \<Longrightarrow>
    daemon_at R D (s\<lparr>rn_ap := run_daemon x ident resumed ((rn_ap s)\<lparr>ap_engine := g\<rparr>)\<rparr>)"

lemma daemon_reaches: "daemon_at R D s \<Longrightarrow> ap_reach D (rn_ap s)"
proof (induction rule: daemon_at.induct)
  case (goes_on s ev)
  then show ?case by (intro reach_steps[OF happen_steps])
next
  case (dies s x y d g ident resumed)
  then show ?case using ap_reach.steps[OF dies.IH ap_step.crashes] by simp
qed (rule ap_reach.begins)

lemma run_daemon_at:
  "list_all (event_on D) evs \<Longrightarrow> daemon_at R D s \<Longrightarrow> daemon_at R D (run_events R evs s)"
  unfolding run_events_def by (induction evs arbitrary: s) (simp_all add: daemon_at.goes_on)


section \<open>Whose turn it is\<close>

lemma acquire_busy:
  "current l = Some i \<Longrightarrow> who \<noteq> [] \<Longrightarrow> try_acquire who ident now l = (Inl (BusyError i), l)"
  by (auto simp: current_def try_acquire_def)

lemma put_plane_same [simp]: "put_plane (plane_view a) a = a"
  by (simp add: put_plane_def plane_view_def with_lock_def)

lemma busy_plane:
  assumes "current (ap_lock a) = Some i"
  shows "plane_do (OpenWindow ident now) a = a"
    and "fst (plane_acquire ident now (plane_view a)) = (False, li_holder i @ ''_pending'')"
  using acquire_busy[OF assms, of plane_holder ident now]
  by (simp_all add: plane_acquire_def plane_view_def put_plane_def with_lock_def holder_reason_def)

lemma busy_update:
  assumes "current (ap_lock a) = Some i"
  shows "do_install (Some ident) now ok a =
    (Some (LockBusy (if li_holder i = update_holder then CodeBusy else CodeBusyPendingApply) (li_holder i @ ''_pending'')), a)"
  using acquire_busy[OF assms, of update_holder ident now]
  by (simp add: do_install_def rpc_install_def install_def busy_error_def update_view_def put_update_def with_lock_def
      holder_reason_def)

lemma busy_groups:
  assumes "current (g_lock g) = Some i" and "validate d = None"
    and "\<And>p. gs_pending (g_st g) = Some p \<Longrightarrow> gp_revision p \<noteq> d_revision d \<and> li_holder i = groups_holder"
  shows "apply_desired D x d g = (Inl (Refused (busy (li_holder i @ ''_pending''))), g)"
  using acquire_busy[OF assms(1), of groups_holder "apply_id (d_revision d)" "x_now x"] assms(2,3)
  by (auto simp: apply_desired_def holder_reason_def split: option.split)

text \<open>An install is the one of this package, whatever methods the kit brings, and while another window is open it
  does nothing.\<close>

lemma install_method:
  "dispatcher_ok R \<Longrightarrow> dp_update (ca_deps c) \<noteq> None \<Longrightarrow> ds_find R (table R c) ''agent.update.install'' = Some UpdateInstall"
  by (auto simp: table_def find_methods reached_def)

lemma busy_ask_install:
  assumes "dispatcher_ok R" and "dp_update (ca_deps c) \<noteq> None" and "current (ap_lock (rn_ap s)) = Some i"
  shows "ask R c ''agent.update.install'' params s = s"
proof -
  have "snd (do_install (ca_update_id c params) (dp_now (ca_deps c)) (ca_installs c) (rn_ap s)) = rn_ap s"
    using busy_update[OF assms(3)]
    by (cases "ca_update_id c params") (simp_all add: do_install_def rpc_install_def)
  then show ?thesis by (simp add: ask_def install_method[OF assms(1,2)])
qed

text \<open>C4: while a writer's window is open, the others are refused in its name and nothing changes: an install
  (always through the lock, even if the kit registers a method of that name) is refused with \<open><writer>_pending\<close>,
  as busy if the writer is the updater itself; the Wi-Fi plane's window stays closed for the same reason; and
  valid groups of another revision than the pending one are answered with the error busy and that reason.\<close>

theorem busy_answers:
  assumes "ap_reach D (rn_ap s)" and "w \<in> set (open_windows (rn_ap s))"
    and "dispatcher_ok R" and "dp_update (ca_deps c) \<noteq> None"
    and "rn_groups s" and "dp_refusal (ca_deps c) = []" and "validate d = None"
    and "\<forall>p. gs_pending (g_st (ap_engine (rn_ap s))) = Some p \<longrightarrow> gp_revision p \<noteq> d_revision d"
  shows "ds_find R (table R c) ''agent.update.install'' = Some UpdateInstall
    \<and> ask R c ''agent.update.install'' params s = s
    \<and> fst (do_install (Some ident) now ok (rn_ap s)) =
        Some (LockBusy (if w = update_holder then CodeBusy else CodeBusyPendingApply) (w @ ''_pending''))
    \<and> fst (plane_acquire ident now (plane_view (rn_ap s))) = (False, w @ ''_pending'')
    \<and> groups_apply (ca_deps c) (Some d) (device_of s) =
        (Inl (RpcError CommandFailed ''busy'' (w @ ''_pending'')), device_of s)"
proof -
  obtain i where i: "current (ap_lock (rn_ap s)) = Some i" "li_holder i = w"
    using open_windows_exact[OF assms(1)] assms(2) by blast
  have r1: "ask R c ''agent.update.install'' params s = s"
    by (rule busy_ask_install[OF assms(3,4) i(1)])
  have r2: "fst (do_install (Some ident) now ok (rn_ap s)) =
      Some (LockBusy (if w = update_holder then CodeBusy else CodeBusyPendingApply) (w @ ''_pending''))"
    by (simp add: busy_update[OF i(1)] i(2))
  have r3: "fst (plane_acquire ident now (plane_view (rn_ap s))) = (False, w @ ''_pending'')"
    by (simp add: busy_plane[OF i(1)] i(2))
  have "w = groups_holder" if "gs_pending (g_st (ap_engine (rn_ap s))) = Some p" for p
    using open_windows_exact[OF assms(1)] assms(2) that by (auto simp: open_windows_def split: if_splits)
  then have "apply_desired (dp_site (ca_deps c)) (dp_groups_env (ca_deps c)) d (ap_engine (rn_ap s)) =
      (Inl (Refused (busy (w @ ''_pending''))), ap_engine (rn_ap s))"
    using busy_groups[OF i(1) assms(7)] assms(8) i(2) by simp
  then have r4: "groups_apply (ca_deps c) (Some d) (device_of s) =
      (Inl (RpcError CommandFailed ''busy'' (w @ ''_pending'')), device_of s)"
    using assms(5,6) by (simp add: groups_apply_def groups_enabled_def device_of_def groups_error_def busy_def refuse_def)
  from install_method[OF assms(3,4)] r1 r2 r3 r4 show ?thesis by (intro conjI)
qed

section \<open>A run\<close>

definition plain_dispatcher :: "(string \<Rightarrow> handled option) dispatcher" where
  "plain_dispatcher = \<lparr>ds_empty = Map.empty, ds_register = (\<lambda>m h d. d(m \<mapsto> h)), ds_find = (\<lambda>d. d)\<rparr>"

lemma plain_dispatcher_ok: "dispatcher_ok plain_dispatcher"
  by (simp add: dispatcher_ok_def plain_dispatcher_def)

definition sample_call :: "unit call" where
  "sample_call =
     \<lparr>ca_deps = sample_deps\<lparr>dp_update := Some (''agent_update'', [''agent.update.check'', ''agent.update.install''])\<rparr>,
      ca_own = (\<lambda>m p. if m = ''groups.apply'' then GroupsApply (Some sample_desired) else Ping),
      ca_methods = \<lparr>pm_read = [], pm_apply = [], pm_confirm = [], pm_rollback = [], pm_ack = []\<rparr>,
      ca_access = AccessNone, ca_read = (\<lambda>_. None), ca_screen = (\<lambda>_. None), ca_write = (\<lambda>_ _. []),
      ca_update_id = Some, ca_installs = True\<rparr>"

definition sample_running :: "unit running" where
  "sample_running = \<lparr>rn_ap = sample_ap, rn_groups = True, rn_rest = sample_device\<rparr>"

lemma sample_begins: "init_ap (rn_ap sample_running)"
  by (simp add: init_ap_def sample_running_def sample_ap_def init_gsys_def sample_start_def)

lemma sample_on: "event_on sample_site (Asked sample_call m params)"
  by (simp add: sample_call_def sample_deps_def persists_def sample_env_def)

text \<open>The controller applies groups, then asks for an install: the groups wait for their confirm, and the install
  is refused.\<close>

abbreviation sample_events :: "unit event list" where
  "sample_events \<equiv> [Asked sample_call ''groups.apply'' [], Asked sample_call ''agent.update.install'' ''u1'']"

lemma sample_windows:
  "open_windows (rn_ap (run_events plain_dispatcher sample_events sample_running)) = [groups_holder]"
  by code_simp

lemma sample_at: "daemon_at plain_dispatcher sample_site (run_events plain_dispatcher sample_events sample_running)"
  by (rule run_daemon_at) (use sample_on daemon_at.boots[OF sample_begins] in simp_all)


text \<open>In the state that run ends in, the Wi-Fi plane and other groups are refused for the same reason.\<close>

definition other_desired :: desired where
  "other_desired = sample_desired\<lparr>d_revision := 2\<rparr>"

lemma sample_ended:
  "groups_holder \<in> set (open_windows (rn_ap (run_events plain_dispatcher sample_events sample_running)))"
  "rn_groups (run_events plain_dispatcher sample_events sample_running)"
  "validate other_desired = None"
  "case gs_pending (g_st (ap_engine (rn_ap (run_events plain_dispatcher sample_events sample_running)))) of
     None \<Rightarrow> True | Some p \<Rightarrow> gp_revision p \<noteq> d_revision other_desired"
  by code_simp+

theorem busy_answers_witness:
  "fst (groups_apply (ca_deps sample_call) (Some other_desired)
     (device_of (run_events plain_dispatcher sample_events sample_running)))
   = Inl (RpcError CommandFailed ''busy'' ''groups_pending'')"
proof -
  let ?s = "run_events plain_dispatcher sample_events sample_running"
  have reach: "ap_reach sample_site (rn_ap ?s)" by (rule daemon_reaches[OF sample_at])
  have call: "dp_update (ca_deps sample_call) \<noteq> None" "dp_refusal (ca_deps sample_call) = []"
    by (simp_all add: sample_call_def sample_deps_def)
  have rv: "\<forall>p. gs_pending (g_st (ap_engine (rn_ap ?s))) = Some p \<longrightarrow> gp_revision p \<noteq> d_revision other_desired"
    using sample_ended(4) by (simp split: option.splits)
  show ?thesis
    using busy_answers[OF reach sample_ended(1) plain_dispatcher_ok call(1) sample_ended(2) call(2) sample_ended(3) rv]
    by (simp add: groups_holder_def)
qed

end
