(* ===== verification/Wiring.thy ===== *)
theory Wiring
  imports HandlersProps PlaneService UpdateTarget Session
begin

text \<open>
  How the parts are put together: \<open>newDevice\<close> of \<open>cmd/perch-apd/main.go\<close> (what a device without ubus or
  without nl80211 still serves), the hooks the Wi-Fi plane gives its kit (\<open>screen.go\<close>, \<open>wifiplane.go\<close>),
  what a session is dialed with (\<open>internal/agent\<close>), and two readers of netifd's status
  (\<open>internal/wificaps\<close>). With it: what the device says it can do is what its methods then do.
\<close>

section \<open>The device\<close>

text \<open>\<open>newDevice\<close>: \<open>nl\<close>: the nl80211 family could be opened. A client that is not there is not set.\<close>

definition new_device :: "ubus_env \<Rightarrow> wireless_env \<Rightarrow> bool \<Rightarrow> 's deps \<Rightarrow> 's deps" where
  "new_device u x nl D =
     (let up = ub_available u
      in D\<lparr>dp_wireless := Some (x\<lparr>we_nl := (if nl then we_nl x else None), we_ubus := (if up then we_ubus x else None)\<rparr>),
           dp_ubus := (if up then Some u else None),
           dp_sys := (dp_sys D)\<lparr>se_ubus := (if up then se_ubus (dp_sys D) else None)\<rparr>\<rparr>)"

text \<open>\<open>newProber\<close>: the same two clients for the Wi-Fi facts.\<close>

definition prober_clients :: "bool \<Rightarrow> bool \<Rightarrow> 'n \<Rightarrow> 'u \<Rightarrow> 'n option \<times> 'u option" where
  "prober_clients nl up n u = (if nl then Some n else None, if up then Some u else None)"

section \<open>The plane's hooks\<close>

text \<open>\<open>groupsOwned\<close>: the view of the engine, if there is one, and the set of sections kept for the marks.\<close>

definition groups_owned :: "site \<Rightarrow> env \<Rightarrow> gsys option \<Rightarrow> owned_view \<times> string list" where
  "groups_owned D x g =
     (case g of
        None \<Rightarrow> (\<lparr>ov_sections = [], ov_dynamic = [], ov_converted = [], ov_pending = False\<rparr>, [])
      | Some s \<Rightarrow> (owned D x s, ov_sections (owned D x s)))"

text \<open>The validator the kit runs on the result of every apply: nothing to compare with is left to the kit.\<close>

definition validate_wireless :: "kit \<Rightarrow> uconfig option \<Rightarrow> uconfig option \<Rightarrow> plane_error option" where
  "validate_wireless K loaded after =
     (case (loaded, after) of (Some b, Some a) \<Rightarrow> check_wireless K b a | _ \<Rightarrow> None)"

section \<open>A session\<close>

definition ws_path :: string where "ws_path = ''/api/v1/ap-agent/ws''"
definition subprotocol :: string where "subprotocol = ''perch-ap.v1''"
definition read_limit_bytes :: nat where "read_limit_bytes = 4 * 2 ^ 20"

record link_options =
  lo_url :: string
  lo_subprotocol :: string
  lo_authorization :: string
  lo_user_agent :: string
  lo_read_limit :: nat
  lo_compression :: bool

text \<open>What \<open>session\<close> dials with; \<open>url\<close> is the link module's \<open>WebSocketURL\<close>.\<close>

definition session_options ::
  "(string \<Rightarrow> string \<Rightarrow> 'e + string) \<Rightarrow> string \<Rightarrow> string \<Rightarrow> string \<Rightarrow> config \<Rightarrow> 'e + link_options" where
  "session_options url version goos arch c =
     (case url (c_controller c) ws_path of
        Inl e \<Rightarrow> Inl e
      | Inr u \<Rightarrow> Inr \<lparr>lo_url = u, lo_subprotocol = subprotocol,
          lo_authorization = ''Bearer '' @ c_agent_id c @ ''.'' @ c_agent_secret c,
          lo_user_agent = user_agent version goos arch, lo_read_limit = read_limit_bytes, lo_compression = True\<rparr>)"

text \<open>\<open>New\<close>: the client given, or one built (which may fail), and the wait for a configure (10 s).\<close>

record 'h new_agent =
  na_http :: 'h
  na_wait :: int

definition new_agent :: "'h option \<Rightarrow> 'e + 'h \<Rightarrow> int \<Rightarrow> 'e + 'h new_agent" where
  "new_agent given built wait =
     (case (case given of Some h \<Rightarrow> Inr h | None \<Rightarrow> built) of
        Inl e \<Rightarrow> Inl e
      | Inr h \<Rightarrow> Inr \<lparr>na_http = h, na_wait = (if wait \<le> 0 then 10000 else wait)\<rparr>)"

text \<open>\<open>Notify\<close>: on the session that is open, if one is.\<close>

definition notify_on :: "agent \<Rightarrow> 'm \<Rightarrow> (nat \<times> 'm) list" where
  "notify_on a m = (case a_sess a of None \<Rightarrow> [] | Some p \<Rightarrow> [(p, m)])"

text \<open>\<open>newChallenge\<close>: 16 random bytes in hex, nothing if there are none to be had.\<close>

definition hex_of_byte :: "8 word \<Rightarrow> string" where
  "hex_of_byte b = [''0123456789abcdef'' ! (unat b div 16), ''0123456789abcdef'' ! (unat b mod 16)]"

definition new_challenge :: "octets option \<Rightarrow> string" where
  "new_challenge r = (case r of None \<Rightarrow> [] | Some bs \<Rightarrow> concat (map hex_of_byte (take 16 bs)))"

section \<open>netifd's texts\<close>

text \<open>\<open>flexString\<close>: a JSON string is decoded (\<open>dec\<close>), null is empty, anything else is its own text.\<close>

definition flex_string :: "(string \<Rightarrow> 'e + string) \<Rightarrow> string \<Rightarrow> 'e + string" where
  "flex_string dec b =
     (if b \<noteq> [] \<and> hd b = CHR 0x22 then dec b
      else if b = ''null'' then Inr []
      else Inr b)"

section \<open>Marks and the screen agree\<close>

text \<open>What a read marks as the groups' is what an apply may not name.\<close>

theorem marks_match_screen:
  assumes "name \<noteq> []"
  shows "owner (snd (groups_owned D x g)) config name = ''groups''
    \<longleftrightarrow> plane_config config \<and> groups_name (ov_sections (fst (groups_owned D x g))) name"
  using assms by (simp add: owner_def groups_name_def groups_owned_def split: option.split)

lemma validate_without: "validate_wireless K None after = None" "validate_wireless K loaded None = None"
  by (simp_all add: validate_wireless_def split: option.split)

text \<open>The credentials go to the controller of the same configuration, and to no other.\<close>

lemma session_goes_to:
  "session_options url version goos arch c = Inr o1 \<Longrightarrow>
     url (c_controller c) ws_path = Inr (lo_url o1) \<and> lo_authorization o1 = ''Bearer '' @ c_agent_id c @ ''.'' @ c_agent_secret c"
  by (auto simp: session_options_def split: sum.splits)

lemma new_challenge_length:
  "length bs = 16 \<Longrightarrow> length (new_challenge (Some bs)) = 32"
proof -
  have "length (concat (map hex_of_byte xs)) = 2 * length xs" for xs
    by (induction xs) (simp_all add: hex_of_byte_def)
  then show "length bs = 16 \<Longrightarrow> length (new_challenge (Some bs)) = 32" by (simp add: new_challenge_def)
qed

section \<open>What the device says it can do\<close>

definition update_named :: "'s deps \<Rightarrow> bool" where
  "update_named D \<longleftrightarrow> (case dp_update D of None \<Rightarrow> True | Some (c, _) \<Rightarrow> c \<in> {[], ''agent_update''})"

lemma caps_engine [simp]: "dv_engine (snd (inventory_of D s)) = dv_engine s" "dv_locator (snd (inventory_of D s)) = dv_locator s"
  using inventory_frame[of D s] by simp_all

lemma caps_members:
  assumes "update_named D"
  shows "''clients'' \<in> set (fst (capabilities D s)) \<Longrightarrow> has_nl D"
    and "''kick'' \<in> set (fst (capabilities D s)) \<Longrightarrow> has_nl D \<and> (case dp_ubus D of None \<Rightarrow> False | Some u \<Rightarrow> ub_available u)"
    and "''reboot'' \<in> set (fst (capabilities D s)) \<longleftrightarrow> is_openwrt (dp_sys D)"
    and "''wifi_groups'' \<in> set (fst (capabilities D s)) \<longleftrightarrow> dv_engine s \<noteq> None \<and> dp_refusal D = []"
    and "''wifi_config'' \<in> set (fst (capabilities D s)) \<longleftrightarrow> dp_wifi D \<noteq> None"
  using assms
  by (auto simp: capabilities_def Let_def split_beta update_named_def split: option.splits if_splits)

lemma kick_unsupported:
  assumes "has_nl D" and "case dp_ubus D of None \<Rightarrow> False | Some u \<Rightarrow> ub_available u"
    and "fst (client_kick D (Some p) s) = Inl (rpc_error Unsupported)"
  shows "\<exists>c. dv_calls (snd (client_kick D (Some p) s)) = dv_calls s @ [c]"
  using assms
  by (auto simp: client_kick_def Let_def has_nl_def call_hostapd_def rpc_error_def split: option.splits if_splits sum.splits prod.splits)

lemma clients_supported:
  "has_nl D \<Longrightarrow> fst (clients_list D (Some only) s) \<noteq> Inl (rpc_error Unsupported)"
  by (auto simp: clients_list_def has_nl_def rpc_error_def split: option.splits sum.splits prod.splits)

lemma reboot_supported:
  "is_openwrt (dp_sys D) \<Longrightarrow> fst (system_reboot D (Some d) s) \<noteq> Inl (rpc_error Unsupported)"
  by (simp add: system_reboot_def Let_def rpc_error_def)



text \<open>Without nl80211 or without ubus the device says so, and does nothing to any client.\<close>

theorem degraded_device:
  assumes "update_named D" and "\<not> nl \<or> \<not> ub_available u"
  shows "''kick'' \<notin> set (fst (capabilities (new_device u x nl D) s))
    \<and> snd (client_kick (new_device u x nl D) p s) = s"
proof -
  have "update_named (new_device u x nl D)" using assms(1) by (simp add: update_named_def new_device_def Let_def)
  from caps_members(2)[OF this] assms(2) have "''kick'' \<notin> set (fst (capabilities (new_device u x nl D) s))"
    by (auto simp: new_device_def has_nl_def Let_def split: if_splits)
  moreover have "snd (client_kick (new_device u x nl D) p s) = s"
    using assms(2) by (auto simp: client_kick_def new_device_def Let_def split: option.split)
  ultimately show ?thesis by blast
qed

end
