(* ===== verification/Nlclient.thy ===== *)
theory Nlclient
  imports WiphyProps
begin

text \<open>
  What the daemon asks the kernel, \<open>Client\<close> of \<open>internal/nl80211\<close> (\<open>nl80211.go\<close>, \<open>wiphy.go\<close>): opening the
  socket, the request of each dump, and what becomes of its answer. The generic netlink socket and the
  attribute encoder (mdlayher modules) are arguments; each call returns its result and the requests it
  sent, in order. The mutex makes each exchange one step.
\<close>

section \<open>The socket\<close>

text \<open>\<open>Dial\<close>: whether a socket could be opened, the id and version of the family; the number of sockets left open.\<close>

datatype dial_error = Unavailable

definition dial :: "bool \<Rightarrow> (nat \<times> nat) option \<Rightarrow> (dial_error + nat \<times> nat) \<times> nat" where
  "dial opened family =
     (if \<not> opened then (Inl Unavailable, 0)
      else (case family of
              None \<Rightarrow> (Inl Unavailable, 0)
            | Some f \<Rightarrow> (Inr f, 1)))"

abbreviation cmd_get_wiphy :: nat where "cmd_get_wiphy \<equiv> 1"
abbreviation cmd_get_interface :: nat where "cmd_get_interface \<equiv> 5"
abbreviation cmd_get_station :: nat where "cmd_get_station \<equiv> 17"
abbreviation cmd_get_reg :: nat where "cmd_get_reg \<equiv> 31"
abbreviation cmd_get_survey :: nat where "cmd_get_survey \<equiv> 50"

record nl_request =
  rq_command :: nat
  rq_version :: nat
  rq_data :: octets
  rq_family :: nat
  rq_dump :: bool

datatype 'e call_error = Exchange 'e | Answer nl_error

record 'e client_conn =
  cn_family :: nat
  cn_version :: nat
  cn_encode :: "attr list \<Rightarrow> 'e + octets"
  cn_execute :: "nl_request \<Rightarrow> 'e + octets list"

text \<open>The value of \<open>ae.Uint32\<close>: four bytes in the device's order.\<close>

fun to_le :: "nat \<Rightarrow> int \<Rightarrow> octets" where
  "to_le 0 n = []"
| "to_le (Suc k) n = word_of_int n # to_le k (n div 256)"

definition put_u32 :: "netlink \<Rightarrow> 32 word \<Rightarrow> octets" where
  "put_u32 N w = (if nl_big N then List.rev (to_le 4 (uint w)) else to_le 4 (uint w))"

definition request_of :: "'e client_conn \<Rightarrow> nat \<Rightarrow> octets \<Rightarrow> bool \<Rightarrow> nl_request" where
  "request_of C cmd data d =
     \<lparr>rq_command = cmd, rq_version = cn_version C, rq_data = data, rq_family = cn_family C, rq_dump = d\<rparr>"

definition exchange :: "'e client_conn \<Rightarrow> nl_request \<Rightarrow> ('e call_error + octets list) \<times> nl_request list" where
  "exchange C q = ((case cn_execute C q of Inl e \<Rightarrow> Inl (Exchange e) | Inr ms \<Rightarrow> Inr ms), [q])"

definition dump :: "'e client_conn \<Rightarrow> nat \<Rightarrow> attr list option \<Rightarrow> ('e call_error + octets list) \<times> nl_request list" where
  "dump C cmd attrs =
     (case attrs of
        None \<Rightarrow> exchange C (request_of C cmd [] True)
      | Some as \<Rightarrow>
          (case cn_encode C as of
             Inl e \<Rightarrow> (Inl (Exchange e), [])
           | Inr b \<Rightarrow> exchange C (request_of C cmd b True)))"

definition parsed_by ::
  "(octets list \<Rightarrow> nl_error + 'a) \<Rightarrow> ('e call_error + octets list) \<times> nl_request list \<Rightarrow> ('e call_error + 'a) \<times> nl_request list" where
  "parsed_by p r =
     ((case fst r of Inl e \<Rightarrow> Inl e | Inr ms \<Rightarrow> (case p ms of Inl e \<Rightarrow> Inl (Answer e) | Inr x \<Rightarrow> Inr x)), snd r)"

section \<open>What is asked\<close>

definition on_interface :: "netlink \<Rightarrow> int \<Rightarrow> attr list" where
  "on_interface N i = [(attr_ifindex, put_u32 N (word_of_int i))]"

definition interfaces :: "netlink \<Rightarrow> 'e client_conn \<Rightarrow> ('e call_error + interface list) \<times> nl_request list" where
  "interfaces N C = parsed_by (parse_interfaces N) (dump C cmd_get_interface None)"

definition stations :: "netlink \<Rightarrow> 'e client_conn \<Rightarrow> int \<Rightarrow> ('e call_error + station_info list) \<times> nl_request list" where
  "stations N C i = parsed_by (parse_stations N) (dump C cmd_get_station (Some (on_interface N i)))"

definition survey :: "netlink \<Rightarrow> 'e client_conn \<Rightarrow> int \<Rightarrow> ('e call_error + survey_entry list) \<times> nl_request list" where
  "survey N C i = parsed_by (parse_surveys N) (dump C cmd_get_survey (Some (on_interface N i)))"

definition wiphys :: "netlink \<Rightarrow> 'e client_conn \<Rightarrow> ('e call_error + wiphy list) \<times> nl_request list" where
  "wiphys N C = parsed_by (parse_wiphys N) (dump C cmd_get_wiphy (Some [(attr_split_wiphy_dump, [])]))"

definition reg_domain_of :: "netlink \<Rightarrow> 'e client_conn \<Rightarrow> ('e call_error + string) \<times> nl_request list" where
  "reg_domain_of N C = parsed_by (parse_reg_domain N) (exchange C (request_of C cmd_get_reg [] False))"

text \<open>A kernel that does not know the dump is asked for the global domain alone.\<close>

definition reg_domains :: "netlink \<Rightarrow> 'e client_conn \<Rightarrow> ('e call_error + reg_domain list) \<times> nl_request list" where
  "reg_domains N C =
     (let (r, sent) = exchange C (request_of C cmd_get_reg [] True)
      in parsed_by (parse_reg_domains N)
           (case r of
              Inr ms \<Rightarrow> (Inr ms, sent)
            | Inl _ \<Rightarrow> (let (r2, sent2) = exchange C (request_of C cmd_get_reg [] False) in (r2, sent @ sent2))))"

section \<open>What the kernel is told\<close>

lemma dial_closes: "fst (dial opened family) = Inl Unavailable \<longleftrightarrow> snd (dial opened family) = 0"
  by (simp add: dial_def split: option.split)

lemma length_to_le [simp]: "length (to_le k n) = k"
  by (induction k arbitrary: n) simp_all

lemma from_le_to_le: "0 \<le> n \<Longrightarrow> n < 256 ^ k \<Longrightarrow> from_le (to_le k n) = n"
proof (induction k arbitrary: n)
  case (Suc k)
  have "n div 256 < 256 ^ k" using Suc.prems(2) by (simp add: div_less_iff_less_mult mult.commute)
  moreover have "uint (word_of_int n :: 8 word) = n mod 256" by (simp add: uint_word_of_int)
  ultimately show ?case using Suc.IH[of "n div 256"] Suc.prems(1) by (simp add: pos_imp_zdiv_nonneg_iff)
qed simp

text \<open>The interface a request names is the one it was made for: what the kernel reads is what was put.\<close>

lemma u32_put [simp]: "u32 N (put_u32 N w) = w"
proof -
  have "from_le (to_le 4 (uint w)) = uint w"
    using uint_lt2p[of w] by (intro from_le_to_le) simp_all
  then show ?thesis by (simp add: u32_def put_u32_def native_def)
qed

lemma on_interface_named:
  "on_interface N i = [(t, v)] \<Longrightarrow> t = attr_ifindex \<and> int_of_u32 N (u32 N v) = int_of_u32 N (word_of_int i)"
  by (auto simp: on_interface_def)

lemma sent_dump: "set (snd (dump C cmd attrs)) \<subseteq> {q. rq_command q = cmd \<and> rq_dump q \<and> rq_family q = cn_family C}"
  by (auto simp: dump_def exchange_def request_of_def split: option.split sum.split)

lemma sent_parsed [simp]: "snd (parsed_by p r) = snd r"
  by (simp add: parsed_by_def)

text \<open>Whatever the daemon looks at, it only ever sends the kernel these five questions, never more than two at a time.\<close>

datatype nl_call = AskInterfaces | AskStations int | AskSurvey int | AskRegDomain | AskWiphys | AskRegDomains

fun sent_by :: "netlink \<Rightarrow> 'e client_conn \<Rightarrow> nl_call \<Rightarrow> nl_request list" where
  "sent_by N C AskInterfaces = snd (interfaces N C)"
| "sent_by N C (AskStations i) = snd (stations N C i)"
| "sent_by N C (AskSurvey i) = snd (survey N C i)"
| "sent_by N C AskRegDomain = snd (reg_domain_of N C)"
| "sent_by N C AskWiphys = snd (wiphys N C)"
| "sent_by N C AskRegDomains = snd (reg_domains N C)"

lemma dump_sent: "length (snd (dump C cmd attrs)) \<le> 2 \<and> rq_command ` set (snd (dump C cmd attrs)) \<subseteq> {cmd}"
  by (auto simp: dump_def exchange_def request_of_def split: option.split sum.split)

theorem only_questions:
  "length (sent_by N C call) \<le> 2 \<and>
   set (map rq_command (sent_by N C call)) \<subseteq> {cmd_get_wiphy, cmd_get_interface, cmd_get_station, cmd_get_reg, cmd_get_survey}"
proof (cases call)
  case AskRegDomains
  then show ?thesis by (auto simp: reg_domains_def exchange_def request_of_def split: sum.split)
next
  case AskRegDomain
  then show ?thesis by (simp add: reg_domain_of_def exchange_def request_of_def)
next
  case AskInterfaces
  then show ?thesis using dump_sent[of C cmd_get_interface None] by (auto simp: interfaces_def)
next
  case (AskStations i)
  then show ?thesis using dump_sent[of C cmd_get_station "Some (on_interface N i)"] by (auto simp: stations_def)
next
  case (AskSurvey i)
  then show ?thesis using dump_sent[of C cmd_get_survey "Some (on_interface N i)"] by (auto simp: survey_def)
next
  case AskWiphys
  then show ?thesis using dump_sent[of C cmd_get_wiphy "Some [(attr_split_wiphy_dump, [])]"] by (auto simp: wiphys_def)
qed

text \<open>A kernel without the dump answers \<open>RegDomains\<close> as its plain question is answered.\<close>

lemma reg_domains_fallback:
  assumes "cn_execute C (request_of C cmd_get_reg [] True) = Inl e"
    and "cn_execute C (request_of C cmd_get_reg [] False) = Inr ms"
  shows "fst (reg_domains N C) = (case parse_reg_domains N ms of Inl e \<Rightarrow> Inl (Answer e) | Inr rs \<Rightarrow> Inr rs)"
  using assms by (simp add: reg_domains_def exchange_def parsed_by_def)

end
