(* ===== verification/SortedKeys.thy ===== *)
theory SortedKeys
  imports Config "HOL-Library.Multiset"
begin

text \<open>
  The order \<open>Update\<close> writes its options in, \<open>sortedKeys\<close> of \<open>internal/config/config.go\<close>: an insertion sort
  written out (the package saves the sort library), on keys that come from a map in any order. It is
  the library's sort, so \<open>Config.update\<close> is right to take its values by that.
\<close>

section \<open>The loops\<close>

definition swap_down :: "'a list \<Rightarrow> nat \<Rightarrow> 'a list" where
  "swap_down ks j = ks[Suc j := ks ! j, j := ks ! Suc j]"

text \<open>The inner loop from \<open>j\<close> down, and the outer one.\<close>

fun sift_down :: "nat \<Rightarrow> 'a :: linorder list \<Rightarrow> 'a list" where
  "sift_down 0 ks = ks"
| "sift_down (Suc j) ks = (if ks ! Suc j < ks ! j then sift_down j (swap_down ks j) else ks)"

definition sorted_keys :: "'a :: linorder list \<Rightarrow> 'a list" where
  "sorted_keys ks = fold sift_down [1..<length ks] ks"

section \<open>They sort\<close>

lemma length_sift [simp]: "length (sift_down j ks) = length ks"
  by (induction j arbitrary: ks) (simp_all add: swap_down_def)

lemma swap_down_parts:
  assumes "Suc j < length ks"
  shows "take j (swap_down ks j) = take j ks" and "swap_down ks j ! j = ks ! Suc j"
    and "drop (Suc j) (swap_down ks j) = ks ! j # drop (Suc (Suc j)) ks"
  using assms by (simp_all add: swap_down_def list_eq_iff_nth_eq nth_list_update nth_Cons split: nat.split)

lemma insort_snoc: "x < y \<Longrightarrow> insort x (xs @ [y]) = insort x xs @ [y]"
  by (induction xs) auto

lemma insort_last:
  fixes x :: "'a :: linorder"
  assumes "sorted (ys @ [x])"
  shows "insort x ys = ys @ [x]"
proof -
  have "sort (x # ys) = ys @ [x]" by (rule properties_for_sort) (use assms in simp_all)
  then show ?thesis using assms by (simp add: sorted_append sorted_sort_id)
qed

lemma sift_down_insort:
  "j < length ks \<Longrightarrow> sorted (take j ks) \<Longrightarrow> sift_down j ks = insort (ks ! j) (take j ks) @ drop (Suc j) ks"
proof (induction j arbitrary: ks)
  case 0
  then show ?case by (cases ks) simp_all
next
  case (Suc j)
  let ?x = "ks ! Suc j" and ?y = "ks ! j"
  have take: "take (Suc j) ks = take j ks @ [?y]" using Suc.prems(1) by (simp add: take_Suc_conv_app_nth)
  show ?case
  proof (cases "?x < ?y")
    case True
    note parts = swap_down_parts[OF Suc.prems(1)]
    have "sift_down j (swap_down ks j) = insort ?x (take j ks) @ ?y # drop (Suc (Suc j)) ks"
      using Suc.IH[of "swap_down ks j"] Suc.prems take parts by (simp add: swap_down_def sorted_append)
    then show ?thesis using True by (simp add: take insort_snoc)
  next
    case False
    have "sorted (take (Suc j) ks @ [?x])"
      using Suc.prems(2) False unfolding take by (force simp: sorted_append)
    from insort_last[OF this] show ?thesis
      using False Suc.prems(1) by (simp add: Cons_nth_drop_Suc)
  qed
qed

text \<open>After the outer loop has come to \<open>n\<close>, the first \<open>n\<close> keys are sorted and the rest are as they were.\<close>

lemma outer_loop:
  "1 \<le> n \<Longrightarrow> n \<le> length ks \<Longrightarrow> fold sift_down [1..<n] ks = sort (take n ks) @ drop n ks"
proof (induction n)
  case (Suc n)
  show ?case
  proof (cases "n = 0")
    case True
    then show ?thesis using Suc.prems by (cases ks) simp_all
  next
    case False
    let ?m = "sort (take n ks) @ drop n ks"
    have l: "length (sort (take n ks)) = n" using Suc.prems by simp
    have "fold sift_down [1..<Suc n] ks = sift_down n ?m"
      using Suc False by simp
    also have "\<dots> = insort (?m ! n) (take n ?m) @ drop (Suc n) ?m"
      by (rule sift_down_insort) (use Suc.prems l in simp_all)
    also have "\<dots> = insort (ks ! n) (sort (take n ks)) @ drop (Suc n) ks"
      using Suc.prems l by (simp add: nth_append)
    also have "insort (ks ! n) (sort (take n ks)) = sort (take (Suc n) ks)"
    proof -
      have "sort (ks ! n # take n ks) = sort (take (Suc n) ks)"
        by (rule properties_for_sort) (use Suc.prems in \<open>simp_all add: take_Suc_conv_app_nth\<close>)
      then show ?thesis by simp
    qed
    finally show ?thesis .
  qed
qed simp

theorem sorted_keys_sort: "sorted_keys ks = sort ks"
proof (cases ks)
  case Nil
  then show ?thesis by (simp add: sorted_keys_def)
next
  case (Cons k ks')
  then show ?thesis using outer_loop[of "length ks" ks] by (simp add: sorted_keys_def)
qed

text \<open>The options of an update, one by one in the order of their keys whatever order the map gives them in.\<close>

theorem update_order:
  assumes "distinct (map fst values)" and "set ks = fst ` set values" and "distinct ks"
  shows "map (\<lambda>k. (k, the (map_of values k))) (sorted_keys (ks :: string list)) = sort_key fst values"
proof -
  have "mset ks = mset (map fst values)"
    using assms set_eq_iff_mset_eq_distinct[of ks "map fst values"] by simp
  then have "sort ks = map fst (sort_key fst values)"
    by (intro properties_for_sort) simp_all
  moreover have "map (\<lambda>k. (k, the (map_of values k))) (map fst vs) = vs" if "set vs \<subseteq> set values" for vs
    using that assms(1) by (induction vs) auto
  ultimately show ?thesis by (simp add: sorted_keys_sort)
qed

end
