(* ===== verification/Spec2Isabelle.thy ===== *)
theory Spec2Isabelle
  imports Config GroupsUndo HealthProps Monitor Writers RadiosProps Push Session LedsProps Caps CollectProps HandlersProps
    InstallProps CommandsProps DaemonProps UpdateTarget Pushing AtomicWrite Settle SurfaceProps
    Wiring Nlclient SortedKeys
begin

text \<open>
  A verification development for perch-apd, the daemon a controller manages OpenWrt access points with
  (Go, under \<open>src/\<close>).

  The program. The daemon (\<open>cmd/perch-apd\<close>) keeps one session with its controller, samples the access
  point, and serves the controller's requests. Three parts of it write the device's configuration, and
  one lock keeps them apart:
    \<bullet> the device groups (\<open>internal/groups\<close>): the controller sends the groups and devices it wants, the
      engine plans the edits of \<open>/etc/config/network\<close> and \<open>/etc/config/wireless\<close>, writes them, and waits
      for the controller's confirm; without one it puts both files back;
    \<bullet> the Wi-Fi plane (\<open>internal/wifiplane\<close>): a kit (a module outside the repository) edits the Wi-Fi
      configuration; this package screens what the kit may touch, checks that the radios still run, and
      keeps a boot guard on the device;
    \<bullet> the updater (\<open>internal/update\<close>): a kit installs a new version of the daemon.
  The daemon's own configuration is \<open>/etc/config/perch-apd\<close> (\<open>internal/config\<close>), read and written with
  the UCI editor (\<open>internal/uci\<close>). The radios are read over nl80211 (\<open>internal/nl80211\<close>).

  The theories, in the order of their imports.
    \<bullet> \<open>Prelude\<close>: bytes and Go's string functions, decimal numbers, maps as association lists.
      \<open>GoText\<close>: Go's number, line and MAC parsing.
    \<bullet> \<open>Uci\<close>: \<open>internal/uci/uci.go\<close>. A file is its raw lines and the sections found in them; \<open>parse\<close>,
      \<open>get\<close>, \<open>set_option\<close>, \<open>delete_option\<close> and \<open>bytes_of\<close> are the package's functions. A file edited,
      written and read again holds what was set and nothing else has changed.
    \<bullet> \<open>Config\<close>: \<open>internal/config/config.go\<close>. The bounds of a loaded configuration, the round trip of a
      join's credentials, and what a line feed in a credential does. \<open>SortedKeys\<close>: its insertion sort is a sort.
    \<bullet> \<open>Applylock\<close>: \<open>internal/applylock/applylock.go\<close>. The lock is the table of the holds ever made and
      the position of the current one (a pointer of the source).
    \<bullet> \<open>UciKit\<close>: the configuration package the planner edits with is a module; it is the record \<open>kit\<close> of
      its operations, and \<open>kit_ok\<close> states what they promise (what a get returns after a set, which sections
      stay after a delete). \<open>plain_kit\<close>, a list of sections, keeps it; the witnesses compute with it.
    \<bullet> \<open>GroupsPlan\<close>: \<open>internal/groups/plan.go\<close>. \<open>GroupsPlanProps\<close>: the plan serves every group and device,
      leaves every section that is not its own, never writes a passphrase for any station, uses names it
      recognizes again. \<open>GroupsUndo\<close>: the undo of a plan's ledger restores what it was made from.
    \<bullet> \<open>GroupsTrunk\<close>: \<open>trunk.go\<close> and \<open>psk.go\<close>. The detected trunk port, and the passphrase guard.
    \<bullet> \<open>GroupsEngine\<close>: \<open>engine.go\<close>. The engine's operations on its state, the two files, the saved copies
      and the lock; the step relation \<open>gstep\<close> (an apply, a confirm, the timer, a restart, a crash, another
      writer's edit) with its reachable states and invariants.
    \<bullet> \<open>Health\<close>, \<open>HealthProps\<close>: \<open>health.go\<close>. The health check against a declarative reading of it.
      \<open>Monitor\<close>: \<open>monitor.go\<close>, its notifications debounced and not lost.
    \<bullet> \<open>Screen\<close>: \<open>screen.go\<close>, \<open>guard.go\<close> and the parts of \<open>wifiplane.go\<close> around them. \<open>PlaneService\<close>: the
      rest of \<open>wifiplane.go\<close>, what \<open>New\<close> makes of a block of the configuration and how the modes are served.
    \<bullet> \<open>Polling\<close>: a loop that looks at something until it ends, once for all of them. A deadline ends it
      within \<open>nat (limit div pause) + 2\<close> looks, the clock going on by the pause between two of them.
      \<open>Settle\<close>: the wait for netifd after a commit, in \<open>health.go\<close> (half a second between looks).
    \<bullet> \<open>Updates\<close>: \<open>internal/update/update.go\<close>, the updater's part in the lock. \<open>UpdateTarget\<close>: the rest of
      it, what the kit's updater is told of the daemon, and the wait for a new version's probation
      (a quarter of a second between looks), with \<open>internal/version\<close>.
    \<bullet> \<open>Writers\<close>: the composition. The state \<open>ap\<close> has the engine, the plane's and the updater's hold and
      the lock; \<open>run_daemon\<close> is the order in which \<open>main.go\<close> starts the writers, \<open>ap_step\<close> every operation
      of any of them, a restart and a crash. Their windows never overlap.
    \<bullet> \<open>AtomicWrite\<close>: the five functions that replace a file, \<open>WriteFile\<close> (\<open>internal/uci\<close>),
      \<open>writeFileAtomic\<close> and \<open>copyFile\<close> (\<open>internal/install\<close>), and \<open>writeAtomic\<close> (\<open>internal/groups\<close>,
      \<open>internal/wifiplane\<close>), as lists of system calls that may fail or be cut off: what is read
      afterwards is the old content or the new.
    \<bullet> \<open>Nl80211\<close>, \<open>Wiphy\<close>, \<open>WiphyProps\<close>: the parsers of the kernel's dumps; the netlink attribute decoder
      (a module) is the parameter \<open>nl_attrs\<close>. \<open>Nlclient\<close>: what the daemon asks the kernel, and that it
      only asks.
    \<bullet> \<open>Radios\<close>, \<open>RadiosProps\<close>: \<open>internal/wificaps/radios.go\<close> and \<open>hostapd.go\<close>, what each radio offers; the
      modes, generations and widths given agree with one another for every band the kernel can report.
      \<open>Uplink\<close>: \<open>mgmt.go\<close>, which radios carry the uplink, against the devices reachable from the route's.
      \<open>Caps\<close>: \<open>wificaps.go\<close> and \<open>trunk.go\<close>, the facts gathered from all of it.
    \<bullet> \<open>Wireless\<close>: \<open>internal/wireless\<close>, the interfaces and clients with netifd's cached status; where a
      client is.
    \<bullet> \<open>Prom\<close>: \<open>internal/prom\<close>, the text of a metrics push, with a reader of that text.
      \<open>Sysinfo\<close>: \<open>internal/sysinfo\<close>, the board, the addresses, shell variables.
      \<open>Collect\<close>, \<open>CollectProps\<close>: \<open>internal/collect\<close>, every collector and the registry; what is gathered
      can always be read back, and the Wi-Fi averages stay within what the stations report.
      \<open>Push\<close>: \<open>internal/agent/push.go\<close>, the JSON a push is sent as, read back byte for byte.
    \<bullet> \<open>Session\<close>: \<open>internal/agent\<close>, the rounds of the controller session as steps on its state: what a join
      or a session's end does to the identity, how long the loop waits and when it ends.
      \<open>Pushing\<close>: what a notification of the controller changes in a session, and what one push sends.
    \<bullet> \<open>Leds\<close>, \<open>LedsProps\<close>: \<open>internal/leds\<close>, the locator. It refines a timer that can be extended, and
      every LED gets its settings back, after a crash too.
    \<bullet> \<open>Handlers\<close>, \<open>HandlersProps\<close>: \<open>internal/handlers\<close>, the methods over the engine, the locator, the Wi-Fi
      and the board; what a kick does, and what any run of requests can change.
    \<bullet> \<open>Install\<close>, \<open>InstallProps\<close>: \<open>internal/install/install.go\<close>, the manual install, join and uninstall on
      the device's file tree. Credentials stay with their controller, an uninstall gives the tree back,
      and what an install writes is kept by a sysupgrade.
    \<bullet> \<open>Commands\<close>, \<open>CommandsProps\<close>: the command line of \<open>main.go\<close>, \<open>wifi.go\<close> and \<open>plane.go\<close> in
      \<open>cmd/perch-apd\<close>, its flags, the \<open>wifi\<close> and \<open>config-guard\<close> commands, and the stations of group VLANs.
    \<bullet> \<open>Daemon\<close>, \<open>DaemonProps\<close>: \<open>runDaemon\<close> with \<open>planeOptions\<close>, \<open>newWifiPlane\<close> and \<open>newUpdater\<close>. A
      configuration gives the list of steps the daemon starts with and the dependencies the handlers are
      given. The steps refine \<open>run_daemon\<close> of \<open>Writers\<close>; what the configuration forbids stays refused.
    \<bullet> \<open>Wiring\<close>: \<open>newDevice\<close>, the hooks of the Wi-Fi plane, what a session is dialed with. What the device says
      it can do is what its methods do, and what a read marks as the groups' an apply may not name.
    \<bullet> \<open>Surface\<close>, \<open>SurfaceProps\<close>: the method table (\<open>Register\<close> of \<open>internal/handlers\<close> and \<open>internal/update\<close>)
      over the running daemon. Any run of requests, timers and restarts is a run of \<open>ap_step\<close>, and a
      request of a writer whose turn it is not is refused in the name of the one whose turn it is.

  Conventions. A string is a list of characters, a character one byte. An error is a value of a
  datatype, an operation that may fail returns a sum. Go's maps are association lists or functions.
  A file's content is \<open>string option\<close>. Go's \<open>int\<close> has the width of the device (32 or 64 bits), which is
  an argument where a value can exceed 32 bits. Loops over lists and the
  bounded searches are structural recursion; the two loops that wait for the device are \<open>poll\<close> with the
  number of looks as fuel, and \<open>wait_probation_ends\<close> and \<open>settle_ends\<close> show that the number above is enough.

  Interfaces. \<open>write_lock\<close> (\<open>Applylock\<close>) is what the three writers rely on of the lock, \<open>option_store\<close> and
  \<open>option_list_store\<close> (\<open>Uci\<close>) what the configuration relies on of the editor, \<open>adding\<close> (\<open>GroupsPlanProps\<close>)
  what a property of a plan must keep for every loop of the planner to keep it, \<open>timed_wait\<close> (\<open>Polling\<close>)
  what a wait relies on of a look. Each is interpreted on the definitions of the code.

  Not modelled.
    \<bullet> The modules the daemon is built on: the session protocol, the Wi-Fi and update kits, the netlink and
      WebSocket libraries. They are arguments of the definitions that use them, with the documented
      behaviour the code relies on as named hypotheses; so is the decoding of a request's JSON, and
      everything an exchange with the controller or with ubus answers.
    \<bullet> Opening, binding and closing sockets and processes, signals and goroutines as such; an operation that
      another goroutine could interleave with is a step of a step relation.
    \<bullet> What is logged or printed, except where it is the result (an exit code, an error's identity).
    \<bullet> The umask, and what of a written file survives the loss of power.
    \<bullet> \<open>plane_noplane.go\<close>, the build without the plane (its functions return fixed refusals), and the options
      that only the tests set.
\<close>

end
